(* ===== verification/Prelude.thy ===== *)
theory Prelude
  imports Main "HOL-Library.Sublist" "HOL-Library.Multiset"
begin

text \<open>
  Generic material of the development: the fact collections, the types the models share
  (instants, durations, Go strings as lists of bytes) and the part of Go's
  \<open>strings\<close> package that the source uses.

  A Go string is a sequence of bytes, modelled as \<open>string\<close>; an instant is the number of
  nanoseconds since Go's zero \<open>time.Time\<close> (so \<open>t.IsZero()\<close> is \<open>t = 0\<close>) and a
  duration is a number of nanoseconds.
\<close>

named_theorems str_simps \<open>facts about the string routines of Go\<close>

type_synonym time = int
type_synonym duration = int

definition nanosecond :: duration where "nanosecond = 1"
definition second :: duration where "second = 1000000000"
definition minute :: duration where "minute = 60 * second"
definition hour :: duration where "hour = 60 * minute"

definition is_zero_time :: "time \<Rightarrow> bool" where
  "is_zero_time t \<longleftrightarrow> t = 0"

text \<open>\<open>time.Unix(0, 0)\<close>: 1970-01-01, counted from Go's zero time (0001-01-01).\<close>

definition unix_epoch :: time where
  "unix_epoch = 62135596800 * 1000000000"

lemma durations_pos [simp]: "0 < second" "0 < minute" "0 < hour" "0 < unix_epoch"
  by (simp_all add: second_def minute_def hour_def unix_epoch_def)

section \<open>The strings package\<close>

text \<open>\<open>strings.Split(s, sep)\<close> for a separator of one byte: never the empty list.\<close>

fun split_on :: "char \<Rightarrow> string \<Rightarrow> string list" where
  "split_on c [] = [[]]"
| "split_on c (x # xs) =
     (if x = c then [] # split_on c xs
      else (case split_on c xs of [] \<Rightarrow> [[x]] | y # ys \<Rightarrow> (x # y) # ys))"

fun join_with :: "string \<Rightarrow> string list \<Rightarrow> string" where
  "join_with sep [] = []"
| "join_with sep [x] = x"
| "join_with sep (x # y # xs) = x @ sep @ join_with sep (y # xs)"

text \<open>\<open>strings.TrimPrefix\<close>.\<close>

definition trim_prefix :: "string \<Rightarrow> string \<Rightarrow> string" where
  "trim_prefix p s = (if prefix p s then drop (length p) s else s)"

lemma split_on_not_Nil [simp]: "split_on c s \<noteq> []"
  by (induction s) (auto split: list.splits)

lemma split_on_Nil_iff [simp]: "[] = split_on c s \<longleftrightarrow> False"
  using split_on_not_Nil [of c s] by metis

lemma join_split [str_simps]: "join_with [c] (split_on c s) = s"
proof (induction s)
  case Nil
  then show ?case by simp
next
  case (Cons x xs)
  obtain y ys where sp: "split_on c xs = y # ys"
    using split_on_not_Nil [of c xs] by (cases "split_on c xs") auto
  show ?case
    using Cons sp by (cases ys) auto
qed

lemma split_on_no_sep: "c \<notin> set s \<Longrightarrow> split_on c s = [s]"
  by (induction s) auto

lemma split_on_append_sep: "c \<notin> set a \<Longrightarrow> split_on c (a @ c # b) = a # split_on c b"
  by (induction a) (auto split: list.splits)

lemma split_on_parts: "p \<in> set (split_on c s) \<Longrightarrow> c \<notin> set p"
proof (induction s arbitrary: p)
  case Nil
  then show ?case by simp
next
  case (Cons x xs)
  obtain y ys where sp: "split_on c xs = y # ys"
    using split_on_not_Nil [of c xs] by (cases "split_on c xs") auto
  from Cons.prems Cons.IH sp show ?case by (auto split: if_splits)
qed

lemma trim_prefix_append [simp]: "trim_prefix p (p @ s) = s"
  by (simp add: trim_prefix_def)

lemma trim_prefix_id: "\<not> prefix p s \<Longrightarrow> trim_prefix p s = s"
  by (simp add: trim_prefix_def)

section \<open>Lists and multisets\<close>

lemma filter_length_mono: "(\<And>x. x \<in> set xs \<Longrightarrow> P x \<Longrightarrow> Q x) \<Longrightarrow> length (filter P xs) \<le> length (filter Q xs)"
  by (induction xs) (auto intro: le_SucI)

lemma sum_list_update_eq:
  "i < length xs \<Longrightarrow> sum_list (xs[i := y]) + xs ! i = sum_list (xs :: nat list) + y"
  by (induction xs arbitrary: i) (auto split: nat.splits)

lemma sum_list_bounded: "(\<And>x. x \<in> set xs \<Longrightarrow> x \<le> (n::nat)) \<Longrightarrow> sum_list xs \<le> length xs * n"
proof (induction xs)
  case (Cons a xs)
  then have "a \<le> n" "sum_list xs \<le> length xs * n" by auto
  then show ?case by simp
qed simp

section \<open>Decimal numerals\<close>

text \<open>\<open>strconv.Itoa\<close> and the verb \<open>%d\<close>.\<close>

definition digit_char :: "nat \<Rightarrow> char" where
  "digit_char d = char_of (48 + d)"

fun itoa_nat :: "nat \<Rightarrow> string" where
  "itoa_nat n = (if n < 10 then [digit_char n] else itoa_nat (n div 10) @ [digit_char (n mod 10)])"

declare itoa_nat.simps [simp del]

definition itoa :: "int \<Rightarrow> string" where
  "itoa i = (if i < 0 then ''-'' @ itoa_nat (nat (- i)) else itoa_nat (nat i))"

definition char_digit :: "char \<Rightarrow> nat" where
  "char_digit c = of_char c - 48"

fun atoi_nat :: "string \<Rightarrow> nat \<Rightarrow> nat" where
  "atoi_nat [] acc = acc"
| "atoi_nat (c # cs) acc = atoi_nat cs (10 * acc + char_digit c)"

lemma char_digit_digit_char [simp]: "d < 10 \<Longrightarrow> char_digit (digit_char d) = d"
  by (simp add: char_digit_def digit_char_def)

lemma atoi_nat_append: "atoi_nat (xs @ ys) acc = atoi_nat ys (atoi_nat xs acc)"
  by (induction xs arbitrary: acc) auto

lemma atoi_itoa_nat [simp]: "atoi_nat (itoa_nat n) 0 = n"
proof (induction n rule: itoa_nat.induct)
  case (1 n)
  then show ?case
    by (subst itoa_nat.simps) (simp add: atoi_nat_append)
qed

lemma itoa_nat_inj: "itoa_nat m = itoa_nat n \<longleftrightarrow> m = n"
  by (metis atoi_itoa_nat)

lemma itoa_nat_ne [simp]: "itoa_nat n \<noteq> []"
  by (subst itoa_nat.simps) simp

lemma digit_char_simps [simp]:
  "digit_char 0 = CHR ''0''" "digit_char (Suc 0) = CHR ''1''" "digit_char 1 = CHR ''1''"
  "digit_char 2 = CHR ''2''" "digit_char 3 = CHR ''3''" "digit_char 4 = CHR ''4''"
  "digit_char 5 = CHR ''5''" "digit_char 6 = CHR ''6''" "digit_char 7 = CHR ''7''"
  "digit_char 8 = CHR ''8''" "digit_char 9 = CHR ''9''"
  by code_simp+

lemma itoa_nat_digits: "c \<in> set (itoa_nat n) \<Longrightarrow> \<exists>d < 10. c = digit_char d"
proof (induction n rule: itoa_nat.induct)
  case (1 n)
  show ?case
  proof (cases "n < 10")
    case True
    with 1 show ?thesis by (subst (asm) itoa_nat.simps) auto
  next
    case False
    with 1 show ?thesis
      by (subst (asm) itoa_nat.simps) (auto intro: exI [of _ "n mod 10"])
  qed
qed

lemma digit_char_ne_dollar: "d < 10 \<Longrightarrow> digit_char d \<noteq> CHR ''$''"
proof
  assume d: "d < 10" and eq: "digit_char d = CHR ''$''"
  have "of_char (digit_char d) = 48 + d" using d by (simp add: digit_char_def)
  moreover have "of_char (digit_char d) = (36::nat)" using eq by simp
  ultimately show False by simp
qed

lemma itoa_nat_no_dollar: "CHR ''$'' \<notin> set (itoa_nat n)"
  using itoa_nat_digits digit_char_ne_dollar by metis

lemma digit_char_ne_colon: "d < 10 \<Longrightarrow> digit_char d \<noteq> CHR '':''"
proof
  assume d: "d < 10" and eq: "digit_char d = CHR '':''"
  have "of_char (digit_char d) = 48 + d" using d by (simp add: digit_char_def)
  moreover have "of_char (digit_char d) = (58::nat)" using eq by simp
  ultimately show False using d by simp
qed

lemma itoa_nat_no_colon: "CHR '':'' \<notin> set (itoa_nat n)"
  using itoa_nat_digits digit_char_ne_colon by metis

end
