(* ===== verification/SessionContext.thy ===== *)
theory SessionContext
  imports Prelude
begin

text \<open>
  \<open>internal/sessioncontext/context.go\<close>: the browser credential contexts. A context label is a
  prefix of the opaque credential; \<open>Of\<close> reads the label and \<open>Bind\<close> writes it. The request
  context is modelled by the selection it carries (\<open>None\<close>: nothing selected).
\<close>

datatype scope = App | Admin

definition adminPrefix :: string where
  "adminPrefix = ''ga-admin.''"

type_synonym scope_ctx = "scope option"

definition With :: "scope_ctx \<Rightarrow> scope \<Rightarrow> scope_ctx" where
  "With ctx s = Some s"

definition Current :: "scope_ctx \<Rightarrow> scope" where
  "Current ctx = (case ctx of Some s \<Rightarrow> s | None \<Rightarrow> App)"

definition Explicit :: "scope_ctx \<Rightarrow> bool" where
  "Explicit ctx \<longleftrightarrow> ctx \<noteq> None"

definition Of :: "string \<Rightarrow> scope" where
  "Of v = (if prefix adminPrefix v then Admin else App)"

definition Bind :: "scope \<Rightarrow> string \<Rightarrow> string" where
  "Bind s v =
     (if s = Admin then adminPrefix @ v
      else if prefix adminPrefix v then ''ga-app.'' @ v
      else v)"

definition Matches :: "scope_ctx \<Rightarrow> string \<Rightarrow> bool" where
  "Matches ctx v \<longleftrightarrow> \<not> Explicit ctx \<or> Current ctx = Of v"

lemma Current_With [simp]: "Current (With ctx s) = s"
  by (simp add: Current_def With_def)

lemma Explicit_With [simp]: "Explicit (With ctx s)"
  by (simp add: Explicit_def With_def)

lemma Current_Some [simp]: "Current (Some s) = s"
  by (simp add: Current_def)

lemma Matches_None [simp]: "Matches None v"
  by (simp add: Matches_def Explicit_def)

lemma Of_Bind [simp]: "Of (Bind s v) = s"
  by (cases s) (auto simp: Of_def Bind_def adminPrefix_def)

lemma Bind_Admin_inj: "Bind Admin v = Bind Admin w \<longleftrightarrow> v = w"
  by (simp add: Bind_def)

lemma Bind_scope_disjoint: "s \<noteq> t \<Longrightarrow> Bind s v \<noteq> Bind t w"
  by (metis Of_Bind)

end
