(* ===== verification/RateLimit.thy ===== *)
theory RateLimit
  imports Prelude "HOL-Library.AList" "HOL-Library.Word"
begin

unbundle bit_operations_syntax

text \<open>
  \<open>ratelimit/memory.go\<close> and the decision types of \<open>ratelimit/config.go\<close>: the sharded, bounded,
  fixed-window counter store. A shard's Go map is an association list with distinct keys. Go
  randomises the order of \<open>range\<close> over a map, so every operation that iterates takes that order
  as an argument: a function \<open>ord\<close> that permutes the entries (law \<open>map_order\<close>). Each operation
  holds the shard's mutex for its whole body, so one operation is one step; the instants it
  reads are arguments and need not be ordered. The at-capacity log line is not modelled.
\<close>

section \<open>Rates, results, buckets\<close>

record rate =
  Requests :: int
  Window :: duration

record result =
  Allowed :: bool
  Remaining :: int
  ResetAt :: time

record bucket =
  b_count :: int
  b_limit :: int
  b_resetAt :: time

type_synonym shard = "(string \<times> bucket) list"
type_synonym map_iter = "shard \<Rightarrow> shard"

record memoryStore =
  shards :: "shard list"
  perShard :: nat
  capacity :: nat
  evictions :: nat
  expired :: nat

record stats =
  st_Entries :: nat
  st_Capacity :: nat
  st_Evictions :: nat
  st_Expired :: nat

definition shardCount :: nat where "shardCount = 32"
definition evictionSampleK :: nat where "evictionSampleK = 8"
definition defaultMaxEntries :: int where "defaultMaxEntries = 100000"

definition map_order :: "map_iter \<Rightarrow> bool" where
  "map_order ord \<longleftrightarrow> (\<forall>sh. mset (ord sh) = mset sh)"

section \<open>FNV-1a shard selection\<close>

fun fnv1a :: "32 word \<Rightarrow> string \<Rightarrow> 32 word" where
  "fnv1a h [] = h"
| "fnv1a h (c # cs) = fnv1a ((h XOR word_of_nat (of_char c)) * 16777619) cs"

definition shardIndex :: "string \<Rightarrow> nat" where
  "shardIndex key = unat (fnv1a 2166136261 key) mod shardCount"

lemma shardIndex_less [simp]: "shardIndex key < shardCount"
  by (simp add: shardIndex_def shardCount_def)

section \<open>Construction\<close>

text \<open>\<open>maxEntries\<close> is the configured target; a target of zero or less disables the cap. A positive
  target is divided by the shard count, with a floor of one counter per shard.\<close>

definition NewMemoryStore :: "int \<Rightarrow> memoryStore" where
  "NewMemoryStore maxEntries =
     (let per = (if 0 < maxEntries then max 1 (nat maxEntries div shardCount) else 0)
      in \<lparr>shards = replicate shardCount [], perShard = per,
          capacity = (if 0 < maxEntries then per * shardCount else 0),
          evictions = 0, expired = 0\<rparr>)"

definition Stats :: "memoryStore \<Rightarrow> stats" where
  "Stats s = \<lparr>st_Entries = sum_list (map length (shards s)), st_Capacity = capacity s,
              st_Evictions = evictions s, st_Expired = expired s\<rparr>"

section \<open>Eviction\<close>

definition headroom :: "bucket \<Rightarrow> int" where
  "headroom b = max 0 (b_limit b - b_count b)"

text \<open>
  The loop of \<open>evict\<close> over the sampled entries. \<open>victim = ''''\<close> is the source's own "no victim
  yet"; the result is the key of an expired entry met on the way (it wins at once) and the
  victim chosen so far.
\<close>

fun evict_loop :: "shard \<Rightarrow> time \<Rightarrow> string \<Rightarrow> int \<Rightarrow> time \<Rightarrow> nat \<Rightarrow> string option \<times> string" where
  "evict_loop [] now victim bestH bestR seen = (None, victim)"
| "evict_loop ((k, b) # rest) now victim bestH bestR seen =
     (if b_resetAt b < now then (Some k, victim)
      else
        let h = headroom b;
            better = (victim = '''' \<or> bestH < h \<or> (h = bestH \<and> b_resetAt b < bestR));
            victim' = (if better then k else victim);
            bestH' = (if better then h else bestH);
            bestR' = (if better then b_resetAt b else bestR)
        in if evictionSampleK \<le> Suc seen then (None, victim')
           else evict_loop rest now victim' bestH' bestR' (Suc seen))"

text \<open>\<open>evict\<close>: the shard without the dropped entry, and how many live and expired entries went.\<close>

definition evict :: "map_iter \<Rightarrow> shard \<Rightarrow> time \<Rightarrow> shard \<times> nat \<times> nat" where
  "evict ord sh now =
     (case evict_loop (ord sh) now '''' (-1) 0 0 of
        (Some k, _) \<Rightarrow> (AList.delete k sh, 0, 1)
      | (None, victim) \<Rightarrow>
          if victim \<noteq> '''' then (AList.delete victim sh, 1, 0) else (sh, 0, 0))"

section \<open>Allow and sweep\<close>

definition allow_shard ::
  "map_iter \<Rightarrow> nat \<Rightarrow> time \<Rightarrow> string \<Rightarrow> rate \<Rightarrow> shard \<Rightarrow> shard \<times> bucket \<times> nat \<times> nat" where
  "allow_shard ord per now key rate sh =
     (let found = map_of sh key;
          fresh = (case found of None \<Rightarrow> True | Some b \<Rightarrow> b_resetAt b < now);
          (sh1, ev, ex) = (if fresh \<and> found = None \<and> 0 < per \<and> per \<le> length sh
                           then evict ord sh now else (sh, 0, 0));
          b0 = (if fresh then \<lparr>b_count = 0, b_limit = 0, b_resetAt = now + Window rate\<rparr>
                else the found);
          b1 = b0\<lparr>b_count := b_count b0 + 1, b_limit := Requests rate\<rparr>
      in (AList.update key b1 sh1, b1, ev, ex))"

definition Allow :: "map_iter \<Rightarrow> time \<Rightarrow> string \<Rightarrow> rate \<Rightarrow> memoryStore \<Rightarrow> result \<times> memoryStore" where
  "Allow ord now key rate s =
     (let i = shardIndex key;
          (sh, b, ev, ex) = allow_shard ord (perShard s) now key rate (shards s ! i)
      in (\<lparr>Allowed = (b_count b \<le> Requests rate), Remaining = max 0 (Requests rate - b_count b),
           ResetAt = b_resetAt b\<rparr>,
          s\<lparr>shards := (shards s)[i := sh], evictions := evictions s + ev, expired := expired s + ex\<rparr>))"

text \<open>\<open>sweep\<close> drops the expired counters one shard at a time, releasing each shard's lock before
  it takes the next: other operations may run between two shards, so a round is a fold of
  single-shard steps.\<close>

definition sweep_shard :: "time \<Rightarrow> shard \<Rightarrow> shard" where
  "sweep_shard now sh = filter (\<lambda>(k, b). \<not> b_resetAt b < now) sh"

definition sweep_at :: "time \<Rightarrow> memoryStore \<Rightarrow> nat \<Rightarrow> memoryStore" where
  "sweep_at now s i =
     (let sh = shards s ! i; sh' = sweep_shard now sh
      in s\<lparr>shards := (shards s)[i := sh'], expired := expired s + (length sh - length sh')\<rparr>)"

definition sweep :: "time \<Rightarrow> memoryStore \<Rightarrow> memoryStore" where
  "sweep now s = foldl (sweep_at now) s [0..<shardCount]"

text \<open>The life of a store: calls of \<open>Allow\<close> and single-shard steps of the cleanup goroutine.\<close>

datatype rl_op = AllowOp map_iter time string rate | SweepShardOp nat time

fun rl_step :: "memoryStore \<Rightarrow> rl_op \<Rightarrow> memoryStore" where
  "rl_step s (AllowOp ord now key rate) = snd (Allow ord now key rate s)"
| "rl_step s (SweepShardOp i now) = sweep_at now s (i mod shardCount)"

definition rl_run :: "memoryStore \<Rightarrow> rl_op list \<Rightarrow> memoryStore" where
  "rl_run s ops = foldl rl_step s ops"

section \<open>Eviction: what is dropped\<close>

lemma map_order_set [simp]: "map_order ord \<Longrightarrow> set (ord sh) = set sh"
  unfolding map_order_def by (metis mset_eq_setD)

lemma map_order_length [simp]: "map_order ord \<Longrightarrow> length (ord sh) = length sh"
  unfolding map_order_def by (metis mset_eq_length)

lemma map_order_Nil [simp]: "map_order ord \<Longrightarrow> ord sh = [] \<longleftrightarrow> sh = []"
  using map_order_length by (metis length_0_conv)

lemma evict_loop_expired:
  "evict_loop xs now v bh br n = (Some k, v') \<Longrightarrow> \<exists>b. (k, b) \<in> set xs \<and> b_resetAt b < now"
proof (induction xs arbitrary: v bh br n)
  case Nil
  then show ?case by simp
next
  case (Cons x xs)
  obtain k0 b0 where x: "x = (k0, b0)" by (cases x)
  from Cons.prems show ?case
    unfolding x by (auto simp: Let_def split: if_splits dest: Cons.IH)
qed

lemma evict_loop_victim_mem:
  "evict_loop xs now v bh br n = (r, v') \<Longrightarrow> v' = v \<or> v' \<in> fst ` set xs"
proof (induction xs arbitrary: v bh br n)
  case Nil
  then show ?case by simp
next
  case (Cons x xs)
  obtain k0 b0 where x: "x = (k0, b0)" by (cases x)
  from Cons.prems show ?case
    unfolding x by (auto simp: Let_def split: if_splits dest!: Cons.IH)
qed

lemma evict_loop_victim_ne:
  "'''' \<notin> fst ` set xs \<Longrightarrow> v \<noteq> '''' \<or> xs \<noteq> [] \<Longrightarrow> evict_loop xs now v bh br n \<noteq> (None, '''')"
proof (induction xs arbitrary: v bh br n)
  case Nil
  then show ?case by simp
next
  case (Cons x xs)
  obtain k0 b0 where x: "x = (k0, b0)" by (cases x)
  from Cons.prems have "k0 \<noteq> ''''" and ne: "'''' \<notin> fst ` set xs" by (auto simp: x)
  with Cons.prems show ?case
    unfolding x by (auto simp: Let_def Cons.IH [OF ne])
qed

text \<open>The sample: at most \<open>evictionSampleK\<close> entries in iteration order.\<close>

lemma evict_loop_best:
  assumes "evict_loop xs now v bh br n = (None, v')" and "'''' \<notin> fst ` set xs"
    and "n < evictionSampleK"
  shows "(\<forall>(k, b) \<in> set (take (evictionSampleK - n) xs). \<not> b_resetAt b < now) \<and>
    ((v' = v \<and> (v = '''' \<longrightarrow> xs = []) \<and>
        (\<forall>(k, b) \<in> set (take (evictionSampleK - n) xs). headroom b \<le> bh)) \<or>
     (\<exists>b. (v', b) \<in> set (take (evictionSampleK - n) xs) \<and> (v \<noteq> '''' \<longrightarrow> bh \<le> headroom b) \<and>
        (\<forall>(k, c) \<in> set (take (evictionSampleK - n) xs). headroom c \<le> headroom b)))"
  using assms
proof (induction xs now v bh br n rule: evict_loop.induct)
  case (1 now victim bestH bestR seen)
  then show ?case by simp
next
  case (2 k b rest now victim bestH bestR seen)
  define h where "h = headroom b"
  define better where "better \<longleftrightarrow> (victim = '''' \<or> bestH < h \<or> (h = bestH \<and> b_resetAt b < bestR))"
  define vv where "vv = (if better then k else victim)"
  define hh where "hh = (if better then h else bestH)"
  define rr where "rr = (if better then b_resetAt b else bestR)"
  have live: "\<not> b_resetAt b < now"
    using "2.prems"(1) by (auto split: if_splits)
  have kne: "k \<noteq> ''''" and restne: "'''' \<notin> fst ` set rest"
    using "2.prems"(2) by auto
  have vvne: "vv \<noteq> ''''"
    using kne by (auto simp: vv_def better_def)
  obtain m where m: "evictionSampleK - seen = Suc m"
    using "2.prems"(3) by (metis Suc_diff_Suc)
  have m': "evictionSampleK - Suc seen = m"
    using m by simp
  have hmax: "h \<le> hh" "victim \<noteq> '''' \<longrightarrow> bestH \<le> hh"
    by (auto simp: hh_def better_def)
  show ?case
  proof (cases "evictionSampleK \<le> Suc seen")
    case True
    then have "m = 0" using m by simp
    moreover have "v' = vv"
      using "2.prems"(1) live True by (simp add: Let_def h_def vv_def better_def)
    ultimately show ?thesis
      using live m hmax by (auto simp: vv_def hh_def h_def better_def)
  next
    case False
    have "evict_loop ((k, b) # rest) now victim bestH bestR seen = evict_loop rest now vv hh rr (Suc seen)"
      using live False by (simp add: Let_def h_def vv_def hh_def rr_def better_def)
    with "2.prems"(1) have rec: "evict_loop rest now vv hh rr (Suc seen) = (None, v')" by simp
    have ih: "(\<forall>(k, b) \<in> set (take m rest). \<not> b_resetAt b < now) \<and>
      ((v' = vv \<and> (vv = '''' \<longrightarrow> rest = []) \<and> (\<forall>(k, b) \<in> set (take m rest). headroom b \<le> hh)) \<or>
       (\<exists>b. (v', b) \<in> set (take m rest) \<and> (vv \<noteq> '''' \<longrightarrow> hh \<le> headroom b) \<and>
          (\<forall>(k, c) \<in> set (take m rest). headroom c \<le> headroom b)))"
      using "2.IH" [OF live h_def better_def vv_def hh_def rr_def False rec restne] False m' by simp
    show ?thesis
    proof (cases "\<exists>b. (v', b) \<in> set (take m rest) \<and> (vv \<noteq> '''' \<longrightarrow> hh \<le> headroom b) \<and>
          (\<forall>(k, c) \<in> set (take m rest). headroom c \<le> headroom b)")
      case True
      then obtain b' where b': "(v', b') \<in> set (take m rest)" "hh \<le> headroom b'"
        "\<forall>(k, c) \<in> set (take m rest). headroom c \<le> headroom b'" using vvne by auto
      then show ?thesis
        using ih live m hmax by (auto simp: h_def intro!: exI [of _ b'])
    next
      case False
      with ih have "v' = vv" "\<forall>(k, b) \<in> set (take m rest). headroom b \<le> hh" by auto
      then show ?thesis
        using ih live m hmax by (auto simp: vv_def hh_def h_def better_def split: if_splits)
    qed
  qed
qed

section \<open>The store invariant\<close>

definition shard_ok :: "nat \<Rightarrow> nat \<Rightarrow> shard \<Rightarrow> bool" where
  "shard_ok per i sh \<longleftrightarrow> distinct (map fst sh) \<and> (\<forall>k \<in> fst ` set sh. shardIndex k = i \<and> k \<noteq> '''')
     \<and> (0 < per \<longrightarrow> length sh \<le> per)"

definition store_ok :: "memoryStore \<Rightarrow> bool" where
  "store_ok s \<longleftrightarrow> length (shards s) = shardCount \<and>
     (\<forall>i < shardCount. shard_ok (perShard s) i (shards s ! i)) \<and>
     capacity s = perShard s * shardCount"

fun rl_op_ok :: "rl_op \<Rightarrow> bool" where
  "rl_op_ok (AllowOp ord now key rate) \<longleftrightarrow> map_order ord \<and> key \<noteq> ''''"
| "rl_op_ok (SweepShardOp i now) \<longleftrightarrow> True"

lemma length_delete: "distinct (map fst sh) \<Longrightarrow> k \<in> fst ` set sh \<Longrightarrow> Suc (length (AList.delete k sh)) = length sh"
proof (induction sh)
  case (Cons x xs)
  show ?case
  proof (cases "fst x = k")
    case True
    then have "k \<notin> fst ` set xs" using Cons.prems by auto
    then have "AList.delete k xs = xs" by simp
    with True show ?thesis by (cases x) (simp add: AList.delete_eq)
  next
    case False
    with Cons show ?thesis by (auto simp: AList.delete_eq)
  qed
qed simp

lemma length_update_new: "k \<notin> fst ` set sh \<Longrightarrow> length (AList.update k v sh) = Suc (length sh)"
  by (induction sh) auto

lemma length_update_old: "k \<in> fst ` set sh \<Longrightarrow> length (AList.update k v sh) = length sh"
  by (induction sh) auto

lemma shard_ok_delete: "shard_ok per i sh \<Longrightarrow> shard_ok per i (AList.delete k sh)"
  by (auto simp: shard_ok_def distinct_delete AList.delete_eq
      intro: distinct_map_filter le_trans [OF length_filter_le])

text \<open>A full shard really gives up one entry, whatever the iteration order.\<close>

lemma evict_frees:
  assumes ok: "shard_ok per i sh" and ord: "map_order ord" and ne: "sh \<noteq> []"
    and ev: "evict ord sh now = (sh', ev, ex)"
  shows "\<exists>k \<in> fst ` set sh. sh' = AList.delete k sh \<and> ev + ex = 1"
proof (cases "evict_loop (ord sh) now '''' (-1) 0 0")
  case (Pair r v)
  have keys: "'''' \<notin> fst ` set (ord sh)"
    using ok ord by (auto simp: shard_ok_def)
  show ?thesis
  proof (cases r)
    case (Some k)
    with Pair have "\<exists>b. (k, b) \<in> set (ord sh)"
      using evict_loop_expired by blast
    then have "k \<in> fst ` set sh" using ord by force
    with ev Pair Some show ?thesis by (auto simp: evict_def)
  next
    case None
    have "v \<noteq> ''''"
      using evict_loop_victim_ne [OF keys] ne ord Pair None by (metis map_order_Nil)
    moreover from this have "v \<in> fst ` set sh"
      using evict_loop_victim_mem [OF Pair] ord by auto
    ultimately show ?thesis
      using ev Pair None by (auto simp: evict_def)
  qed
qed

lemma allow_shard_ok:
  assumes ok: "shard_ok per i sh" and ord: "map_order ord" and key: "key \<noteq> ''''" "shardIndex key = i"
    and al: "allow_shard ord per now key rate sh = (sh', b, ev, ex)"
  shows "shard_ok per i sh'"
proof -
  have upd: "shard_ok per i (AList.update key v sh1)"
    if "shard_ok per i sh1" "0 < per \<longrightarrow> length (AList.update key v sh1) \<le> per" for sh1 :: shard and v
    using that key by (auto simp: shard_ok_def distinct_update dom_update)
  show ?thesis
  proof (cases "map_of sh key = None \<and> 0 < per \<and> per \<le> length sh")
    case True
    then have new: "key \<notin> fst ` set sh" by (simp add: map_of_eq_None_iff)
    have ne: "sh \<noteq> []" using True by auto
    obtain sh1 e x where evict: "evict ord sh now = (sh1, e, x)" by (metis prod_cases3)
    from evict_frees [OF ok ord ne evict] obtain k where
      k: "k \<in> fst ` set sh" "sh1 = AList.delete k sh" by auto
    have "Suc (length sh1) = length sh"
      using k ok by (simp add: length_delete shard_ok_def)
    moreover have "length (AList.update key v sh1) = Suc (length sh1)" for v
    proof -
      have "key \<notin> fst ` set sh1" using new k by (auto simp: AList.delete_eq)
      then show ?thesis by (simp add: length_update_new)
    qed
    moreover have "sh' = AList.update key b sh1"
      using al True evict by (auto simp: allow_shard_def Let_def)
    moreover have "length sh \<le> per" using ok True by (simp add: shard_ok_def)
    moreover have "shard_ok per i sh1" using k shard_ok_delete [OF ok] by simp
    ultimately show ?thesis using upd by simp
  next
    case False
    then have "sh' = AList.update key b sh"
      using al by (auto simp: allow_shard_def Let_def split: option.splits if_splits)
    moreover have "0 < per \<longrightarrow> length (AList.update key b sh) \<le> per"
    proof (cases "key \<in> fst ` set sh")
      case True
      with ok show ?thesis by (simp add: length_update_old shard_ok_def)
    next
      case kn: False
      then have "map_of sh key = None" by (simp add: map_of_eq_None_iff)
      with False kn show ?thesis by (auto simp: length_update_new)
    qed
    ultimately show ?thesis using ok upd by simp
  qed
qed

lemma Allow_ok:
  assumes "store_ok s" "map_order ord" "key \<noteq> ''''"
  shows "store_ok (snd (Allow ord now key rate s))"
proof -
  obtain sh b ev ex where al:
    "allow_shard ord (perShard s) now key rate (shards s ! shardIndex key) = (sh, b, ev, ex)"
    by (metis prod_cases4)
  have "shard_ok (perShard s) (shardIndex key) sh"
    using allow_shard_ok [OF _ assms(2,3) refl al] assms(1) by (simp add: store_ok_def)
  with assms(1) al show ?thesis
    by (auto simp: Allow_def Let_def store_ok_def nth_list_update)
qed

lemma sweep_shard_ok: "shard_ok per i sh \<Longrightarrow> shard_ok per i (sweep_shard now sh)"
  by (auto simp: shard_ok_def sweep_shard_def intro: distinct_map_filter le_trans [OF length_filter_le])

lemma sweep_at_ok: "store_ok s \<Longrightarrow> i < shardCount \<Longrightarrow> store_ok (sweep_at now s i)"
  by (auto simp: store_ok_def sweep_at_def Let_def nth_list_update sweep_shard_ok)

lemma rl_step_ok: "store_ok s \<Longrightarrow> rl_op_ok op \<Longrightarrow> store_ok (rl_step s op)"
  by (cases op) (auto intro: Allow_ok sweep_at_ok simp: shardCount_def)

lemma rl_run_ok: "store_ok s \<Longrightarrow> list_all rl_op_ok ops \<Longrightarrow> store_ok (rl_run s ops)"
  unfolding rl_run_def by (induction ops arbitrary: s) (auto intro: rl_step_ok)

lemma NewMemoryStore_ok: "store_ok (NewMemoryStore n)"
  by (auto simp: NewMemoryStore_def Let_def store_ok_def shard_ok_def shardCount_def)

lemma perShard_sweep_at [simp]: "perShard (sweep_at now s i) = perShard s"
  by (simp add: sweep_at_def Let_def)

lemma perShard_Allow [simp]: "perShard (snd (Allow ord now key rate s)) = perShard s"
  by (simp add: Allow_def Let_def split: prod.splits)

lemma rl_run_perShard [simp]: "perShard (rl_run s ops) = perShard s"
proof -
  have "perShard (rl_step s op) = perShard s" for s op by (cases op) auto
  then show ?thesis unfolding rl_run_def by (induction ops arbitrary: s) auto
qed

lemma store_ok_entries:
  assumes "store_ok s" and "0 < perShard s"
  shows "st_Entries (Stats s) \<le> st_Capacity (Stats s)"
proof -
  have "length sh \<le> perShard s" if "sh \<in> set (shards s)" for sh
    using that assms by (auto simp: store_ok_def shard_ok_def in_set_conv_nth)
  then have "sum_list (map length (shards s)) \<le> length (map length (shards s)) * perShard s"
    by (intro sum_list_bounded) auto
  with assms show ?thesis by (simp add: Stats_def store_ok_def mult.commute)
qed

section \<open>The fixed-window contract\<close>

text \<open>
  What a client of a store relies on: the counter of a key and the end of its window can be
  read (\<open>peek\<close>), a call inside the window counts and keeps the window, a call with no live
  counter starts one, other keys are untouched, and pruning at an instant inside the window
  keeps the counter.
\<close>

definition peek :: "memoryStore \<Rightarrow> string \<Rightarrow> (int \<times> time) option" where
  "peek s key = map_option (\<lambda>b. (b_count b, b_resetAt b)) (map_of (shards s ! shardIndex key) key)"

locale window_counter =
  fixes inv :: "'s \<Rightarrow> bool"
    and look :: "'s \<Rightarrow> string \<Rightarrow> (int \<times> time) option"
    and allow :: "time \<Rightarrow> string \<Rightarrow> rate \<Rightarrow> 's \<Rightarrow> result \<times> 's"
    and prune :: "nat \<Rightarrow> time \<Rightarrow> 's \<Rightarrow> 's"
  assumes allow_inv: "inv s \<Longrightarrow> inv (snd (allow now k rt s))"
    and prune_inv: "inv s \<Longrightarrow> inv (prune i now s)"
    and allow_live: "inv s \<Longrightarrow> look s k = Some (c, r) \<Longrightarrow> \<not> r < now \<Longrightarrow>
          look (snd (allow now k rt s)) k = Some (c + 1, r) \<and>
          Allowed (fst (allow now k rt s)) = (c + 1 \<le> Requests rt) \<and> ResetAt (fst (allow now k rt s)) = r"
    and allow_fresh: "inv s \<Longrightarrow> (case look s k of None \<Rightarrow> True | Some (c, r) \<Rightarrow> r < now) \<Longrightarrow>
          look (snd (allow now k rt s)) k = Some (1, now + Window rt) \<and>
          Allowed (fst (allow now k rt s)) = (1 \<le> Requests rt)"
    and allow_frame: "inv s \<Longrightarrow> k' \<noteq> k \<Longrightarrow> look (snd (allow now k rt s)) k' = look s k'"
    and prune_live: "inv s \<Longrightarrow> look s k = Some (c, r) \<Longrightarrow> \<not> r < now \<Longrightarrow> look (prune i now s) k = Some (c, r)"

datatype hit = Hit time string rate | Prune nat time

text \<open>The number of calls on a key that are allowed during a run of the store.\<close>

fun granted :: "(time \<Rightarrow> string \<Rightarrow> rate \<Rightarrow> 's \<Rightarrow> result \<times> 's) \<Rightarrow> (nat \<Rightarrow> time \<Rightarrow> 's \<Rightarrow> 's)
    \<Rightarrow> string \<Rightarrow> hit list \<Rightarrow> 's \<Rightarrow> nat" where
  "granted allow prune k [] s = 0"
| "granted allow prune k (Hit now k' rt # es) s =
     (let (r, s') = allow now k' rt s
      in (if k' = k \<and> Allowed r then 1 else 0) + granted allow prune k es s')"
| "granted allow prune k (Prune i now # es) s = granted allow prune k es (prune i now s)"

fun hits_on :: "string \<Rightarrow> hit list \<Rightarrow> nat" where
  "hits_on k [] = 0"
| "hits_on k (Hit now k' rt # es) = (if k' = k then 1 else 0) + hits_on k es"
| "hits_on k (Prune i now # es) = hits_on k es"

fun in_window :: "time \<Rightarrow> int \<Rightarrow> string \<Rightarrow> hit \<Rightarrow> bool" where
  "in_window r n k (Hit now k' rt) \<longleftrightarrow> \<not> r < now \<and> (k' = k \<longrightarrow> Requests rt = n)"
| "in_window r n k (Prune i now) \<longleftrightarrow> \<not> r < now"

context window_counter
begin

text \<open>Inside one window exactly the unused part of the budget is granted, whatever other keys do.\<close>

lemma window_quota:
  assumes "inv s" "look s k = Some (c, r)" "list_all (in_window r n k) es"
  shows "granted allow prune k es s = min (hits_on k es) (nat (n - c))"
  using assms
proof (induction es arbitrary: s c)
  case Nil
  then show ?case by simp
next
  case (Cons e es)
  show ?case
  proof (cases e)
    case (Hit now k' rt)
    obtain res s' where al: "allow now k' rt s = (res, s')" by (cases "allow now k' rt s")
    have inv': "inv s'" using allow_inv [OF Cons.prems(1), of now k' rt] al by simp
    have live: "\<not> r < now" and win: "list_all (in_window r n k) es"
      using Cons.prems(3) Hit by auto
    show ?thesis
    proof (cases "k' = k")
      case True
      with allow_live [OF Cons.prems(1,2) live, of rt] al Hit Cons.prems(3)
      have p: "look s' k = Some (c + 1, r)" "Allowed res = (c + 1 \<le> n)" by auto
      from Cons.IH [OF inv' p(1) win] p(2) True al Hit show ?thesis by auto
    next
      case False
      with allow_frame [OF Cons.prems(1), of k k' now rt] al Cons.prems(2)
      have "look s' k = Some (c, r)" by simp
      from Cons.IH [OF inv' this win] False al Hit show ?thesis by simp
    qed
  next
    case (Prune i now)
    with Cons.prems have "\<not> r < now" and win: "list_all (in_window r n k) es" by auto
    with prune_live [OF Cons.prems(1,2)] have "look (prune i now s) k = Some (c, r)" by simp
    from Cons.IH [OF prune_inv [OF Cons.prems(1)] this win] Prune show ?thesis by simp
  qed
qed

lemma first_hit_quota:
  assumes "inv s" "look s k = None" "list_all (in_window (now + Window rt) (Requests rt) k) es"
  shows "granted allow prune k (Hit now k rt # es) s =
    min (Suc (hits_on k es)) (nat (Requests rt))"
proof -
  obtain res s' where al: "allow now k rt s = (res, s')" by (cases "allow now k rt s")
  have f: "look s' k = Some (1, now + Window rt)" "Allowed res = (1 \<le> Requests rt)"
    using allow_fresh [OF assms(1), of now k rt] assms(2) al by auto
  have "inv s'" using allow_inv [OF assms(1), of now k rt] al by simp
  from window_quota [OF this f(1) assms(3)] f(2) al show ?thesis by auto
qed

end

definition unbounded_ok :: "memoryStore \<Rightarrow> bool" where
  "unbounded_ok s \<longleftrightarrow> length (shards s) = shardCount \<and> perShard s = 0"

lemma allow_shard_unbounded:
  "allow_shard ord 0 now key rate sh =
     (let b0 = (case map_of sh key of None \<Rightarrow> \<lparr>b_count = 0, b_limit = 0, b_resetAt = now + Window rate\<rparr>
                | Some b \<Rightarrow> if b_resetAt b < now
                            then \<lparr>b_count = 0, b_limit = 0, b_resetAt = now + Window rate\<rparr> else b);
          b1 = b0\<lparr>b_count := b_count b0 + 1, b_limit := Requests rate\<rparr>
      in (AList.update key b1 sh, b1, 0, 0))"
  by (auto simp: allow_shard_def Let_def split: option.splits)

lemma map_of_sweep_live:
  "map_of sh k = Some b \<Longrightarrow> \<not> b_resetAt b < now \<Longrightarrow> map_of (sweep_shard now sh) k = Some b"
  by (induction sh) (auto simp: sweep_shard_def split: if_splits)

interpretation mem: window_counter unbounded_ok peek "Allow ord" "\<lambda>i now s. sweep_at now s (i mod shardCount)"
proof (unfold_locales, goal_cases)
  case (1 s now k rt)
  then show ?case
    by (auto simp: unbounded_ok_def Allow_def Let_def split: prod.splits)
next
  case (2 s i now)
  then show ?case by (simp add: unbounded_ok_def sweep_at_def Let_def)
next
  case (3 s k c r now rt)
  then obtain b where "map_of (shards s ! shardIndex k) k = Some b" "c = b_count b" "r = b_resetAt b"
    by (auto simp: peek_def)
  with 3 show ?case
    by (simp add: Allow_def Let_def unbounded_ok_def peek_def allow_shard_unbounded update_conv')
next
  case (4 s k now rt)
  then show ?case
    by (auto simp: Allow_def Let_def unbounded_ok_def peek_def allow_shard_unbounded update_conv'
        split: option.splits)
next
  case (5 s k' k now rt)
  show ?case
  proof (cases "shardIndex k' = shardIndex k")
    case True
    with 5 show ?thesis
      by (simp add: Allow_def Let_def unbounded_ok_def peek_def allow_shard_unbounded update_conv')
  next
    case False
    with 5 show ?thesis
      by (simp add: Allow_def Let_def unbounded_ok_def peek_def allow_shard_unbounded)
  qed
next
  case (6 s k c r now i)
  then obtain b where b: "map_of (shards s ! shardIndex k) k = Some b" "c = b_count b" "r = b_resetAt b"
    by (auto simp: peek_def)
  have "map_of (shards (sweep_at now s (i mod shardCount)) ! shardIndex k) k = Some b"
    using 6 b by (cases "shardIndex k = i mod shardCount")
      (auto simp: sweep_at_def Let_def unbounded_ok_def map_of_sweep_live shardCount_def nth_list_update)
  with b show ?case by (simp add: peek_def)
qed

section \<open>Properties\<close>

text \<open>C32: however Allow calls and sweeps interleave, with any clock readings and any map iteration
  order, a capped store built by NewMemoryStore never holds more counters than the capacity it
  reports, and that capacity is at most the configured target rounded up to one per shard (keys
  are nonempty).\<close>

theorem memory_store_bounded:
  assumes "0 < n" and "list_all rl_op_ok ops"
  shows "st_Entries (Stats (rl_run (NewMemoryStore n) ops))
           \<le> st_Capacity (Stats (rl_run (NewMemoryStore n) ops)) \<and>
         st_Capacity (Stats (rl_run (NewMemoryStore n) ops)) \<le> max (nat n) shardCount"
proof -
  have ok: "store_ok (rl_run (NewMemoryStore n) ops)"
    using rl_run_ok [OF NewMemoryStore_ok assms(2)] .
  have per: "perShard (NewMemoryStore n) = max 1 (nat n div shardCount)"
    using assms(1) by (simp add: NewMemoryStore_def Let_def)
  have cap: "st_Capacity (Stats (rl_run (NewMemoryStore n) ops)) = max 1 (nat n div shardCount) * shardCount"
    using ok per by (simp add: Stats_def store_ok_def)
  have "nat n div shardCount * shardCount \<le> nat n" by (rule div_times_less_eq_dividend)
  moreover have "max 1 q * 32 \<le> max m 32" if "q * 32 \<le> m" for q m :: nat
    using that by (simp add: max_def)
  ultimately have "max 1 (nat n div shardCount) * shardCount \<le> max (nat n) shardCount"
    by (simp add: shardCount_def)
  moreover have "0 < perShard (rl_run (NewMemoryStore n) ops)" using per by simp
  ultimately show ?thesis
    using store_ok_entries [OF ok] cap by simp
qed

theorem memory_store_bounded_witness:
  "st_Entries (Stats (rl_run (NewMemoryStore 32)
       [AllowOp (\<lambda>x. x) 5 ''a'' \<lparr>Requests = 1, Window = 10\<rparr>, SweepShardOp 3 40])) \<le> max 32 shardCount"
proof -
  have "list_all rl_op_ok [AllowOp (\<lambda>x. x) 5 ''a'' \<lparr>Requests = 1, Window = 10\<rparr>, SweepShardOp 3 40]"
    by (simp add: map_order_def)
  from memory_store_bounded [OF _ this, of 32] show ?thesis by simp
qed

text \<open>When a full shard drops a live counter, that counter is among the sampled entries, no
  sampled entry was expired, and no sampled entry has more budget left than the victim: a
  counter closer to its limit is never preferred.\<close>

theorem evict_keeps_tightest:
  assumes ord: "map_order ord" and ne: "'''' \<notin> fst ` set sh" and ev: "evict ord sh now = (sh', 1, 0)"
  shows "\<exists>v b. (v, b) \<in> set (take evictionSampleK (ord sh)) \<and> sh' = AList.delete v sh \<and>
    (\<forall>(k, c) \<in> set (take evictionSampleK (ord sh)). \<not> b_resetAt c < now \<and> headroom c \<le> headroom b)"
proof -
  obtain r v where lp: "evict_loop (ord sh) now '''' (-1) 0 0 = (r, v)"
    by (cases "evict_loop (ord sh) now '''' (-1) 0 0")
  have r: "r = None" and v: "v \<noteq> ''''" and sh': "sh' = AList.delete v sh"
    using ev lp by (auto simp: evict_def split: option.splits if_splits)
  have keys: "'''' \<notin> fst ` set (ord sh)" using ord ne by simp
  from evict_loop_best [OF lp [unfolded r] keys] v
  obtain b where "(v, b) \<in> set (take evictionSampleK (ord sh))"
    "\<forall>(k, c) \<in> set (take evictionSampleK (ord sh)). headroom c \<le> headroom b"
    "\<forall>(k, c) \<in> set (take evictionSampleK (ord sh)). \<not> b_resetAt c < now"
    by (auto simp: evictionSampleK_def)
  with sh' show ?thesis by blast
qed

theorem evict_keeps_tightest_witness:
  "\<exists>v b. (v, b) \<in> set (take evictionSampleK [(''a'', \<lparr>b_count = 4, b_limit = 5, b_resetAt = 9\<rparr>),
        (''b'', \<lparr>b_count = 1, b_limit = 5, b_resetAt = 9\<rparr>)]) \<and>
      [(''a'', \<lparr>b_count = 4, b_limit = 5, b_resetAt = 9\<rparr>)] =
        AList.delete v [(''a'', \<lparr>b_count = 4, b_limit = 5, b_resetAt = 9\<rparr>),
        (''b'', \<lparr>b_count = 1, b_limit = 5, b_resetAt = 9\<rparr>)]"
proof -
  let ?sh = "[(''a'', \<lparr>b_count = 4, b_limit = 5, b_resetAt = 9\<rparr>),
      (''b'', \<lparr>b_count = 1, b_limit = 5, b_resetAt = 9\<rparr>)]"
  have ev: "evict (\<lambda>x. x) ?sh 3 = ([(''a'', \<lparr>b_count = 4, b_limit = 5, b_resetAt = 9\<rparr>)], 1, 0)"
    by (simp add: evict_def evictionSampleK_def headroom_def AList.delete_eq)
  have "map_order (\<lambda>x. x)" by (simp add: map_order_def)
  moreover have "'''' \<notin> fst ` set ?sh" by simp
  moreover note ev
  ultimately have "\<exists>v b. (v, b) \<in> set (take evictionSampleK ?sh) \<and>
      [(''a'', \<lparr>b_count = 4, b_limit = 5, b_resetAt = 9\<rparr>)] = AList.delete v ?sh \<and>
      (\<forall>(k, c) \<in> set (take evictionSampleK ?sh). \<not> b_resetAt c < 3 \<and> headroom c \<le> headroom b)"
    by (rule evict_keeps_tightest)
  then show ?thesis by blast
qed

text \<open>In a store without eviction, the first call on a key opens a window, and of that call and
  the later calls inside the window exactly the first \<open>Requests\<close> are allowed, whatever calls on
  other keys and sweeps run in between.\<close>

theorem fixed_window_quota:
  assumes "unbounded_ok s" and "peek s k = None"
    and "list_all (in_window (now + Window rt) (Requests rt) k) es"
  shows "granted (Allow ord) (\<lambda>i now s. sweep_at now s (i mod shardCount)) k (Hit now k rt # es) s
           = min (Suc (hits_on k es)) (nat (Requests rt))"
  using assms by (rule mem.first_hit_quota)

theorem fixed_window_quota_witness:
  "granted (Allow (\<lambda>x. x)) (\<lambda>i now s. sweep_at now s (i mod shardCount)) ''k''
     (Hit 0 ''k'' \<lparr>Requests = 2, Window = 10\<rparr> # [Hit 3 ''k'' \<lparr>Requests = 2, Window = 10\<rparr>,
        Hit 4 ''z'' \<lparr>Requests = 9, Window = 5\<rparr>, Prune 7 5, Hit 9 ''k'' \<lparr>Requests = 2, Window = 10\<rparr>])
     (NewMemoryStore 0) = 2"
proof -
  have "unbounded_ok (NewMemoryStore 0)" by (simp add: unbounded_ok_def NewMemoryStore_def)
  moreover have "peek (NewMemoryStore 0) ''k'' = None" by (simp add: peek_def NewMemoryStore_def)
  ultimately show ?thesis
    by (subst fixed_window_quota) simp_all
qed

text \<open>The bound needs nonempty keys. \<open>evict\<close> uses the empty string for "no victim yet", so a
  shard whose best victim is the counter of the empty key drops nothing and the insert after it
  exceeds the capacity: a store with room for one counter per shard ends up with two in one shard.\<close>

theorem empty_key_defeats_eviction:
  "length (fst (allow_shard (\<lambda>x. x) 1 1 ''a'' \<lparr>Requests = 3, Window = 10\<rparr>
     (fst (allow_shard (\<lambda>x. x) 1 0 '''' \<lparr>Requests = 3, Window = 10\<rparr> [])))) = 2"
  by (simp add: allow_shard_def Let_def evict_def evictionSampleK_def headroom_def)

end
