(* ===== verification/Errors.thy ===== *)
theory Errors
  imports Prelude
begin

text \<open>
  Go's error values as the source uses them, and the sentinel errors of \<open>domain/errors.go\<close>.
  \<open>AuthError\<close> carries a stable code and a message and matches by its code
  (\<open>AuthError.Is\<close>); \<open>RefreshTokenReused\<close> is \<open>port.ErrRefreshTokenReused\<close>, which has no
  \<open>Unwrap\<close>; \<open>Sentinel\<close> is a value of \<open>errors.New\<close> or of the database driver, matched by
  identity; \<open>Wrapf\<close> is \<open>fmt.Errorf\<close> with one \<open>%w\<close> per listed error, or \<open>errors.Join\<close>.
\<close>

named_theorems err_defs \<open>the sentinel errors\<close>

datatype go_err =
    AuthError (err_code: string) (err_message: string)
  | RefreshTokenReused string string
  | Sentinel string
  | Wrapf string "go_err list"

definition NewError :: "string \<Rightarrow> string \<Rightarrow> go_err" where
  "NewError code msg = AuthError code msg"

text \<open>\<open>AuthError.Is\<close> and the identity comparison \<open>errors.Is\<close> makes first.\<close>

fun err_match :: "go_err \<Rightarrow> go_err \<Rightarrow> bool" where
  "err_match (AuthError c m) (AuthError c' m') \<longleftrightarrow> c = c'"
| "err_match (Sentinel a) (Sentinel b) \<longleftrightarrow> a = b"
| "err_match _ _ \<longleftrightarrow> False"

fun errors_is :: "go_err \<Rightarrow> go_err \<Rightarrow> bool" where
  "errors_is (Wrapf msg es) t \<longleftrightarrow> err_match (Wrapf msg es) t \<or> list_ex (\<lambda>e. errors_is e t) es"
| "errors_is e t \<longleftrightarrow> err_match e t"

text \<open>\<open>errors.As\<close> for \<open>*AuthError\<close>: the first one in the tree, depth first.\<close>

fun as_auth :: "go_err \<Rightarrow> go_err option" and as_auths :: "go_err list \<Rightarrow> go_err option" where
  "as_auth (AuthError c m) = Some (AuthError c m)"
| "as_auth (RefreshTokenReused u s) = None"
| "as_auth (Sentinel n) = None"
| "as_auth (Wrapf msg es) = as_auths es"
| "as_auths [] = None"
| "as_auths (e # es) = (case as_auth e of Some a \<Rightarrow> Some a | None \<Rightarrow> as_auths es)"

definition ErrInternal where [err_defs]: "ErrInternal = NewError ''internal_error'' ''Internal server error''"
definition ErrPasswordWorkBusy where [err_defs]:
  "ErrPasswordWorkBusy = NewError ''password_work_busy'' ''Password processing is busy; try again later''"
definition ErrEmailNotConfigured where [err_defs]:
  "ErrEmailNotConfigured = NewError ''email_not_configured'' ''Email sender is not configured''"
definition ErrInvalidCredentials where [err_defs]:
  "ErrInvalidCredentials = NewError ''invalid_credentials'' ''Invalid email or password''"
definition ErrUserBanned where [err_defs]:
  "ErrUserBanned = NewError ''user_banned'' ''This account has been banned''"
definition ErrEmailNotVerified where [err_defs]:
  "ErrEmailNotVerified = NewError ''email_not_verified'' ''Please verify your email first''"
definition ErrWeakPassword where [err_defs]:
  "ErrWeakPassword = NewError ''weak_password'' ''Password must be at least 8 characters''"
definition ErrUserNotFound where [err_defs]:
  "ErrUserNotFound = NewError ''user_not_found'' ''User not found''"
definition ErrEmailAlreadyExists where [err_defs]:
  "ErrEmailAlreadyExists = NewError ''email_already_exists'' ''An account with this email already exists''"
definition ErrDeleteCodeInvalid where [err_defs]:
  "ErrDeleteCodeInvalid = NewError ''delete_code_invalid'' ''Invalid deletion code''"
definition ErrDeleteCodeExpired where [err_defs]:
  "ErrDeleteCodeExpired = NewError ''delete_code_expired'' ''Deletion code has expired''"
definition ErrDeleteCodeAlreadyUsed where [err_defs]:
  "ErrDeleteCodeAlreadyUsed = NewError ''delete_code_already_used'' ''Deletion code has already been used''"
definition ErrPasswordRequired where [err_defs]:
  "ErrPasswordRequired = NewError ''password_required'' ''Password is required to delete account''"
definition ErrCannotDeleteLastAdmin where [err_defs]:
  "ErrCannotDeleteLastAdmin = NewError ''last_admin'' ''Cannot delete the last usable admin''"
definition ErrForbidden where [err_defs]:
  "ErrForbidden = NewError ''forbidden'' ''You do not have permission''"
definition ErrMethodDisabled where [err_defs]:
  "ErrMethodDisabled = NewError ''method_disabled'' ''This authentication method is not available''"
definition ErrResetTokenExpired where [err_defs]:
  "ErrResetTokenExpired = NewError ''reset_token_expired'' ''Password reset token has expired''"
definition ErrResetTokenInvalid where [err_defs]:
  "ErrResetTokenInvalid = NewError ''reset_token_invalid'' ''Invalid password reset token''"
definition ErrResetTokenAlreadyUsed where [err_defs]:
  "ErrResetTokenAlreadyUsed = NewError ''reset_token_already_used'' ''Password reset token has already been used''"
definition ErrPasswordUpdateConflict where [err_defs]:
  "ErrPasswordUpdateConflict = NewError ''password_update_conflict'' ''Password changed concurrently; retry the operation''"
definition ErrPasswordAlreadySet where [err_defs]:
  "ErrPasswordAlreadySet = NewError ''already_set'' ''User already has a password''"
definition ErrInvalidSetPasswordCode where [err_defs]:
  "ErrInvalidSetPasswordCode = NewError ''invalid_code'' ''Invalid set password code''"
definition ErrSetPasswordCodeUsed where [err_defs]:
  "ErrSetPasswordCodeUsed = NewError ''code_used'' ''Set password code has already been used''"
definition ErrSessionNotFound where [err_defs]:
  "ErrSessionNotFound = NewError ''session_not_found'' ''Session not found''"
definition ErrSessionExpired where [err_defs]:
  "ErrSessionExpired = NewError ''session_expired'' ''Session has expired''"
definition ErrSessionRevoked where [err_defs]:
  "ErrSessionRevoked = NewError ''session_revoked'' ''Session has been revoked''"
definition ErrInvalidRefreshToken where [err_defs]:
  "ErrInvalidRefreshToken = NewError ''invalid_refresh_token'' ''Refresh token is invalid''"
definition ErrRefreshExpired where [err_defs]:
  "ErrRefreshExpired = NewError ''refresh_expired'' ''Refresh token has expired''"
definition ErrTokenAlreadyRotated where [err_defs]:
  "ErrTokenAlreadyRotated = NewError ''token_already_rotated''
     (''This refresh token has already been rotated '' @ [char_of (226::nat), char_of (128::nat), char_of (148::nat)]
      @ '' use the new one'')"
definition ErrMaxLifetimeExceeded where [err_defs]:
  "ErrMaxLifetimeExceeded = NewError ''max_lifetime_exceeded'' ''Session lifetime exceeded, please re-authenticate''"
definition ErrTwoFactorCodeInvalid where [err_defs]:
  "ErrTwoFactorCodeInvalid = NewError ''two_factor_code_invalid'' ''Invalid two-factor code''"
definition ErrTwoFactorRequired where [err_defs]:
  "ErrTwoFactorRequired = NewError ''two_factor_required'' ''Sign in again and complete two-factor authentication''"
definition ErrTwoFactorCodeExpired where [err_defs]:
  "ErrTwoFactorCodeExpired = NewError ''two_factor_code_expired'' ''Two-factor code has expired''"
definition ErrTwoFactorCodeAlreadyUsed where [err_defs]:
  "ErrTwoFactorCodeAlreadyUsed = NewError ''two_factor_code_already_used'' ''This two-factor code has already been used''"
definition ErrTwoFactorAlreadyEnforced where [err_defs]:
  "ErrTwoFactorAlreadyEnforced =
     NewError ''two_factor_already_enforced'' ''Two-factor authentication is required and cannot be changed''"
definition ErrTwoFactorPasswordRequired where [err_defs]:
  "ErrTwoFactorPasswordRequired =
     NewError ''two_factor_password_required'' ''Password is required to change two-factor settings''"
definition ErrOrgNotFound where [err_defs]:
  "ErrOrgNotFound = NewError ''org_not_found'' ''Organization not found''"
definition ErrOrgSlugExists where [err_defs]:
  "ErrOrgSlugExists = NewError ''org_slug_exists'' ''Organization slug already in use''"
definition ErrOrgSlugReserved where [err_defs]:
  "ErrOrgSlugReserved = NewError ''org_slug_reserved'' ''Organization slug is reserved''"
definition ErrOrgMemberNotFound where [err_defs]:
  "ErrOrgMemberNotFound = NewError ''org_member_not_found'' ''User is not a member of this organization''"
definition ErrOrgMemberExists where [err_defs]:
  "ErrOrgMemberExists = NewError ''org_member_exists'' ''User is already a member of this organization''"
definition ErrOrgMemberConflict where [err_defs]:
  "ErrOrgMemberConflict =
     NewError ''org_member_conflict'' ''Organization membership changed concurrently; retry the operation''"
definition ErrCannotRemoveLastOwner where [err_defs]:
  "ErrCannotRemoveLastOwner =
     NewError ''cannot_remove_last_owner'' ''Cannot remove or demote the last owner of an organization''"
definition ErrOrgLimitReached where [err_defs]:
  "ErrOrgLimitReached = NewError ''org_limit_reached'' ''Maximum organization limit reached for user''"
definition ErrOrgMemberLimitReached where [err_defs]:
  "ErrOrgMemberLimitReached = NewError ''org_member_limit_reached'' ''Organization member limit reached''"
definition ErrOrgForbidden where [err_defs]:
  "ErrOrgForbidden = NewError ''org_forbidden'' ''Insufficient organization permissions''"
definition ErrInvalidOrgRole where [err_defs]:
  "ErrInvalidOrgRole = NewError ''invalid_role'' ''Invalid organization role''"

definition ErrEmailChangeUnavailable where [err_defs]:
  "ErrEmailChangeUnavailable = NewError ''email_change_unavailable'' ''This email change is unavailable''"
definition ErrEmailChangeInvalid where [err_defs]:
  "ErrEmailChangeInvalid = NewError ''email_change_invalid'' ''Invalid email change request or confirmation codes''"
definition ErrEmailChangeExpired where [err_defs]:
  "ErrEmailChangeExpired = NewError ''email_change_expired'' ''Email change request has expired''"
definition ErrEmailChangeDisabled where [err_defs]:
  "ErrEmailChangeDisabled = NewError ''email_change_disabled'' ''Email changes are disabled''"
definition ErrEmailFailed where [err_defs]:
  "ErrEmailFailed = NewError ''email_failed'' ''Failed to send email''"
definition ErrInvalidSessionContext where [err_defs]:
  "ErrInvalidSessionContext = NewError ''invalid_session_context'' ''Invalid browser session context''"
definition ErrAppPermissionsDisabled where [err_defs]:
  "ErrAppPermissionsDisabled = NewError ''app_permissions_disabled'' ''Application permissions are disabled''"
definition ErrAppPermissionsNotInitialized where [err_defs]:
  "ErrAppPermissionsNotInitialized = NewError ''app_permissions_not_initialized'' ''Initialize application permissions first''"
definition ErrAppPermissionsInitialized where [err_defs]:
  "ErrAppPermissionsInitialized = NewError ''app_permissions_already_initialized'' ''Application permissions are already initialized''"
definition ErrInvalidPermissionKey where [err_defs]:
  "ErrInvalidPermissionKey = NewError ''invalid_permission_key'' ''Invalid permission key''"
definition ErrUnknownLibraryPermission where [err_defs]:
  "ErrUnknownLibraryPermission = NewError ''unknown_library_permission'' ''Unsupported library permission key''"
definition ErrAppPermissionNotFound where [err_defs]:
  "ErrAppPermissionNotFound = NewError ''permission_not_found'' ''Permission not found''"
definition ErrAppPermissionExists where [err_defs]:
  "ErrAppPermissionExists = NewError ''permission_exists'' ''Permission key already exists''"
definition ErrAppPermissionInUse where [err_defs]:
  "ErrAppPermissionInUse = NewError ''permission_in_use'' ''Remove role grants before deleting this permission''"
definition ErrAppRoleNotFound where [err_defs]:
  "ErrAppRoleNotFound = NewError ''role_not_found'' ''Role not found''"
definition ErrAppRoleExists where [err_defs]:
  "ErrAppRoleExists = NewError ''role_exists'' ''Role slug already exists''"
definition ErrAppRoleInUse where [err_defs]:
  "ErrAppRoleInUse = NewError ''role_in_use'' ''Role is assigned to accounts or configured as the default''"
definition ErrAppAuthorizationConflict where [err_defs]:
  "ErrAppAuthorizationConflict = NewError ''authorization_conflict'' ''Authorization changed concurrently; refresh and retry''"
definition ErrProtectedAppRole where [err_defs]:
  "ErrProtectedAppRole = NewError ''protected_role'' ''Built-in roles cannot be customized''"
definition ErrProtectedAppPermission where [err_defs]:
  "ErrProtectedAppPermission = NewError ''protected_permission'' ''Library definitions can only be installed or removed by built-in admin''"
definition ErrInvalidEmail where [err_defs]:
  "ErrInvalidEmail = NewError ''invalid_email'' ''Invalid email format''"
definition ErrInviteNotFound where [err_defs]:
  "ErrInviteNotFound = NewError ''invite_not_found'' ''Invite not found''"
definition ErrInviteExpired where [err_defs]:
  "ErrInviteExpired = NewError ''invite_expired'' ''This invite has expired''"
definition ErrInviteAlreadyUsed where [err_defs]:
  "ErrInviteAlreadyUsed = NewError ''invite_already_used'' ''This invite has already been used''"
definition ErrInviteRevoked where [err_defs]:
  "ErrInviteRevoked = NewError ''invite_revoked'' ''This invite has been revoked''"
definition ErrInviteAlreadyExists where [err_defs]:
  "ErrInviteAlreadyExists = NewError ''invite_already_exists'' ''A pending invite for this email already exists''"
definition ErrRateLimitExceeded where [err_defs]:
  "ErrRateLimitExceeded = NewError ''rate_limit_exceeded'' ''Too many requests, please try again later''"
definition ErrAccountAlreadyExists where [err_defs]:
  "ErrAccountAlreadyExists = NewError ''account_already_exists'' ''An account with this email already exists''"
definition ErrProviderNotFound where [err_defs]:
  "ErrProviderNotFound = NewError ''provider_not_found'' ''Unrecognized provider''"
definition ErrProviderAccountExists where [err_defs]:
  "ErrProviderAccountExists = NewError ''provider_already_linked'' ''This provider is already linked to another account''"
definition ErrProviderAccountNotFound where [err_defs]:
  "ErrProviderAccountNotFound = NewError ''provider_not_linked'' ''This provider is not linked to your account''"
definition ErrCannotUnlinkLastProvider where [err_defs]:
  "ErrCannotUnlinkLastProvider = NewError ''cannot_unlink_last_provider'' ''Cannot disconnect your last usable sign-in method''"
definition ErrNoActiveOrg where [err_defs]:
  "ErrNoActiveOrg = NewError ''no_active_org'' ''Select an active organization first''"
definition ErrOrgInviteExpired where [err_defs]:
  "ErrOrgInviteExpired = NewError ''org_invite_expired'' ''Organization invite link has expired''"
definition ErrOrgInviteEmailMismatch where [err_defs]:
  "ErrOrgInviteEmailMismatch = NewError ''org_invite_email_mismatch'' ''Authenticated email does not match invite recipient''"
definition ErrOrgMetadataTooLarge where [err_defs]:
  "ErrOrgMetadataTooLarge = NewError ''org_metadata_too_large'' ''Organization metadata exceeds 16KB limit''"
definition ErrInviteEmailFailed where [err_defs]:
  "ErrInviteEmailFailed = NewError ''email_failed'' ''Failed to send invite email''"
definition ErrVerificationEmailSent where [err_defs]:
  "ErrVerificationEmailSent = NewError ''email_not_found'' ''If an account exists, a verification email will be sent''"
definition ErrVerificationCodeInvalid where [err_defs]:
  "ErrVerificationCodeInvalid = NewError ''code_invalid'' ''Invalid verification code''"
definition ErrVerificationCodeUsed where [err_defs]:
  "ErrVerificationCodeUsed = NewError ''code_already_used'' ''This code has already been used''"
definition ErrVerificationCodeExpired where [err_defs]:
  "ErrVerificationCodeExpired = NewError ''code_expired'' ''Verification code has expired''"
definition ErrInviteIDsRequired where [err_defs]:
  "ErrInviteIDsRequired = NewError ''invalid_input'' ''inviteIds must not be empty''"
definition ErrNameRequired where [err_defs]:
  "ErrNameRequired = NewError ''name_required'' ''Name is required''"
definition ErrOAuthStateUsed where [err_defs]:
  "ErrOAuthStateUsed = NewError ''state_used'' ''OAuth state token already used''"
definition ErrOrgPermissionsDisabled where [err_defs]:
  "ErrOrgPermissionsDisabled = NewError ''org_permissions_disabled'' ''Organization permissions are disabled''"
definition ErrOrgPermissionsNotInitialized where [err_defs]:
  "ErrOrgPermissionsNotInitialized = NewError ''org_permissions_not_initialized'' ''Initialize organization permissions first''"
definition ErrOrgPermissionsInitialized where [err_defs]:
  "ErrOrgPermissionsInitialized = NewError ''org_permissions_already_initialized'' ''Organization permissions are already initialized''"
definition ErrOrgPermissionNotFound where [err_defs]:
  "ErrOrgPermissionNotFound = NewError ''org_permission_not_found'' ''Organization permission not found''"
definition ErrOrgPermissionExists where [err_defs]:
  "ErrOrgPermissionExists = NewError ''org_permission_exists'' ''Organization permission already exists''"
definition ErrOrgPermissionInUse where [err_defs]:
  "ErrOrgPermissionInUse = NewError ''org_permission_in_use'' ''Remove role grants before deleting this permission''"
definition ErrProtectedOrgPermission where [err_defs]:
  "ErrProtectedOrgPermission = NewError ''protected_org_permission'' ''Library definitions can only be installed or removed by an owner''"
definition ErrOrgRoleNotFound where [err_defs]:
  "ErrOrgRoleNotFound = NewError ''org_role_not_found'' ''Organization role not found''"
definition ErrOrgRoleExists where [err_defs]:
  "ErrOrgRoleExists = NewError ''org_role_exists'' ''Organization role already exists''"
definition ErrOrgRoleInUse where [err_defs]:
  "ErrOrgRoleInUse = NewError ''org_role_in_use'' ''Organization role is assigned to members or invitations''"
definition ErrProtectedOrgRole where [err_defs]:
  "ErrProtectedOrgRole = NewError ''protected_org_role'' ''Built-in organization roles cannot be changed''"
definition ErrOrgAuthorizationConflict where [err_defs]:
  "ErrOrgAuthorizationConflict = NewError ''org_authorization_conflict'' ''Organization authorization changed; refresh and retry''"

text \<open>Values of other packages the services compare with or return.\<close>

definition ErrDuplicateKey where [err_defs]: "ErrDuplicateKey = Sentinel ''port: duplicate key''"
definition ErrRecordBlocked where [err_defs]:
  "ErrRecordBlocked = Sentinel ''audit: durable record write failed (fail-closed)''"
definition ErrDatabase where [err_defs]: "ErrDatabase = Sentinel ''database error''"
definition ErrRandom where [err_defs]: "ErrRandom = Sentinel ''crypto/rand: read failed''"

lemma errors_is_refl_auth [simp]: "errors_is (NewError c m) (NewError c' m') \<longleftrightarrow> c = c'"
  by (simp add: NewError_def)

lemma errors_is_code: "errors_is (AuthError c m) t \<longleftrightarrow> err_match (AuthError c m) t"
  by simp

end
