(* ===== verification/PasswordPolicy.thy ===== *)
theory PasswordPolicy
  imports Errors
begin

text \<open>
  \<open>domain/password_policy.go\<close>: the checks applied to new passwords. A password is a byte string;
  \<open>utf8_decode\<close> is the decoding of \<open>unicode/utf8\<close> (\<open>None\<close>: not valid UTF-8), whose result gives
  both \<open>RuneCountInString\<close> and the runes a \<open>range\<close> loop visits. The category tables of package
  \<open>unicode\<close> are too large to copy and are the argument \<open>unicode_tables\<close>; \<open>ascii_tables\<close> is their
  restriction to ASCII. Go's \<open>int\<close> is modelled by \<open>int\<close>: no operation here grows a value.
\<close>

section \<open>UTF-8\<close>

definition cont :: "nat \<Rightarrow> bool" where "cont b \<longleftrightarrow> 128 \<le> b \<and> b \<le> 191"

text \<open>The accept ranges of \<open>utf8.DecodeRune\<close>: no overlong forms, no surrogates, at most U+10FFFF.\<close>

fun utf8_decode :: "nat list \<Rightarrow> nat list option" where
  "utf8_decode [] = Some []"
| "utf8_decode (a # rest) =
     (if a < 128 then map_option ((#) a) (utf8_decode rest)
      else if 194 \<le> a \<and> a \<le> 223 then
        (case rest of
           b # r1 \<Rightarrow> if cont b then map_option ((#) ((a - 192) * 64 + (b - 128))) (utf8_decode r1) else None
         | _ \<Rightarrow> None)
      else if 224 \<le> a \<and> a \<le> 239 then
        (case rest of
           b # c # r2 \<Rightarrow>
             if cont b \<and> cont c \<and> (a = 224 \<longrightarrow> 160 \<le> b) \<and> (a = 237 \<longrightarrow> b \<le> 159)
             then map_option ((#) ((a - 224) * 4096 + (b - 128) * 64 + (c - 128))) (utf8_decode r2)
             else None
         | _ \<Rightarrow> None)
      else if 240 \<le> a \<and> a \<le> 244 then
        (case rest of
           b # c # d # r3 \<Rightarrow>
             if cont b \<and> cont c \<and> cont d \<and> (a = 240 \<longrightarrow> 144 \<le> b) \<and> (a = 244 \<longrightarrow> b \<le> 143)
             then map_option ((#) ((a - 240) * 262144 + (b - 128) * 4096 + (c - 128) * 64 + (d - 128))) (utf8_decode r3)
             else None
         | _ \<Rightarrow> None)
      else None)"

definition runes :: "string \<Rightarrow> nat list option" where
  "runes s = utf8_decode (map of_char s)"

lemma utf8_decode_ascii: "(\<forall>b \<in> set bs. b < 128) \<Longrightarrow> utf8_decode bs = Some bs"
  by (induction bs) auto

section \<open>Policies\<close>

record policy =
  MinLength :: int
  MaxLength :: int
  RequireLetter :: bool
  RequireUppercase :: bool
  RequireDigit :: bool
  RequireSpecial :: bool

record unicode_tables =
  IsUpper :: "nat \<Rightarrow> bool"
  IsLower :: "nat \<Rightarrow> bool"
  IsLetter :: "nat \<Rightarrow> bool"
  IsDigit :: "nat \<Rightarrow> bool"
  IsPunct :: "nat \<Rightarrow> bool"
  IsSymbol :: "nat \<Rightarrow> bool"

definition zero_policy :: policy where
  "zero_policy = \<lparr>MinLength = 0, MaxLength = 0, RequireLetter = False, RequireUppercase = False,
                  RequireDigit = False, RequireSpecial = False\<rparr>"

definition WithDefaults :: "policy \<Rightarrow> policy" where
  "WithDefaults p =
     (let p1 = (if p = zero_policy then p\<lparr>RequireLetter := True, RequireDigit := True\<rparr> else p);
          p2 = (if MinLength p1 = 0 then p1\<lparr>MinLength := 8\<rparr> else p1);
          p3 = (if MaxLength p2 = 0 then p2\<lparr>MaxLength := 128\<rparr> else p2)
      in p3)"

definition required_classes :: "policy \<Rightarrow> int" where
  "required_classes p =
     (if RequireLetter p \<or> RequireUppercase p then 1 else 0) + (if RequireDigit p then 1 else 0) +
     (if RequireSpecial p then 1 else 0)"

definition ValidateConfig :: "policy \<Rightarrow> go_err option" where
  "ValidateConfig p0 =
     (let p = WithDefaults p0
      in if MinLength p < 1 \<or> MaxLength p < MinLength p
         then Some (Wrapf ''password policy requires 1 <= MinLength <= MaxLength'' [])
         else if MaxLength p < required_classes p
         then Some (Wrapf ''password policy MaxLength cannot fit the required character classes'' [])
         else None)"

text \<open>The class flags collected by the loop over the runes, in the order of the \<open>switch\<close>.\<close>

record class_flags =
  hasLetter :: bool
  hasUpper :: bool
  hasDigit :: bool
  hasSpecial :: bool

definition classify :: "unicode_tables \<Rightarrow> class_flags \<Rightarrow> nat \<Rightarrow> class_flags" where
  "classify U f ch =
     (if IsUpper U ch then f\<lparr>hasUpper := True, hasLetter := True\<rparr>
      else if IsLower U ch then f\<lparr>hasLetter := True\<rparr>
      else if IsLetter U ch then f\<lparr>hasLetter := True\<rparr>
      else if IsDigit U ch then f\<lparr>hasDigit := True\<rparr>
      else if IsPunct U ch \<or> IsSymbol U ch then f\<lparr>hasSpecial := True\<rparr>
      else f)"

definition scan_classes :: "unicode_tables \<Rightarrow> nat list \<Rightarrow> class_flags" where
  "scan_classes U rs =
     foldl (classify U) \<lparr>hasLetter = False, hasUpper = False, hasDigit = False, hasSpecial = False\<rparr> rs"

definition missing_classes :: "policy \<Rightarrow> class_flags \<Rightarrow> string list" where
  "missing_classes p f =
     (if RequireUppercase p \<and> \<not> hasUpper f then [''an uppercase letter''] else []) @
     (if RequireLetter p \<and> \<not> hasLetter f then [''a letter''] else []) @
     (if RequireDigit p \<and> \<not> hasDigit f then [''a digit''] else []) @
     (if RequireSpecial p \<and> \<not> hasSpecial f then [''a special character''] else [])"

definition Validate :: "unicode_tables \<Rightarrow> policy \<Rightarrow> string \<Rightarrow> go_err option" where
  "Validate U p0 password =
     (let p = WithDefaults p0
      in if ValidateConfig p \<noteq> None
         then Some (NewError ''weak_password'' ''Password policy has invalid length settings'')
         else case runes password of
           None \<Rightarrow> Some (NewError ''weak_password'' ''Password must be valid UTF-8'')
         | Some rs \<Rightarrow>
             if int (length rs) < MinLength p
             then Some (NewError ''weak_password''
                    (''Password must be at least '' @ itoa (MinLength p) @ '' characters''))
             else if MaxLength p < int (length rs)
             then Some (NewError ''weak_password''
                    (''Password must be no more than '' @ itoa (MaxLength p) @ '' characters''))
             else let missing = missing_classes p (scan_classes U rs)
                  in if missing \<noteq> []
                     then Some (NewError ''weak_password''
                            (''Password must be at least '' @ itoa (MinLength p) @ '' characters with '' @
                             join_with '', '' missing))
                     else None)"

section \<open>The classes a password shows\<close>

definition is_alpha :: "unicode_tables \<Rightarrow> nat \<Rightarrow> bool" where
  "is_alpha U ch \<longleftrightarrow> IsUpper U ch \<or> IsLower U ch \<or> IsLetter U ch"

lemma foldl_classify:
  "hasUpper (foldl (classify U) f rs) = (hasUpper f \<or> (\<exists>ch \<in> set rs. IsUpper U ch))"
  "hasLetter (foldl (classify U) f rs) = (hasLetter f \<or> (\<exists>ch \<in> set rs. is_alpha U ch))"
  "hasDigit (foldl (classify U) f rs) = (hasDigit f \<or> (\<exists>ch \<in> set rs. \<not> is_alpha U ch \<and> IsDigit U ch))"
  "hasSpecial (foldl (classify U) f rs) =
     (hasSpecial f \<or> (\<exists>ch \<in> set rs. \<not> is_alpha U ch \<and> \<not> IsDigit U ch \<and> (IsPunct U ch \<or> IsSymbol U ch)))"
  by (induction rs arbitrary: f) (auto simp: classify_def is_alpha_def)

lemma scan_classes_iff:
  "hasUpper (scan_classes U rs) \<longleftrightarrow> (\<exists>ch \<in> set rs. IsUpper U ch)"
  "hasLetter (scan_classes U rs) \<longleftrightarrow> (\<exists>ch \<in> set rs. is_alpha U ch)"
  "hasDigit (scan_classes U rs) \<longleftrightarrow> (\<exists>ch \<in> set rs. \<not> is_alpha U ch \<and> IsDigit U ch)"
  "hasSpecial (scan_classes U rs) \<longleftrightarrow>
     (\<exists>ch \<in> set rs. \<not> is_alpha U ch \<and> \<not> IsDigit U ch \<and> (IsPunct U ch \<or> IsSymbol U ch))"
  by (simp_all add: scan_classes_def foldl_classify)

lemma WithDefaults_idem [simp]: "WithDefaults (WithDefaults p) = WithDefaults p"
  by (cases p) (auto simp: WithDefaults_def Let_def zero_policy_def)

lemma ValidateConfig_WithDefaults [simp]: "ValidateConfig (WithDefaults p) = ValidateConfig p"
  by (simp add: ValidateConfig_def)

text \<open>What a policy demands of a password, independently of how it is checked.\<close>

definition meets_policy :: "unicode_tables \<Rightarrow> policy \<Rightarrow> nat list \<Rightarrow> bool" where
  "meets_policy U p rs \<longleftrightarrow>
     MinLength p \<le> int (length rs) \<and> int (length rs) \<le> MaxLength p \<and>
     (RequireUppercase p \<longrightarrow> (\<exists>ch \<in> set rs. IsUpper U ch)) \<and>
     (RequireLetter p \<longrightarrow> (\<exists>ch \<in> set rs. is_alpha U ch)) \<and>
     (RequireDigit p \<longrightarrow> (\<exists>ch \<in> set rs. \<not> is_alpha U ch \<and> IsDigit U ch)) \<and>
     (RequireSpecial p \<longrightarrow> (\<exists>ch \<in> set rs. \<not> is_alpha U ch \<and> \<not> IsDigit U ch \<and> (IsPunct U ch \<or> IsSymbol U ch)))"

lemma missing_classes_Nil:
  "missing_classes p (scan_classes U rs) = [] \<longleftrightarrow>
     (RequireUppercase p \<longrightarrow> (\<exists>ch \<in> set rs. IsUpper U ch)) \<and>
     (RequireLetter p \<longrightarrow> (\<exists>ch \<in> set rs. is_alpha U ch)) \<and>
     (RequireDigit p \<longrightarrow> (\<exists>ch \<in> set rs. \<not> is_alpha U ch \<and> IsDigit U ch)) \<and>
     (RequireSpecial p \<longrightarrow> (\<exists>ch \<in> set rs. \<not> is_alpha U ch \<and> \<not> IsDigit U ch \<and> (IsPunct U ch \<or> IsSymbol U ch)))"
  by (auto simp: missing_classes_def scan_classes_iff)

text \<open>The documented values of the tables for four ASCII characters.\<close>

definition ascii_sane :: "unicode_tables \<Rightarrow> bool" where
  "ascii_sane U \<longleftrightarrow> IsUpper U 65 \<and> \<not> is_alpha U 49 \<and> IsDigit U 49 \<and>
     \<not> is_alpha U 33 \<and> \<not> IsDigit U 33 \<and> IsPunct U 33"

definition ascii_tables :: unicode_tables where
  "ascii_tables = \<lparr>IsUpper = (\<lambda>c. 65 \<le> c \<and> c \<le> 90), IsLower = (\<lambda>c. 97 \<le> c \<and> c \<le> 122),
     IsLetter = (\<lambda>c. (65 \<le> c \<and> c \<le> 90) \<or> (97 \<le> c \<and> c \<le> 122)), IsDigit = (\<lambda>c. 48 \<le> c \<and> c \<le> 57),
     IsPunct = (\<lambda>c. c \<in> set [33, 34, 35, 37, 38, 39, 40, 41, 42, 44, 45, 46, 47, 58, 59, 63, 64, 91, 92, 93, 95, 123, 125]),
     IsSymbol = (\<lambda>c. c \<in> set [36, 43, 60, 61, 62, 94, 96, 124, 126])\<rparr>"

lemma ascii_sane_ascii: "ascii_sane ascii_tables"
  by (simp add: ascii_sane_def ascii_tables_def is_alpha_def)

section \<open>Properties\<close>

text \<open>C37: a password is accepted exactly when the policy's own settings are valid, the bytes are
  valid UTF-8, the number of code points is within the bounds and every required class occurs.\<close>

theorem Validate_iff:
  "Validate U p pw = None \<longleftrightarrow>
     ValidateConfig p = None \<and> (\<exists>rs. runes pw = Some rs \<and> meets_policy U (WithDefaults p) rs)"
  by (auto simp: Validate_def Let_def meets_policy_def missing_classes_Nil not_less split: option.splits)

text \<open>ValidateConfig accepts only satisfiable policies: whenever it reports no error, some
  password passes Validate.\<close>

theorem policy_feasible:
  assumes "ValidateConfig p = None" and U: "ascii_sane U"
  shows "\<exists>pw. Validate U p pw = None"
proof -
  define q where "q = WithDefaults p"
  define need :: "nat list" where "need = (if RequireLetter q \<or> RequireUppercase q then [65] else []) @
    (if RequireDigit q then [49] else []) @ (if RequireSpecial q then [33] else [])"
  define bs where "bs = need @ replicate (nat (MinLength q) - length need) 65"
  define pw :: string where "pw = map char_of bs"
  have len: "int (length need) = required_classes q"
    by (simp add: need_def required_classes_def)
  have cfg: "1 \<le> MinLength q" "MinLength q \<le> MaxLength q" "required_classes q \<le> MaxLength q"
    using assms(1) by (auto simp: ValidateConfig_def Let_def q_def not_less split: if_splits)
  have small: "\<forall>b \<in> set bs. b < 128" by (auto simp: bs_def need_def)
  have "map of_char pw = bs"
    using small unfolding pw_def map_map by (intro map_idI) (fastforce simp: of_char_of)
  then have "runes pw = Some bs"
    using small by (simp add: runes_def utf8_decode_ascii)
  moreover have "int (length bs) = max (MinLength q) (required_classes q)"
    using cfg len by (simp add: bs_def)
  then have "meets_policy U q bs"
    using cfg U by (auto simp: meets_policy_def bs_def need_def ascii_sane_def is_alpha_def)
  ultimately show ?thesis
    using assms(1) by (auto simp: Validate_iff q_def)
qed

theorem policy_feasible_witness:
  "ValidateConfig zero_policy = None \<and> (\<exists>pw. Validate ascii_tables zero_policy pw = None)"
proof -
  have cfg: "ValidateConfig zero_policy = None"
    by (simp add: ValidateConfig_def WithDefaults_def zero_policy_def required_classes_def)
  with policy_feasible [OF cfg ascii_sane_ascii] show ?thesis by simp
qed

end
