(* ===== verification/HasherRegistry.thy ===== *)
theory HasherRegistry
  imports Errors
begin

text \<open>
  \<open>hasher/registry/registry.go\<close> and \<open>hasher/work_limiter.go\<close>: the password hasher registry, which
  dispatches verification on the prefix of the stored hash, and the limiter on concurrent
  password work. A hasher (\<open>port.Hasher\<close>, code of other packages) is a record of its two
  functions; \<open>Hash\<close> draws a salt, so it takes a seed. \<open>bcrypt.Cost\<close> is an argument. The input
  limit is \<open>None\<close> for a hasher that does not implement \<open>PasswordInputLimiter\<close>.
\<close>

section \<open>The work limiter\<close>

record work_limiter =
  slots_used :: nat
  slots_cap :: nat

definition DefaultPasswordConcurrency :: int where "DefaultPasswordConcurrency = 4"

definition NewWorkLimiter :: "int \<Rightarrow> go_err + work_limiter" where
  "NewWorkLimiter maxConcurrent =
     (if maxConcurrent < 0 then Inl (Wrapf ''password concurrency must be nonnegative'' [])
      else Inr \<lparr>slots_used = 0,
                slots_cap = nat (if maxConcurrent = 0 then DefaultPasswordConcurrency else maxConcurrent)\<rparr>)"

definition Limit :: "work_limiter option \<Rightarrow> nat" where
  "Limit l = (case l of None \<Rightarrow> 0 | Some w \<Rightarrow> slots_cap w)"

text \<open>
  \<open>Do\<close> in two steps, since other goroutines run while the work does: acquiring sends to the
  buffered channel if there is room and refuses otherwise; releasing is the deferred receive,
  which runs on return and on panic.
\<close>

definition limiter_acquire :: "work_limiter \<Rightarrow> go_err + work_limiter" where
  "limiter_acquire l =
     (if slots_cap l = 0
      then Inl (Wrapf ''password work limiter must be constructed with NewWorkLimiter'' [])
      else if slots_used l < slots_cap l then Inr (l\<lparr>slots_used := Suc (slots_used l)\<rparr>)
      else Inl ErrPasswordWorkBusy)"

definition limiter_release :: "work_limiter \<Rightarrow> work_limiter" where
  "limiter_release l = l\<lparr>slots_used := slots_used l - 1\<rparr>"

text \<open>\<open>Do\<close> as one goroutine sees it: the result of the work, or the refusal.\<close>

definition limiter_Do :: "work_limiter \<Rightarrow> (go_err + 'a) \<Rightarrow> (go_err + 'a) \<times> work_limiter" where
  "limiter_Do l work =
     (case limiter_acquire l of
        Inl e \<Rightarrow> (Inl e, l)
      | Inr l1 \<Rightarrow> (work, limiter_release l1))"

text \<open>Goroutines sharing a limiter: those whose work is running hold a slot.\<close>

record limiter_sys =
  lim :: work_limiter
  running :: "nat list"

datatype lim_event = Start nat | Finish nat

fun lim_step :: "limiter_sys \<Rightarrow> lim_event \<Rightarrow> limiter_sys" where
  "lim_step s (Start g) =
     (case limiter_acquire (lim s) of
        Inl e \<Rightarrow> s
      | Inr l \<Rightarrow> s\<lparr>lim := l, running := g # running s\<rparr>)"
| "lim_step s (Finish g) =
     (if g \<in> set (running s)
      then s\<lparr>lim := limiter_release (lim s), running := remove1 g (running s)\<rparr>
      else s)"

definition lim_inv :: "limiter_sys \<Rightarrow> bool" where
  "lim_inv s \<longleftrightarrow> slots_used (lim s) = length (running s) \<and> slots_used (lim s) \<le> slots_cap (lim s)"

lemma lim_step_inv: "lim_inv s \<Longrightarrow> lim_inv (lim_step s e)"
  by (cases e) (auto simp: lim_inv_def limiter_acquire_def limiter_release_def length_remove1)

lemma lim_step_cap: "slots_cap (lim (lim_step s e)) = slots_cap (lim s)"
  by (cases e) (auto simp: limiter_acquire_def limiter_release_def split: sum.splits)

lemma lim_run_inv: "lim_inv s \<Longrightarrow> lim_inv (foldl lim_step s es)"
  by (induction es arbitrary: s) (auto intro: lim_step_inv)

lemma lim_run_cap: "slots_cap (lim (foldl lim_step s es)) = slots_cap (lim s)"
  by (induction es arbitrary: s) (auto simp: lim_step_cap)

lemma limiter_Do_restores: "slots_used (snd (limiter_Do l work)) = slots_used l"
  by (auto simp: limiter_Do_def limiter_acquire_def limiter_release_def)

section \<open>Hashers and hash formats\<close>

record hasher =
  h_Hash :: "nat \<Rightarrow> string \<Rightarrow> go_err + string"
  h_Compare :: "string \<Rightarrow> string \<Rightarrow> go_err option"
  h_MaxPasswordBytes :: "int option"

definition bcryptVerifyPrefixes :: "string list" where
  "bcryptVerifyPrefixes = [''$2a$'', ''$2b$'', ''$2x$'', ''$2y$'']"

definition isBcryptFormat :: "string \<Rightarrow> bool" where
  "isBcryptFormat hash \<longleftrightarrow> list_ex (\<lambda>p. prefix p hash) bcryptVerifyPrefixes"

text \<open>Up to and including the first separator (after a leading one): \<open>strings.IndexByte\<close> and slicing.\<close>

definition upto_sep :: "string \<Rightarrow> string option" where
  "upto_sep s = (if CHR ''$'' \<in> set s then Some (takeWhile (\<lambda>c. c \<noteq> CHR ''$'') s @ ''$'') else None)"

definition hashFormatPrefix :: "string \<Rightarrow> string" where
  "hashFormatPrefix hash =
     (case hash of
        [] \<Rightarrow> []
      | c # rest \<Rightarrow>
          if c = CHR ''$''
          then (case upto_sep rest of None \<Rightarrow> hash | Some p \<Rightarrow> c # p)
          else (case upto_sep hash of None \<Rightarrow> hash | Some p \<Rightarrow> p))"

definition hashParameterFingerprint :: "string \<Rightarrow> string" where
  "hashParameterFingerprint hash =
     (let parts = split_on (CHR ''$'') hash
      in if length parts < 4 then [] else join_with ''$'' (take (length parts - 2) parts))"

section \<open>The registry\<close>

record registry =
  current :: hasher
  forVerify :: "string \<rightharpoonup> hasher"
  currentPrefix :: string
  currentParameters :: string
  probe :: string
  currentIsBcrypt :: bool
  currentCost :: int

definition ErrUnsupportedHashFormat :: go_err where
  "ErrUnsupportedHashFormat = Sentinel ''hasher registry: unsupported password hash format''"

text \<open>Registering a legacy hasher: bcrypt entries fill only untaken prefixes, others overwrite.\<close>

fun add_prefixes :: "hasher \<Rightarrow> string list \<Rightarrow> (string \<rightharpoonup> hasher) \<Rightarrow> (string \<rightharpoonup> hasher)" where
  "add_prefixes h [] m = m"
| "add_prefixes h (p # ps) m = add_prefixes h ps (if m p = None then m(p \<mapsto> h) else m)"

fun put_prefixes :: "hasher \<Rightarrow> string list \<Rightarrow> (string \<rightharpoonup> hasher) \<Rightarrow> (string \<rightharpoonup> hasher)" where
  "put_prefixes h [] m = m"
| "put_prefixes h (p # ps) m = put_prefixes h ps (m(p \<mapsto> h))"

fun add_legacy :: "nat \<Rightarrow> string \<Rightarrow> hasher option list \<Rightarrow> (string \<rightharpoonup> hasher) \<Rightarrow> go_err + (string \<rightharpoonup> hasher)" where
  "add_legacy seed probeInput [] m = Inr m"
| "add_legacy seed probeInput (None # hs) m = add_legacy seed probeInput hs m"
| "add_legacy seed probeInput (Some h # hs) m =
     (case h_Hash h seed probeInput of
        Inl e \<Rightarrow> Inl (Wrapf ''hasher registry: legacy hasher failed to hash'' [e])
      | Inr legacyProbe \<Rightarrow>
          if isBcryptFormat legacyProbe
          then add_legacy (Suc seed) probeInput hs (add_prefixes h bcryptVerifyPrefixes m)
          else let legacyPrefix = hashFormatPrefix legacyProbe
               in if legacyPrefix = '''' \<or> legacyPrefix = legacyProbe
                  then Inl (Wrapf ''hasher registry: legacy hasher output has no identifying prefix'' [])
                  else add_legacy (Suc seed) probeInput hs (m(legacyPrefix \<mapsto> h)))"

definition probe_input :: "hasher \<Rightarrow> go_err + string" where
  "probe_input cur =
     (let probeInput = ''goauth-hasher-registry-probe''
      in case h_MaxPasswordBytes cur of
           None \<Rightarrow> Inr probeInput
         | Some limit \<Rightarrow>
             if limit < 0 then Inl (Wrapf ''hasher registry: MaxPasswordBytes must be nonnegative'' [])
             else if 0 < limit \<and> limit < int (length probeInput) then Inr (take (nat limit) probeInput)
             else Inr probeInput)"

definition newRegistry ::
  "(string \<Rightarrow> go_err + int) \<Rightarrow> hasher \<Rightarrow> nat \<Rightarrow> hasher option \<Rightarrow> hasher option list \<Rightarrow> go_err + registry" where
  "newRegistry bcryptCost argon seed cur legacy =
     (case cur of
        None \<Rightarrow> Inl (Wrapf ''hasher registry: current hasher is nil'' [])
      | Some c \<Rightarrow>
     (case probe_input c of
        Inl e \<Rightarrow> Inl e
      | Inr pin \<Rightarrow>
     (case h_Hash c seed pin of
        Inl e \<Rightarrow> Inl (Wrapf ''hasher registry: current hasher failed to hash'' [e])
      | Inr pr \<Rightarrow>
     (case h_Compare c pin pr of
        Some e \<Rightarrow> Inl (Wrapf ''hasher registry: current hasher cannot verify its own output'' [e])
      | None \<Rightarrow>
          let pfx = hashFormatPrefix pr;
              r = \<lparr>current = c, forVerify = [''$argon2id$'' \<mapsto> argon], currentPrefix = pfx,
                   currentParameters = hashParameterFingerprint pr, probe = pr,
                   currentIsBcrypt = False, currentCost = 0\<rparr>
          in if pfx = '''' \<or> pfx = pr
             then Inl (Wrapf ''hasher registry: current hasher output has no identifying prefix'' [])
             else if isBcryptFormat pfx
             then (case bcryptCost pr of
                     Inl e \<Rightarrow> Inl (Wrapf ''hasher registry: bcrypt hasher produced a hash with unparseable cost'' [e])
                   | Inr cost \<Rightarrow>
                       Inr (r\<lparr>currentIsBcrypt := True, currentCost := cost,
                              forVerify := put_prefixes c bcryptVerifyPrefixes (forVerify r)\<rparr>))
             else (case add_legacy (Suc seed) pin legacy (forVerify r) of
                     Inl e \<Rightarrow> Inl e
                   | Inr m \<Rightarrow>
                       if m ''$2a$'' = None
                       then Inl (Wrapf ''hasher registry: current hasher is not bcrypt and no bcrypt legacy hasher was provided'' [])
                       else Inr (r\<lparr>forVerify := m(pfx \<mapsto> c)\<rparr>))))))"

text \<open>\<open>Hash\<close>, \<open>Compare\<close>, \<open>BurnDummy\<close> and \<open>NeedsRehash\<close>. The limiter's state is threaded through.\<close>

definition reg_MaxPasswordBytes :: "registry \<Rightarrow> int" where
  "reg_MaxPasswordBytes r = (case h_MaxPasswordBytes (current r) of Some n \<Rightarrow> n | None \<Rightarrow> 0)"

definition reg_Hash :: "registry \<Rightarrow> work_limiter \<Rightarrow> nat \<Rightarrow> string \<Rightarrow> (go_err + string) \<times> work_limiter" where
  "reg_Hash r l seed password =
     (let limit = reg_MaxPasswordBytes r
      in if 0 < limit \<and> limit < int (length password)
         then (Inl (NewError ''weak_password''
                 (''Password exceeds the selected hasher's '' @ itoa limit @ ''-byte input limit'')), l)
         else limiter_Do l (h_Hash (current r) seed password))"

definition dispatch :: "registry \<Rightarrow> string \<Rightarrow> string \<Rightarrow> go_err option" where
  "dispatch r password stored =
     (case forVerify r (hashFormatPrefix stored) of
        None \<Rightarrow> Some ErrUnsupportedHashFormat
      | Some h \<Rightarrow> h_Compare h password stored)"

definition reg_Compare :: "registry \<Rightarrow> work_limiter \<Rightarrow> string \<Rightarrow> string \<Rightarrow> go_err option \<times> work_limiter" where
  "reg_Compare r l password stored =
     (case limiter_Do l (case dispatch r password stored of None \<Rightarrow> Inr () | Some e \<Rightarrow> Inl e) of
        (Inl e, l') \<Rightarrow> (Some e, l')
      | (Inr _, l') \<Rightarrow> (None, l'))"

definition DummyHash :: "registry \<Rightarrow> string" where
  "DummyHash r = probe r"

definition ErrMismatchedHashAndPassword :: go_err where
  "ErrMismatchedHashAndPassword = Sentinel ''bcrypt: hashedPassword is not the hash of the given password''"
definition ErrPasswordMismatch :: go_err where
  "ErrPasswordMismatch = Sentinel ''argon2id: password does not match hash''"

definition BurnDummy :: "registry \<Rightarrow> work_limiter \<Rightarrow> string \<Rightarrow> go_err option \<times> work_limiter" where
  "BurnDummy r l stored =
     (let candidate = ''goauth-unsupported-pepper-version-dummy'';
          (err, l1) = reg_Compare r l candidate stored
      in case err of
           Some e \<Rightarrow>
             if errors_is e ErrPasswordWorkBusy then (Some e, l1)
             else if errors_is e ErrMismatchedHashAndPassword \<or> errors_is e ErrPasswordMismatch then (None, l1)
             else (case reg_Compare r l1 candidate (probe r) of
                     (Some e2, l2) \<Rightarrow> (if errors_is e2 ErrPasswordWorkBusy then Some e2 else None, l2)
                   | (None, l2) \<Rightarrow> (None, l2))
         | None \<Rightarrow>
             (case reg_Compare r l1 candidate (probe r) of
                (Some e2, l2) \<Rightarrow> (if errors_is e2 ErrPasswordWorkBusy then Some e2 else None, l2)
              | (None, l2) \<Rightarrow> (None, l2)))"

definition NeedsRehash :: "(string \<Rightarrow> go_err + int) \<Rightarrow> registry \<Rightarrow> string \<Rightarrow> bool" where
  "NeedsRehash bcryptCost r stored =
     (let storedPrefix = hashFormatPrefix stored
      in if forVerify r storedPrefix = None then True
         else if storedPrefix \<noteq> currentPrefix r \<and> (\<not> currentIsBcrypt r \<or> \<not> isBcryptFormat stored) then True
         else if \<not> currentIsBcrypt r
         then currentParameters r \<noteq> '''' \<and> hashParameterFingerprint stored \<noteq> currentParameters r
         else (case bcryptCost stored of Inl _ \<Rightarrow> True | Inr c \<Rightarrow> c \<noteq> currentCost r))"

section \<open>Format prefixes\<close>

lemma upto_sep_prefix: "upto_sep s = Some p \<Longrightarrow> prefix p s"
proof -
  assume "upto_sep s = Some p"
  then have p: "CHR ''$'' \<in> set s" "p = takeWhile (\<lambda>c. c \<noteq> CHR ''$'') s @ ''$''"
    by (auto simp: upto_sep_def split: if_splits)
  have "dropWhile (\<lambda>c. c \<noteq> CHR ''$'') s \<noteq> []"
    using p(1) by (auto simp: dropWhile_eq_Nil_conv)
  moreover from this have "hd (dropWhile (\<lambda>c. c \<noteq> CHR ''$'') s) = CHR ''$''"
    using hd_dropWhile by blast
  ultimately obtain t where "dropWhile (\<lambda>c. c \<noteq> CHR ''$'') s = CHR ''$'' # t"
    by (metis list.exhaust_sel)
  then have "s = p @ t"
    using p(2) takeWhile_dropWhile_id [of "\<lambda>c. c \<noteq> CHR ''$''" s] by simp
  then show "prefix p s" by simp
qed

lemma hashFormatPrefix_prefix: "prefix (hashFormatPrefix h) h"
  by (auto simp: hashFormatPrefix_def split: list.splits option.splits dest: upto_sep_prefix)

lemma isBcrypt_prefix: "isBcryptFormat p \<Longrightarrow> prefix p h \<Longrightarrow> isBcryptFormat h"
  unfolding isBcryptFormat_def list_ex_iff using prefix_order.trans by blast

lemma isBcrypt_formatPrefix: "isBcryptFormat h \<Longrightarrow> hashFormatPrefix h \<in> set bcryptVerifyPrefixes"
  by (auto simp: isBcryptFormat_def bcryptVerifyPrefixes_def prefix_def hashFormatPrefix_def upto_sep_def)

lemma isBcrypt_hashFormatPrefix [simp]: "isBcryptFormat (hashFormatPrefix h) \<longleftrightarrow> isBcryptFormat h"
proof
  show "isBcryptFormat (hashFormatPrefix h) \<Longrightarrow> isBcryptFormat h"
    using isBcrypt_prefix hashFormatPrefix_prefix by blast
next
  assume "isBcryptFormat h"
  then have "hashFormatPrefix h \<in> set bcryptVerifyPrefixes" by (rule isBcrypt_formatPrefix)
  then show "isBcryptFormat (hashFormatPrefix h)"
    by (auto simp: isBcryptFormat_def bcryptVerifyPrefixes_def)
qed

lemma bcrypt_prefix_is_bcrypt: "p \<in> set bcryptVerifyPrefixes \<Longrightarrow> isBcryptFormat p"
  by (auto simp: isBcryptFormat_def bcryptVerifyPrefixes_def)

section \<open>The dispatch table\<close>

lemma put_prefixes_apply: "put_prefixes h ps m p = (if p \<in> set ps then Some h else m p)"
  by (induction ps arbitrary: m) auto

lemma add_prefixes_apply:
  "add_prefixes h ps m p = (if p \<in> set ps \<and> m p = None then Some h else m p)"
  by (induction ps arbitrary: m) auto

text \<open>Either no bcrypt prefix is registered or all of them are.\<close>

definition bcrypt_all_or_none :: "(string \<rightharpoonup> hasher) \<Rightarrow> bool" where
  "bcrypt_all_or_none m \<longleftrightarrow>
     (\<forall>p \<in> set bcryptVerifyPrefixes. m p \<noteq> None) \<or> (\<forall>p \<in> set bcryptVerifyPrefixes. m p = None)"

lemma add_legacy_bcrypt:
  "add_legacy seed pin hs m = Inr m' \<Longrightarrow> bcrypt_all_or_none m \<Longrightarrow> bcrypt_all_or_none m'"
proof (induction hs arbitrary: seed m)
  case Nil
  then show ?case by simp
next
  case (Cons ho hs)
  show ?case
  proof (cases ho)
    case None
    with Cons show ?thesis by simp
  next
    case (Some h)
    with Cons.prems(1) obtain lp where lp: "h_Hash h seed pin = Inr lp"
      by (auto split: sum.splits)
    show ?thesis
    proof (cases "isBcryptFormat lp")
      case True
      have "bcrypt_all_or_none (add_prefixes h bcryptVerifyPrefixes m)"
        by (auto simp: bcrypt_all_or_none_def add_prefixes_apply)
      moreover have "add_legacy (Suc seed) pin hs (add_prefixes h bcryptVerifyPrefixes m) = Inr m'"
        using Cons.prems(1) Some True lp by simp
      ultimately show ?thesis using Cons.IH by blast
    next
      case False
      then have np: "hashFormatPrefix lp \<notin> set bcryptVerifyPrefixes"
        using bcrypt_prefix_is_bcrypt isBcrypt_hashFormatPrefix by blast
      then have "bcrypt_all_or_none (m(hashFormatPrefix lp \<mapsto> h))"
        using Cons.prems(2) unfolding bcrypt_all_or_none_def by (metis map_upd_Some_unfold fun_upd_other)
      moreover have "add_legacy (Suc seed) pin hs (m(hashFormatPrefix lp \<mapsto> h)) = Inr m'"
        using Cons.prems(1) Some False lp by (simp add: Let_def split: if_splits)
      ultimately show ?thesis using Cons.IH by blast
    qed
  qed
qed

lemma newRegistry_cases:
  assumes "newRegistry bc argon seed cur legacy = Inr r"
  obtains c pin where "cur = Some c" "probe_input c = Inr pin" "current r = c" "h_Hash c seed pin = Inr (probe r)"
    "hashFormatPrefix (probe r) \<notin> {'''', probe r}"
    "h_Compare c pin (probe r) = None" "currentPrefix r = hashFormatPrefix (probe r)"
    "currentParameters r = hashParameterFingerprint (probe r)"
    "currentIsBcrypt r = isBcryptFormat (probe r)"
    "currentIsBcrypt r \<longrightarrow> bc (probe r) = Inr (currentCost r) \<and>
       forVerify r = put_prefixes c bcryptVerifyPrefixes [''$argon2id$'' \<mapsto> argon]"
    "\<not> currentIsBcrypt r \<longrightarrow> (\<exists>m. add_legacy (Suc seed) pin legacy [''$argon2id$'' \<mapsto> argon] = Inr m \<and>
       m ''$2a$'' \<noteq> None \<and> forVerify r = m(currentPrefix r \<mapsto> c))"
proof -
  from assms obtain c where c: "cur = Some c" by (auto simp: newRegistry_def split: option.splits)
  from assms c obtain pin where pin: "probe_input c = Inr pin"
    by (auto simp: newRegistry_def split: sum.splits)
  from assms c pin obtain pr where pr: "h_Hash c seed pin = Inr pr"
    by (auto simp: newRegistry_def split: sum.splits)
  from assms c pin pr have cmp: "h_Compare c pin pr = None"
    by (auto simp: newRegistry_def split: option.splits)
  with assms c pin pr have ne: "hashFormatPrefix pr \<notin> {'''', pr}"
    by (auto simp: newRegistry_def Let_def)
  show thesis
  proof (cases "isBcryptFormat pr")
    case True
    with assms c pin pr cmp obtain cost where "bc pr = Inr cost"
      "r = \<lparr>current = c, forVerify = put_prefixes c bcryptVerifyPrefixes [''$argon2id$'' \<mapsto> argon],
            currentPrefix = hashFormatPrefix pr, currentParameters = hashParameterFingerprint pr,
            probe = pr, currentIsBcrypt = True, currentCost = cost\<rparr>"
      by (auto simp: newRegistry_def Let_def split: if_splits sum.splits)
    with c pin pr cmp ne True show thesis by (intro that [of c pin]) simp_all
  next
    case False
    with assms c pin pr cmp obtain m where "add_legacy (Suc seed) pin legacy [''$argon2id$'' \<mapsto> argon] = Inr m"
      "m ''$2a$'' \<noteq> None"
      "r = \<lparr>current = c, forVerify = m(hashFormatPrefix pr \<mapsto> c),
            currentPrefix = hashFormatPrefix pr, currentParameters = hashParameterFingerprint pr,
            probe = pr, currentIsBcrypt = False, currentCost = 0\<rparr>"
      by (auto simp: newRegistry_def Let_def split: if_splits sum.splits)
    with c pin pr cmp ne False show thesis by (intro that [of c pin]) auto
  qed
qed

lemma newRegistry_current:
  assumes "newRegistry bc argon seed cur legacy = Inr r"
  shows "forVerify r (currentPrefix r) = Some (current r)"
  using assms
proof (cases rule: newRegistry_cases)
  case (1 c pin)
  then show ?thesis
    by (cases "currentIsBcrypt r") (auto simp: put_prefixes_apply isBcrypt_formatPrefix)
qed

lemma newRegistry_bcrypt:
  assumes "newRegistry bc argon seed cur legacy = Inr r" and p: "p \<in> set bcryptVerifyPrefixes"
  shows "forVerify r p \<noteq> None"
  using assms(1)
proof (cases rule: newRegistry_cases)
  case (1 c pin)
  show ?thesis
  proof (cases "currentIsBcrypt r")
    case True
    with 1 p show ?thesis by (auto simp: put_prefixes_apply)
  next
    case False
    with 1 obtain m where m: "add_legacy (Suc seed) pin legacy [''$argon2id$'' \<mapsto> argon] = Inr m"
      "m ''$2a$'' \<noteq> None" "forVerify r = m(currentPrefix r \<mapsto> c)" by blast
    have "bcrypt_all_or_none [''$argon2id$'' \<mapsto> argon]"
      by (auto simp: bcrypt_all_or_none_def bcryptVerifyPrefixes_def)
    from add_legacy_bcrypt [OF m(1) this] m(2) p have "m p \<noteq> None"
      by (auto simp: bcrypt_all_or_none_def bcryptVerifyPrefixes_def)
    with m(3) show ?thesis by simp
  qed
qed

text \<open>What the documentation of \<open>port.Hasher\<close> asks of an implementation: a hash verifies, and all
  its hashes have one format.\<close>

definition consistent_hasher :: "(string \<Rightarrow> go_err + int) \<Rightarrow> hasher \<Rightarrow> bool" where
  "consistent_hasher bc h \<longleftrightarrow>
     (\<forall>s pw x. h_Hash h s pw = Inr x \<longrightarrow> h_Compare h pw x = None) \<and>
     (\<forall>s s' pw pw' x y. h_Hash h s pw = Inr x \<longrightarrow> h_Hash h s' pw' = Inr y \<longrightarrow>
        hashFormatPrefix x = hashFormatPrefix y \<and> hashParameterFingerprint x = hashParameterFingerprint y \<and>
        bc x = bc y)"

lemma limiter_Do_ok: "slots_used l < slots_cap l \<Longrightarrow> limiter_Do l work = (work, l)"
  by (simp add: limiter_Do_def limiter_acquire_def limiter_release_def)

lemma limiter_Do_cases:
  obtains (refused) e where "limiter_Do l work = (Inl e, l)" | (ran) "limiter_Do l work = (work, l)"
proof (cases "slots_cap l = 0 \<or> \<not> slots_used l < slots_cap l")
  case True
  then show thesis
    by (intro refused [of "if slots_cap l = 0
          then Wrapf ''password work limiter must be constructed with NewWorkLimiter'' []
          else ErrPasswordWorkBusy"]) (auto simp: limiter_Do_def limiter_acquire_def)
next
  case False
  then show thesis by (intro ran) (simp add: limiter_Do_ok)
qed

lemma reg_Hash_ok:
  assumes "reg_Hash r l seed pw = (Inr x, l1)"
  shows "h_Hash (current r) seed pw = Inr x" "l1 = l"
  using assms
  by (cases rule: limiter_Do_cases [of l "h_Hash (current r) seed pw"];
      auto simp: reg_Hash_def Let_def split: if_splits)+

text \<open>A concrete hasher for the witnesses: prefix, salt, and the length of the input as its digest.\<close>

definition prefix_hasher :: "string \<Rightarrow> hasher" where
  "prefix_hasher p =
     \<lparr>h_Hash = (\<lambda>seed pw. Inr (p @ itoa_nat seed @ ''$'' @ itoa_nat (length pw))),
      h_Compare = (\<lambda>pw stored. if last (split_on (CHR ''$'') stored) = itoa_nat (length pw)
                               then None else Some ErrPasswordMismatch),
      h_MaxPasswordBytes = None\<rparr>"

definition no_cost :: "string \<Rightarrow> go_err + int" where
  "no_cost s = (if isBcryptFormat s then Inr 10 else Inl (Sentinel ''not bcrypt''))"

section \<open>Properties\<close>

text \<open>A registry that could be built verifies every row that can be in the database: its own
  prefix dispatches to the current hasher, and each of the four bcrypt prefixes to some hasher,
  whichever hashers it was built from.\<close>

theorem registry_covers_rows:
  assumes "newRegistry bc argon seed cur legacy = Inr r"
  shows "forVerify r (currentPrefix r) = Some (current r) \<and>
         (\<forall>stored. isBcryptFormat stored \<longrightarrow>
            (\<exists>h. forVerify r (hashFormatPrefix stored) = Some h \<and> dispatch r pw stored = h_Compare h pw stored))"
proof (intro conjI allI impI)
  show "forVerify r (currentPrefix r) = Some (current r)" by (rule newRegistry_current [OF assms])
next
  fix stored assume "isBcryptFormat stored"
  then obtain h where "forVerify r (hashFormatPrefix stored) = Some h"
    using newRegistry_bcrypt [OF assms isBcrypt_formatPrefix] by blast
  then show "\<exists>h. forVerify r (hashFormatPrefix stored) = Some h \<and> dispatch r pw stored = h_Compare h pw stored"
    by (simp add: dispatch_def)
qed

text \<open>When the current hasher is bcrypt, the hashers given as legacy verifiers are not
  registered: the registry is the same whatever they are, and a stored hash of any other format
  than bcrypt and Argon2id is refused.\<close>

theorem bcrypt_current_drops_legacy:
  assumes "newRegistry bc argon seed (Some c) legacy = Inr r" and "currentIsBcrypt r"
    and "\<not> isBcryptFormat stored" and "hashFormatPrefix stored \<noteq> ''$argon2id$''"
  shows "newRegistry bc argon seed (Some c) legacy' = Inr r \<and>
         dispatch r pw stored = Some ErrUnsupportedHashFormat"
  using assms(1)
proof (cases rule: newRegistry_cases)
  case (1 c' pin)
  have "hashFormatPrefix stored \<notin> set bcryptVerifyPrefixes"
    using assms(3) bcrypt_prefix_is_bcrypt isBcrypt_hashFormatPrefix by blast
  with 1 assms(2,4) have "dispatch r pw stored = Some ErrUnsupportedHashFormat"
    by (simp add: dispatch_def put_prefixes_apply)
  moreover have "newRegistry bc argon seed (Some c) legacy' = Inr r"
    using 1 assms(2) by (cases r) (simp add: newRegistry_def)
  ultimately show ?thesis by simp
qed

lemma reg_roundtrip:
  assumes "newRegistry bc argon seed cur legacy = Inr r"
    and "consistent_hasher bc (current r)"
    and "currentIsBcrypt r \<or> currentParameters r \<noteq> ''''"
    and "reg_Hash r l seed' pw = (Inr x, l1)" and "slots_used l1 < slots_cap l1"
  shows "reg_Compare r l1 pw x = (None, l1) \<and> \<not> NeedsRehash bc r x"
  using assms(1)
proof (cases rule: newRegistry_cases)
  case (1 c pin)
  note x = reg_Hash_ok [OF assms(4)]
  have same: "hashFormatPrefix x = currentPrefix r" "hashParameterFingerprint x = currentParameters r"
    "bc x = bc (probe r)"
    using assms(2) 1 x unfolding consistent_hasher_def by metis+
  have fv: "forVerify r (currentPrefix r) = Some (current r)" by (rule newRegistry_current [OF assms(1)])
  have "h_Compare (current r) pw x = None"
    using assms(2) x unfolding consistent_hasher_def by blast
  with same fv have "dispatch r pw x = None" by (simp add: dispatch_def)
  then have "reg_Compare r l1 pw x = (None, l1)"
    by (simp add: reg_Compare_def limiter_Do_ok [OF assms(5)])
  moreover have "\<not> NeedsRehash bc r x"
    using same fv 1 assms(3) by (auto simp: NeedsRehash_def)
  ultimately show ?thesis by simp
qed

text \<open>C35: A password hashed by the registry verifies and its row is not rewritten: with a current
  hasher that keeps the interface's contract, a hash just produced is accepted by \<open>Compare\<close> and
  \<open>NeedsRehash\<close> is false for it.\<close>

theorem registry_hash_verifies:
  assumes "newRegistry bc argon seed cur legacy = Inr r"
    and "consistent_hasher bc (current r)"
    and "currentIsBcrypt r \<or> currentParameters r \<noteq> ''''"
    and "reg_Hash r l seed' pw = (Inr x, l1)" and "slots_used l1 < slots_cap l1"
  shows "reg_Compare r l1 pw x = (None, l1) \<and> \<not> NeedsRehash bc r x"
  using assms by (rule reg_roundtrip)

text \<open>Under any interleaving of starts and finishes, no more goroutines do password work at
  the same time than the limiter was built for, and a finished run leaves no slot taken.\<close>

theorem limiter_bounds_work:
  assumes "NewWorkLimiter n = Inr l"
  shows "length (running (foldl lim_step \<lparr>lim = l, running = []\<rparr> es)) \<le> Limit (Some l) \<and>
         slots_used (lim (foldl lim_step \<lparr>lim = l, running = []\<rparr> es)) =
           length (running (foldl lim_step \<lparr>lim = l, running = []\<rparr> es))"
proof -
  have "lim_inv \<lparr>lim = l, running = []\<rparr>"
    using assms by (auto simp: lim_inv_def NewWorkLimiter_def split: if_splits)
  from lim_run_inv [OF this, of es] show ?thesis
    using lim_run_cap [of "\<lparr>lim = l, running = []\<rparr>" es] by (simp add: lim_inv_def Limit_def)
qed

section \<open>Witnesses\<close>

definition reg_ex :: "go_err + registry" where
  "reg_ex = newRegistry no_cost (prefix_hasher ''$argon2id$v=19$m=1$'') 0
              (Some (prefix_hasher ''$2a$10$'')) [Some (prefix_hasher ''$scrypt$x$'')]"

definition the_reg :: registry where
  "the_reg = (case reg_ex of Inr r \<Rightarrow> r | Inl _ \<Rightarrow> undefined)"

lemmas reg_ex_eval =
  reg_ex_def newRegistry_def probe_input_def prefix_hasher_def hashFormatPrefix_def upto_sep_def
  isBcryptFormat_def bcryptVerifyPrefixes_def no_cost_def Let_def itoa_nat.simps

lemma reg_ex_ok: "reg_ex = Inr the_reg"
  unfolding the_reg_def by (simp add: reg_ex_eval)

lemma the_reg_facts: "currentIsBcrypt the_reg" "current the_reg = prefix_hasher ''$2a$10$''"
  unfolding the_reg_def by (simp_all add: reg_ex_eval)

lemmas reg_ex_built = reg_ex_ok [unfolded reg_ex_def]

theorem registry_covers_rows_witness:
  "\<exists>h. forVerify the_reg (hashFormatPrefix ''$2y$12$abc'') = Some h"
proof -
  have "isBcryptFormat ''$2y$12$abc''" by (simp add: isBcryptFormat_def bcryptVerifyPrefixes_def)
  then show ?thesis using registry_covers_rows [OF reg_ex_built, of "''x''"] by blast
qed

theorem bcrypt_current_drops_legacy_witness:
  "dispatch the_reg ''pw'' ''$scrypt$x$0$2'' = Some ErrUnsupportedHashFormat \<and>
   h_Compare (prefix_hasher ''$scrypt$x$'') ''pw'' ''$scrypt$x$0$2'' = None"
proof
  show "dispatch the_reg ''pw'' ''$scrypt$x$0$2'' = Some ErrUnsupportedHashFormat"
    using bcrypt_current_drops_legacy [OF reg_ex_built the_reg_facts(1), of "''$scrypt$x$0$2''"]
    by (auto simp: isBcryptFormat_def bcryptVerifyPrefixes_def hashFormatPrefix_def upto_sep_def)
qed (simp add: prefix_hasher_def itoa_nat.simps numeral_2_eq_2 [symmetric])

lemma bcrypt_example_split:
  "split_on (CHR ''$'') (''$2a$10$'' @ itoa_nat s @ ''$'' @ itoa_nat n) =
     ['''', ''2a'', ''10'', itoa_nat s, itoa_nat n]"
  by (simp add: split_on_append_sep [OF itoa_nat_no_dollar] split_on_no_sep [OF itoa_nat_no_dollar])

lemma bcrypt_example_consistent: "consistent_hasher no_cost (prefix_hasher ''$2a$10$'')"
  using bcrypt_example_split
  by (auto simp: consistent_hasher_def prefix_hasher_def no_cost_def hashFormatPrefix_def upto_sep_def
      isBcryptFormat_def bcryptVerifyPrefixes_def hashParameterFingerprint_def)

theorem registry_hash_verifies_witness:
  "reg_Compare the_reg \<lparr>slots_used = 0, slots_cap = 4\<rparr> ''pw'' ''$2a$10$7$2'' =
     (None, \<lparr>slots_used = 0, slots_cap = 4\<rparr>)"
proof -
  have h: "reg_Hash the_reg \<lparr>slots_used = 0, slots_cap = 4\<rparr> 7 ''pw'' =
      (Inr ''$2a$10$7$2'', \<lparr>slots_used = 0, slots_cap = 4\<rparr>)"
    by (simp add: reg_Hash_def reg_MaxPasswordBytes_def the_reg_facts prefix_hasher_def limiter_Do_ok
        itoa_nat.simps numeral_2_eq_2 [symmetric])
  show ?thesis
    using registry_hash_verifies [OF reg_ex_built _ _ h] bcrypt_example_consistent the_reg_facts by simp
qed

theorem limiter_bounds_work_witness:
  "running (foldl lim_step \<lparr>lim = \<lparr>slots_used = 0, slots_cap = 2\<rparr>, running = []\<rparr>
       [Start 1, Start 2, Start 3, Finish 1, Start 4]) = [4, 2] \<and>
   length (running (foldl lim_step \<lparr>lim = \<lparr>slots_used = 0, slots_cap = 2\<rparr>, running = []\<rparr>
       [Start 1, Start 2, Start 3, Finish 1, Start 4])) \<le> 2"
proof
  have "NewWorkLimiter 2 = Inr \<lparr>slots_used = 0, slots_cap = 2\<rparr>" by (simp add: NewWorkLimiter_def)
  from limiter_bounds_work [OF this, of "[Start 1, Start 2, Start 3, Finish 1, Start 4]"]
  show "length (running (foldl lim_step \<lparr>lim = \<lparr>slots_used = 0, slots_cap = 2\<rparr>, running = []\<rparr>
       [Start 1, Start 2, Start 3, Finish 1, Start 4])) \<le> 2"
    by (simp only: Limit_def option.case work_limiter.select_convs)
qed (simp add: limiter_acquire_def limiter_release_def)

end

