(* ===== verification/Effects.thy ===== *)
theory Effects
  imports Errors SessionContext
begin

text \<open>
  The effects of the services: statements and transactions of \<open>internal/sqlstore/db.go\<close> and
  \<open>internal/sqlstore/audit_outbox_repo.go\<close> (\<open>WithTx\<close>, \<open>InTx\<close>, \<open>Savepoint\<close>), the clock,
  \<open>crypto/rand\<close> and outgoing mail.

  A handler is a function from the world to its result and the world after it; the context it
  is passed says whether a transaction is open, which browser credential context was selected and
  whether the account guard of \<open>internal/sqlstore/user_guard.go\<close> is held.
  Every call that leaves the process consumes one event of the schedule: \<open>Quiet\<close>, a \<open>Fault\<close> (the
  call fails and has no effect), or \<open>Interfere g\<close> (other requests commit \<open>g\<close> just before).
  An exhausted schedule is quiet. Requests inside a transaction see no interference: this is the
  isolation the row locks and the drivers' serialisation give and is an assumption of the model.
  Theorems quantify over schedules, so they hold under any faults and any interleaving.
\<close>

named_theorems effect_defs \<open>definitions of the basic programs\<close>
named_theorems txh \<open>rules of the logic of code inside a transaction\<close>
named_theorems keeps \<open>rules of invariant preservation by requests\<close>

datatype 'db event = Quiet | Fault | Interfere "'db \<Rightarrow> 'db"

record ctx =
  c_tx :: bool
  c_scope :: scope_ctx
  c_guard :: bool

text \<open>The context of an incoming request.\<close>

definition request_ctx :: ctx where
  "request_ctx = \<lparr>c_tx = False, c_scope = None, c_guard = False\<rparr>"

lemma request_ctx_simps [simp]: "\<not> c_tx request_ctx" "\<not> c_guard request_ctx" "c_scope request_ctx = None"
  by (simp_all add: request_ctx_def)

record mail =
  mail_to :: string
  mail_kind :: string
  mail_code :: string

record 'db world =
  store :: 'db
  sched :: "'db event list"
  clock :: time
  ticks :: "nat list"
  entropy :: "string option list"
  mailbox :: "mail list"

type_synonym ('db, 'a) prog = "'db world \<Rightarrow> (go_err + 'a) \<times> 'db world"

section \<open>Sequencing and errors\<close>

definition ret :: "'a \<Rightarrow> ('db, 'a) prog" where [effect_defs]:
  "ret a = (\<lambda>w. (Inr a, w))"

definition fail :: "go_err \<Rightarrow> ('db, 'a) prog" where [effect_defs]:
  "fail e = (\<lambda>w. (Inl e, w))"

definition bnd :: "('db, 'a) prog \<Rightarrow> ('a \<Rightarrow> ('db, 'b) prog) \<Rightarrow> ('db, 'b) prog" where [effect_defs]:
  "bnd m f = (\<lambda>w. case m w of (Inl e, w1) \<Rightarrow> (Inl e, w1) | (Inr a, w1) \<Rightarrow> f a w1)"

definition seq :: "('db, 'a) prog \<Rightarrow> ('db, 'b) prog \<Rightarrow> ('db, 'b) prog" where [effect_defs]:
  "seq m k = bnd m (\<lambda>_. k)"

text \<open>\<open>x, err := m()\<close> where the code goes on with \<open>err\<close> in hand.\<close>

definition attempt :: "('db, 'a) prog \<Rightarrow> ('db, go_err + 'a) prog" where [effect_defs]:
  "attempt m = (\<lambda>w. case m w of (r, w1) \<Rightarrow> (Inr r, w1))"

text \<open>\<open>if err != nil { return fmt.Errorf("...: %w", err) }\<close>\<close>

definition wrap :: "string \<Rightarrow> ('db, 'a) prog \<Rightarrow> ('db, 'a) prog" where [effect_defs]:
  "wrap msg m = (\<lambda>w. case m w of (Inl e, w1) \<Rightarrow> (Inl (Wrapf msg [e]), w1) | (Inr a, w1) \<Rightarrow> (Inr a, w1))"

text \<open>\<open>if c { return e }\<close> and \<open>if c { m }\<close>.\<close>

definition reject_if :: "bool \<Rightarrow> go_err \<Rightarrow> ('db, unit) prog" where
  "reject_if c e = (if c then fail e else ret ())"

definition run_if :: "bool \<Rightarrow> ('db, unit) prog \<Rightarrow> ('db, unit) prog" where
  "run_if c m = (if c then m else ret ())"

section \<open>Statements, transactions, clock, randomness, mail\<close>

text \<open>Taking the next event; interference changes the store unless a transaction is open.\<close>

definition next_event :: "ctx \<Rightarrow> 'db world \<Rightarrow> bool \<times> 'db world" where
  "next_event ctx w =
     (case sched w of
        [] \<Rightarrow> (True, w)
      | Quiet # s \<Rightarrow> (True, w\<lparr>sched := s\<rparr>)
      | Fault # s \<Rightarrow> (False, w\<lparr>sched := s\<rparr>)
      | Interfere g # s \<Rightarrow> (True, w\<lparr>sched := s, store := (if c_tx ctx then store w else g (store w))\<rparr>))"

text \<open>One SQL statement: a function of the tables, which may also violate a constraint.\<close>

definition stmt :: "ctx \<Rightarrow> ('db \<Rightarrow> (go_err + 'a) \<times> 'db) \<Rightarrow> ('db, 'a) prog" where
  "stmt ctx f = (\<lambda>w. case next_event ctx w of (ok, w1) \<Rightarrow>
     if \<not> ok then (Inl ErrDatabase, w1)
     else (case f (store w1) of
          (Inl e, d) \<Rightarrow> (Inl e, w1)
        | (Inr a, d) \<Rightarrow> (Inr a, w1\<lparr>store := d\<rparr>)))"

definition query :: "ctx \<Rightarrow> ('db \<Rightarrow> 'a) \<Rightarrow> ('db, 'a) prog" where
  "query ctx f = stmt ctx (\<lambda>d. (Inr (f d), d))"

definition exec :: "ctx \<Rightarrow> ('db \<Rightarrow> 'db) \<Rightarrow> ('db, unit) prog" where
  "exec ctx f = stmt ctx (\<lambda>d. (Inr (), f d))"

definition InTx :: "ctx \<Rightarrow> bool" where
  "InTx ctx = c_tx ctx"

text \<open>\<open>DB.WithTx\<close>: joins an open transaction; otherwise begins one, and rolls back when the
  function or the commit fails.\<close>

definition WithTx :: "ctx \<Rightarrow> (ctx \<Rightarrow> ('db, 'a) prog) \<Rightarrow> ('db, 'a) prog" where
  "WithTx ctx fn = (\<lambda>w.
     if c_tx ctx then fn ctx w
     else case next_event ctx w of (ok, w1) \<Rightarrow>
       if \<not> ok then (Inl ErrDatabase, w1)
       else (case fn (ctx\<lparr>c_tx := True\<rparr>) w1 of
          (Inl e, w2) \<Rightarrow> (Inl e, w2\<lparr>store := store w1\<rparr>)
        | (Inr a, w2) \<Rightarrow>
            (case next_event (ctx\<lparr>c_tx := True\<rparr>) w2 of (ok2, w3) \<Rightarrow>
               if \<not> ok2 then (Inl ErrDatabase, w3\<lparr>store := store w1\<rparr>) else (Inr a, w3))))"

definition Savepoint :: "ctx \<Rightarrow> string \<Rightarrow> (ctx \<Rightarrow> ('db, unit) prog) \<Rightarrow> ('db, unit) prog" where
  "Savepoint ctx name fn =
     (if \<not> InTx ctx then fn ctx
      else bnd (wrap (''savepoint '' @ name) (query ctx (\<lambda>d. d)))
       (\<lambda>saved. bnd (attempt (fn ctx)) (\<lambda>r. case r of
          Inl e \<Rightarrow>
            bnd (attempt (exec ctx (\<lambda>_. saved))) (\<lambda>r2. case r2 of
               Inl rbErr \<Rightarrow> fail (Wrapf '''' [e, Wrapf (''rollback to savepoint '' @ name) [rbErr]])
             | Inr _ \<Rightarrow> fail e)
        | Inr _ \<Rightarrow> wrap (''release savepoint '' @ name) (query ctx (\<lambda>_. ())))))"

text \<open>\<open>time.Now()\<close>: the clock never goes back; the schedule of ticks says how far it moved.\<close>

definition now :: "('db, time) prog" where
  "now = (\<lambda>w. let t = clock w + int (case ticks w of [] \<Rightarrow> 0 | d # _ \<Rightarrow> d)
              in (Inr t, w\<lparr>clock := t, ticks := tl (ticks w)\<rparr>))"

text \<open>A read of \<open>crypto/rand\<close>: the values are given, \<open>None\<close> or no value is a failed read.\<close>

definition draw :: "('db, string) prog" where
  "draw = (\<lambda>w. case entropy w of
       [] \<Rightarrow> (Inl ErrRandom, w)
     | v # es \<Rightarrow> (case v of None \<Rightarrow> Inl ErrRandom | Some s \<Rightarrow> Inr s, w\<lparr>entropy := es\<rparr>))"

definition send_mail :: "ctx \<Rightarrow> mail \<Rightarrow> ('db, unit) prog" where
  "send_mail ctx m = (\<lambda>w. case next_event ctx w of (ok, w1) \<Rightarrow>
     if ok then (Inr (), w1\<lparr>mailbox := mailbox w1 @ [m]\<rparr>)
     else (Inl (Sentinel ''mail delivery failed''), w1))"

section \<open>Code inside a transaction\<close>

text \<open>\<open>tx_hoare P m Q\<close>: started on tables satisfying \<open>P\<close>, \<open>m\<close> ends with a result and tables
  satisfying \<open>Q\<close>, whatever faults happen.\<close>

definition tx_hoare :: "('db \<Rightarrow> bool) \<Rightarrow> ('db, 'a) prog \<Rightarrow> (go_err + 'a \<Rightarrow> 'db \<Rightarrow> bool) \<Rightarrow> bool" where
  "tx_hoare P m Q \<longleftrightarrow>
     (\<forall>w r w'. P (store w) \<longrightarrow> m w = (r, w') \<longrightarrow> Q r (store w') \<and> set (sched w') \<subseteq> set (sched w))"

lemma tx_hoareI:
  "(\<And>w r w'. P (store w) \<Longrightarrow> m w = (r, w') \<Longrightarrow> Q r (store w') \<and> set (sched w') \<subseteq> set (sched w)) \<Longrightarrow>
   tx_hoare P m Q"
  by (auto simp: tx_hoare_def)

lemma tx_hoareD:
  "tx_hoare P m Q \<Longrightarrow> P (store w) \<Longrightarrow> m w = (r, w') \<Longrightarrow> Q r (store w') \<and> set (sched w') \<subseteq> set (sched w)"
  by (auto simp: tx_hoare_def)

lemma next_event_sched: "next_event ctx w = (ok, w') \<Longrightarrow> set (sched w') \<subseteq> set (sched w)"
  by (auto simp: next_event_def split: list.splits event.splits)

lemma next_event_tx: "next_event ctx w = (ok, w') \<Longrightarrow> c_tx ctx \<Longrightarrow> store w' = store w"
  by (auto simp: next_event_def split: list.splits event.splits)

lemma txh_conseq:
  "tx_hoare P' m Q' \<Longrightarrow> (\<And>d. P d \<Longrightarrow> P' d) \<Longrightarrow> (\<And>r d. Q' r d \<Longrightarrow> Q r d) \<Longrightarrow> tx_hoare P m Q"
  by (fastforce simp: tx_hoare_def)

lemma txh_ret [txh]: "(\<And>d. P d \<Longrightarrow> Q (Inr a) d) \<Longrightarrow> tx_hoare P (ret a) Q"
  by (auto simp: tx_hoare_def ret_def)

lemma txh_fail [txh]: "(\<And>d. P d \<Longrightarrow> Q (Inl e) d) \<Longrightarrow> tx_hoare P (fail e) Q"
  by (auto simp: tx_hoare_def fail_def)

lemma txh_bnd:
  assumes m: "tx_hoare P m (\<lambda>r d. case r of Inl e \<Rightarrow> R (Inl e) d | Inr a \<Rightarrow> Q a d)"
    and f: "\<And>a. tx_hoare (Q a) (f a) R"
  shows "tx_hoare P (bnd m f) R"
proof (rule tx_hoareI)
  fix w r w' assume p: "P (store w)" and run: "bnd m f w = (r, w')"
  obtain r1 w1 where m1: "m w = (r1, w1)" by fastforce
  note h = tx_hoareD [OF m p m1]
  show "R r (store w') \<and> set (sched w') \<subseteq> set (sched w)"
  proof (cases r1)
    case (Inl e)
    with run m1 h show ?thesis by (auto simp: bnd_def)
  next
    case (Inr a)
    with run m1 have "f a w1 = (r, w')" by (simp add: bnd_def)
    from tx_hoareD [OF f _ this] Inr h show ?thesis by auto
  qed
qed

lemma txh_seq:
  "tx_hoare P m (\<lambda>r d. case r of Inl e \<Rightarrow> R (Inl e) d | Inr a \<Rightarrow> Q d) \<Longrightarrow> tx_hoare Q k R \<Longrightarrow>
   tx_hoare P (seq m k) R"
  unfolding seq_def by (rule txh_bnd)

lemma txh_attempt: "tx_hoare P m (\<lambda>r. Q (Inr r)) \<Longrightarrow> tx_hoare P (attempt m) Q"
  by (auto simp: tx_hoare_def attempt_def split: prod.splits)

lemma txh_wrap:
  "tx_hoare P m (\<lambda>r. case r of Inl e \<Rightarrow> Q (Inl (Wrapf msg [e])) | Inr a \<Rightarrow> Q (Inr a)) \<Longrightarrow>
   tx_hoare P (wrap msg m) Q"
  by (fastforce simp: tx_hoare_def wrap_def split: prod.splits sum.splits)

lemma txh_stmt:
  assumes "c_tx ctx" and "\<And>d. P d \<Longrightarrow> Q (Inl ErrDatabase) d"
    and "\<And>d e d'. P d \<Longrightarrow> f d = (Inl e, d') \<Longrightarrow> Q (Inl e) d"
    and "\<And>d a d'. P d \<Longrightarrow> f d = (Inr a, d') \<Longrightarrow> Q (Inr a) d'"
  shows "tx_hoare P (stmt ctx f) Q"
  using assms
  by (fastforce intro!: tx_hoareI simp: stmt_def next_event_tx dest: next_event_sched
      split: prod.splits sum.splits if_splits)

lemma txh_query:
  assumes "c_tx ctx" and "\<And>d. P d \<Longrightarrow> Q (Inl ErrDatabase) d" and "\<And>d. P d \<Longrightarrow> Q (Inr (f d)) d"
  shows "tx_hoare P (query ctx f) Q"
  unfolding query_def by (rule txh_stmt) (use assms in auto)

lemma txh_exec:
  assumes "c_tx ctx" and "\<And>d. P d \<Longrightarrow> Q (Inl ErrDatabase) d" and "\<And>d. P d \<Longrightarrow> Q (Inr ()) (f d)"
  shows "tx_hoare P (exec ctx f) Q"
  unfolding exec_def by (rule txh_stmt) (use assms in auto)

lemma txh_now: "(\<And>d t. P d \<Longrightarrow> Q (Inr t) d) \<Longrightarrow> tx_hoare P now Q"
  by (auto simp: tx_hoare_def now_def Let_def)

lemma txh_draw: "(\<And>d r. P d \<Longrightarrow> Q r d) \<Longrightarrow> tx_hoare P draw Q"
  by (auto simp: tx_hoare_def draw_def split: list.splits)

lemma txh_mail:
  "c_tx ctx \<Longrightarrow> (\<And>d r. P d \<Longrightarrow> Q r d) \<Longrightarrow> tx_hoare P (send_mail ctx m) Q"
  by (fastforce intro!: tx_hoareI simp: send_mail_def next_event_tx dest: next_event_sched
      split: prod.splits if_splits)

lemma txh_WithTx: "c_tx ctx \<Longrightarrow> tx_hoare P (fn ctx) Q \<Longrightarrow> tx_hoare P (WithTx ctx fn) Q"
  by (simp add: tx_hoare_def WithTx_def)

section \<open>Requests\<close>

text \<open>Other requests keep the invariant too.\<close>

definition rely :: "('db \<Rightarrow> bool) \<Rightarrow> 'db event list \<Rightarrow> bool" where
  "rely I es \<longleftrightarrow> (\<forall>g. Interfere g \<in> set es \<longrightarrow> (\<forall>d. I d \<longrightarrow> I (g d)))"

definition good :: "('db \<Rightarrow> bool) \<Rightarrow> 'db world \<Rightarrow> bool" where
  "good I w \<longleftrightarrow> I (store w) \<and> rely I (sched w)"

definition keeps :: "('db \<Rightarrow> bool) \<Rightarrow> ('db, 'a) prog \<Rightarrow> bool" where
  "keeps I m \<longleftrightarrow> (\<forall>w r w'. good I w \<longrightarrow> m w = (r, w') \<longrightarrow> good I w')"

lemma keepsI: "(\<And>w r w'. good I w \<Longrightarrow> m w = (r, w') \<Longrightarrow> good I w') \<Longrightarrow> keeps I m"
  by (auto simp: keeps_def)

lemma keepsD: "keeps I m \<Longrightarrow> good I w \<Longrightarrow> m w = (r, w') \<Longrightarrow> good I w'"
  by (auto simp: keeps_def)

lemma rely_mono: "rely I es \<Longrightarrow> set es' \<subseteq> set es \<Longrightarrow> rely I es'"
  by (auto simp: rely_def)

lemma next_event_good: "next_event ctx w = (ok, w') \<Longrightarrow> good I w \<Longrightarrow> good I w'"
  by (auto simp: next_event_def good_def rely_def split: list.splits event.splits)

lemma keeps_ret [keeps]: "keeps I (ret a)"
  by (auto simp: keeps_def ret_def)

lemma keeps_fail [keeps]: "keeps I (fail e)"
  by (auto simp: keeps_def fail_def)

lemma keeps_bnd [keeps]: "keeps I m \<Longrightarrow> (\<And>a. keeps I (f a)) \<Longrightarrow> keeps I (bnd m f)"
  by (fastforce intro: keepsI simp: bnd_def dest: keepsD split: prod.splits sum.splits)

lemma keeps_seq [keeps]: "keeps I m \<Longrightarrow> keeps I k \<Longrightarrow> keeps I (seq m k)"
  by (simp add: seq_def keeps_bnd)

lemma keeps_attempt [keeps]: "keeps I m \<Longrightarrow> keeps I (attempt m)"
  by (fastforce intro: keepsI simp: attempt_def dest: keepsD split: prod.splits)

lemma keeps_wrap [keeps]: "keeps I m \<Longrightarrow> keeps I (wrap msg m)"
  by (fastforce intro: keepsI simp: wrap_def dest: keepsD split: prod.splits sum.splits)

lemma keeps_now [keeps]: "keeps I now"
  by (auto simp: keeps_def now_def good_def Let_def)

lemma keeps_draw [keeps]: "keeps I draw"
  by (auto simp: keeps_def draw_def good_def split: list.splits)

lemma keeps_mail [keeps]: "keeps I (send_mail ctx m)"
proof (rule keepsI)
  fix w r w' assume "good I w" and run: "send_mail ctx m w = (r, w')"
  then have "good I (snd (next_event ctx w))"
    using next_event_good [of ctx w] by (cases "next_event ctx w") auto
  with run show "good I w'"
    by (auto simp: send_mail_def good_def split: prod.splits if_splits)
qed

lemma keeps_stmt:
  assumes "\<And>d a d'. I d \<Longrightarrow> f d = (Inr a, d') \<Longrightarrow> I d'"
  shows "keeps I (stmt ctx f)"
proof (rule keepsI)
  fix w r w' assume w: "good I w" and run: "stmt ctx f w = (r, w')"
  obtain ok w1 where ev: "next_event ctx w = (ok, w1)" by fastforce
  note g1 = next_event_good [OF ev w]
  with run ev assms show "good I w'"
    by (fastforce simp: stmt_def good_def split: if_splits prod.splits sum.splits)
qed

lemma keeps_query [keeps]: "keeps I (query ctx f)"
  unfolding query_def by (rule keeps_stmt) auto

lemma keeps_exec: "(\<And>d. I d \<Longrightarrow> I (f d)) \<Longrightarrow> keeps I (exec ctx f)"
  unfolding exec_def by (rule keeps_stmt) auto

lemma keeps_run_if [keeps]: "(c \<Longrightarrow> keeps I m) \<Longrightarrow> keeps I (run_if c m)"
  by (simp add: run_if_def keeps_ret)

lemma keeps_reject_if [keeps]: "keeps I (reject_if c e)"
  by (simp add: reject_if_def keeps_ret keeps_fail)

text \<open>What a request that runs one transaction does: it starts from tables \<open>d0\<close> (those before
  it, unless another request commits first); failing, it leaves them.\<close>

lemma WithTx_run:
  assumes "\<not> c_tx ctx" and "WithTx ctx fn w = (r, w')"
    and start: "\<And>ok w1. next_event ctx w = (ok, w1) \<Longrightarrow> P (store w1)"
    and h: "\<And>d0. P d0 \<Longrightarrow> tx_hoare (\<lambda>d. d = d0) (fn (ctx\<lparr>c_tx := True\<rparr>)) (R d0)"
  obtains w1 where "next_event ctx w = (True, w1) \<or> r = Inl ErrDatabase \<and> next_event ctx w = (False, w1)"
    "case r of Inl e \<Rightarrow> store w' = store w1 | Inr a \<Rightarrow> R (store w1) (Inr a) (store w')"
    "set (sched w') \<subseteq> set (sched w)"
proof -
  obtain ok w1 where ev: "next_event ctx w = (ok, w1)" by fastforce
  note s1 = next_event_sched [OF ev]
  show thesis
  proof (cases ok)
    case False
    with assms ev s1 show thesis by (intro that [of w1]) (auto simp: WithTx_def)
  next
    case True
    obtain r2 w2 where run: "fn (ctx\<lparr>c_tx := True\<rparr>) w1 = (r2, w2)" by fastforce
    note h2 = tx_hoareD [OF h [OF start [OF ev]] refl run]
    show thesis
    proof (cases r2)
      case (Inl e)
      with assms ev True run s1 h2 show thesis
        by (intro that [of w1]) (auto simp: WithTx_def)
    next
      case (Inr a)
      obtain ok3 w3 where ev3: "next_event (ctx\<lparr>c_tx := True\<rparr>) w2 = (ok3, w3)" by fastforce
      have s: "store w3 = store w2" "set (sched w3) \<subseteq> set (sched w)"
        using next_event_tx [OF ev3] next_event_sched [OF ev3] s1 h2 by auto
      with assms(1,2) ev True run h2 Inr ev3 show thesis
        by (intro that [of w1]) (auto simp: WithTx_def split: if_splits)
    qed
  qed
qed

lemma keeps_WithTx:
  assumes "\<not> c_tx ctx"
    and "tx_hoare I (fn (ctx\<lparr>c_tx := True\<rparr>)) (\<lambda>r d. case r of Inl e \<Rightarrow> True | Inr a \<Rightarrow> I d)"
  shows "keeps I (WithTx ctx fn)"
proof (rule keepsI)
  fix w r w' assume w: "good I w" and run: "WithTx ctx fn w = (r, w')"
  have h: "I d0 \<Longrightarrow> tx_hoare (\<lambda>d. d = d0) (fn (ctx\<lparr>c_tx := True\<rparr>))
      (\<lambda>r d. case r of Inl e \<Rightarrow> True | Inr a \<Rightarrow> I d)" for d0
    by (rule tx_hoareI) (use tx_hoareD [OF assms(2)] in blast)
  have start: "next_event ctx w = (ok, w1) \<Longrightarrow> I (store w1)" for ok w1
    using next_event_good [OF _ w] by (auto simp: good_def)
  from assms(1) run start h show "good I w'"
  proof (rule WithTx_run)
    fix w1
    assume ev: "next_event ctx w = (True, w1) \<or> r = Inl ErrDatabase \<and> next_event ctx w = (False, w1)"
      and post: "case r of Inl e \<Rightarrow> store w' = store w1
        | Inr a \<Rightarrow> (case Inr a of Inl e \<Rightarrow> True | Inr a \<Rightarrow> I (store w'))"
      and "set (sched w') \<subseteq> set (sched w)"
    from ev next_event_good [OF _ w] have "good I w1" by blast
    with post have "I (store w')" by (auto simp: good_def split: sum.splits)
    with w \<open>set (sched w') \<subseteq> set (sched w)\<close> show "good I w'"
      unfolding good_def by (auto intro: rely_mono)
  qed
qed

text \<open>Only faults, no interference: the requests of a world where nobody else writes.\<close>

definition faults_only :: "'db world \<Rightarrow> bool" where
  "faults_only w \<longleftrightarrow> (\<forall>g. Interfere g \<notin> set (sched w))"

lemma next_event_faults_only:
  "faults_only w \<Longrightarrow> next_event ctx w = (ok, w') \<Longrightarrow> store w' = store w"
  by (auto simp: next_event_def faults_only_def split: list.splits event.splits)

lemma faults_only_mono: "faults_only w \<Longrightarrow> set (sched w') \<subseteq> set (sched w) \<Longrightarrow> faults_only w'"
  by (auto simp: faults_only_def)

lemma WithTx_faults_only:
  assumes "\<not> c_tx ctx" and "WithTx ctx fn w = (r, w')" and "faults_only w"
    and h: "tx_hoare (\<lambda>d. d = store w) (fn (ctx\<lparr>c_tx := True\<rparr>)) R"
  shows "case r of Inl e \<Rightarrow> store w' = store w | Inr a \<Rightarrow> R (Inr a) (store w')" and "faults_only w'"
proof -
  have start: "next_event ctx w = (ok, w1) \<Longrightarrow> store w1 = store w" for ok w1
    using next_event_faults_only [OF assms(3)] by blast
  have h': "d0 = store w \<Longrightarrow> tx_hoare (\<lambda>d. d = d0) (fn (ctx\<lparr>c_tx := True\<rparr>)) R" for d0
    using h by simp
  from assms(1,2) start h' have
    "(case r of Inl e \<Rightarrow> store w' = store w | Inr a \<Rightarrow> R (Inr a) (store w')) \<and> faults_only w'"
  proof (rule WithTx_run)
    fix w1
    assume "next_event ctx w = (True, w1) \<or> r = Inl ErrDatabase \<and> next_event ctx w = (False, w1)"
      and post: "case r of Inl e \<Rightarrow> store w' = store w1 | Inr a \<Rightarrow> R (Inr a) (store w')"
      and "set (sched w') \<subseteq> set (sched w)"
    then have "store w1 = store w" "faults_only w'" using start faults_only_mono [OF assms(3)] by auto
    with post show ?thesis by (auto split: sum.splits)
  qed
  then show "case r of Inl e \<Rightarrow> store w' = store w | Inr a \<Rightarrow> R (Inr a) (store w')" "faults_only w'"
    by simp_all
qed

section \<open>Weakest preconditions\<close>

text \<open>The same logic, goal directed: \<open>wp m Q d\<close> says that \<open>m\<close>, started on the tables \<open>d\<close> in an open
  transaction, ends in \<open>Q\<close> whatever faults happen. The rules decompose a handler by its structure.\<close>

definition wp :: "('db, 'a) prog \<Rightarrow> (go_err + 'a \<Rightarrow> 'db \<Rightarrow> bool) \<Rightarrow> 'db \<Rightarrow> bool" where
  "wp m Q d = tx_hoare (\<lambda>s. s = d) m Q"

lemma tx_hoare_wp: "(\<And>d. P d \<Longrightarrow> wp m Q d) \<Longrightarrow> tx_hoare P m Q"
  unfolding wp_def tx_hoare_def by blast

lemma wp_conseq: "wp m Q' d \<Longrightarrow> (\<And>r d. Q' r d \<Longrightarrow> Q r d) \<Longrightarrow> wp m Q d"
  unfolding wp_def by (erule txh_conseq) auto

lemma wp_tx_hoare: "tx_hoare P m Q' \<Longrightarrow> P d \<Longrightarrow> (\<And>r d. Q' r d \<Longrightarrow> Q r d) \<Longrightarrow> wp m Q d"
  unfolding wp_def by (erule txh_conseq) auto

named_theorems wps \<open>rules of weakest preconditions\<close>

lemma wp_ret [wps]: "Q (Inr a) d \<Longrightarrow> wp (ret a) Q d"
  unfolding wp_def by (rule txh_ret) simp

lemma wp_fail [wps]: "Q (Inl e) d \<Longrightarrow> wp (fail e) Q d"
  unfolding wp_def by (rule txh_fail) simp

lemma wp_bnd [wps]:
  "wp m (\<lambda>r d. case r of Inl e \<Rightarrow> R (Inl e) d | Inr a \<Rightarrow> wp (f a) R d) d \<Longrightarrow> wp (bnd m f) R d"
  unfolding wp_def [of "bnd m f"] wp_def [of m]
  by (rule txh_bnd [where Q = "\<lambda>a d. wp (f a) R d"]) (auto intro: tx_hoare_wp)

lemma wp_seq [wps]:
  "wp m (\<lambda>r d. case r of Inl e \<Rightarrow> R (Inl e) d | Inr a \<Rightarrow> wp k R d) d \<Longrightarrow> wp (seq m k) R d"
  unfolding seq_def by (rule wp_bnd)

lemma wp_attempt [wps]: "wp m (\<lambda>r. Q (Inr r)) d \<Longrightarrow> wp (attempt m) Q d"
  unfolding wp_def by (rule txh_attempt)

lemma wp_wrap [wps]:
  "wp m (\<lambda>r d. case r of Inl e \<Rightarrow> Q (Inl (Wrapf msg [e])) d | Inr a \<Rightarrow> Q (Inr a) d) d \<Longrightarrow> wp (wrap msg m) Q d"
  unfolding wp_def by (rule txh_wrap, erule txh_conseq) (auto split: sum.splits)

lemma wp_stmt [wps]:
  "c_tx ctx \<Longrightarrow> Q (Inl ErrDatabase) d \<Longrightarrow>
   (case f d of (Inl e, d') \<Rightarrow> Q (Inl e) d | (Inr a, d') \<Rightarrow> Q (Inr a) d') \<Longrightarrow> wp (stmt ctx f) Q d"
  unfolding wp_def by (rule txh_stmt) (auto split: prod.splits sum.splits)

lemma wp_query [wps]: "c_tx ctx \<Longrightarrow> Q (Inl ErrDatabase) d \<Longrightarrow> Q (Inr (f d)) d \<Longrightarrow> wp (query ctx f) Q d"
  unfolding wp_def by (rule txh_query) auto

lemma wp_exec [wps]: "c_tx ctx \<Longrightarrow> Q (Inl ErrDatabase) d \<Longrightarrow> Q (Inr ()) (f d) \<Longrightarrow> wp (exec ctx f) Q d"
  unfolding wp_def by (rule txh_exec) auto

lemma wp_now [wps]: "(\<And>t. Q (Inr t) d) \<Longrightarrow> wp now Q d"
  unfolding wp_def by (rule txh_now) simp

lemma wp_draw [wps]: "(\<And>r. Q r d) \<Longrightarrow> wp draw Q d"
  unfolding wp_def by (rule txh_draw) simp

lemma wp_mail [wps]: "c_tx ctx \<Longrightarrow> (\<And>r. Q r d) \<Longrightarrow> wp (send_mail ctx m) Q d"
  unfolding wp_def by (rule txh_mail) auto

lemma wp_WithTx [wps]: "c_tx ctx \<Longrightarrow> wp (fn ctx) Q d \<Longrightarrow> wp (WithTx ctx fn) Q d"
  unfolding wp_def by (rule txh_WithTx)

lemma wp_run_if [wps]: "(c \<Longrightarrow> wp m Q d) \<Longrightarrow> (\<not> c \<Longrightarrow> Q (Inr ()) d) \<Longrightarrow> wp (run_if c m) Q d"
  by (simp add: run_if_def wp_ret)

lemma wp_reject_if [wps]:
  "(c \<Longrightarrow> Q (Inl e) d) \<Longrightarrow> (\<not> c \<Longrightarrow> Q (Inr ()) d) \<Longrightarrow> wp (reject_if c e) Q d"
  by (simp add: reject_if_def wp_ret wp_fail)

section \<open>Runs\<close>

lemma bnd_run:
  assumes "bnd m f w = (r, w')"
  obtains (err) e where "m w = (Inl e, w')" "r = Inl e" | (ok) a w1 where "m w = (Inr a, w1)" "f a w1 = (r, w')"
  using assms by (auto simp: bnd_def split: prod.splits sum.splits)

lemma wrap_run: "wrap msg m w = (r, w') \<Longrightarrow> \<exists>r0. m w = (r0, w')"
  by (auto simp: wrap_def split: prod.splits sum.splits)

text \<open>Programs that do not reach the database: clock and randomness.\<close>

definition local_prog :: "('db, 'a) prog \<Rightarrow> bool" where
  "local_prog m \<longleftrightarrow> (\<forall>w. store (snd (m w)) = store w \<and> sched (snd (m w)) = sched w)"

lemma local_progD: "local_prog m \<Longrightarrow> m w = (r, w') \<Longrightarrow> store w' = store w \<and> sched w' = sched w"
  unfolding local_prog_def by (metis snd_conv)

lemma local_faults_only: "local_prog m \<Longrightarrow> m w = (r, w') \<Longrightarrow> faults_only w' = faults_only w"
  using local_progD [of m w r w'] by (simp add: faults_only_def)

named_theorems locals \<open>programs that do not reach the database\<close>

lemma local_now [locals]: "local_prog now"
  by (simp add: local_prog_def now_def Let_def)

lemma local_draw [locals]: "local_prog draw"
  by (simp add: local_prog_def draw_def split: list.splits)

lemma local_ret [locals]: "local_prog (ret a)"
  by (simp add: local_prog_def ret_def)

lemma local_fail [locals]: "local_prog (fail e)"
  by (simp add: local_prog_def fail_def)

lemma local_bnd [locals]: "local_prog m \<Longrightarrow> (\<And>a. local_prog (f a)) \<Longrightarrow> local_prog (bnd m f)"
  unfolding local_prog_def bnd_def by (auto split: prod.splits sum.splits) (metis snd_conv)+

lemma local_wrap [locals]: "local_prog m \<Longrightarrow> local_prog (wrap msg m)"
  unfolding local_prog_def wrap_def by (auto split: prod.splits sum.splits) (metis snd_conv)+

lemma faults_only_rely: "faults_only w \<Longrightarrow> rely I (sched w)"
  by (auto simp: faults_only_def rely_def)

lemma keeps_faults_only: "keeps I m \<Longrightarrow> faults_only w \<Longrightarrow> I (store w) \<Longrightarrow> m w = (r, w') \<Longrightarrow> I (store w')"
  using keepsD [of I m w r w'] by (auto simp: good_def faults_only_rely)

section \<open>Requests under faults alone\<close>

text \<open>\<open>rq m Q d\<close>: a request started on the tables \<open>d\<close> in a world where statements may fail but nobody
  else writes ends in \<open>Q\<close>. The rules are those of \<open>wp\<close>, and transactions roll back.\<close>

definition rq :: "('db, 'a) prog \<Rightarrow> (go_err + 'a \<Rightarrow> 'db \<Rightarrow> bool) \<Rightarrow> 'db \<Rightarrow> bool" where
  "rq m Q d \<longleftrightarrow> (\<forall>w r w'. faults_only w \<longrightarrow> store w = d \<longrightarrow> m w = (r, w') \<longrightarrow> Q r (store w') \<and> faults_only w')"

named_theorems rqs \<open>rules of requests under faults\<close>

lemma rqI: "(\<And>w r w'. faults_only w \<Longrightarrow> store w = d \<Longrightarrow> m w = (r, w') \<Longrightarrow> Q r (store w') \<and> faults_only w') \<Longrightarrow> rq m Q d"
  by (simp add: rq_def)

lemma rqD: "rq m Q (store w) \<Longrightarrow> faults_only w \<Longrightarrow> m w = (r, w') \<Longrightarrow> Q r (store w') \<and> faults_only w'"
  by (simp add: rq_def)

lemma rq_conseq: "rq m Q' d \<Longrightarrow> (\<And>r d. Q' r d \<Longrightarrow> Q r d) \<Longrightarrow> rq m Q d"
  unfolding rq_def by blast

lemma wp_rq: "wp m Q d \<Longrightarrow> rq m Q d"
proof (rule rqI)
  fix w r w' assume h: "wp m Q d" and w: "faults_only w" "store w = d" "m w = (r, w')"
  from tx_hoareD [OF h [unfolded wp_def] w(2,3)] faults_only_mono [OF w(1)]
  show "Q r (store w') \<and> faults_only w'" by blast
qed

lemma rq_ret [rqs]: "Q (Inr a) d \<Longrightarrow> rq (ret a) Q d"
  by (simp add: rq_def ret_def)

lemma rq_fail [rqs]: "Q (Inl e) d \<Longrightarrow> rq (fail e) Q d"
  by (simp add: rq_def fail_def)

lemma rq_bnd [rqs]:
  assumes "rq m (\<lambda>r d. case r of Inl e \<Rightarrow> R (Inl e) d | Inr a \<Rightarrow> rq (f a) R d) d"
  shows "rq (bnd m f) R d"
proof (rule rqI)
  fix w r w' assume w: "faults_only w" "store w = d" and run: "bnd m f w = (r, w')"
  note h = rqD [OF assms [folded w(2)] w(1)]
  from run show "R r (store w') \<and> faults_only w'"
  proof (cases rule: bnd_run)
    case (err e)
    with h [OF err(1)] show ?thesis by simp
  next
    case (ok a w1)
    with h [OF ok(1)] rqD [of "f a" R w1 r w'] show ?thesis by simp
  qed
qed

lemma rq_seq [rqs]:
  "rq m (\<lambda>r d. case r of Inl e \<Rightarrow> R (Inl e) d | Inr a \<Rightarrow> rq k R d) d \<Longrightarrow> rq (seq m k) R d"
  unfolding seq_def by (rule rq_bnd)

lemma rq_attempt [rqs]: "rq m (\<lambda>r. Q (Inr r)) d \<Longrightarrow> rq (attempt m) Q d"
  by (auto simp: rq_def attempt_def split: prod.splits)

lemma rq_wrap [rqs]:
  "rq m (\<lambda>r d. case r of Inl e \<Rightarrow> Q (Inl (Wrapf msg [e])) d | Inr a \<Rightarrow> Q (Inr a) d) d \<Longrightarrow> rq (wrap msg m) Q d"
proof (rule rqI)
  fix w r w'
  assume h: "rq m (\<lambda>r d. case r of Inl e \<Rightarrow> Q (Inl (Wrapf msg [e])) d | Inr a \<Rightarrow> Q (Inr a) d) d"
    and w: "faults_only w" "store w = d" and run: "wrap msg m w = (r, w')"
  from wrap_run [OF run] obtain r0 where m: "m w = (r0, w')" by blast
  from rqD [OF h [folded w(2)] w(1) m] run m show "Q r (store w') \<and> faults_only w'"
    by (cases r0) (auto simp: wrap_def)
qed

lemma rq_stmt [rqs]:
  assumes "Q (Inl ErrDatabase) d" and "case f d of (Inl e, d') \<Rightarrow> Q (Inl e) d | (Inr a, d') \<Rightarrow> Q (Inr a) d'"
  shows "rq (stmt ctx f) Q d"
proof (rule rqI)
  fix w r w' assume w: "faults_only w" "store w = d" and run: "stmt ctx f w = (r, w')"
  obtain ok w1 where ev: "next_event ctx w = (ok, w1)" by fastforce
  have "store w1 = d" "faults_only w1"
    using next_event_faults_only [OF w(1) ev] w next_event_sched [OF ev] faults_only_mono by auto
  with run ev assms show "Q r (store w') \<and> faults_only w'"
    by (auto simp: stmt_def faults_only_def split: if_splits prod.splits sum.splits)
qed

lemma rq_query [rqs]: "Q (Inl ErrDatabase) d \<Longrightarrow> Q (Inr (f d)) d \<Longrightarrow> rq (query ctx f) Q d"
  unfolding query_def by (rule rq_stmt) auto

lemma rq_exec [rqs]: "Q (Inl ErrDatabase) d \<Longrightarrow> Q (Inr ()) (f d) \<Longrightarrow> rq (exec ctx f) Q d"
  unfolding exec_def by (rule rq_stmt) auto

lemma rq_local: "local_prog m \<Longrightarrow> (\<And>r. Q r d) \<Longrightarrow> rq m Q d"
  using local_progD [of m] local_faults_only [of m] by (fastforce simp: rq_def)

lemma rq_now [rqs]: "(\<And>t. Q (Inr t) d) \<Longrightarrow> rq now Q d"
  by (auto simp: rq_def now_def Let_def faults_only_def)

lemma rq_draw [rqs]: "(\<And>r. Q r d) \<Longrightarrow> rq draw Q d"
  by (rule rq_local) (rule locals)

lemma rq_mail [rqs]: "(\<And>r. Q r d) \<Longrightarrow> rq (send_mail ctx m) Q d"
proof (rule rqI)
  fix w r w' assume q: "\<And>r. Q r d" and w: "faults_only w" "store w = d" and run: "send_mail ctx m w = (r, w')"
  obtain ok w1 where ev: "next_event ctx w = (ok, w1)" by fastforce
  have "store w1 = d" "faults_only w1"
    using next_event_faults_only [OF w(1) ev] w next_event_sched [OF ev] faults_only_mono by auto
  with run ev q show "Q r (store w') \<and> faults_only w'"
    by (auto simp: send_mail_def faults_only_def split: if_splits)
qed

text \<open>A transaction of its own: any failure, of the function or of the commit, leaves \<open>d\<close>.\<close>

lemma rq_WithTx:
  assumes "\<not> c_tx ctx" and "\<And>e. Q (Inl e) d"
    and "wp (fn (ctx\<lparr>c_tx := True\<rparr>)) (\<lambda>r d'. case r of Inl e \<Rightarrow> True | Inr a \<Rightarrow> Q (Inr a) d') d"
  shows "rq (WithTx ctx fn) Q d"
proof (rule rqI)
  fix w r w' assume w: "faults_only w" "store w = d" and run: "WithTx ctx fn w = (r, w')"
  from assms(3) w(2) have h: "tx_hoare (\<lambda>d. d = store w) (fn (ctx\<lparr>c_tx := True\<rparr>))
      (\<lambda>r d'. case r of Inl e \<Rightarrow> True | Inr a \<Rightarrow> Q (Inr a) d')" by (simp add: wp_def)
  from WithTx_faults_only [OF assms(1) run w(1) h] assms(2) w(2)
  show "Q r (store w') \<and> faults_only w'" by (cases r) auto
qed

lemma rq_run_if [rqs]: "(c \<Longrightarrow> rq m Q d) \<Longrightarrow> (\<not> c \<Longrightarrow> Q (Inr ()) d) \<Longrightarrow> rq (run_if c m) Q d"
  by (simp add: run_if_def rq_ret)

lemma rq_reject_if [rqs]:
  "(c \<Longrightarrow> Q (Inl e) d) \<Longrightarrow> (\<not> c \<Longrightarrow> Q (Inr ()) d) \<Longrightarrow> rq (reject_if c e) Q d"
  by (simp add: reject_if_def rq_ret rq_fail)

text \<open>Reading off a request: its result and final tables on a concrete world.\<close>

lemma rq_case:
  "rq m Q (store w) \<Longrightarrow> faults_only w \<Longrightarrow> case m w of (r, w') \<Rightarrow> Q r (store w')"
  by (auto simp: rq_def split: prod.split)

section \<open>Runs without faults\<close>

named_theorems quiet \<open>runs on an empty schedule\<close>

lemma next_event_quiet [quiet]: "sched w = [] \<Longrightarrow> next_event ctx w = (True, w)"
  by (simp add: next_event_def)

lemma stmt_quiet [quiet]:
  "sched w = [] \<Longrightarrow> stmt ctx f w =
     (case f (store w) of (Inl e, d) \<Rightarrow> (Inl e, w) | (Inr a, d) \<Rightarrow> (Inr a, w\<lparr>store := d\<rparr>))"
  by (simp add: stmt_def next_event_quiet)

lemma query_quiet [quiet]: "sched w = [] \<Longrightarrow> query ctx f w = (Inr (f (store w)), w)"
  by (simp add: query_def stmt_quiet)

lemma exec_quiet [quiet]: "sched w = [] \<Longrightarrow> exec ctx f w = (Inr (), w\<lparr>store := f (store w)\<rparr>)"
  by (simp add: exec_def stmt_quiet)

lemma sched_faults_only [simp]: "sched w = [] \<Longrightarrow> faults_only w"
  by (simp add: faults_only_def)

text \<open>A handler that is one transaction keeps what its transaction keeps.\<close>

lemma keeps_tx_handler:
  assumes "\<not> c_tx ctx"
    and "\<And>d. I d \<Longrightarrow> wp (WithTx (ctx\<lparr>c_tx := True\<rparr>) fn) (\<lambda>r d'. case r of Inl e \<Rightarrow> True | Inr a \<Rightarrow> I d') d"
  shows "keeps I (WithTx ctx fn)"
proof (rule keeps_WithTx [OF assms(1)], rule tx_hoare_wp)
  have "WithTx (ctx\<lparr>c_tx := True\<rparr>) fn = fn (ctx\<lparr>c_tx := True\<rparr>)" by (simp add: WithTx_def)
  then show "I d \<Longrightarrow> wp (fn (ctx\<lparr>c_tx := True\<rparr>)) (\<lambda>r d. case r of Inl e \<Rightarrow> True | Inr a \<Rightarrow> I d) d" for d
    using assms(2) [of d] by simp
qed

section \<open>Invariants of single statements\<close>

text \<open>Nothing to show when the code fails, \<open>P\<close> of the tables when it succeeds.\<close>

fun on_ok :: "('db \<Rightarrow> bool) \<Rightarrow> go_err + 'a \<Rightarrow> 'db \<Rightarrow> bool" where
  "on_ok P (Inl e) d = True"
| "on_ok P (Inr a) d = P d"

lemma on_ok_case: "(case r of Inl e \<Rightarrow> True | Inr a \<Rightarrow> P d) = on_ok P r d"
  by (cases r) simp_all

lemma on_okI: "P d \<Longrightarrow> on_ok P r d"
  by (cases r) simp_all

lemma rq_WithTx_ok:
  "\<not> c_tx ctx \<Longrightarrow> P d \<Longrightarrow> wp (fn (ctx\<lparr>c_tx := True\<rparr>)) (on_ok P) d \<Longrightarrow> rq (WithTx ctx fn) (\<lambda>_. P) d"
  by (rule rq_WithTx) (simp_all add: on_ok_case)

lemma keeps_tx_ok:
  "\<not> c_tx ctx \<Longrightarrow> (\<And>d. I d \<Longrightarrow> wp (WithTx (ctx\<lparr>c_tx := True\<rparr>) fn) (on_ok I) d) \<Longrightarrow> keeps I (WithTx ctx fn)"
  by (rule keeps_tx_handler) (simp_all add: on_ok_case)

text \<open>An invariant that every statement keeps is kept by a transaction of them, whichever way it ends.\<close>

lemma keeps_WithTx_all:
  assumes "\<And>c. keeps I (fn c)"
  shows "keeps I (WithTx ctx fn)"
proof (rule keepsI)
  fix w r w' assume w: "good I w" and run: "WithTx ctx fn w = (r, w')"
  show "good I w'"
  proof (cases "c_tx ctx")
    case True
    with run keepsD [OF assms w] show ?thesis by (simp add: WithTx_def)
  next
    case False
    obtain ok w1 where ev: "next_event ctx w = (ok, w1)" by fastforce
    note g1 = next_event_good [OF ev w]
    show ?thesis
    proof (cases ok)
      case False
      with \<open>\<not> c_tx ctx\<close> run ev g1 show ?thesis by (simp add: WithTx_def)
    next
      case True
      obtain r2 w2 where fn: "fn (ctx\<lparr>c_tx := True\<rparr>) w1 = (r2, w2)" by fastforce
      note g2 = keepsD [OF assms g1 fn]
      obtain ok3 w3 where ev3: "next_event (ctx\<lparr>c_tx := True\<rparr>) w2 = (ok3, w3)" by fastforce
      note g3 = next_event_good [OF ev3 g2]
      have roll: "good I w \<Longrightarrow> good I w2 \<Longrightarrow> good I (w2\<lparr>store := store w\<rparr>)" for w w2 by (simp add: good_def)
      from \<open>\<not> c_tx ctx\<close> True run ev fn ev3 g1 g2 g3 show ?thesis
        by (auto simp: WithTx_def roll split: sum.splits if_splits)
    qed
  qed
qed

lemma keeps_Savepoint:
  assumes "keeps I (fn ctx)"
  shows "keeps I (Savepoint ctx name fn)"
proof (cases "c_tx ctx")
  case True
  have step: "keeps I (bnd (wrap m (query ctx (\<lambda>d. d))) f)" if f: "\<And>s. I s \<Longrightarrow> keeps I (f s)" for f m
  proof (rule keepsI)
    fix w r w' assume w: "good I w" and run: "bnd (wrap m (query ctx (\<lambda>d. d))) f w = (r, w')"
    from run show "good I w'"
    proof (cases rule: bnd_run)
      case (err e)
      have "keeps I (wrap m (query ctx (\<lambda>d. d)))" by (intro keeps)
      from keepsD [OF this w err(1)] show ?thesis .
    next
      case (ok s w1)
      have "keeps I (wrap m (query ctx (\<lambda>d. d)))" by (intro keeps)
      from keepsD [OF this w ok(1)] have g: "good I w1" .
      from ok(1) have "s = store w1"
        by (auto simp: wrap_def query_def stmt_def split: prod.splits sum.splits if_splits)
      with g f have "keeps I (f s)" by (simp add: good_def)
      from keepsD [OF this g ok(2)] show ?thesis .
    qed
  qed
  show ?thesis
    unfolding Savepoint_def InTx_def using assms
    by (simp only: True not_True_eq_False if_False, intro step) (auto intro!: keeps keeps_exec split: sum.split)
qed (simp add: Savepoint_def InTx_def assms)

text \<open>A quiet world, for examples.\<close>

definition quiet_world :: "'db \<Rightarrow> 'db world" where
  "quiet_world d = \<lparr>store = d, sched = [], clock = 5, ticks = [], entropy = [], mailbox = []\<rparr>"

lemma quiet_world_simps [simp]: "store (quiet_world d) = d" "sched (quiet_world d) = []"
  by (simp_all add: quiet_world_def)

lemma faults_only_quiet_world [simp]: "faults_only (quiet_world d)"
  by (simp add: faults_only_def)

end
