(* ===== verification/Store.thy ===== *)
theory Store
  imports Effects
begin

text \<open>
  The tables of \<open>internal/schema/postgres.sql\<close> the modelled services read and write, as lists of
  rows, with the domain types of \<open>domain/user.go\<close>, \<open>domain/session.go\<close> and \<open>domain/org.go\<close>. A
  nullable column is an option. Not modelled: \<open>cache_version\<close> and the parsed user agent, which
  is derived from the stored string on every read. The combinators are the statement forms of
  the repositories: \<open>SELECT\<close> of one row, guarded \<open>UPDATE\<close> with its affected row count, \<open>DELETE\<close>.
\<close>

named_theorems table_simps \<open>facts about the statement forms\<close>

section \<open>Rows\<close>

record user =
  u_ID :: string
  u_Email :: string
  u_PasswordHash :: "string option"
  u_PepperVersion :: "nat option"
  u_Name :: string
  u_Role :: string
  u_IsVerified :: bool
  u_VerifiedAt :: "time option"
  u_IsBanned :: bool
  u_BannedAt :: "time option"
  u_TwoFactorEnabled :: bool
  u_LastLoginAt :: "time option"
  u_OrgOwnerCount :: int
  u_CreatedAt :: time
  u_UpdatedAt :: time

definition HasPassword :: "user \<Rightarrow> bool" where
  "HasPassword u \<longleftrightarrow> u_PasswordHash u \<noteq> None"

record session =
  s_ID :: string
  s_UserID :: string
  s_TokenHash :: string
  s_RefreshTokenHash :: string
  s_PreviousRefreshHash :: string
  s_IP :: string
  s_UserAgent :: string
  s_IsRevoked :: bool
  s_ExpiresAt :: time
  s_RefreshExpiresAt :: time
  s_RefreshRotatedAt :: "time option"
  s_CreatedAt :: time
  s_RevokedAt :: "time option"
  s_LastActiveAt :: time
  s_TwoFactorVerifiedAt :: "time option"
  s_ActiveOrgID :: "string option"
  s_ActiveOrgRole :: "string option"

datatype token_type =
    TokenVerifyEmail | TokenResetPass | TokenSetPass | TokenInviteVerify | TokenOAuthState
  | TokenDeleteAccount | TokenTwoFactor | TokenTwoFactorEnable | TokenTwoFactorDisable

record token =
  t_ID :: string
  t_UserID :: "string option"
  t_Email :: string
  t_TokenHash :: string
  t_Type :: token_type
  t_ExpiresAt :: time
  t_UsedAt :: "time option"
  t_CreatedAt :: time
  t_CodeVerifier :: "string option"
  t_Attempts :: int
  t_ResendCount :: int
  t_ContextHash :: string
  t_EncryptedPayload :: string

datatype org_role = Owner | OrgAdmin | Member

record org =
  o_ID :: string
  o_Name :: string
  o_Slug :: string
  o_CreatedBy :: "string option"
  o_OwnerCount :: int
  o_MemberCount :: int
  o_CreatedAt :: time
  o_UpdatedAt :: time

record org_member =
  m_OrgID :: string
  m_UserID :: string
  m_Role :: org_role
  m_JoinedAt :: time

datatype invite_status = InvitePending | InviteAccepted | InviteRevoked | InviteExpired

record invite =
  i_ID :: string
  i_Email :: string
  i_Code :: string
  i_CreatedBy :: string
  i_Status :: invite_status
  i_ExpiresAt :: time
  i_AcceptedAt :: "time option"
  i_CreatedAt :: time

record org_invite =
  oi_ID :: string
  oi_OrgID :: string
  oi_Email :: string
  oi_Role :: org_role
  oi_CodeHash :: string
  oi_InvitedBy :: string
  oi_ExpiresAt :: time
  oi_CreatedAt :: time

record email_change =
  ec_UserID :: string
  ec_ID :: string
  ec_SessionID :: string
  ec_Scope :: string
  ec_CurrentEmail :: string
  ec_NewEmail :: string
  ec_CurrentCodeHash :: string
  ec_NewCodeHash :: string
  ec_IdentityHash :: string
  ec_Status :: string
  ec_CreatedAt :: time
  ec_ExpiresAt :: time
  ec_BudgetStartedAt :: time
  ec_CurrentSentAt :: time
  ec_NewSentAt :: time
  ec_Starts :: int
  ec_Attempts :: int
  ec_CurrentResends :: int
  ec_NewResends :: int

text \<open>The instants of a recovery request are whole seconds of Unix time.\<close>

datatype recovery_kind = RecoveryEmailChanged | RecoveryPasswordReset | RecoveryVerification

record recovery_row =
  rr_ID :: string
  rr_Kind :: recovery_kind
  rr_Email :: string
  rr_Attempts :: int
  rr_AvailableAt :: int
  rr_LeaseUntil :: int
  rr_ClaimOwner :: string
  rr_DeadLettered :: bool
  rr_CreatedAt :: int

record provider_account =
  pa_ID :: string
  pa_UserID :: string
  pa_Provider :: string
  pa_ProviderUserID :: string
  pa_ProviderEmail :: string
  pa_ProviderName :: string
  pa_AvatarURL :: string
  pa_AccessToken :: "string option"
  pa_RefreshToken :: "string option"
  pa_TokenExpiresAt :: "time option"
  pa_CreatedAt :: time
  pa_UpdatedAt :: time

record audit_event =
  e_Type :: string
  e_Actor :: string
  e_Ref :: string

record tables =
  users :: "user list"
  sessions :: "session list"
  tokens :: "token list"
  orgs :: "org list"
  members :: "org_member list"
  audit_log :: "audit_event list"
  audit_outbox :: "audit_event list"
  invites :: "invite list"
  org_invites :: "org_invite list"
  email_changes :: "email_change list"
  recoveries :: "recovery_row list"
  providers :: "provider_account list"

type_synonym 'a action = "(tables, 'a) prog"

section \<open>Statement forms\<close>

text \<open>\<open>SELECT ... WHERE P\<close> read into one row: the first, or no row.\<close>

definition select1 :: "('r \<Rightarrow> bool) \<Rightarrow> 'r list \<Rightarrow> 'r option" where
  "select1 P rows = List.find P rows"

definition update_where :: "('r \<Rightarrow> bool) \<Rightarrow> ('r \<Rightarrow> 'r) \<Rightarrow> 'r list \<Rightarrow> 'r list" where
  "update_where P f rows = map (\<lambda>r. if P r then f r else r) rows"

definition count_where :: "('r \<Rightarrow> bool) \<Rightarrow> 'r list \<Rightarrow> nat" where
  "count_where P rows = length (filter P rows)"

definition delete_where :: "('r \<Rightarrow> bool) \<Rightarrow> 'r list \<Rightarrow> 'r list" where
  "delete_where P rows = filter (\<lambda>r. \<not> P r) rows"

text \<open>Storing a table back.\<close>

definition put_users :: "user list \<Rightarrow> tables \<Rightarrow> tables" where
  "put_users rows d = d\<lparr>users := rows\<rparr>"

definition put_orgs :: "org list \<Rightarrow> tables \<Rightarrow> tables" where
  "put_orgs rows d = d\<lparr>orgs := rows\<rparr>"

definition put_members :: "org_member list \<Rightarrow> tables \<Rightarrow> tables" where
  "put_members rows d = d\<lparr>members := rows\<rparr>"

definition put_invites :: "invite list \<Rightarrow> tables \<Rightarrow> tables" where
  "put_invites rows d = d\<lparr>invites := rows\<rparr>"

definition put_org_invites :: "org_invite list \<Rightarrow> tables \<Rightarrow> tables" where
  "put_org_invites rows d = d\<lparr>org_invites := rows\<rparr>"

definition put_email_changes :: "email_change list \<Rightarrow> tables \<Rightarrow> tables" where
  "put_email_changes rows d = d\<lparr>email_changes := rows\<rparr>"

definition put_recoveries :: "recovery_row list \<Rightarrow> tables \<Rightarrow> tables" where
  "put_recoveries rows d = d\<lparr>recoveries := rows\<rparr>"

definition put_providers :: "provider_account list \<Rightarrow> tables \<Rightarrow> tables" where
  "put_providers rows d = d\<lparr>providers := rows\<rparr>"

text \<open>Writing one of these tables leaves the others.\<close>

lemma put_invites_select [simp]:
  "users (put_invites x d) = users d" "sessions (put_invites x d) = sessions d" "tokens (put_invites x d) = tokens d"
  "orgs (put_invites x d) = orgs d" "members (put_invites x d) = members d" "invites (put_invites x d) = x"
  "org_invites (put_invites x d) = org_invites d" "email_changes (put_invites x d) = email_changes d"
  "recoveries (put_invites x d) = recoveries d" "providers (put_invites x d) = providers d"
  by (simp_all add: put_invites_def)

lemma put_org_invites_select [simp]:
  "users (put_org_invites x d) = users d" "sessions (put_org_invites x d) = sessions d"
  "tokens (put_org_invites x d) = tokens d" "orgs (put_org_invites x d) = orgs d"
  "members (put_org_invites x d) = members d" "invites (put_org_invites x d) = invites d"
  "org_invites (put_org_invites x d) = x" "email_changes (put_org_invites x d) = email_changes d"
  "recoveries (put_org_invites x d) = recoveries d" "providers (put_org_invites x d) = providers d"
  by (simp_all add: put_org_invites_def)

lemma put_email_changes_select [simp]:
  "users (put_email_changes x d) = users d" "sessions (put_email_changes x d) = sessions d"
  "tokens (put_email_changes x d) = tokens d" "orgs (put_email_changes x d) = orgs d"
  "members (put_email_changes x d) = members d" "invites (put_email_changes x d) = invites d"
  "org_invites (put_email_changes x d) = org_invites d" "email_changes (put_email_changes x d) = x"
  "recoveries (put_email_changes x d) = recoveries d" "providers (put_email_changes x d) = providers d"
  by (simp_all add: put_email_changes_def)

lemma put_recoveries_select [simp]:
  "users (put_recoveries x d) = users d" "sessions (put_recoveries x d) = sessions d"
  "tokens (put_recoveries x d) = tokens d" "orgs (put_recoveries x d) = orgs d"
  "members (put_recoveries x d) = members d" "invites (put_recoveries x d) = invites d"
  "org_invites (put_recoveries x d) = org_invites d" "email_changes (put_recoveries x d) = email_changes d"
  "recoveries (put_recoveries x d) = x" "providers (put_recoveries x d) = providers d"
  by (simp_all add: put_recoveries_def)

lemma put_providers_select [simp]:
  "users (put_providers x d) = users d" "sessions (put_providers x d) = sessions d"
  "tokens (put_providers x d) = tokens d" "orgs (put_providers x d) = orgs d"
  "members (put_providers x d) = members d" "invites (put_providers x d) = invites d"
  "org_invites (put_providers x d) = org_invites d" "email_changes (put_providers x d) = email_changes d"
  "recoveries (put_providers x d) = recoveries d" "providers (put_providers x d) = x"
  by (simp_all add: put_providers_def)

lemma select1_Some: "select1 P rows = Some r \<Longrightarrow> r \<in> set rows \<and> P r"
  by (auto simp: select1_def find_Some_iff)

lemma select1_None: "select1 P rows = None \<longleftrightarrow> (\<forall>r \<in> set rows. \<not> P r)"
  by (auto simp: select1_def find_None_iff)

lemma select1_ex: "r \<in> set rows \<Longrightarrow> P r \<Longrightarrow> \<exists>r'. select1 P rows = Some r'"
  using select1_None [of P rows] by (cases "select1 P rows") auto

lemma select1_snoc: "(\<And>x. x \<in> set xs \<Longrightarrow> \<not> P x) \<Longrightarrow> P s \<Longrightarrow> select1 P (xs @ [s]) = Some s"
  by (induction xs) (auto simp: select1_def)

lemma count_where_0 [table_simps]: "count_where P rows = 0 \<longleftrightarrow> (\<forall>r \<in> set rows. \<not> P r)"
  by (auto simp: count_where_def filter_empty_conv)

lemma update_where_id [table_simps]: "(\<And>r. r \<in> set rows \<Longrightarrow> \<not> P r) \<Longrightarrow> update_where P f rows = rows"
  by (auto simp: update_where_def intro: map_idI)

lemma set_update_where: "set (update_where P f rows) = (\<lambda>r. if P r then f r else r) ` set rows"
  by (simp add: update_where_def)

lemma set_delete_where [table_simps]: "set (delete_where P rows) = {r \<in> set rows. \<not> P r}"
  by (auto simp: delete_where_def)

lemma map_update_where:
  "(\<And>r. P r \<Longrightarrow> k (f r) = k r) \<Longrightarrow> map k (update_where P f rows) = map k rows"
  by (auto simp: update_where_def)

lemma distinct_map_delete_where: "distinct (map k rows) \<Longrightarrow> distinct (map k (delete_where P rows))"
  by (auto simp: delete_where_def distinct_map_filter)

lemma count_update_where:
  "(\<And>r. P r \<Longrightarrow> Q (f r) = Q r) \<Longrightarrow> count_where Q (update_where P f rows) = count_where Q rows"
  by (induction rows) (auto simp: update_where_def count_where_def)

lemma count_delete_where:
  "count_where Q (delete_where P rows) = count_where (\<lambda>r. Q r \<and> \<not> P r) rows"
  by (induction rows) (auto simp: delete_where_def count_where_def)

lemma count_where_mono: "(\<And>r. r \<in> set rows \<Longrightarrow> P r \<Longrightarrow> Q r) \<Longrightarrow> count_where P rows \<le> count_where Q rows"
  unfolding count_where_def by (rule filter_length_mono)

lemma count_where_snoc: "count_where P (rows @ [r]) = count_where P rows + (if P r then 1 else 0)"
  by (simp add: count_where_def)

text \<open>Rows with a key: at most one row has a given key value.\<close>

lemma keyed_unique:
  "distinct (map k rows) \<Longrightarrow> r \<in> set rows \<Longrightarrow> r' \<in> set rows \<Longrightarrow> k r = k r' \<Longrightarrow> r = r'"
  by (auto simp: distinct_map inj_on_def)

lemma keyed_select1:
  assumes "distinct (map k rows)" and "r \<in> set rows" and "k r = v"
  shows "select1 (\<lambda>r. k r = v) rows = Some r"
proof -
  obtain r' where r': "select1 (\<lambda>r. k r = v) rows = Some r'"
    using select1_ex [OF assms(2), of "\<lambda>r. k r = v"] assms(3) by blast
  then have "r' \<in> set rows" "k r' = v" using select1_Some by force+
  then have "r = r'" using keyed_unique [OF assms(1,2)] assms(3) by simp
  with r' show ?thesis by simp
qed

lemma keyed_count_le1: "distinct (map k rows) \<Longrightarrow> count_where (\<lambda>r. k r = v) rows \<le> 1"
proof (induction rows)
  case (Cons a rows)
  show ?case
  proof (cases "k a = v")
    case True
    with Cons.prems have "filter (\<lambda>r. k r = v) rows = []" by (simp add: filter_empty_conv) (metis imageI)
    with True show ?thesis by (simp add: count_where_def)
  next
    case False
    with Cons show ?thesis by (simp add: count_where_def)
  qed
qed (simp add: count_where_def)

section \<open>Guarded statements\<close>

text \<open>\<open>affected\<close> of \<open>internal/sqlstore/token_repo.go\<close>: a guarded update and whether it touched a row.\<close>

definition affected ::
  "ctx \<Rightarrow> (tables \<Rightarrow> 'r list) \<Rightarrow> ('r list \<Rightarrow> tables \<Rightarrow> tables) \<Rightarrow> ('r \<Rightarrow> bool) \<Rightarrow> ('r \<Rightarrow> 'r) \<Rightarrow> bool action" where
  "affected ctx get put P f =
     stmt ctx (\<lambda>d. (Inr (0 < count_where P (get d)), put (update_where P f (get d)) d))"

lemma txh_affected:
  assumes "c_tx ctx" and "\<And>d. P d \<Longrightarrow> Q (Inl ErrDatabase) d"
    and "\<And>d. P d \<Longrightarrow> Q (Inr (0 < count_where G (get d))) (put (update_where G f (get d)) d)"
  shows "tx_hoare P (affected ctx get put G f) Q"
  unfolding affected_def by (rule txh_stmt) (use assms in auto)

lemma keeps_affected:
  "(\<And>d. I d \<Longrightarrow> I (put (update_where G f (get d)) d)) \<Longrightarrow> keeps I (affected ctx get put G f)"
  unfolding affected_def by (rule keeps_stmt) auto

lemma wp_affected [wps]:
  "c_tx ctx \<Longrightarrow> Q (Inl ErrDatabase) d \<Longrightarrow>
   Q (Inr (0 < count_where G (get d))) (put (update_where G f (get d)) d) \<Longrightarrow> wp (affected ctx get put G f) Q d"
  unfolding wp_def by (rule txh_affected) auto

text \<open>A user row for examples.\<close>

definition user_ex :: user where
  "user_ex = \<lparr>u_ID = ''u1'', u_Email = ''a@b.c'', u_PasswordHash = None, u_PepperVersion = None, u_Name = '''',
     u_Role = ''user'', u_IsVerified = True, u_VerifiedAt = None, u_IsBanned = False, u_BannedAt = None,
     u_TwoFactorEnabled = False, u_LastLoginAt = None, u_OrgOwnerCount = 0, u_CreatedAt = 1, u_UpdatedAt = 1\<rparr>"

definition tables_of :: "user list \<Rightarrow> token list \<Rightarrow> tables" where
  "tables_of us ts = \<lparr>users = us, sessions = [], tokens = ts, orgs = [], members = [], audit_log = [], audit_outbox = [],
     invites = [], org_invites = [], email_changes = [], recoveries = [], providers = []\<rparr>"

end
