(* ===== verification/AuditRecord.thy ===== *)
theory AuditRecord
  imports Store
begin

text \<open>
  \<open>audit/record.go\<close>: writing an audit event in the transaction of the operation it records. The
  configuration says which event types are fail-closed and whether external sinks exist; the
  counters, the log and the process-local sinks are not modelled.
\<close>

record audit_service =
  a_enabled :: bool
  a_recordStore :: bool
  a_outbox :: bool
  a_deliverySinks :: bool
  a_failClosed :: "string \<Rightarrow> bool"

definition insert_record :: "ctx \<Rightarrow> audit_event \<Rightarrow> unit action" where
  "insert_record ctx event = exec ctx (\<lambda>d. d\<lparr>audit_log := audit_log d @ [event]\<rparr>)"

definition insert_outbox :: "ctx \<Rightarrow> audit_event \<Rightarrow> unit action" where
  "insert_outbox ctx event = exec ctx (\<lambda>d. d\<lparr>audit_outbox := audit_outbox d @ [event]\<rparr>)"

definition Record :: "audit_service \<Rightarrow> ctx \<Rightarrow> audit_event \<Rightarrow> unit action" where
  "Record a ctx event =
     (if \<not> a_enabled a then ret ()
      else let closed = a_failClosed a (e_Type event) \<and> InTx ctx
      in if \<not> a_recordStore a then ret ()
      else bnd (attempt (Savepoint ctx ''audit_record'' (\<lambda>sp. insert_record sp event))) (\<lambda>recordErr.
        case recordErr of
          Inl _ \<Rightarrow> if closed then fail ErrRecordBlocked else ret ()
        | Inr _ \<Rightarrow>
            if \<not> a_deliverySinks a then ret ()
            else bnd (if \<not> a_outbox a then ret (Inl (Sentinel ''audit: outbox store is not configured''))
                      else attempt (Savepoint ctx ''audit_deliver'' (\<lambda>sp. insert_outbox sp event))) (\<lambda>outboxErr.
              case outboxErr of
                Inl _ \<Rightarrow> if closed then fail ErrRecordBlocked else ret ()
              | Inr _ \<Rightarrow> ret ())))"

text \<open>\<open>s.audit != nil\<close>: a service may have no publisher.\<close>

definition publish :: "audit_service option \<Rightarrow> ctx \<Rightarrow> audit_event \<Rightarrow> unit action" where
  "publish a ctx event = (case a of None \<Rightarrow> ret () | Some s \<Rightarrow> Record s ctx event)"

text \<open>Auditing touches the audit tables only.\<close>

definition same_but_audit :: "tables \<Rightarrow> tables \<Rightarrow> bool" where
  "same_but_audit d d' \<longleftrightarrow> (\<exists>l q. d' = d\<lparr>audit_log := l, audit_outbox := q\<rparr>)"

lemma same_but_audit_simps [simp]:
  "same_but_audit s s" "same_but_audit s (s\<lparr>audit_log := l\<rparr>)" "same_but_audit s (s\<lparr>audit_outbox := q\<rparr>)"
  "same_but_audit s (s\<lparr>audit_log := l, audit_outbox := q\<rparr>)"
  unfolding same_but_audit_def by (cases s; simp)+

definition audit_closed :: "(tables \<Rightarrow> bool) \<Rightarrow> bool" where
  "audit_closed P \<longleftrightarrow> (\<forall>d l q. P d \<longrightarrow> P (d\<lparr>audit_log := l, audit_outbox := q\<rparr>))"

lemma audit_closedD: "audit_closed P \<Longrightarrow> P d \<Longrightarrow> P (d\<lparr>audit_log := l\<rparr>)"
  "audit_closed P \<Longrightarrow> P d \<Longrightarrow> P (d\<lparr>audit_outbox := q\<rparr>)"
proof -
  assume h: "audit_closed P" "P d"
  from h have "P (d\<lparr>audit_log := l, audit_outbox := audit_outbox d\<rparr>)" unfolding audit_closed_def by blast
  then show "P (d\<lparr>audit_log := l\<rparr>)" by simp
  from h have "P (d\<lparr>audit_log := audit_log d, audit_outbox := q\<rparr>)" unfolding audit_closed_def by blast
  then show "P (d\<lparr>audit_outbox := q\<rparr>)" by simp
qed

section \<open>The savepoint\<close>

lemma txh_Savepoint_exec:
  assumes "c_tx ctx"
  shows "tx_hoare (\<lambda>d. d = s) (Savepoint ctx name (\<lambda>sp. exec sp f))
           (\<lambda>r d. case r of Inl _ \<Rightarrow> d = s \<or> d = f s | Inr _ \<Rightarrow> d = f s)"
  using assms unfolding Savepoint_def InTx_def
  apply simp
  apply (rule txh_bnd [where Q = "\<lambda>a d. d = s \<and> a = s"])
   apply (rule txh_wrap, rule txh_query; simp)
  apply (rule txh_bnd [where Q = "\<lambda>r d. a = s \<and> (case r of Inl _ \<Rightarrow> d = s | Inr _ \<Rightarrow> d = f s)" for a])
   apply (rule txh_attempt, rule txh_exec; simp)
  subgoal for saved r
    apply (cases r; simp)
     apply (rule txh_bnd [where Q = "\<lambda>r2 d. d = s"])
      apply (rule txh_attempt, rule txh_exec; simp)
     apply (simp split: sum.split add: txh_fail)
    apply (rule txh_wrap, rule txh_query; simp)
    done
  done

lemma Savepoint_no_tx: "\<not> c_tx ctx \<Longrightarrow> Savepoint ctx name fn = fn ctx"
  by (simp add: Savepoint_def InTx_def)

section \<open>Recording in a transaction\<close>

text \<open>What a record did to the tables: everything, the record only, or nothing.\<close>

definition recorded :: "audit_service \<Rightarrow> audit_event \<Rightarrow> tables \<Rightarrow> tables \<Rightarrow> bool" where
  "recorded a ev s d \<longleftrightarrow>
     (if a_enabled a \<and> a_recordStore a
      then if a_deliverySinks a then d = s\<lparr>audit_log := audit_log s @ [ev], audit_outbox := audit_outbox s @ [ev]\<rparr>
           else d = s\<lparr>audit_log := audit_log s @ [ev]\<rparr>
      else d = s)"

lemma txh_Record:
  assumes "c_tx ctx"
  shows "tx_hoare (\<lambda>d. d = s) (Record a ctx ev)
     (\<lambda>r d. same_but_audit s d \<and>
        (if a_enabled a \<and> a_failClosed a (e_Type ev)
         then case r of Inl e \<Rightarrow> e = ErrRecordBlocked | Inr _ \<Rightarrow> recorded a ev s d
         else r = Inr ()))"
    (is "tx_hoare _ _ ?R")
proof -
  let ?log = "\<lambda>d. d\<lparr>audit_log := audit_log d @ [ev]\<rparr>"
  let ?out = "\<lambda>d. d\<lparr>audit_outbox := audit_outbox d @ [ev]\<rparr>"
  have outbox: "tx_hoare (\<lambda>d. d = ?log s)
      (bnd (if \<not> a_outbox a then ret (Inl (Sentinel m)) else attempt (Savepoint ctx n (\<lambda>sp. insert_outbox sp ev)))
        (\<lambda>r. case r of Inl _ \<Rightarrow> if a_failClosed a (e_Type ev) then fail ErrRecordBlocked else ret ()
                     | Inr _ \<Rightarrow> ret ())) ?R" if "a_enabled a" "a_recordStore a" "a_deliverySinks a" for m n
    apply (rule txh_bnd [where Q = "\<lambda>r d. case r of Inl _ \<Rightarrow> d = ?log s \<or> d = ?out (?log s) | Inr _ \<Rightarrow> d = ?out (?log s)"])
     apply (cases "a_outbox a")
      apply (simp add: insert_outbox_def)
      apply (rule txh_attempt, rule txh_conseq [OF txh_Savepoint_exec [OF assms]])
       apply simp
      apply (simp split: sum.splits)
     apply (simp add: txh_ret)
    subgoal for r
      using that by (cases r) (auto intro!: txh_fail txh_ret simp: recorded_def)
    done
  show ?thesis
  proof (cases "a_enabled a \<and> a_recordStore a")
    case False
    then show ?thesis
      by (auto simp: Record_def Let_def recorded_def intro!: txh_ret)
  next
    case True
    then show ?thesis
      apply (simp only: Record_def Let_def InTx_def assms simp_thms if_True if_False not_True_eq_False)
      apply (rule txh_bnd [where Q = "\<lambda>r d. case r of Inl _ \<Rightarrow> d = s \<or> d = ?log s | Inr _ \<Rightarrow> d = ?log s"])
       apply (simp only: insert_record_def)
       apply (rule txh_attempt, rule txh_conseq [OF txh_Savepoint_exec [OF assms]])
        apply simp
       apply (simp split: sum.splits)
      subgoal for r
        apply (cases r)
         apply (auto intro!: txh_fail txh_ret)[1]
        apply (cases "a_deliverySinks a")
         apply (use outbox in simp)[1]
        apply (auto intro!: txh_ret simp: recorded_def)
        done
      done
  qed
qed

lemma txh_publish:
  assumes "c_tx ctx" and "\<And>s d r. P s \<Longrightarrow> same_but_audit s d \<Longrightarrow> Q r d"
  shows "tx_hoare P (publish a ctx ev) Q"
proof (cases a)
  case None
  then show ?thesis using assms(2) by (auto simp: publish_def intro!: txh_ret)
next
  case (Some s)
  show ?thesis
    by (rule tx_hoareI)
      (use tx_hoareD [OF txh_Record [OF assms(1)] refl] assms(2) Some in \<open>fastforce simp: publish_def\<close>)
qed

lemma wp_publish [wps]:
  "c_tx ctx \<Longrightarrow> (\<And>r d'. same_but_audit d d' \<Longrightarrow> Q r d') \<Longrightarrow> wp (publish a ctx ev) Q d"
  unfolding wp_def by (rule txh_publish) auto

lemma keeps_publish:
  assumes "audit_closed I"
  shows "keeps I (publish a ctx ev)"
  unfolding publish_def Record_def insert_record_def insert_outbox_def Let_def
  by (auto intro!: keeps keeps_Savepoint keeps_exec audit_closedD [OF assms] split: option.split sum.split)

lemma audit_closed_same: "audit_closed P \<Longrightarrow> P s \<Longrightarrow> same_but_audit s d \<Longrightarrow> P d"
  by (auto simp: audit_closed_def same_but_audit_def)

section \<open>Properties\<close>

text \<open>C6: A fail-closed audit event is recorded exactly when the operation commits: an operation
  that writes in a transaction and records the event there either succeeds with the record (and
  its delivery obligation, when an external sink exists) in the same commit, or fails and leaves
  the tables as they were, whatever statement fails.\<close>

theorem record_iff_commit:
  assumes "\<not> c_tx ctx" and "a_enabled a" and "a_failClosed a (e_Type ev)"
    and "WithTx ctx (\<lambda>tx. seq (exec tx f) (Record a tx ev)) w = (r, w')"
  shows "\<exists>ok w1. next_event ctx w = (ok, w1) \<and>
     (case r of Inl e \<Rightarrow> store w' = store w1 | Inr _ \<Rightarrow> recorded a ev (f (store w1)) (store w'))"
proof -
  have h: "True \<Longrightarrow> tx_hoare (\<lambda>d. d = d0) (seq (exec (ctx\<lparr>c_tx := True\<rparr>) f) (Record a (ctx\<lparr>c_tx := True\<rparr>) ev))
      (\<lambda>r d. case r of Inl _ \<Rightarrow> True | Inr _ \<Rightarrow> recorded a ev (f d0) d)" for d0
    apply (rule txh_seq [where Q = "\<lambda>d. d = f d0"])
     apply (rule txh_exec; simp)
    apply (rule txh_conseq [OF txh_Record])
      apply simp_all
    apply (use assms(2,3) in \<open>auto split: sum.splits\<close>)
    done
  from assms(1,4) _ h show ?thesis
    by (rule WithTx_run) (auto split: sum.splits)
qed

text \<open>Auditing that is not fail-closed, or runs outside a transaction, never fails the operation it
  records.\<close>

theorem fail_open_never_blocks:
  assumes "\<not> a_failClosed a (e_Type ev) \<or> \<not> c_tx ctx"
  shows "fst (Record a ctx ev w) = Inr ()"
proof (cases "c_tx ctx")
  case True
  obtain r w' where run: "Record a ctx ev w = (r, w')" by fastforce
  from tx_hoareD [OF txh_Record [OF True] refl run] assms True run show ?thesis by simp
next
  case False
  then show ?thesis
    by (auto simp: Record_def Let_def InTx_def effect_defs split: sum.split prod.split)
qed

lemma audit_closed_same_but_audit: "audit_closed (same_but_audit s)"
  by (auto simp: audit_closed_def same_but_audit_def) (cases s; simp)+

lemma publish_faults_only:
  "\<not> c_tx ctx \<Longrightarrow> faults_only w \<Longrightarrow> publish a ctx ev w = (r, w') \<Longrightarrow> same_but_audit (store w) (store w')"
  by (rule keeps_faults_only [OF keeps_publish [OF audit_closed_same_but_audit]]) auto

lemma rq_publish [rqs]:
  assumes "\<And>r d'. same_but_audit d d' \<Longrightarrow> Q r d'"
  shows "rq (publish a ctx ev) Q d"
proof (cases "c_tx ctx")
  case True
  then show ?thesis by (intro wp_rq wp_publish assms)
next
  case False
  then show ?thesis
    unfolding publish_def Record_def Let_def insert_record_def insert_outbox_def
    by (auto simp: Savepoint_no_tx intro!: rqs assms split: option.split sum.split)
qed

section \<open>Witnesses\<close>

definition audit_ex :: audit_service where
  "audit_ex = \<lparr>a_enabled = True, a_recordStore = True, a_outbox = True, a_deliverySinks = True,
     a_failClosed = (\<lambda>t. t = ''user.deleted'')\<rparr>"

definition event_ex :: audit_event where
  "event_ex = \<lparr>e_Type = ''user.deleted'', e_Actor = ''u1'', e_Ref = ''u2''\<rparr>"

text \<open>The schedule: begin, the write, the savepoint, then the insert of the record fails.\<close>

definition audit_world :: "tables event list \<Rightarrow> tables world" where
  "audit_world es = (quiet_world (tables_of [user_ex] []))\<lparr>sched := es\<rparr>"

theorem record_iff_commit_witness:
  "(case WithTx request_ctx (\<lambda>tx. seq (exec tx (put_users [])) (Record audit_ex tx event_ex)) (audit_world []) of
      (r, w') \<Rightarrow> r = Inr () \<and> recorded audit_ex event_ex (put_users [] (tables_of [user_ex] [])) (store w')) \<and>
   (case WithTx request_ctx (\<lambda>tx. seq (exec tx (put_users [])) (Record audit_ex tx event_ex))
           (audit_world [Quiet, Quiet, Quiet, Fault]) of
      (r, w') \<Rightarrow> r = Inl ErrRecordBlocked \<and> store w' = tables_of [user_ex] [])"
proof -
  let ?m = "WithTx request_ctx (\<lambda>tx. seq (exec tx (put_users [])) (Record audit_ex tx event_ex))"
  have *: "a_enabled audit_ex" "a_failClosed audit_ex (e_Type event_ex)"
    by (simp_all add: audit_ex_def event_ex_def)
  have res: "fst (?m (audit_world [])) = Inr ()" "fst (?m (audit_world [Quiet, Quiet, Quiet, Fault])) = Inl ErrRecordBlocked"
    by code_simp+
  obtain w1 where run1: "?m (audit_world []) = (Inr (), w1)" using res(1) by (cases "?m (audit_world [])") auto
  obtain w2 where run2: "?m (audit_world [Quiet, Quiet, Quiet, Fault]) = (Inl ErrRecordBlocked, w2)"
    using res(2) by (cases "?m (audit_world [Quiet, Quiet, Quiet, Fault])") auto
  from record_iff_commit [OF _ * run1] record_iff_commit [OF _ * run2]
  have "recorded audit_ex event_ex (put_users [] (tables_of [user_ex] [])) (store w1)" "store w2 = tables_of [user_ex] []"
    by (auto simp: audit_world_def next_event_def)
  then show ?thesis unfolding run1 run2 by simp
qed

theorem fail_open_never_blocks_witness:
  "fst (Record audit_ex request_ctx event_ex (audit_world [Fault, Fault])) = Inr ()"
  by (rule fail_open_never_blocks) simp

end
