(* ===== verification/Sha256.thy ===== *)
theory Sha256
  imports Prelude "HOL-Library.Word"
begin

text \<open>
  The digests of Go's standard library the source uses: \<open>crypto/sha256\<close> (FIPS 180-4),
  \<open>crypto/hmac\<close> (RFC 2104) and \<open>encoding/hex\<close>, over strings as lists of bytes.
\<close>

unbundle bit_operations_syntax

section \<open>Constants\<close>

text \<open>The constants are the first 32 bits of the fractional parts of the cube roots of the first 64
  primes, and of the square roots of the first eight. \<open>root_bits k n b r\<close> is the integer \<open>k\<close>th root
  of \<open>n\<close> by its bits below \<open>2^b\<close>, added to \<open>r\<close>.\<close>

fun root_bits :: "nat \<Rightarrow> nat \<Rightarrow> nat \<Rightarrow> nat \<Rightarrow> nat" where
  "root_bits k n 0 r = r"
| "root_bits k n (Suc b) r = (if (r + 2 ^ b) ^ k \<le> n then root_bits k n b (r + 2 ^ b) else root_bits k n b r)"

definition small_prime :: "nat \<Rightarrow> bool" where
  "small_prime p \<longleftrightarrow> list_all (\<lambda>q. p mod q \<noteq> 0) [2..<p]"

definition primes_256 :: "nat list" where
  "primes_256 = take 64 (filter small_prime [2..<312])"

definition K256 :: "32 word list" where
  "K256 = map (\<lambda>p. of_nat (root_bits 3 (p * 2 ^ 96) 36 0)) primes_256"

type_synonym sha_state = "32 word \<times> 32 word \<times> 32 word \<times> 32 word \<times> 32 word \<times> 32 word \<times> 32 word \<times> 32 word"

definition H256 :: sha_state where
  "H256 = (case map (\<lambda>p. of_nat (root_bits 2 (p * 2 ^ 64) 36 0)) (take 8 primes_256) of
     [a, b, c, d, e, f, g, h] \<Rightarrow> (a, b, c, d, e, f, g, h) | _ \<Rightarrow> (0, 0, 0, 0, 0, 0, 0, 0))"

section \<open>Padding and blocks\<close>

fun be_bytes :: "nat \<Rightarrow> nat \<Rightarrow> nat list" where
  "be_bytes 0 n = []"
| "be_bytes (Suc k) n = be_bytes k (n div 256) @ [n mod 256]"

definition pad_message :: "nat list \<Rightarrow> nat list" where
  "pad_message m = m @ 128 # replicate ((119 - length m mod 64) mod 64) 0 @ be_bytes 8 (8 * length m)"

fun words_of :: "nat list \<Rightarrow> 32 word list" where
  "words_of (a # b # c # d # bs) = of_nat (((a * 256 + b) * 256 + c) * 256 + d) # words_of bs"
| "words_of _ = []"

section \<open>The compression function\<close>

definition rotr :: "nat \<Rightarrow> 32 word \<Rightarrow> 32 word" where
  "rotr n x = (drop_bit n x) OR (push_bit (32 - n) x)"

fun schedule :: "nat \<Rightarrow> 32 word list \<Rightarrow> 32 word list" where
  "schedule 0 w = w"
| "schedule (Suc k) w =
     (let t = length w; a = w ! (t - 15); b = w ! (t - 2);
          s0 = rotr 7 a XOR rotr 18 a XOR drop_bit 3 a;
          s1 = rotr 17 b XOR rotr 19 b XOR drop_bit 10 b
      in schedule k (w @ [w ! (t - 16) + s0 + w ! (t - 7) + s1]))"

fun sha_round :: "32 word \<times> 32 word \<Rightarrow> sha_state \<Rightarrow> sha_state" where
  "sha_round (k, w) (a, b, c, d, e, f, g, h) =
     (let S1 = rotr 6 e XOR rotr 11 e XOR rotr 25 e;
          ch = (e AND f) XOR ((NOT e) AND g);
          t1 = h + S1 + ch + k + w;
          S0 = rotr 2 a XOR rotr 13 a XOR rotr 22 a;
          maj = (a AND b) XOR (a AND c) XOR (b AND c)
      in (t1 + S0 + maj, a, b, c, d + t1, e, f, g))"

fun sha_add :: "sha_state \<Rightarrow> sha_state \<Rightarrow> sha_state" where
  "sha_add (a, b, c, d, e, f, g, h) (a', b', c', d', e', f', g', h') =
     (a + a', b + b', c + c', d + d', e + e', f + f', g + g', h + h')"

definition compress :: "sha_state \<Rightarrow> 32 word list \<Rightarrow> sha_state" where
  "compress s blk = sha_add s (fold sha_round (zip K256 (schedule 48 blk)) s)"

function blocks :: "32 word list \<Rightarrow> sha_state \<Rightarrow> sha_state" where
  "blocks ws s = (if ws = [] then s else blocks (drop 16 ws) (compress s (take 16 ws)))"
  by auto
termination by (relation "measure (\<lambda>(ws, s). length ws)") auto

declare blocks.simps [simp del]

fun state_bytes :: "sha_state \<Rightarrow> nat list" where
  "state_bytes (a, b, c, d, e, f, g, h) =
     concat (map (\<lambda>x. be_bytes 4 (unat x)) [a, b, c, d, e, f, g, h])"

section \<open>Digests of strings\<close>

definition bytes_of :: "string \<Rightarrow> nat list" where
  "bytes_of s = map of_char s"

definition string_of :: "nat list \<Rightarrow> string" where
  "string_of bs = map char_of bs"

text \<open>\<open>sha256.Sum256\<close>.\<close>

definition sha256 :: "string \<Rightarrow> string" where
  "sha256 m = string_of (state_bytes (blocks (words_of (pad_message (bytes_of m))) H256))"

text \<open>\<open>hmac.New(sha256.New, key)\<close>, \<open>Write\<close>, \<open>Sum(nil)\<close>.\<close>

definition xor_pad :: "nat \<Rightarrow> nat list \<Rightarrow> nat list" where
  "xor_pad p k = map (\<lambda>b. b XOR p) (k @ replicate (64 - length k) 0)"

definition hmac_sha256 :: "string \<Rightarrow> string \<Rightarrow> string" where
  "hmac_sha256 key msg =
     (let k = bytes_of (if 64 < length key then sha256 key else key)
      in sha256 (string_of (xor_pad 92 k) @ sha256 (string_of (xor_pad 54 k) @ msg)))"

text \<open>\<open>hex.EncodeToString\<close> and \<open>hex.DecodeString\<close> (\<open>None\<close> for its errors).\<close>

definition hex_digit :: "nat \<Rightarrow> char" where
  "hex_digit d = (if d < 10 then char_of (48 + d) else char_of (87 + d))"

definition hex_encode :: "string \<Rightarrow> string" where
  "hex_encode s = concat (map (\<lambda>c. [hex_digit (of_char c div 16), hex_digit (of_char c mod 16)]) s)"

definition hex_value :: "char \<Rightarrow> nat option" where
  "hex_value c = (let n = of_char c in
     if 48 \<le> n \<and> n \<le> 57 then Some (n - 48)
     else if 97 \<le> n \<and> n \<le> 102 then Some (n - 87)
     else if 65 \<le> n \<and> n \<le> 70 then Some (n - 55)
     else None)"

fun hex_decode :: "string \<Rightarrow> string option" where
  "hex_decode [] = Some []"
| "hex_decode [c] = None"
| "hex_decode (a # b # cs) =
     (case (hex_value a, hex_value b, hex_decode cs) of
        (Some x, Some y, Some s) \<Rightarrow> Some (char_of (16 * x + y) # s)
      | _ \<Rightarrow> None)"

lemma length_be_bytes [simp]: "length (be_bytes k n) = k"
  by (induction k arbitrary: n) auto

lemma length_sha256 [simp]: "length (sha256 m) = 32"
proof -
  have "length (state_bytes s) = 32" for s
  proof -
    obtain a b c d e f g h where "s = (a, b, c, d, e, f, g, h)" by (metis prod.exhaust)
    then show ?thesis by (simp del: be_bytes.simps)
  qed
  then show ?thesis by (simp add: sha256_def string_of_def)
qed

lemma length_hex_encode [simp]: "length (hex_encode s) = 2 * length s"
  by (induction s) (auto simp: hex_encode_def)

lemma hex_value_digit: "d < 16 \<Longrightarrow> hex_value (hex_digit d) = Some d"
  by (auto simp: hex_value_def hex_digit_def Let_def)

lemma hex_decode_encode [simp]: "hex_decode (hex_encode s) = Some s"
proof (induction s)
  case Nil
  then show ?case by (simp add: hex_encode_def)
next
  case (Cons c s)
  have "of_char c < (256::nat)" by (simp add: of_char_of)
  then have "of_char c div 16 < (16::nat)" by (simp only: div_less_iff_less_mult)
  with Cons show ?case
    by (simp add: hex_encode_def hex_value_digit)
qed

text \<open>\<open>hashToken\<close>, \<open>hashOTP\<close>, \<open>stalePepper\<close> and \<open>verifyOTP\<close> of \<open>internal/service/token.go\<close>.\<close>

definition hashToken :: "string \<Rightarrow> string" where
  "hashToken token = hex_encode (sha256 token)"

definition hashOTP :: "string \<Rightarrow> string \<Rightarrow> string" where
  "hashOTP code pepper = hex_encode (hmac_sha256 pepper code)"

definition stalePepper :: "time \<Rightarrow> time \<Rightarrow> bool" where
  "stalePepper issuedAt secretRotatedAt =
     (if is_zero_time issuedAt \<or> is_zero_time secretRotatedAt then False
      else issuedAt < secretRotatedAt)"

definition verifyOTP :: "string \<Rightarrow> string \<Rightarrow> string \<Rightarrow> bool" where
  "verifyOTP code storedHex pepper =
     (if pepper = '''' then False
      else case hex_decode storedHex of
             None \<Rightarrow> False
           | Some want \<Rightarrow> hmac_sha256 pepper code = want)"

lemma length_hashToken [simp]: "length (hashToken t) = 64"
  by (simp add: hashToken_def)

lemma verifyOTP_hashOTP: "pepper \<noteq> '''' \<Longrightarrow> verifyOTP code (hashOTP code pepper) pepper"
  by (simp add: verifyOTP_def hashOTP_def)

lemma verifyOTP_hashOTP_iff:
  "verifyOTP code (hashOTP code' pepper) pepper \<longleftrightarrow> pepper \<noteq> '''' \<and> hmac_sha256 pepper code = hmac_sha256 pepper code'"
  by (simp add: verifyOTP_def hashOTP_def)

end
