(* ===== verification/Sessions.thy ===== *)
theory Sessions
  imports AuditRecord Sha256
begin

text \<open>
  \<open>internal/sqlstore/session_repo.go\<close> with \<open>session_queries.go\<close>, and
  \<open>internal/service/session.go\<close>: sessions, refresh-token rotation with reuse detection, and
  validation. The snapshot cache is off. \<open>sc_uuidOK\<close> stands for \<open>uuid.Parse\<close> of a third-party
  package, \<open>sc_mysql\<close> for the driver; a fresh UUID is a draw of the world.
\<close>

section \<open>Configuration\<close>

record session_service =
  RequireEmailVerification :: bool
  Duration :: duration
  IdleTTL :: duration
  RefreshTTL :: duration
  MaxLifetime :: duration
  GraceWindow :: duration
  TouchDebounce :: duration
  sc_audit :: "audit_service option"
  sc_mysql :: bool
  sc_uuidOK :: "string \<Rightarrow> bool"

record update_refresh =
  OldRefreshHash :: string
  NewTokenHash :: string
  NewRefreshHash :: string
  NewExpiresAt :: time
  RotatedAt :: time
  ur_MaxLifetime :: duration
  ur_IdleTTL :: duration
  ur_GraceWindow :: duration

record session_result =
  sr_Session :: session
  sr_SessionToken :: string
  sr_RefreshToken :: string

text \<open>\<open>errors.As(err, &reused)\<close> for \<open>*port.ErrRefreshTokenReused\<close>.\<close>

fun as_reused :: "go_err \<Rightarrow> (string \<times> string) option" and as_reuseds :: "go_err list \<Rightarrow> (string \<times> string) option" where
  "as_reused (AuthError c m) = None"
| "as_reused (RefreshTokenReused u s) = Some (u, s)"
| "as_reused (Sentinel n) = None"
| "as_reused (Wrapf msg es) = as_reuseds es"
| "as_reuseds [] = None"
| "as_reuseds (e # es) = (case as_reused e of Some x \<Rightarrow> Some x | None \<Rightarrow> as_reuseds es)"

section \<open>The repository\<close>

text \<open>The statements on the table; primary key and unique token hash are checked on insert.\<close>

definition put_sessions :: "session list \<Rightarrow> tables \<Rightarrow> tables" where
  "put_sessions rows d = d\<lparr>sessions := rows\<rparr>"

definition sess_Create :: "ctx \<Rightarrow> session \<Rightarrow> unit action" where
  "sess_Create ctx s = stmt ctx (\<lambda>d.
     if list_ex (\<lambda>r. s_ID r = s_ID s \<or> s_TokenHash r = s_TokenHash s) (sessions d) then (Inl ErrDuplicateKey, d)
     else if \<not> list_ex (\<lambda>u. u_ID u = s_UserID s) (users d) then (Inl ErrDatabase, d)
     else (Inr (), d\<lparr>sessions := sessions d @ [s]\<rparr>))"

definition GetByTokenHash :: "ctx \<Rightarrow> string \<Rightarrow> session option action" where
  "GetByTokenHash ctx h = query ctx (\<lambda>d. select1 (\<lambda>s. s_TokenHash s = h) (sessions d))"

definition GetByRefreshHash :: "ctx \<Rightarrow> string \<Rightarrow> session option action" where
  "GetByRefreshHash ctx h = query ctx (\<lambda>d. select1 (\<lambda>s. s_RefreshTokenHash s = h) (sessions d))"

definition GetByPreviousRefreshHash :: "ctx \<Rightarrow> string \<Rightarrow> session option action" where
  "GetByPreviousRefreshHash ctx h = query ctx (\<lambda>d. select1 (\<lambda>s. s_PreviousRefreshHash s = h) (sessions d))"

definition sess_GetByID :: "ctx \<Rightarrow> string \<Rightarrow> session option action" where
  "sess_GetByID ctx i = query ctx (\<lambda>d. select1 (\<lambda>s. s_ID s = i) (sessions d))"

definition LockByID :: "ctx \<Rightarrow> string \<Rightarrow> session option action" where
  "LockByID ctx i =
     (if \<not> InTx ctx then fail (Wrapf ''session lock requires a transaction'' [])
      else query ctx (\<lambda>d. select1 (\<lambda>s. s_ID s = i) (sessions d)))"

definition GetByTokenHashWithUser :: "ctx \<Rightarrow> string \<Rightarrow> (session \<times> user) option action" where
  "GetByTokenHashWithUser ctx h = query ctx (\<lambda>d.
     select1 (\<lambda>p. s_TokenHash (fst p) = h)
       (concat (map (\<lambda>s. map (Pair s) (filter (\<lambda>u. u_ID u = s_UserID s) (users d))) (sessions d))))"

definition sess_Delete :: "ctx \<Rightarrow> string \<Rightarrow> unit action" where
  "sess_Delete ctx h = exec ctx (\<lambda>d. put_sessions (delete_where (\<lambda>s. s_TokenHash s = h) (sessions d)) d)"

definition sess_DeleteByID :: "ctx \<Rightarrow> string \<Rightarrow> unit action" where
  "sess_DeleteByID ctx i = exec ctx (\<lambda>d. put_sessions (delete_where (\<lambda>s. s_ID s = i) (sessions d)) d)"

definition repo_RevokeByIDForUser :: "(string \<Rightarrow> bool) \<Rightarrow> ctx \<Rightarrow> string \<Rightarrow> string \<Rightarrow> bool action" where
  "repo_RevokeByIDForUser uuidOK ctx i userID =
     (if \<not> uuidOK i then ret False
      else stmt ctx (\<lambda>d. let P = (\<lambda>s. s_ID s = i \<and> s_UserID s = userID) in
        (Inr (0 < count_where P (sessions d)), put_sessions (delete_where P (sessions d)) d)))"

definition repo_RevokeManyForUser :: "(string \<Rightarrow> bool) \<Rightarrow> ctx \<Rightarrow> string list \<Rightarrow> string \<Rightarrow> nat action" where
  "repo_RevokeManyForUser uuidOK ctx ids userID =
     (let valid = filter uuidOK ids in
      if valid = [] then ret 0
      else stmt ctx (\<lambda>d. let P = (\<lambda>s. s_UserID s = userID \<and> s_ID s \<in> set valid) in
        (Inr (count_where P (sessions d)), put_sessions (delete_where P (sessions d)) d)))"

definition DeleteAllForUser :: "ctx \<Rightarrow> string \<Rightarrow> unit action" where
  "DeleteAllForUser ctx userID =
     exec ctx (\<lambda>d. put_sessions (delete_where (\<lambda>s. s_UserID s = userID) (sessions d)) d)"

definition DeleteAllForUserExcept :: "ctx \<Rightarrow> string \<Rightarrow> string \<Rightarrow> unit action" where
  "DeleteAllForUserExcept ctx userID exceptID =
     exec ctx (\<lambda>d. put_sessions (delete_where (\<lambda>s. s_UserID s = userID \<and> s_ID s \<noteq> exceptID) (sessions d)) d)"

definition sess_DeleteExpired :: "ctx \<Rightarrow> unit action" where
  "sess_DeleteExpired ctx = bnd now (\<lambda>t.
     exec ctx (\<lambda>d. put_sessions (delete_where (\<lambda>s. s_RefreshExpiresAt s < t) (sessions d)) d))"

definition UpdateLastActiveAt :: "ctx \<Rightarrow> string \<Rightarrow> unit action" where
  "UpdateLastActiveAt ctx h = bnd now (\<lambda>t.
     exec ctx (\<lambda>d. put_sessions
       (update_where (\<lambda>s. s_TokenHash s = h) (\<lambda>s. s\<lparr>s_LastActiveAt := t\<rparr>) (sessions d)) d))"

subsection \<open>Rotation\<close>

definition rotate_guard :: "update_refresh \<Rightarrow> time \<Rightarrow> time \<Rightarrow> session \<Rightarrow> bool" where
  "rotate_guard inp maxCut idleCut s \<longleftrightarrow>
     s_RefreshTokenHash s = OldRefreshHash inp \<and> \<not> s_IsRevoked s \<and>
     RotatedAt inp < s_RefreshExpiresAt s \<and> maxCut < s_CreatedAt s \<and> idleCut < s_LastActiveAt s"

definition rotate_set :: "update_refresh \<Rightarrow> session \<Rightarrow> session" where
  "rotate_set inp s = s\<lparr>s_TokenHash := NewTokenHash inp, s_PreviousRefreshHash := s_RefreshTokenHash s,
     s_RefreshTokenHash := NewRefreshHash inp, s_RefreshRotatedAt := Some (RotatedAt inp),
     s_ExpiresAt := NewExpiresAt inp\<rparr>"

text \<open>The rotating UPDATE: the rows it rotated, in their new state. Two rows with one token hash
  violate the unique index and fail the statement.\<close>

definition rotate_stmt :: "ctx \<Rightarrow> update_refresh \<Rightarrow> time \<Rightarrow> time \<Rightarrow> session list action" where
  "rotate_stmt ctx inp maxCut idleCut = stmt ctx (\<lambda>d.
     let G = rotate_guard inp maxCut idleCut; rows = update_where G (rotate_set inp) (sessions d)
     in if count_where G (sessions d) \<noteq> 0 \<and> 1 < count_where (\<lambda>s. s_TokenHash s = NewTokenHash inp) rows
        then (Inl ErrDuplicateKey, d)
        else (Inr (map (rotate_set inp) (filter G (sessions d))), put_sessions rows d))"

definition classifyRefreshFailure :: "ctx \<Rightarrow> update_refresh \<Rightarrow> time \<Rightarrow> session action" where
  "classifyRefreshFailure ctx inp idleCut =
     (let t = RotatedAt inp in
      bnd (GetByRefreshHash ctx (OldRefreshHash inp)) (\<lambda>found. case found of
        Some s \<Rightarrow>
          if s_IsRevoked s then fail ErrSessionRevoked
          else if \<not> t < s_RefreshExpiresAt s then fail ErrRefreshExpired
          else if 0 < ur_MaxLifetime inp \<and> \<not> t < s_CreatedAt s + ur_MaxLifetime inp then fail ErrMaxLifetimeExceeded
          else if 0 < ur_IdleTTL inp \<and> \<not> idleCut < s_LastActiveAt s then fail ErrSessionExpired
          else fail (NewError ''internal_error'' ''Session rotation failed due to internal state conflict'')
      | None \<Rightarrow>
          bnd (GetByPreviousRefreshHash ctx (OldRefreshHash inp)) (\<lambda>prev. case prev of
            None \<Rightarrow> fail ErrInvalidRefreshToken
          | Some p \<Rightarrow>
              if 0 < ur_GraceWindow inp \<and>
                 (case s_RefreshRotatedAt p of None \<Rightarrow> False | Some ra \<Rightarrow> t - ra < ur_GraceWindow inp)
              then fail ErrTokenAlreadyRotated
              else seq (wrap ''revoke session after refresh-token reuse detection'' (sess_DeleteByID ctx (s_ID p)))
                       (fail (RefreshTokenReused (s_UserID p) (s_ID p))))))"

definition updateRefreshTokenReturning :: "ctx \<Rightarrow> update_refresh \<Rightarrow> time \<Rightarrow> time \<Rightarrow> session action" where
  "updateRefreshTokenReturning ctx inp maxCut idleCut =
     bnd (rotate_stmt ctx inp maxCut idleCut) (\<lambda>rows. case rows of
       s # _ \<Rightarrow> ret s
     | [] \<Rightarrow> classifyRefreshFailure ctx inp idleCut)"

text \<open>MySQL: the count of changed rows, then a second read by the new hash. A read that finds no
  row returns a nil session without an error; the caller dereferences it and panics.\<close>

definition updateRefreshTokenNoReturning :: "ctx \<Rightarrow> update_refresh \<Rightarrow> time \<Rightarrow> time \<Rightarrow> session action" where
  "updateRefreshTokenNoReturning ctx inp maxCut idleCut =
     bnd (rotate_stmt ctx inp maxCut idleCut) (\<lambda>rows.
       if length rows = 1
       then bnd (GetByRefreshHash ctx (NewRefreshHash inp)) (\<lambda>r. case r of
              Some s \<Rightarrow> ret s | None \<Rightarrow> fail (Sentinel ''panic: nil session''))
       else classifyRefreshFailure ctx inp idleCut)"

definition maxLifetimeCut :: "update_refresh \<Rightarrow> time" where
  "maxLifetimeCut inp = (if 0 < ur_MaxLifetime inp then RotatedAt inp - ur_MaxLifetime inp else unix_epoch)"

definition idleCutOf :: "update_refresh \<Rightarrow> time" where
  "idleCutOf inp = (if 0 < ur_IdleTTL inp then RotatedAt inp - ur_IdleTTL inp else unix_epoch)"

definition UpdateRefreshToken :: "bool \<Rightarrow> ctx \<Rightarrow> update_refresh \<Rightarrow> session action" where
  "UpdateRefreshToken mysql ctx inp =
     (if NewRefreshHash inp = OldRefreshHash inp
      then fail (NewError ''internal_error'' ''Refresh token collision: new hash equals old hash'')
      else if NewRefreshHash inp = NewTokenHash inp
      then fail (NewError ''internal_error'' ''Token hash collision: refresh hash equals access token hash'')
      else if mysql then updateRefreshTokenNoReturning ctx inp (maxLifetimeCut inp) (idleCutOf inp)
      else updateRefreshTokenReturning ctx inp (maxLifetimeCut inp) (idleCutOf inp))"

subsection \<open>Active organisation\<close>

definition UpdateActiveOrgRoleForUser :: "ctx \<Rightarrow> string \<Rightarrow> string \<Rightarrow> string \<Rightarrow> unit action" where
  "UpdateActiveOrgRoleForUser ctx userID orgID newRole = exec ctx (\<lambda>d. put_sessions
     (update_where (\<lambda>s. s_UserID s = userID \<and> s_ActiveOrgID s = Some orgID \<and> \<not> s_IsRevoked s)
        (\<lambda>s. s\<lparr>s_ActiveOrgRole := Some newRole\<rparr>) (sessions d)) d)"

definition clear_org :: "session \<Rightarrow> session" where
  "clear_org s = s\<lparr>s_ActiveOrgID := None, s_ActiveOrgRole := None\<rparr>"

definition ClearActiveOrgForUser :: "ctx \<Rightarrow> string \<Rightarrow> string \<Rightarrow> unit action" where
  "ClearActiveOrgForUser ctx userID orgID = exec ctx (\<lambda>d. put_sessions
     (update_where (\<lambda>s. s_UserID s = userID \<and> s_ActiveOrgID s = Some orgID \<and> \<not> s_IsRevoked s) clear_org (sessions d)) d)"

definition sess_ClearActiveOrg :: "ctx \<Rightarrow> string \<Rightarrow> unit action" where
  "sess_ClearActiveOrg ctx sessionID = exec ctx (\<lambda>d. put_sessions
     (update_where (\<lambda>s. s_ID s = sessionID \<and> \<not> s_IsRevoked s) clear_org (sessions d)) d)"

definition ClearActiveOrgForAllMembers :: "ctx \<Rightarrow> string \<Rightarrow> unit action" where
  "ClearActiveOrgForAllMembers ctx orgID = exec ctx (\<lambda>d. put_sessions
     (update_where (\<lambda>s. s_ActiveOrgID s = Some orgID \<and> \<not> s_IsRevoked s) clear_org (sessions d)) d)"

definition sess_SetActiveOrg :: "ctx \<Rightarrow> string \<Rightarrow> string \<Rightarrow> string \<Rightarrow> unit action" where
  "sess_SetActiveOrg ctx sessionID orgID role = exec ctx (\<lambda>d. put_sessions
     (update_where (\<lambda>s. s_ID s = sessionID \<and> \<not> s_IsRevoked s)
        (\<lambda>s. s\<lparr>s_ActiveOrgID := Some orgID, s_ActiveOrgRole := Some role\<rparr>) (sessions d)) d)"

section \<open>The service\<close>

text \<open>\<open>token.Generator.Generate\<close>: the drawn bytes in hexadecimal.\<close>

definition Generate :: "string action" where
  "Generate = bnd (wrap ''token generate'' draw) (\<lambda>b. ret (hex_encode b))"

definition session_event :: "string \<Rightarrow> string \<Rightarrow> string \<Rightarrow> audit_event" where
  "session_event typ userID sessionID = \<lparr>e_Type = typ, e_Actor = userID, e_Ref = sessionID\<rparr>"

definition create ::
  "session_service \<Rightarrow> ctx \<Rightarrow> string \<Rightarrow> string \<Rightarrow> string \<Rightarrow> bool \<Rightarrow> session_result action" where
  "create svc ctx userID ip userAgent twoFactorVerified =
     bnd (wrap ''session create token'' Generate) (\<lambda>st0.
     bnd (wrap ''session create refresh'' Generate) (\<lambda>rt0.
     let sessionToken = Bind (Current (c_scope ctx)) st0;
         refreshToken = Bind (Current (c_scope ctx)) rt0 in
     bnd now (\<lambda>t.
     bnd draw (\<lambda>newID.
     let s = \<lparr>s_ID = newID, s_UserID = userID, s_TokenHash = hashToken sessionToken,
              s_RefreshTokenHash = hashToken refreshToken, s_PreviousRefreshHash = '''',
              s_IP = ip, s_UserAgent = userAgent, s_IsRevoked = False,
              s_ExpiresAt = t + Duration svc, s_RefreshExpiresAt = t + RefreshTTL svc,
              s_RefreshRotatedAt = None, s_CreatedAt = t, s_RevokedAt = None, s_LastActiveAt = t,
              s_TwoFactorVerifiedAt = (if twoFactorVerified then Some t else None),
              s_ActiveOrgID = None, s_ActiveOrgRole = None\<rparr> in
     seq (WithTx ctx (\<lambda>tx.
            seq (wrap ''session create'' (sess_Create tx s))
                (publish (sc_audit svc) tx (session_event ''session.created'' userID (s_ID s)))))
         (ret \<lparr>sr_Session = s, sr_SessionToken = sessionToken, sr_RefreshToken = refreshToken\<rparr>)))))"

definition Create :: "session_service \<Rightarrow> ctx \<Rightarrow> string \<Rightarrow> string \<Rightarrow> string \<Rightarrow> session_result action" where
  "Create svc ctx userID ip userAgent = create svc ctx userID ip userAgent False"

text \<open>The transaction of \<open>RefreshSession\<close>: reuse detection deletes the session, and the deletion has
  to commit although the caller gets an error.\<close>

definition refresh_body ::
  "session_service \<Rightarrow> update_refresh \<Rightarrow> ctx \<Rightarrow> ((string \<times> string) + session) action" where
  "refresh_body svc inp tx =
     bnd (attempt (UpdateRefreshToken (sc_mysql svc) tx inp)) (\<lambda>res. case res of
       Inl rotateErr \<Rightarrow>
         (case as_reused rotateErr of
            Some reused \<Rightarrow> ret (Inl reused)
          | None \<Rightarrow> fail rotateErr)
     | Inr rotated \<Rightarrow>
         seq (publish (sc_audit svc) tx (session_event ''session.refreshed'' (s_UserID rotated) (s_ID rotated)))
             (ret (Inr rotated)))"

definition refresh_input :: "session_service \<Rightarrow> string \<Rightarrow> string \<Rightarrow> string \<Rightarrow> time \<Rightarrow> update_refresh" where
  "refresh_input svc raw newSessionToken newRefreshToken t =
     \<lparr>OldRefreshHash = hashToken raw, NewTokenHash = hashToken newSessionToken,
      NewRefreshHash = hashToken newRefreshToken, NewExpiresAt = t + Duration svc,
      RotatedAt = t, ur_MaxLifetime = MaxLifetime svc, ur_IdleTTL = IdleTTL svc,
      ur_GraceWindow = GraceWindow svc\<rparr>"

definition RefreshSession :: "session_service \<Rightarrow> ctx \<Rightarrow> string \<Rightarrow> session_result action" where
  "RefreshSession svc ctx0 rawRefreshToken =
     (if \<not> Matches (c_scope ctx0) rawRefreshToken then fail ErrInvalidRefreshToken
      else let ctx = ctx0\<lparr>c_scope := With (c_scope ctx0) (Of rawRefreshToken)\<rparr> in
      bnd (wrap ''refresh gen session'' Generate) (\<lambda>st0.
      bnd (wrap ''refresh gen refresh'' Generate) (\<lambda>rt0.
      let newSessionToken = Bind (Current (c_scope ctx)) st0;
          newRefreshToken = Bind (Current (c_scope ctx)) rt0 in
      bnd now (\<lambda>t.
      bnd (WithTx ctx (refresh_body svc (refresh_input svc rawRefreshToken newSessionToken newRefreshToken t)))
       (\<lambda>outcome. case outcome of
        Inl (userID, sessionID) \<Rightarrow>
          seq (publish (sc_audit svc) ctx (session_event ''session.refresh_reuse_detected'' userID sessionID))
              (fail ErrSessionRevoked)
      | Inr s \<Rightarrow> ret \<lparr>sr_Session = s, sr_SessionToken = newSessionToken, sr_RefreshToken = newRefreshToken\<rparr>)))))"

definition checkSession :: "session_service \<Rightarrow> session option \<Rightarrow> unit action" where
  "checkSession svc so =
     (case so of
        None \<Rightarrow> fail ErrSessionNotFound
      | Some s \<Rightarrow>
          if s_IsRevoked s then fail ErrSessionExpired
          else bnd now (\<lambda>t.
            if s_ExpiresAt s < t then fail ErrSessionExpired
            else if 0 < IdleTTL svc \<and> \<not> t < s_LastActiveAt s + IdleTTL svc then fail ErrSessionExpired
            else if 0 < MaxLifetime svc \<and> \<not> t < s_CreatedAt s + MaxLifetime svc then fail ErrMaxLifetimeExceeded
            else ret ()))"

definition ValidateBrowserSnapshot :: "session_service \<Rightarrow> session option \<Rightarrow> unit action" where
  "ValidateBrowserSnapshot svc s = checkSession svc s"

definition Validate_token :: "session_service \<Rightarrow> ctx \<Rightarrow> string \<Rightarrow> session option action" where
  "Validate_token svc ctx token =
     (if \<not> Matches (c_scope ctx) token then fail ErrSessionNotFound
      else bnd (wrap ''session validate'' (GetByTokenHash ctx (hashToken token))) (\<lambda>s.
           seq (checkSession svc s) (ret s)))"

definition ValidateWithUser :: "session_service \<Rightarrow> ctx \<Rightarrow> string \<Rightarrow> (session \<times> user) option action" where
  "ValidateWithUser svc ctx token =
     (if \<not> Matches (c_scope ctx) token then fail ErrSessionNotFound
      else bnd (wrap ''session validate'' (GetByTokenHashWithUser ctx (hashToken token))) (\<lambda>p.
           seq (checkSession svc (map_option fst p)) (ret p)))"

definition Touch :: "session_service \<Rightarrow> ctx \<Rightarrow> string \<Rightarrow> time \<Rightarrow> unit action" where
  "Touch svc ctx token lastActiveAt =
     (if 0 < TouchDebounce svc
      then bnd now (\<lambda>t. if t - lastActiveAt < TouchDebounce svc then ret ()
                        else UpdateLastActiveAt ctx (hashToken token))
      else UpdateLastActiveAt ctx (hashToken token))"

definition Revoke :: "ctx \<Rightarrow> string \<Rightarrow> unit action" where
  "Revoke ctx token = wrap ''session revoke'' (sess_Delete ctx (hashToken token))"

definition RevokeByID :: "ctx \<Rightarrow> string \<Rightarrow> unit action" where
  "RevokeByID ctx i = wrap ''session revoke by id'' (sess_DeleteByID ctx i)"

definition RevokeByIDForUser :: "session_service \<Rightarrow> ctx \<Rightarrow> string \<Rightarrow> string \<Rightarrow> bool action" where
  "RevokeByIDForUser svc ctx sessionID userID = WithTx ctx (\<lambda>tx.
     bnd (wrap ''session revoke by id'' (repo_RevokeByIDForUser (sc_uuidOK svc) tx sessionID userID)) (\<lambda>ok.
       if \<not> ok then ret ok
       else seq (publish (sc_audit svc) tx (session_event ''session.revoked'' userID sessionID)) (ret ok)))"

definition RevokeManyForUser :: "session_service \<Rightarrow> ctx \<Rightarrow> string list \<Rightarrow> string \<Rightarrow> nat action" where
  "RevokeManyForUser svc ctx ids userID = WithTx ctx (\<lambda>tx.
     bnd (wrap ''session revoke many'' (repo_RevokeManyForUser (sc_uuidOK svc) tx ids userID)) (\<lambda>n.
       if n = 0 then ret n
       else seq (publish (sc_audit svc) tx (session_event ''session.revoked'' userID '''')) (ret n)))"

definition RevokeAll :: "session_service \<Rightarrow> ctx \<Rightarrow> string \<Rightarrow> unit action" where
  "RevokeAll svc ctx userID = WithTx ctx (\<lambda>tx.
     seq (wrap ''session revoke all'' (DeleteAllForUser tx userID))
         (publish (sc_audit svc) tx (session_event ''session.revoked_all'' userID '''')))"

definition RevokeAllExcept :: "ctx \<Rightarrow> string \<Rightarrow> string \<Rightarrow> unit action" where
  "RevokeAllExcept ctx userID exceptID =
     wrap ''session revoke all except'' (DeleteAllForUserExcept ctx userID exceptID)"

definition IsSessionError :: "go_err \<Rightarrow> bool" where
  "IsSessionError e \<longleftrightarrow> errors_is e ErrSessionNotFound \<or> errors_is e ErrSessionExpired"

definition checkUserAccess :: "session_service \<Rightarrow> user option \<Rightarrow> go_err option" where
  "checkUserAccess svc uo =
     (case uo of
        None \<Rightarrow> Some ErrInvalidCredentials
      | Some u \<Rightarrow>
          if u_IsBanned u then Some ErrUserBanned
          else if RequireEmailVerification svc \<and> \<not> u_IsVerified u then Some ErrEmailNotVerified
          else None)"

lemma local_Generate [locals]: "local_prog Generate"
  unfolding Generate_def by (intro locals)

end
