(* ===== verification/SessionProps.thy ===== *)
theory SessionProps
  imports Sessions
begin

text \<open>
  What refresh-token rotation and session validation guarantee: the outcome of a rotation under any
  faults, single use of refresh tokens with reuse detection, completeness of the failure
  classification, agreement of the two driver paths and of the two validation paths.
\<close>

section \<open>Specification of rotation\<close>

definition in_grace :: "update_refresh \<Rightarrow> session \<Rightarrow> bool" where
  "in_grace inp p \<longleftrightarrow> 0 < ur_GraceWindow inp \<and>
     (case s_RefreshRotatedAt p of None \<Rightarrow> False | Some ra \<Rightarrow> RotatedAt inp - ra < ur_GraceWindow inp)"

definition guard :: "update_refresh \<Rightarrow> session \<Rightarrow> bool" where
  "guard inp = rotate_guard inp (maxLifetimeCut inp) (idleCutOf inp)"

definition rotated_to :: "update_refresh \<Rightarrow> tables \<Rightarrow> tables" where
  "rotated_to inp d = put_sessions (update_where (guard inp) (rotate_set inp) (sessions d)) d"

definition reuse_deletes :: "update_refresh \<Rightarrow> tables \<Rightarrow> go_err \<Rightarrow> tables \<Rightarrow> bool" where
  "reuse_deletes inp s0 e d \<longleftrightarrow>
     (\<exists>p. select1 (\<lambda>s. s_RefreshTokenHash s = OldRefreshHash inp) (sessions s0) = None \<and>
        select1 (\<lambda>s. s_PreviousRefreshHash s = OldRefreshHash inp) (sessions s0) = Some p \<and>
        \<not> in_grace inp p \<and> e = RefreshTokenReused (s_UserID p) (s_ID p) \<and>
        d = put_sessions (delete_where (\<lambda>s. s_ID s = s_ID p) (sessions s0)) s0)"

definition rotation_post :: "update_refresh \<Rightarrow> tables \<Rightarrow> go_err + session \<Rightarrow> tables \<Rightarrow> bool" where
  "rotation_post inp s0 r d =
     (case r of
        Inl e \<Rightarrow> as_reused e = None \<or> reuse_deletes inp s0 e d
      | Inr s \<Rightarrow> (\<exists>old \<in> set (sessions s0). guard inp old) \<and> d = rotated_to inp s0 \<and>
                 s \<in> set (sessions d) \<and> s_RefreshTokenHash s = NewRefreshHash inp)"

lemma as_reused_simps [simp]:
  "as_reused (NewError c m) = None" "as_reused ErrDatabase = None" "as_reused ErrDuplicateKey = None"
  "as_reused ErrSessionRevoked = None" "as_reused ErrRefreshExpired = None"
  "as_reused ErrMaxLifetimeExceeded = None" "as_reused ErrSessionExpired = None"
  "as_reused ErrTokenAlreadyRotated = None" "as_reused ErrInvalidRefreshToken = None"
  by (simp_all add: err_defs NewError_def)

lemma wp_classify:
  assumes "c_tx ctx"
  shows "wp (classifyRefreshFailure ctx inp ic)
           (\<lambda>r d. case r of Inl e \<Rightarrow> as_reused e = None \<or> reuse_deletes inp s0 e d | Inr _ \<Rightarrow> False) s0"
  unfolding classifyRefreshFailure_def Let_def GetByRefreshHash_def GetByPreviousRefreshHash_def sess_DeleteByID_def
  using assms
  by (auto intro!: wps simp: reuse_deletes_def in_grace_def split: option.splits)

lemma rotated_rows:
  "s \<in> set (sessions s0) \<Longrightarrow> guard inp s \<Longrightarrow> rotate_set inp s \<in> set (sessions (rotated_to inp s0))"
  by (auto simp: rotated_to_def put_sessions_def set_update_where)

lemma rotated_token_count:
  "count_where G rows \<le>
   count_where (\<lambda>s. s_TokenHash s = NewTokenHash inp) (update_where G (rotate_set inp) rows)"
  by (induction rows) (auto simp: count_where_def update_where_def rotate_set_def)

lemma wp_rotate_stmt:
  assumes "c_tx ctx" and "Q (Inl ErrDatabase) s0" and "Q (Inl ErrDuplicateKey) s0"
    and "filter (guard inp) (sessions s0) = [] \<Longrightarrow> Q (Inr []) s0"
    and "\<And>old. filter (guard inp) (sessions s0) = [old] \<Longrightarrow>
           Q (Inr [rotate_set inp old]) (rotated_to inp s0)"
  shows "wp (rotate_stmt ctx inp (maxLifetimeCut inp) (idleCutOf inp)) Q s0"
proof (cases "filter (guard inp) (sessions s0)")
  case Nil
  then have "update_where (guard inp) (rotate_set inp) (sessions s0) = sessions s0"
    by (intro table_simps) (auto simp: filter_empty_conv)
  with Nil assms show ?thesis
    unfolding rotate_stmt_def guard_def [symmetric]
    by (auto intro!: wps simp: put_sessions_def count_where_def Let_def)
next
  case (Cons old rest)
  then have "Suc (length rest) = count_where (guard inp) (sessions s0)" by (simp add: count_where_def)
  also have "\<dots> \<le> count_where (\<lambda>s. s_TokenHash s = NewTokenHash inp)
      (update_where (guard inp) (rotate_set inp) (sessions s0))"
    by (rule rotated_token_count)
  finally have many: "rest \<noteq> [] \<Longrightarrow> 1 < count_where (\<lambda>s. s_TokenHash s = NewTokenHash inp)
      (update_where (guard inp) (rotate_set inp) (sessions s0))"
    by (cases rest) auto
  from Cons assms many show ?thesis
    unfolding rotate_stmt_def guard_def [symmetric] Let_def
    by (cases "rest = []"; intro wp_stmt) (auto simp: rotated_to_def count_where_def)
qed

lemma rotate_set_hash [simp]: "s_RefreshTokenHash (rotate_set inp s) = NewRefreshHash inp"
  by (simp add: rotate_set_def)

lemma wp_UpdateRefreshToken:
  assumes "c_tx ctx"
  shows "wp (UpdateRefreshToken mysql ctx inp) (rotation_post inp s0) s0"
proof -
  have cl: "wp (classifyRefreshFailure ctx inp (idleCutOf inp)) (rotation_post inp s0) s0"
    by (rule wp_conseq [OF wp_classify [OF assms, of inp "idleCutOf inp" s0]])
      (auto simp: rotation_post_def split: sum.splits)
  have ok: "rotation_post inp s0 (Inr (rotate_set inp old)) (rotated_to inp s0)"
    if "filter (guard inp) (sessions s0) = [old]" for old
  proof -
    have "old \<in> set (filter (guard inp) (sessions s0))" using that by simp
    then show ?thesis by (auto simp: rotation_post_def intro: rotated_rows)
  qed
  have err: "as_reused e = None \<Longrightarrow> rotation_post inp s0 (Inl e) d" for e d
    by (simp add: rotation_post_def)
  have ok2: "rotation_post inp s0 (Inr s) (rotated_to inp s0)"
    if "filter (guard inp) (sessions s0) \<noteq> []"
       "select1 (\<lambda>s. s_RefreshTokenHash s = NewRefreshHash inp) (sessions (rotated_to inp s0)) = Some s" for s
    using that(1) select1_Some [OF that(2)] by (auto simp: rotation_post_def filter_empty_conv)
  show ?thesis
    unfolding UpdateRefreshToken_def
    by (auto intro!: wps wp_rotate_stmt assms cl ok ok2 err
        simp: updateRefreshTokenNoReturning_def updateRefreshTokenReturning_def GetByRefreshHash_def
        split: option.splits)
qed

section \<open>The service\<close>

definition refresh_post :: "update_refresh \<Rightarrow> tables \<Rightarrow> ((string \<times> string) + session) \<Rightarrow> tables \<Rightarrow> bool" where
  "refresh_post inp s0 out d =
     (case out of
        Inr s \<Rightarrow> (\<exists>old \<in> set (sessions s0). guard inp old) \<and> same_but_audit (rotated_to inp s0) d \<and>
                 s \<in> set (sessions d) \<and> s_RefreshTokenHash s = NewRefreshHash inp
      | Inl (u, i) \<Rightarrow> reuse_deletes inp s0 (RefreshTokenReused u i) d)"

lemma as_reused_Some_cases:
  "reuse_deletes inp s0 e d \<Longrightarrow> as_reused e = Some (u, i) \<Longrightarrow> reuse_deletes inp s0 (RefreshTokenReused u i) d"
  by (auto simp: reuse_deletes_def)

lemma same_but_audit_sessions: "same_but_audit s d \<Longrightarrow> sessions d = sessions s"
  by (auto simp: same_but_audit_def)

lemma wp_refresh_body:
  assumes "c_tx tx"
  shows "wp (refresh_body svc inp tx) (\<lambda>r d. case r of Inl e \<Rightarrow> True | Inr out \<Rightarrow> refresh_post inp s0 out d) s0"
  unfolding refresh_body_def
  apply (intro wp_bnd wp_attempt)
  apply (rule wp_conseq [OF wp_UpdateRefreshToken [OF assms]])
  apply (auto intro!: wps assms simp: rotation_post_def refresh_post_def same_but_audit_sessions
      split: sum.splits option.splits dest: as_reused_Some_cases)
  done

text \<open>The outcomes of \<open>RefreshSession\<close> on tables \<open>s0\<close>.\<close>

definition refreshed :: "session_service \<Rightarrow> string \<Rightarrow> tables \<Rightarrow> session_result \<Rightarrow> tables \<Rightarrow> bool" where
  "refreshed svc raw s0 res d \<longleftrightarrow>
     (\<exists>t. let inp = refresh_input svc raw (sr_SessionToken res) (sr_RefreshToken res) t in
        (\<exists>old \<in> set (sessions s0). guard inp old) \<and> same_but_audit (rotated_to inp s0) d \<and>
        sr_Session res \<in> set (sessions d) \<and>
        s_RefreshTokenHash (sr_Session res) = hashToken (sr_RefreshToken res))"

definition reuse_revoked :: "session_service \<Rightarrow> string \<Rightarrow> tables \<Rightarrow> tables \<Rightarrow> bool" where
  "reuse_revoked svc raw s0 d \<longleftrightarrow>
     (\<exists>st rt t u i d1. reuse_deletes (refresh_input svc raw st rt t) s0 (RefreshTokenReused u i) d1 \<and> same_but_audit d1 d)"

lemma rq_RefreshSession:
  assumes "\<not> c_tx ctx"
  shows "rq (RefreshSession svc ctx raw)
     (\<lambda>r d. case r of Inr res \<Rightarrow> Matches (c_scope ctx) raw \<and> refreshed svc raw s0 res d
                    | Inl e \<Rightarrow> d = s0 \<or> reuse_revoked svc raw s0 d) s0"
proof -
  have new: "NewRefreshHash (refresh_input svc raw st rt t) = hashToken rt" for st rt t
    by (simp add: refresh_input_def)
  have body: "rq (WithTx ctx (refresh_body svc inp)) (\<lambda>r d. case r of
      Inl e \<Rightarrow> d = s0 | Inr out \<Rightarrow> refresh_post inp s0 out d) s0" if "\<not> c_tx ctx" for inp ctx
    apply (rule rq_WithTx [OF that])
     apply simp
    apply (simp only: sum.case)
    apply (rule wp_refresh_body)
    apply simp
    done
  show ?thesis
    unfolding RefreshSession_def Let_def
    apply (cases "Matches (c_scope ctx) raw"; simp)
     apply (intro rqs rq_local [OF local_Generate]; auto intro!: rqs rq_local [OF local_Generate] split: sum.split)
    apply (rule rq_conseq [OF body])
     apply (simp add: assms)
    apply (auto split: sum.splits intro!: rqs simp: refresh_post_def)
      apply (unfold reuse_revoked_def refreshed_def Let_def, blast, blast)
    apply (fastforce simp: new)
    done
qed

text \<open>C2: Refreshing a session is all or nothing under any faults, for both driver paths: a success
  rotated a live session that held the presented refresh token, and the returned session carries
  the new token; a failure leaves every table as it was, except when a token from before an
  earlier rotation is presented past the grace window: then the session it belonged to is gone.\<close>

theorem refresh_all_or_nothing:
  assumes "\<not> c_tx ctx" and "faults_only w"
  shows "case RefreshSession svc ctx raw w of
      (Inr res, w') \<Rightarrow> Matches (c_scope ctx) raw \<and> refreshed svc raw (store w) res (store w')
    | (Inl e, w') \<Rightarrow> store w' = store w \<or> reuse_revoked svc raw (store w) (store w')"
  using rq_case [OF rq_RefreshSession [OF assms(1), of svc raw "store w"] assms(2)]
  by (auto split: prod.splits sum.splits)

section \<open>Single use\<close>

lemma rotated_spends:
  assumes "distinct (map s_RefreshTokenHash (sessions s0))" and "old \<in> set (sessions s0)" and "guard inp old"
    and "NewRefreshHash inp \<noteq> OldRefreshHash inp"
  shows "s \<in> set (sessions (rotated_to inp s0)) \<Longrightarrow> s_RefreshTokenHash s \<noteq> OldRefreshHash inp"
proof
  assume s: "s \<in> set (sessions (rotated_to inp s0))" and h: "s_RefreshTokenHash s = OldRefreshHash inp"
  from s obtain x where x: "x \<in> set (sessions s0)" "s = (if guard inp x then rotate_set inp x else x)"
    by (auto simp: rotated_to_def put_sessions_def set_update_where)
  with h assms(4) have "\<not> guard inp x" "s_RefreshTokenHash x = OldRefreshHash inp"
    by (auto split: if_splits)
  moreover have "s_RefreshTokenHash old = OldRefreshHash inp"
    using assms(3) by (simp add: guard_def rotate_guard_def)
  ultimately have "x = old" using keyed_unique [OF assms(1) x(1) assms(2)] by simp
  with \<open>\<not> guard inp x\<close> assms(3) show False by simp
qed

lemma UpdateRefreshToken_post:
  assumes "c_tx ctx" and "UpdateRefreshToken mysql ctx inp w = (r, w')"
  shows "rotation_post inp (store w) r (store w')"
  using tx_hoareD [OF wp_UpdateRefreshToken [OF assms(1), of mysql inp "store w", unfolded wp_def] refl assms(2)]
  by simp

lemma UpdateRefreshToken_new:
  "UpdateRefreshToken mysql ctx inp w = (Inr s, w') \<Longrightarrow> NewRefreshHash inp \<noteq> OldRefreshHash inp"
  by (auto simp: UpdateRefreshToken_def fail_def split: if_splits)

lemma no_refresh_row:
  "(\<And>s. s \<in> set rows \<Longrightarrow> s_RefreshTokenHash s \<noteq> h) \<Longrightarrow> select1 (\<lambda>s. s_RefreshTokenHash s = h) rows = None"
  by (simp add: select1_None)

text \<open>The row that carries the old hash as its previous one, after the rotation.\<close>

lemma rotated_prev:
  assumes "distinct (map s_RefreshTokenHash (sessions s0))"
    and "old \<in> set (sessions s0)" and "guard inp old"
    and "\<And>s. s \<in> set (sessions s0) \<Longrightarrow> s_PreviousRefreshHash s \<noteq> OldRefreshHash inp"
  shows "select1 (\<lambda>s. s_PreviousRefreshHash s = OldRefreshHash inp) (sessions (rotated_to inp s0)) =
           Some (rotate_set inp old)"
proof -
  have oldh: "s_RefreshTokenHash old = OldRefreshHash inp"
    using assms(3) by (simp add: guard_def rotate_guard_def)
  have "rotate_set inp old \<in> set (sessions (rotated_to inp s0))"
    using rotated_rows assms(2,3) by blast
  then obtain p where p: "select1 (\<lambda>s. s_PreviousRefreshHash s = OldRefreshHash inp) (sessions (rotated_to inp s0)) = Some p"
    using select1_ex [of "rotate_set inp old" _ "\<lambda>s. s_PreviousRefreshHash s = OldRefreshHash inp"] oldh
    by (auto simp: rotate_set_def)
  note q = select1_Some [OF p]
  then obtain x where x: "x \<in> set (sessions s0)" "p = (if guard inp x then rotate_set inp x else x)"
    by (auto simp: rotated_to_def put_sessions_def set_update_where)
  with q assms(4) have g: "guard inp x" by (auto split: if_splits)
  then have "s_RefreshTokenHash x = OldRefreshHash inp" by (simp add: guard_def rotate_guard_def)
  then have "x = old" using keyed_unique [OF assms(1) x(1) assms(2)] oldh by simp
  with p x g show ?thesis by simp
qed


text \<open>Sample rows and worlds.\<close>

definition session_ex :: session where
  "session_ex = \<lparr>s_ID = ''s1'', s_UserID = ''u1'', s_TokenHash = ''t0'', s_RefreshTokenHash = ''r0'',
     s_PreviousRefreshHash = '''', s_IP = '''', s_UserAgent = '''', s_IsRevoked = False,
     s_ExpiresAt = unix_epoch + 20, s_RefreshExpiresAt = unix_epoch + 90, s_RefreshRotatedAt = None,
     s_CreatedAt = unix_epoch + 1, s_RevokedAt = None, s_LastActiveAt = unix_epoch + 1,
     s_TwoFactorVerifiedAt = None, s_ActiveOrgID = None, s_ActiveOrgRole = None\<rparr>"

definition tables_ex :: tables where
  "tables_ex = \<lparr>users = [], sessions = [session_ex], tokens = [], orgs = [], members = [],
     audit_log = [], audit_outbox = [], invites = [], org_invites = [], email_changes = [], recoveries = [],
     providers = []\<rparr>"

definition world_ex :: "tables event list \<Rightarrow> tables world" where
  "world_ex es = \<lparr>store = tables_ex, sched = es, clock = unix_epoch + 5, ticks = [], entropy = [], mailbox = []\<rparr>"

definition tx_ex :: ctx where "tx_ex = \<lparr>c_tx = True, c_scope = None, c_guard = False\<rparr>"

definition rotate_ex :: "string \<Rightarrow> time \<Rightarrow> update_refresh" where
  "rotate_ex n t = \<lparr>OldRefreshHash = ''r0'', NewTokenHash = ''t'' @ n, NewRefreshHash = ''r'' @ n,
     NewExpiresAt = t + 20, RotatedAt = t, ur_MaxLifetime = 0, ur_IdleTTL = 0, ur_GraceWindow = 5\<rparr>"

definition rotated_ex :: "tables world" where
  "rotated_ex = (world_ex [])\<lparr>store := rotated_to (rotate_ex ''1'' (unix_epoch + 5)) tables_ex\<rparr>"

lemma rotate_ex_ok:
  "UpdateRefreshToken False tx_ex (rotate_ex ''1'' (unix_epoch + 5)) (world_ex []) =
     (Inr (rotate_set (rotate_ex ''1'' (unix_epoch + 5)) session_ex), rotated_ex)"
  by (simp add: UpdateRefreshToken_def updateRefreshTokenReturning_def bnd_def rotate_stmt_def stmt_quiet
      world_ex_def tables_ex_def session_ex_def rotate_ex_def rotate_guard_def maxLifetimeCut_def idleCutOf_def
      count_where_def update_where_def rotate_set_def ret_def rotated_ex_def rotated_to_def guard_def put_sessions_def)


section \<open>Completeness of the failure classification\<close>

text \<open>The failure classification of a rotation is complete: when every session was created and
  last active after the Unix epoch, the branch for an unexplained empty update is unreachable in
  a transaction, whatever fails.\<close>

theorem classification_complete:
  assumes "c_tx ctx"
    and "\<forall>x \<in> set (sessions (store w)). unix_epoch < s_CreatedAt x \<and> unix_epoch < s_LastActiveAt x"
  shows "fst (UpdateRefreshToken mysql ctx inp w) \<noteq>
           Inl (NewError ''internal_error'' ''Session rotation failed due to internal state conflict'')"
proof -
  let ?bad = "NewError ''internal_error'' ''Session rotation failed due to internal state conflict''"
  let ?Q = "\<lambda>r d. r \<noteq> Inl ?bad"
  have ne: "ErrDatabase \<noteq> ?bad" "ErrSessionRevoked \<noteq> ?bad" "ErrRefreshExpired \<noteq> ?bad" "ErrMaxLifetimeExceeded \<noteq> ?bad"
    "ErrSessionExpired \<noteq> ?bad" "ErrTokenAlreadyRotated \<noteq> ?bad" "ErrInvalidRefreshToken \<noteq> ?bad" "ErrDuplicateKey \<noteq> ?bad"
    by (simp_all add: err_defs NewError_def)
  have cl: "wp (classifyRefreshFailure ctx inp (idleCutOf inp)) ?Q (store w)"
    if none: "filter (guard inp) (sessions (store w)) = []"
  proof -
    have "s_IsRevoked s \<or> \<not> RotatedAt inp < s_RefreshExpiresAt s \<or>
        0 < ur_MaxLifetime inp \<and> \<not> RotatedAt inp < s_CreatedAt s + ur_MaxLifetime inp \<or>
        0 < ur_IdleTTL inp \<and> \<not> idleCutOf inp < s_LastActiveAt s"
      if "select1 (\<lambda>s. s_RefreshTokenHash s = OldRefreshHash inp) (sessions (store w)) = Some s" for s
      using select1_Some [OF that] none assms(2)
      by (auto simp: filter_empty_conv guard_def rotate_guard_def maxLifetimeCut_def idleCutOf_def split: if_splits)
    then show ?thesis
      unfolding classifyRefreshFailure_def Let_def GetByRefreshHash_def GetByPreviousRefreshHash_def sess_DeleteByID_def
      using assms(1) ne by (auto intro!: wps split: option.splits simp: NewError_def)
  qed
  have "wp (UpdateRefreshToken mysql ctx inp) ?Q (store w)"
    unfolding UpdateRefreshToken_def
    by (auto intro!: wps wp_rotate_stmt assms(1) cl ne
        simp: updateRefreshTokenNoReturning_def updateRefreshTokenReturning_def GetByRefreshHash_def
        split: option.splits) (simp_all add: NewError_def err_defs)
  then show ?thesis
    using tx_hoareD [of "\<lambda>d. d = store w" "UpdateRefreshToken mysql ctx inp" ?Q w] unfolding wp_def
    by (metis prod.collapse)
qed

theorem classification_complete_witness:
  "fst (UpdateRefreshToken True tx_ex (rotate_ex ''1'' (unix_epoch + 95)) (world_ex [Quiet])) \<noteq>
     Inl (NewError ''internal_error'' ''Session rotation failed due to internal state conflict'') \<and>
   fst (UpdateRefreshToken True tx_ex (rotate_ex ''1'' (unix_epoch + 95)) (world_ex [Quiet])) = Inl ErrRefreshExpired"
proof
  show "fst (UpdateRefreshToken True tx_ex (rotate_ex ''1'' (unix_epoch + 95)) (world_ex [Quiet])) \<noteq>
     Inl (NewError ''internal_error'' ''Session rotation failed due to internal state conflict'')"
    by (rule classification_complete) (simp_all add: tx_ex_def world_ex_def tables_ex_def session_ex_def)
  show "fst (UpdateRefreshToken True tx_ex (rotate_ex ''1'' (unix_epoch + 95)) (world_ex [Quiet])) = Inl ErrRefreshExpired"
    by (simp add: UpdateRefreshToken_def updateRefreshTokenNoReturning_def bnd_def rotate_stmt_def stmt_def
        next_event_def world_ex_def tables_ex_def session_ex_def rotate_ex_def rotate_guard_def maxLifetimeCut_def
        idleCutOf_def count_where_def update_where_def classifyRefreshFailure_def GetByRefreshHash_def query_def
        select1_def fail_def put_sessions_def Let_def)
qed

section \<open>Validation\<close>

lemma select1_join:
  fixes ss :: "session list" and us :: "user list"
  assumes "\<forall>s \<in> set ss. \<exists>u \<in> set us. u_ID u = s_UserID s"
  shows "case select1 (\<lambda>s. P s) ss of
       None \<Rightarrow> select1 (\<lambda>p. P (fst p)) (concat (map (\<lambda>s. map (Pair s) (filter (\<lambda>u. u_ID u = s_UserID s) us)) ss)) = None
     | Some s \<Rightarrow> \<exists>u \<in> set us. u_ID u = s_UserID s \<and>
         select1 (\<lambda>p. P (fst p)) (concat (map (\<lambda>s. map (Pair s) (filter (\<lambda>u. u_ID u = s_UserID s) us)) ss)) = Some (s, u)"
  using assms
proof (induction ss)
  case Nil
  then show ?case by (simp add: select1_def)
next
  case (Cons s ss)
  then obtain u us' where us: "filter (\<lambda>u. u_ID u = s_UserID s) us = u # us'"
    by (cases "filter (\<lambda>u. u_ID u = s_UserID s) us") (auto simp: filter_empty_conv)
  have "u \<in> set (filter (\<lambda>u. u_ID u = s_UserID s) us)" by (simp add: us)
  then have u: "u \<in> set us" "u_ID u = s_UserID s" by simp_all
  show ?case
  proof (cases "P s")
    case True
    with us u show ?thesis by (auto simp: select1_def)
  next
    case False
    then have "List.find (\<lambda>p. P (fst p)) (map (Pair s) xs @ ys) = List.find (\<lambda>p. P (fst p)) ys" for xs :: "user list" and ys
      by (induction xs) auto
    with False Cons show ?thesis by (cases "List.find P ss") (simp_all add: select1_def)
  qed
qed

text \<open>The two validation paths never disagree about a session: when every session's owner
  exists, \<open>ValidateWithUser\<close> accepts exactly the tokens that \<open>Validate\<close> accepts, with the same session, its
  owner, and the same error otherwise, under any faults.\<close>

theorem validate_paths_agree:
  assumes "faults_only w" and "\<forall>s \<in> set (sessions (store w)). \<exists>u \<in> set (users (store w)). u_ID u = s_UserID s"
  shows "case ValidateWithUser svc ctx token w of
      (Inl e, w') \<Rightarrow> Validate_token svc ctx token w = (Inl e, w')
    | (Inr None, w') \<Rightarrow> False
    | (Inr (Some (s, u)), w') \<Rightarrow> Validate_token svc ctx token w = (Inr (Some s), w') \<and>
        u \<in> set (users (store w)) \<and> u_ID u = s_UserID s"
proof -
  obtain ok w1 where ev: "next_event ctx w = (ok, w1)" by fastforce
  have st: "store w1 = store w" by (rule next_event_faults_only [OF assms(1) ev])
  note j = select1_join [OF assms(2), of "\<lambda>s. s_TokenHash s = hashToken token"]
  show ?thesis
  proof (cases "Matches (c_scope ctx) token \<and> ok")
    case False
    with ev show ?thesis
      by (auto simp: ValidateWithUser_def Validate_token_def fail_def bnd_def wrap_def GetByTokenHash_def
          GetByTokenHashWithUser_def query_def stmt_def)
  next
    case True
    show ?thesis
    proof (cases "select1 (\<lambda>s. s_TokenHash s = hashToken token) (sessions (store w))")
      case None
      with True ev st j show ?thesis
        by (simp add: ValidateWithUser_def Validate_token_def fail_def bnd_def seq_def wrap_def GetByTokenHash_def
          GetByTokenHashWithUser_def query_def stmt_def checkSession_def)
    next
      case (Some s)
      with j obtain u where u: "u \<in> set (users (store w))" "u_ID u = s_UserID s"
        "select1 (\<lambda>p. s_TokenHash (fst p) = hashToken token)
          (concat (map (\<lambda>s. map (Pair s) (filter (\<lambda>u. u_ID u = s_UserID s) (users (store w)))) (sessions (store w)))) = Some (s, u)"
        by auto
      with Some True ev st show ?thesis
        by (cases "checkSession svc (Some s) w1"; cases "fst (checkSession svc (Some s) w1)")
          (auto simp: ValidateWithUser_def Validate_token_def ret_def bnd_def seq_def wrap_def GetByTokenHash_def
            GetByTokenHashWithUser_def query_def stmt_def)
    qed
  qed
qed

definition service_ex :: session_service where
  "service_ex = \<lparr>RequireEmailVerification = False, Duration = 20, IdleTTL = 10, RefreshTTL = 90, MaxLifetime = 0,
     GraceWindow = 5, TouchDebounce = 5, sc_audit = None, sc_mysql = False, sc_uuidOK = (\<lambda>i. i \<noteq> '''')\<rparr>"

definition valid_ex :: "tables world" where
  "valid_ex = (world_ex [])\<lparr>store := tables_ex\<lparr>users := [user_ex],
     sessions := [session_ex\<lparr>s_TokenHash := hashToken ''tok''\<rparr>]\<rparr>\<rparr>"

theorem validate_paths_agree_witness:
  "Validate_token service_ex \<lparr>c_tx = False, c_scope = Some App, c_guard = False\<rparr> ''tok'' valid_ex =
     (Inr (Some (session_ex\<lparr>s_TokenHash := hashToken ''tok''\<rparr>)), valid_ex) \<and>
   fst (Validate_token service_ex \<lparr>c_tx = False, c_scope = Some App, c_guard = False\<rparr> ''tok'' (valid_ex\<lparr>ticks := [6]\<rparr>)) = Inl ErrSessionExpired"
proof -
  let ?ctx = "\<lparr>c_tx = False, c_scope = Some App, c_guard = False\<rparr>"
  have eval: "ValidateWithUser service_ex ?ctx ''tok'' valid_ex =
      (Inr (Some (session_ex\<lparr>s_TokenHash := hashToken ''tok''\<rparr>, user_ex)), valid_ex)"
    "fst (ValidateWithUser service_ex ?ctx ''tok'' (valid_ex\<lparr>ticks := [6]\<rparr>)) = Inl ErrSessionExpired"
    by (simp_all add: ValidateWithUser_def GetByTokenHashWithUser_def query_quiet effect_defs checkSession_def
        now_def Let_def Matches_def Explicit_def Of_def adminPrefix_def valid_ex_def world_ex_def tables_ex_def
        session_ex_def user_ex_def service_ex_def select1_def)
  have wf: "faults_only (valid_ex\<lparr>ticks := ts\<rparr>)"
    "\<forall>s \<in> set (sessions (store (valid_ex\<lparr>ticks := ts\<rparr>))). \<exists>u \<in> set (users (store (valid_ex\<lparr>ticks := ts\<rparr>))). u_ID u = s_UserID s" for ts
    by (simp_all add: valid_ex_def world_ex_def tables_ex_def session_ex_def user_ex_def)
  have v: "valid_ex\<lparr>ticks := []\<rparr> = valid_ex" by (simp add: valid_ex_def world_ex_def)
  from validate_paths_agree [OF wf, of service_ex ?ctx "''tok''" "[]"] eval(1)
       validate_paths_agree [OF wf, of service_ex ?ctx "''tok''" "[6]"] eval(2)
  show ?thesis unfolding v by (auto split: prod.splits sum.splits)
qed

section \<open>Revocation\<close>

text \<open>Revoking sessions by id on behalf of a user removes exactly those of the given sessions
  that belong to the user, reports their number, and leaves every other session; on any failure
  nothing is revoked.\<close>

theorem revoke_many_scoped:
  assumes "\<not> c_tx ctx" and "faults_only w"
  shows "case RevokeManyForUser svc ctx ids userID w of
      (Inr n, w') \<Rightarrow> n = count_where (\<lambda>s. s_UserID s = userID \<and> s_ID s \<in> set ids \<and> sc_uuidOK svc (s_ID s)) (sessions (store w)) \<and>
        sessions (store w') =
          filter (\<lambda>s. \<not> (s_UserID s = userID \<and> s_ID s \<in> set ids \<and> sc_uuidOK svc (s_ID s))) (sessions (store w))
    | (Inl e, w') \<Rightarrow> store w' = store w"
proof -
  let ?P = "\<lambda>s. s_UserID s = userID \<and> s_ID s \<in> set (filter (sc_uuidOK svc) ids)"

  have "rq (RevokeManyForUser svc ctx ids userID) (\<lambda>r d. case r of Inl e \<Rightarrow> d = store w
      | Inr n \<Rightarrow> n = count_where ?P (sessions (store w)) \<and> sessions d = filter (\<lambda>s. \<not> ?P s) (sessions (store w))) (store w)"
    unfolding RevokeManyForUser_def repo_RevokeManyForUser_def Let_def
    by (intro rq_WithTx [OF assms(1)])
      (auto intro!: wps dest!: same_but_audit_sessions
        simp: count_where_def put_sessions_def delete_where_def split: if_splits sum.splits)
  from rq_case [OF this assms(2)] show ?thesis
    by (auto split: prod.splits sum.splits simp: conj_commute)
qed

theorem revoke_many_scoped_witness:
  "RevokeManyForUser service_ex \<lparr>c_tx = False, c_scope = None, c_guard = False\<rparr> [''s1'', '''', ''s9''] ''u2'' (world_ex []) = (Inr 0, world_ex []) \<and>
   (case RevokeManyForUser service_ex \<lparr>c_tx = False, c_scope = None, c_guard = False\<rparr> [''s1'', '''', ''s9''] ''u1'' (world_ex [Quiet, Fault]) of
      (r, w') \<Rightarrow> r = Inl (Wrapf ''session revoke many'' [ErrDatabase]) \<and> store w' = tables_ex)"
proof -
  let ?ctx = "\<lparr>c_tx = False, c_scope = None, c_guard = False\<rparr>"
  have "\<not> c_tx ?ctx" "faults_only (world_ex [Quiet, Fault])" by (simp_all add: world_ex_def faults_only_def)
  from revoke_many_scoped [OF this, where svc = service_ex and ids = "[''s1'', '''', ''s9'']" and userID = "''u1''"]
  show ?thesis
    by (simp add: RevokeManyForUser_def repo_RevokeManyForUser_def WithTx_def next_event_def stmt_def effect_defs
        world_ex_def tables_ex_def session_ex_def service_ex_def count_where_def delete_where_def put_sessions_def Let_def)
qed

section \<open>A created session\<close>

definition fresh_session :: "session_service \<Rightarrow> session_result \<Rightarrow> string \<Rightarrow> bool \<Rightarrow> tables \<Rightarrow> tables \<Rightarrow> bool" where
  "fresh_session svc res userID tfv s0 d \<longleftrightarrow>
     (let s = sr_Session res in
        sessions d = sessions s0 @ [s] \<and> (\<forall>x \<in> set (sessions s0). s_TokenHash x \<noteq> s_TokenHash s \<and> s_ID x \<noteq> s_ID s) \<and>
        users d = users s0 \<and>
        s_UserID s = userID \<and> s_TokenHash s = hashToken (sr_SessionToken res) \<and>
        s_RefreshTokenHash s = hashToken (sr_RefreshToken res) \<and> \<not> s_IsRevoked s \<and>
        s_LastActiveAt s = s_CreatedAt s \<and> s_ExpiresAt s = s_CreatedAt s + Duration svc \<and>
        s_RefreshExpiresAt s = s_CreatedAt s + RefreshTTL svc \<and>
        s_TwoFactorVerifiedAt s = (if tfv then Some (s_CreatedAt s) else None))"

lemma wp_create_body:
  assumes "c_tx tx"
  shows "wp (seq (wrap m (sess_Create tx s)) (publish a tx ev)) (\<lambda>r d. case r of Inl e \<Rightarrow> True
      | Inr _ \<Rightarrow> (\<forall>x \<in> set (sessions s0). s_TokenHash x \<noteq> s_TokenHash s \<and> s_ID x \<noteq> s_ID s) \<and>
          same_but_audit (s0\<lparr>sessions := sessions s0 @ [s]\<rparr>) d) s0"
  unfolding sess_Create_def
  by (intro wps assms) (auto intro!: wps assms simp: list_ex_iff split: sum.splits)

lemma rq_create:
  assumes "\<not> c_tx ctx"
  shows "rq (create svc ctx userID ip ua tfv) (\<lambda>r d. case r of Inl e \<Rightarrow> d = s0
     | Inr res \<Rightarrow> fresh_session svc res userID tfv s0 d \<and> Matches (c_scope ctx) (sr_SessionToken res) \<and>
                Matches (c_scope ctx) (sr_RefreshToken res)) s0"
proof -
  have m: "Matches (c_scope ctx) (Bind (Current (c_scope ctx)) v)" for v
    by (simp add: Matches_def)
  show ?thesis
    unfolding create_def Let_def
    by (auto intro!: rqs rq_local [OF local_Generate] rq_WithTx [OF assms] wp_conseq [OF wp_create_body [where ?s0.0 = s0]] m
        simp: fresh_session_def Let_def same_but_audit_def split: sum.splits)
qed

text \<open>The reading of the clock at the next \<open>time.Now()\<close>.\<close>

definition reading :: "tables world \<Rightarrow> time" where
  "reading w = clock w + int (case ticks w of [] \<Rightarrow> 0 | d # _ \<Rightarrow> d)"

text \<open>C36: A created session round-trips through its token: the token returned by \<open>create\<close>, presented
  in the same browser context while the tables are unchanged, validates to exactly the created session
  of that user until the first of its absolute, idle and maximal lifetime ends, and is an
  expired session from then on.\<close>

theorem created_session_validates:
  assumes "\<not> c_tx ctx" and "faults_only w" and "create svc ctx userID ip ua tfv w = (Inr res, w1)"
    and "store w2 = store w1" and "sched w2 = []"
  shows "s_UserID (sr_Session res) = userID \<and>
    fst (Validate_token svc ctx (sr_SessionToken res) w2) =
      (let t = reading w2; c = s_CreatedAt (sr_Session res) in
       if c + Duration svc < t \<or> 0 < IdleTTL svc \<and> c + IdleTTL svc \<le> t then Inl ErrSessionExpired
       else if 0 < MaxLifetime svc \<and> c + MaxLifetime svc \<le> t then Inl ErrMaxLifetimeExceeded
       else Inr (Some (sr_Session res)))"
proof -
  from rqD [OF rq_create [OF assms(1)] assms(2,3)]
  have f: "fresh_session svc res userID tfv (store w) (store w1)" "Matches (c_scope ctx) (sr_SessionToken res)"
    by auto
  have "select1 (\<lambda>s. s_TokenHash s = hashToken (sr_SessionToken res)) (sessions (store w2)) = Some (sr_Session res)"
    using f(1) assms(4) by (auto simp: fresh_session_def Let_def intro!: select1_snoc)
  with f assms(4,5) show ?thesis
    by (auto simp: Validate_token_def GetByTokenHash_def query_quiet effect_defs checkSession_def now_def Let_def
        reading_def fresh_session_def)
qed

definition login_ex :: "tables world" where
  "login_ex = \<lparr>store = tables_ex\<lparr>users := [user_ex], sessions := []\<rparr>, sched = [], clock = unix_epoch + 5,
     ticks = [], entropy = [Some ''a'', Some ''b'', Some ''id''], mailbox = []\<rparr>"

theorem created_session_validates_witness:
  "case create service_ex \<lparr>c_tx = False, c_scope = Some Admin, c_guard = False\<rparr> ''u1'' ''ip'' ''ua'' True login_ex of
     (Inr res, w1) \<Rightarrow>
       sr_SessionToken res = ''ga-admin.61'' \<and>
       fst (Validate_token service_ex \<lparr>c_tx = False, c_scope = Some Admin, c_guard = False\<rparr> (sr_SessionToken res) (w1\<lparr>ticks := [9]\<rparr>)) =
         Inr (Some (sr_Session res)) \<and>
       fst (Validate_token service_ex \<lparr>c_tx = False, c_scope = Some Admin, c_guard = False\<rparr> (sr_SessionToken res) (w1\<lparr>ticks := [10]\<rparr>)) =
         Inl ErrSessionExpired
   | (Inl e, w1) \<Rightarrow> False"
proof -
  let ?ctx = "\<lparr>c_tx = False, c_scope = Some Admin, c_guard = False\<rparr>"
  obtain r w1 where run: "create service_ex ?ctx ''u1'' ''ip'' ''ua'' True login_ex = (r, w1)" by fastforce
  have hex: "hex_encode ''a'' = ''61''" by code_simp
  from run obtain res where r: "r = Inr res" "sr_SessionToken res = ''ga-admin.61''"
    "s_CreatedAt (sr_Session res) = clock w1" "sched w1 = []"
    by (auto simp: create_def Generate_def effect_defs draw_def now_def WithTx_def next_event_def sess_Create_def
        stmt_def publish_def login_ex_def tables_ex_def user_ex_def service_ex_def hex Bind_def adminPrefix_def Let_def)
  have fo: "\<not> c_tx ?ctx" "faults_only login_ex" by (simp_all add: login_ex_def faults_only_def)
  note v = created_session_validates [OF fo run [unfolded r(1)]]
  from v [of "w1\<lparr>ticks := [9]\<rparr>"] v [of "w1\<lparr>ticks := [10]\<rparr>"] r run
  show ?thesis by (simp add: reading_def service_ex_def Let_def)
qed

text \<open>A refresh whose rotating statement fails after the transaction began.\<close>

definition refresh_ex :: "tables world" where
  "refresh_ex = \<lparr>store = tables_ex\<lparr>sessions := [session_ex\<lparr>s_RefreshTokenHash := hashToken ''old''\<rparr>]\<rparr>,
     sched = [Quiet, Fault], clock = unix_epoch + 5, ticks = [], entropy = [Some ''a'', Some ''b''], mailbox = []\<rparr>"

theorem refresh_all_or_nothing_witness:
  "\<exists>e w'. RefreshSession service_ex \<lparr>c_tx = False, c_scope = None, c_guard = False\<rparr> ''old'' refresh_ex = (Inl e, w') \<and>
     store w' = store refresh_ex"
proof -
  let ?ctx = "\<lparr>c_tx = False, c_scope = None, c_guard = False\<rparr>"
  obtain r w' where run: "RefreshSession service_ex ?ctx ''old'' refresh_ex = (r, w')" by fastforce
  then obtain e where e: "r = Inl e"
    by (auto simp: RefreshSession_def Generate_def effect_defs draw_def now_def WithTx_def next_event_def
        refresh_body_def UpdateRefreshToken_def updateRefreshTokenReturning_def rotate_stmt_def stmt_def
        refresh_ex_def service_ex_def Let_def split: option.splits if_splits)
  have fo: "\<not> c_tx ?ctx" "faults_only refresh_ex" by (simp_all add: refresh_ex_def faults_only_def)
  have "\<not> reuse_revoked service_ex ''old'' (store refresh_ex) (store w')"
    by (simp add: reuse_revoked_def reuse_deletes_def refresh_ex_def tables_ex_def refresh_input_def select1_def)
  with refresh_all_or_nothing [OF fo, of service_ex "''old''"] run e show ?thesis by simp
qed

end
