(* ===== verification/Tokens.thy ===== *)
theory Tokens
  imports AuditRecord Sha256
begin

text \<open>
  \<open>internal/sqlstore/token_repo.go\<close> with \<open>token_queries.go\<close>: one-time verification tokens. Each
  guarded \<open>UPDATE\<close> is a condition on a row and an assignment; the repository method runs it as one
  statement and reports whether a row changed. The step relation \<open>tok_step\<close> is one statement of
  any request on the table, so its runs are all interleavings of concurrent requests.
\<close>

record consume_input =
  c_ID :: string
  c_TokenHash :: string
  c_UserID :: string
  c_Type :: token_type
  c_UsedAt :: time

section \<open>The statements\<close>

definition put_tokens :: "token list \<Rightarrow> tables \<Rightarrow> tables" where
  "put_tokens rows d = d\<lparr>tokens := rows\<rparr>"

definition set_used :: "time \<Rightarrow> token \<Rightarrow> token" where
  "set_used t r = r\<lparr>t_UsedAt := Some t\<rparr>"

definition unused_id :: "string \<Rightarrow> token \<Rightarrow> bool" where
  "unused_id i r \<longleftrightarrow> t_ID r = i \<and> t_UsedAt r = None"

definition consume_guard :: "consume_input \<Rightarrow> token \<Rightarrow> bool" where
  "consume_guard inp r \<longleftrightarrow> t_ID r = c_ID inp \<and> t_TokenHash r = c_TokenHash inp \<and> t_UserID r = Some (c_UserID inp) \<and>
     t_Type r = c_Type inp \<and> t_UsedAt r = None \<and> c_UsedAt inp < t_ExpiresAt r"

definition consume_unowned_guard :: "consume_input \<Rightarrow> token \<Rightarrow> bool" where
  "consume_unowned_guard inp r \<longleftrightarrow> t_ID r = c_ID inp \<and> t_TokenHash r = c_TokenHash inp \<and> t_UserID r = None \<and>
     t_Type r = c_Type inp \<and> t_UsedAt r = None \<and> c_UsedAt inp < t_ExpiresAt r"

definition consume_cap_guard :: "consume_input \<Rightarrow> int \<Rightarrow> token \<Rightarrow> bool" where
  "consume_cap_guard inp maxAttempts r \<longleftrightarrow>
     (if c_UserID inp = '''' then consume_unowned_guard inp r else consume_guard inp r) \<and> t_Attempts r < maxAttempts"

definition used_cap_guard :: "string \<Rightarrow> int \<Rightarrow> token \<Rightarrow> bool" where
  "used_cap_guard i maxAttempts r \<longleftrightarrow> unused_id i r \<and> t_Attempts r < maxAttempts"

definition attempt_guard :: "string \<Rightarrow> int \<Rightarrow> token \<Rightarrow> bool" where
  "attempt_guard i maxAttempts r \<longleftrightarrow> t_ID r = i \<and> t_Attempts r < maxAttempts"

definition add_attempt :: "token \<Rightarrow> token" where
  "add_attempt r = r\<lparr>t_Attempts := t_Attempts r + 1\<rparr>"

definition resend_guard :: "string \<Rightarrow> int \<Rightarrow> int \<Rightarrow> token \<Rightarrow> bool" where
  "resend_guard i maxRefreshes maxAttempts r \<longleftrightarrow>
     unused_id i r \<and> t_ResendCount r < maxRefreshes \<and> t_Attempts r < maxAttempts"

definition set_resend :: "string \<Rightarrow> time \<Rightarrow> time \<Rightarrow> token \<Rightarrow> token" where
  "set_resend newHash newExpiresAt newCreatedAt r =
     r\<lparr>t_TokenHash := newHash, t_ExpiresAt := newExpiresAt, t_CreatedAt := newCreatedAt,
       t_ResendCount := t_ResendCount r + 1\<rparr>"

section \<open>The repository\<close>

definition tok_Create :: "ctx \<Rightarrow> token \<Rightarrow> unit action" where
  "tok_Create ctx t =
     bnd (if is_zero_time (t_CreatedAt t) then now else ret (t_CreatedAt t)) (\<lambda>createdAt.
     stmt ctx (\<lambda>d.
       if list_ex (\<lambda>r. t_ID r = t_ID t \<or> t_TokenHash r = t_TokenHash t) (tokens d) then (Inl ErrDuplicateKey, d)
       else if case t_UserID t of None \<Rightarrow> False | Some u \<Rightarrow> \<not> list_ex (\<lambda>x. u_ID x = u) (users d) then (Inl ErrDatabase, d)
       else (Inr (), put_tokens (tokens d @ [t\<lparr>t_CreatedAt := createdAt\<rparr>]) d)))"

definition GetByHash :: "ctx \<Rightarrow> string \<Rightarrow> token option action" where
  "GetByHash ctx h = query ctx (\<lambda>d. select1 (\<lambda>t. t_TokenHash t = h) (tokens d))"

definition tok_GetByID :: "ctx \<Rightarrow> string \<Rightarrow> token option action" where
  "tok_GetByID ctx i = query ctx (\<lambda>d. select1 (\<lambda>t. t_ID t = i) (tokens d))"

text \<open>\<open>ORDER BY created_at DESC LIMIT 1\<close>: a newest row, the first of them in the table's order.\<close>

fun newest :: "token list \<Rightarrow> token option" where
  "newest [] = None"
| "newest (t # ts) = (case newest ts of None \<Rightarrow> Some t
     | Some u \<Rightarrow> if t_CreatedAt t < t_CreatedAt u then Some u else Some t)"

definition GetLastByUserAndType :: "ctx \<Rightarrow> string \<Rightarrow> token_type \<Rightarrow> token option action" where
  "GetLastByUserAndType ctx userID ty =
     query ctx (\<lambda>d. newest (filter (\<lambda>t. t_UserID t = Some userID \<and> t_Type t = ty) (tokens d)))"

definition MarkUsed :: "ctx \<Rightarrow> string \<Rightarrow> unit action" where
  "MarkUsed ctx i = bnd now (\<lambda>t. bnd (affected ctx tokens put_tokens (unused_id i) (set_used t)) (\<lambda>_. ret ()))"

definition MarkUsedIfUnused :: "ctx \<Rightarrow> string \<Rightarrow> bool action" where
  "MarkUsedIfUnused ctx i = bnd now (\<lambda>t. affected ctx tokens put_tokens (unused_id i) (set_used t))"

definition ConsumeIfValid :: "ctx \<Rightarrow> consume_input \<Rightarrow> bool action" where
  "ConsumeIfValid ctx inp = affected ctx tokens put_tokens (consume_guard inp) (set_used (c_UsedAt inp))"

definition ConsumeIfValidUnderCap :: "ctx \<Rightarrow> consume_input \<Rightarrow> int \<Rightarrow> bool action" where
  "ConsumeIfValidUnderCap ctx inp maxAttempts =
     affected ctx tokens put_tokens (consume_cap_guard inp maxAttempts) (set_used (c_UsedAt inp))"

definition HasValidByUserAndType :: "ctx \<Rightarrow> string \<Rightarrow> token_type \<Rightarrow> bool action" where
  "HasValidByUserAndType ctx userID ty = bnd now (\<lambda>now. query ctx (\<lambda>d.
     list_ex (\<lambda>t. t_UserID t = Some userID \<and> t_Type t = ty \<and> t_UsedAt t = None \<and> now < t_ExpiresAt t) (tokens d)))"

definition tok_delete :: "ctx \<Rightarrow> (token \<Rightarrow> bool) \<Rightarrow> unit action" where
  "tok_delete ctx P = exec ctx (\<lambda>d. put_tokens (delete_where P (tokens d)) d)"

definition tok_DeleteExpired :: "ctx \<Rightarrow> unit action" where
  "tok_DeleteExpired ctx = bnd now (\<lambda>now. tok_delete ctx (\<lambda>t. t_ExpiresAt t < now))"

definition DeleteUnusedByID :: "ctx \<Rightarrow> string \<Rightarrow> unit action" where
  "DeleteUnusedByID ctx i = tok_delete ctx (unused_id i)"

definition DeleteUnusedByUserAndType :: "ctx \<Rightarrow> string \<Rightarrow> token_type \<Rightarrow> unit action" where
  "DeleteUnusedByUserAndType ctx userID ty =
     tok_delete ctx (\<lambda>t. t_UserID t = Some userID \<and> t_Type t = ty \<and> t_UsedAt t = None)"

definition IncrementAttempts :: "ctx \<Rightarrow> string \<Rightarrow> int \<Rightarrow> bool action" where
  "IncrementAttempts ctx i maxAttempts = affected ctx tokens put_tokens (attempt_guard i maxAttempts) add_attempt"

definition MarkUsedIfUnderCap :: "ctx \<Rightarrow> string \<Rightarrow> int \<Rightarrow> bool action" where
  "MarkUsedIfUnderCap ctx i maxAttempts =
     bnd now (\<lambda>t. affected ctx tokens put_tokens (used_cap_guard i maxAttempts) (set_used t))"

definition UpdateForResend :: "ctx \<Rightarrow> string \<Rightarrow> string \<Rightarrow> time \<Rightarrow> time \<Rightarrow> int \<Rightarrow> int \<Rightarrow> bool action" where
  "UpdateForResend ctx i newHash newExpiresAt newCreatedAt maxRefreshes maxAttempts =
     stmt ctx (\<lambda>d. let G = resend_guard i maxRefreshes maxAttempts;
                       rows = update_where G (set_resend newHash newExpiresAt newCreatedAt) (tokens d)
       in if count_where G (tokens d) \<noteq> 0 \<and> 1 < count_where (\<lambda>t. t_TokenHash t = newHash) rows
          then (Inl ErrDuplicateKey, d)
          else (Inr (0 < count_where G (tokens d)), put_tokens rows d))"

text \<open>\<open>token_hash [NOT] LIKE 'ga-admin.%'\<close>.\<close>

definition in_context :: "bool \<Rightarrow> token \<Rightarrow> bool" where
  "in_context admin t \<longleftrightarrow> prefix adminPrefix (t_TokenHash t) = admin"

definition GetLastTwoFactor :: "ctx \<Rightarrow> string \<Rightarrow> bool \<Rightarrow> token option action" where
  "GetLastTwoFactor ctx userID admin = query ctx (\<lambda>d.
     newest (filter (\<lambda>t. t_UserID t = Some userID \<and> t_Type t = TokenTwoFactor \<and> in_context admin t) (tokens d)))"

definition DeleteUnusedTwoFactor :: "ctx \<Rightarrow> string \<Rightarrow> bool \<Rightarrow> unit action" where
  "DeleteUnusedTwoFactor ctx userID admin =
     tok_delete ctx (\<lambda>t. t_UserID t = Some userID \<and> t_Type t = TokenTwoFactor \<and> t_UsedAt t = None \<and> in_context admin t)"

lemma newest_None: "newest ts = None \<longleftrightarrow> ts = []"
  by (cases ts) (auto split: option.splits if_splits)

lemma newest_in: "newest ts = Some t \<Longrightarrow> t \<in> set ts \<and> (\<forall>x \<in> set ts. t_CreatedAt x \<le> t_CreatedAt t)"
proof (induction ts arbitrary: t)
  case (Cons a ts)
  then show ?case by (cases "newest ts") (fastforce simp: newest_None split: if_splits)+
qed simp

section \<open>Statements of concurrent requests\<close>

text \<open>What a statement did: consumed a token (under an attempt cap, when it has one), counted a
  failed attempt under a cap, resent under a refresh cap, created a row, or none of these.\<close>

datatype tok_label =
    Consumed string "int option" | Attempted string int | Resent string int | Created string | Other

inductive tok_step :: "token list \<Rightarrow> tok_label \<Rightarrow> token list \<Rightarrow> bool" where
  consume: "count_where (consume_guard inp) ts \<noteq> 0 \<Longrightarrow>
     tok_step ts (Consumed (c_ID inp) None) (update_where (consume_guard inp) (set_used (c_UsedAt inp)) ts)"
| consume_cap: "count_where (consume_cap_guard inp n) ts \<noteq> 0 \<Longrightarrow>
     tok_step ts (Consumed (c_ID inp) (Some n)) (update_where (consume_cap_guard inp n) (set_used (c_UsedAt inp)) ts)"
| mark: "count_where (unused_id i) ts \<noteq> 0 \<Longrightarrow>
     tok_step ts (Consumed i None) (update_where (unused_id i) (set_used t) ts)"
| mark_cap: "count_where (used_cap_guard i n) ts \<noteq> 0 \<Longrightarrow>
     tok_step ts (Consumed i (Some n)) (update_where (used_cap_guard i n) (set_used t) ts)"
| attempt: "count_where (attempt_guard i n) ts \<noteq> 0 \<Longrightarrow>
     tok_step ts (Attempted i n) (update_where (attempt_guard i n) add_attempt ts)"
| resend: "count_where (resend_guard i r n) ts \<noteq> 0 \<Longrightarrow>
     tok_step ts (Resent i r) (update_where (resend_guard i r n) (set_resend h e c) ts)"
| create: "\<forall>x \<in> set ts. t_ID x \<noteq> t_ID t \<and> t_TokenHash x \<noteq> t_TokenHash t \<Longrightarrow>
     tok_step ts (Created (t_ID t)) (ts @ [t])"
| delete: "tok_step ts Other (delete_where P ts)"
| miss: "tok_step ts Other ts"

inductive tok_run :: "token list \<Rightarrow> tok_label list \<Rightarrow> token list \<Rightarrow> bool" where
  tok_nil: "tok_run ts [] ts"
| tok_snoc: "tok_run ts ls us \<Longrightarrow> tok_step us l vs \<Longrightarrow> tok_run ts (ls @ [l]) vs"

inductive_cases tok_run_nilE: "tok_run ts [] us"
inductive_cases tok_run_snocE: "tok_run ts (ls @ [l]) us"

lemmas guard_defs = consume_guard_def consume_unowned_guard_def consume_cap_guard_def unused_id_def
  used_cap_guard_def attempt_guard_def resend_guard_def

lemmas token_updates = set_used_def add_attempt_def set_resend_def

text \<open>Every repository call is one such step.\<close>

definition refines_step :: "(tables, 'a) prog \<Rightarrow> ('a \<Rightarrow> tok_label) \<Rightarrow> bool" where
  "refines_step m lab \<longleftrightarrow> (\<forall>d. wp m (\<lambda>r d'. case r of
     Inl e \<Rightarrow> d' = d | Inr a \<Rightarrow> tok_step (tokens d) (lab a) (tokens d')) d)"

lemma tokens_put [simp]: "tokens (put_tokens ts d) = ts"
  by (simp add: put_tokens_def)

lemma refines_affected:
  assumes "c_tx ctx" and "\<And>ts. count_where G ts \<noteq> 0 \<Longrightarrow> tok_step ts l (update_where G f ts)"
  shows "refines_step (affected ctx tokens put_tokens G f) (\<lambda>b. if b then l else Other)"
  unfolding refines_step_def
proof
  fix d :: tables
  have "count_where G (tokens d) = 0 \<Longrightarrow> update_where G f (tokens d) = tokens d"
    by (intro table_simps) (simp add: count_where_0)
  with assms show "wp (affected ctx tokens put_tokens G f) (\<lambda>r d'. case r of
      Inl e \<Rightarrow> d' = d | Inr a \<Rightarrow> tok_step (tokens d) (if a then l else Other) (tokens d')) d"
    by (auto intro!: wp_affected intro: tok_step.miss)
qed

lemma refines_bnd_local:
  "(\<And>a. refines_step (f a) lab) \<Longrightarrow> (\<And>Q d. (\<And>r. Q r d) \<Longrightarrow> wp m Q d) \<Longrightarrow> refines_step (bnd m f) lab"
  unfolding refines_step_def
  apply (intro allI wp_bnd)
  subgoal premises prems for d
    by (rule prems(2)) (use prems(1) in \<open>auto split: sum.split\<close>)
  done

lemma refines_now: "(\<And>t. refines_step (f t) lab) \<Longrightarrow> refines_step (bnd now f) lab"
  by (rule refines_bnd_local) (auto intro: wp_now)

lemma refines_delete:
  "c_tx ctx \<Longrightarrow> refines_step (tok_delete ctx P) (\<lambda>_. Other)"
  unfolding refines_step_def tok_delete_def by (auto intro!: wp_exec tok_step.delete)

lemma refines_query: "c_tx ctx \<Longrightarrow> refines_step (query ctx f) (\<lambda>_. Other)"
  unfolding refines_step_def by (auto intro!: wp_query tok_step.miss)

lemma refines_resend:
  assumes "c_tx ctx"
  shows "refines_step (UpdateForResend ctx i h e c r n) (\<lambda>b. if b then Resent i r else Other)"
  unfolding refines_step_def
proof
  fix d :: tables
  have "count_where (resend_guard i r n) (tokens d) = 0 \<Longrightarrow>
      update_where (resend_guard i r n) (set_resend h e c) (tokens d) = tokens d"
    by (intro table_simps) (simp add: count_where_0)
  then show "wp (UpdateForResend ctx i h e c r n) (\<lambda>res d'. case res of
      Inl e \<Rightarrow> d' = d | Inr b \<Rightarrow> tok_step (tokens d) (if b then Resent i r else Other) (tokens d')) d"
    unfolding UpdateForResend_def Let_def using assms
    by (intro wp_stmt) (auto intro: tok_step.resend tok_step.miss)
qed

lemma refines_create:
  assumes "c_tx ctx"
  shows "refines_step (tok_Create ctx t) (\<lambda>_. Created (t_ID t))"
proof -
  have "refines_step (stmt ctx (\<lambda>d.
       if list_ex (\<lambda>r. t_ID r = t_ID t \<or> t_TokenHash r = t_TokenHash t) (tokens d) then (Inl ErrDuplicateKey, d)
       else if case t_UserID t of None \<Rightarrow> False | Some u \<Rightarrow> \<not> list_ex (\<lambda>x. u_ID x = u) (users d) then (Inl ErrDatabase, d)
       else (Inr (), put_tokens (tokens d @ [t\<lparr>t_CreatedAt := at\<rparr>]) d))) (\<lambda>_. Created (t_ID t))" for at
    unfolding refines_step_def using assms tok_step.create [of _ "t\<lparr>t_CreatedAt := at\<rparr>"]
    by (auto intro!: wp_stmt simp: list_ex_iff split: if_splits option.splits)
  then show ?thesis
    unfolding tok_Create_def by (intro refines_bnd_local) (auto intro: wp_now wp_ret)
qed

section \<open>Single use and attempt budgets\<close>

definition live :: "string \<Rightarrow> token list \<Rightarrow> nat" where
  "live i ts = count_where (unused_id i) ts"

lemma live_update_le: "(\<And>r. unused_id i (f r) \<Longrightarrow> G r \<Longrightarrow> unused_id i r) \<Longrightarrow> live i (update_where G f ts) \<le> live i ts"
  unfolding live_def by (induction ts) (auto simp: count_where_def update_where_def)

lemma live_used:
  "distinct (map t_ID ts) \<Longrightarrow> count_where G ts \<noteq> 0 \<Longrightarrow> (\<And>r. G r \<Longrightarrow> unused_id i r) \<Longrightarrow>
   live i (update_where G (set_used t) ts) = 0 \<and> 1 \<le> live i ts"
proof -
  assume d: "distinct (map t_ID ts)" and n: "count_where G ts \<noteq> 0" and g: "\<And>r. G r \<Longrightarrow> unused_id i r"
  from n obtain r where r: "r \<in> set ts" "G r" by (auto simp: count_where_0)
  then have ri: "t_ID r = i" "t_UsedAt r = None" using g by (auto simp: unused_id_def)
  have "\<not> unused_id i x" if "x \<in> set (update_where G (set_used t) ts)" for x
  proof
    assume u: "unused_id i x"
    from that obtain y where y: "y \<in> set ts" "x = (if G y then set_used t y else y)" by (auto simp: set_update_where)
    with u have "\<not> G y" "t_ID y = i" by (auto simp: unused_id_def set_used_def split: if_splits)
    with keyed_unique [OF d y(1) r(1)] ri r(2) show False by simp
  qed
  then have "live i (update_where G (set_used t) ts) = 0" by (simp add: live_def count_where_0)
  moreover have "live i ts \<noteq> 0" using r ri by (auto simp: live_def count_where_0 unused_id_def)
  ultimately show ?thesis by simp
qed

lemma tok_step_ids: "tok_step ts l us \<Longrightarrow> distinct (map t_ID ts) \<Longrightarrow> distinct (map t_ID us)"
  by (induction rule: tok_step.induct)
    (auto simp: map_update_where guard_defs token_updates distinct_map_delete_where)

lemma tok_step_live:
  assumes "tok_step ts l us" and "distinct (map t_ID ts)" and "l \<noteq> Created i"
  shows "(case l of Consumed j n \<Rightarrow> if j = i then 1 else 0 | _ \<Rightarrow> 0) + live i us \<le> live i ts"
  using assms
proof (induction rule: tok_step.induct)
  case (consume inp ts)
  have g: "consume_guard inp r \<Longrightarrow> unused_id (c_ID inp) r" for r by (simp add: guard_defs)
  show ?case
    using live_used [OF consume(2) consume(1) g] live_update_le [of i "set_used (c_UsedAt inp)" "consume_guard inp" ts]
    by (auto simp: guard_defs token_updates)
next
  case (consume_cap inp n ts)
  have g: "consume_cap_guard inp n r \<Longrightarrow> unused_id (c_ID inp) r" for r by (auto simp: guard_defs split: if_splits)
  have le: "live i (update_where (consume_cap_guard inp n) (set_used (c_UsedAt inp)) ts) \<le> live i ts"
    by (rule live_update_le) (simp add: unused_id_def set_used_def)
  have "live (c_ID inp) (update_where (consume_cap_guard inp n) (set_used (c_UsedAt inp)) ts) = 0 \<and> 1 \<le> live (c_ID inp) ts"
    by (rule live_used [OF consume_cap(2,1)]) (rule g)
  with le show ?case by auto
next
  case (mark j ts t)
  show ?case
    using live_used [OF mark(2) mark(1)] live_update_le [of i "set_used t" "unused_id j" ts]
    by (auto simp: guard_defs token_updates)
next
  case (mark_cap j n ts t)
  have g: "used_cap_guard j n r \<Longrightarrow> unused_id j r" for r by (simp add: guard_defs)
  show ?case
    using live_used [OF mark_cap(2) mark_cap(1) g] live_update_le [of i "set_used t" "used_cap_guard j n" ts]
    by (auto simp: guard_defs token_updates)
next
  case (attempt j n ts)
  then show ?case using live_update_le [of i add_attempt] by (simp add: guard_defs token_updates)
next
  case (resend j r n ts h e c)
  then show ?case using live_update_le [of i "set_resend h e c"] by (simp add: guard_defs token_updates)
next
  case (create ts t)
  then show ?case by (auto simp: live_def count_where_snoc unused_id_def)
next
  case (delete ts P)
  show ?case by (auto simp: live_def count_delete_where intro!: count_where_mono)
next
  case (miss ts)
  then show ?case by simp
qed

definition consumed_in :: "string \<Rightarrow> tok_label list \<Rightarrow> nat" where
  "consumed_in i ls = length (filter (\<lambda>l. case l of Consumed j n \<Rightarrow> j = i | _ \<Rightarrow> False) ls)"

definition attempts_in :: "string \<Rightarrow> tok_label list \<Rightarrow> nat" where
  "attempts_in i ls = length (filter (\<lambda>l. case l of Attempted j n \<Rightarrow> j = i | _ \<Rightarrow> False) ls)"

definition resends_in :: "string \<Rightarrow> tok_label list \<Rightarrow> nat" where
  "resends_in i ls = length (filter (\<lambda>l. case l of Resent j n \<Rightarrow> j = i | _ \<Rightarrow> False) ls)"

lemma tok_run_ids: "tok_run ts ls us \<Longrightarrow> distinct (map t_ID ts) \<Longrightarrow> distinct (map t_ID us)"
  by (induction rule: tok_run.induct) (auto intro: tok_step_ids)

lemma tok_run_live:
  "tok_run ts ls us \<Longrightarrow> distinct (map t_ID ts) \<Longrightarrow> Created i \<notin> set ls \<Longrightarrow>
   consumed_in i ls + live i us \<le> live i ts"
proof (induction rule: tok_run.induct)
  case (tok_nil ts)
  then show ?case by (simp add: consumed_in_def)
next
  case (tok_snoc ts ls us l vs)
  then have "(case l of Consumed j n \<Rightarrow> if j = i then 1 else 0 | _ \<Rightarrow> 0) + live i vs \<le> live i us"
    by (intro tok_step_live) (auto intro: tok_run_ids)
  with tok_snoc show ?case by (auto simp: consumed_in_def split: tok_label.splits if_splits)
qed

text \<open>Counters of a row never go down, and every counted attempt or resend raises them.\<close>

definition counters_ge :: "string \<Rightarrow> token list \<Rightarrow> int \<Rightarrow> int \<Rightarrow> bool" where
  "counters_ge i ts a r \<longleftrightarrow> (\<forall>t \<in> set ts. t_ID t = i \<longrightarrow> a \<le> t_Attempts t \<and> r \<le> t_ResendCount t)"

lemma counters_ge_update:
  assumes "counters_ge i ts a r" and "distinct (map t_ID ts)" and "count_where G ts \<noteq> 0"
    and "\<And>x. G x \<Longrightarrow> t_ID x = i \<and> t_ID (f x) = i \<and> t_Attempts (f x) = t_Attempts x + da \<and> t_ResendCount (f x) = t_ResendCount x + dr"
  shows "counters_ge i (update_where G f ts) (a + da) (r + dr)"
proof -
  from assms(3) obtain g where g: "g \<in> set ts" "G g" by (auto simp: count_where_0)
  have "x = g" if "x \<in> set ts" "t_ID x = i" for x
    using keyed_unique [OF assms(2) that(1) g(1)] that(2) assms(4) [OF g(2)] by simp
  note only = this
  show ?thesis
    unfolding counters_ge_def
  proof (intro ballI impI)
    fix t assume "t \<in> set (update_where G f ts)" and i: "t_ID t = i"
    then obtain x where x: "x \<in> set ts" "t = (if G x then f x else x)" by (auto simp: set_update_where)
    then have xi: "t_ID x = i" using i assms(4) [of x] by (auto split: if_splits)
    have "G x" using only [OF x(1) xi] g(2) by simp
    moreover have "a \<le> t_Attempts x" "r \<le> t_ResendCount x"
      using assms(1) x(1) xi unfolding counters_ge_def by auto
    ultimately show "a + da \<le> t_Attempts t \<and> r + dr \<le> t_ResendCount t"
      using assms(4) [of x] x(2) by simp
  qed
qed

lemma counters_ge_frame:
  assumes "counters_ge i ts a r"
    and "\<And>x. G x \<Longrightarrow> t_ID (f x) = t_ID x \<and> t_Attempts x \<le> t_Attempts (f x) \<and> t_ResendCount x \<le> t_ResendCount (f x)"
  shows "counters_ge i (update_where G f ts) a r"
  unfolding counters_ge_def
proof (intro ballI impI)
  fix t assume "t \<in> set (update_where G f ts)" and i: "t_ID t = i"
  then obtain x where x: "x \<in> set ts" "t = (if G x then f x else x)" by (auto simp: set_update_where)
  with assms(2) [of x] i have "t_ID x = i" "t_Attempts x \<le> t_Attempts t" "t_ResendCount x \<le> t_ResendCount t"
    by (auto split: if_splits)
  with assms(1) x(1) show "a \<le> t_Attempts t \<and> r \<le> t_ResendCount t"
    unfolding counters_ge_def by fastforce
qed

lemma counters_ge_used: "counters_ge i ts a r \<Longrightarrow> counters_ge i (update_where G (set_used t) ts) a r"
  by (rule counters_ge_frame) (simp_all add: set_used_def)

lemma tok_step_counters:
  assumes "tok_step ts l us" and "distinct (map t_ID ts)" and "l \<noteq> Created i" and "counters_ge i ts a r"
  shows "counters_ge i us (a + (case l of Attempted j n \<Rightarrow> if j = i then 1 else 0 | _ \<Rightarrow> 0))
                          (r + (case l of Resent j n \<Rightarrow> if j = i then 1 else 0 | _ \<Rightarrow> 0))"
  using assms
proof (induction rule: tok_step.induct)
  case (attempt j n ts)
  show ?case
  proof (cases "j = i")
    case True
    with counters_ge_update [OF attempt(4,2,1), of add_attempt 1 0] show ?thesis
      by (simp add: attempt_guard_def add_attempt_def)
  next
    case False
    with counters_ge_frame [OF attempt(4), of "attempt_guard j n" add_attempt] show ?thesis
      by (simp add: add_attempt_def)
  qed
next
  case (resend j m n ts h e c)
  show ?case
  proof (cases "j = i")
    case True
    with counters_ge_update [OF resend(4,2,1), of "set_resend h e c" 0 1] show ?thesis
      by (simp add: resend_guard_def unused_id_def set_resend_def)
  next
    case False
    with counters_ge_frame [OF resend(4), of "resend_guard j m n" "set_resend h e c"] show ?thesis
      by (simp add: set_resend_def)
  qed
next
  case (create ts t)
  then show ?case by (auto simp: counters_ge_def)
next
  case (delete ts P)
  then show ?case by (auto simp: counters_ge_def set_delete_where)
qed (simp_all add: counters_ge_used)

lemma tok_run_counters:
  "tok_run ts ls us \<Longrightarrow> distinct (map t_ID ts) \<Longrightarrow> Created i \<notin> set ls \<Longrightarrow> counters_ge i ts a r \<Longrightarrow>
   counters_ge i us (a + int (attempts_in i ls)) (r + int (resends_in i ls))"
proof (induction rule: tok_run.induct)
  case (tok_nil ts)
  then show ?case by (simp add: attempts_in_def resends_in_def)
next
  case (tok_snoc ts ls us l vs)
  then have "counters_ge i us (a + int (attempts_in i ls)) (r + int (resends_in i ls))" by simp
  from tok_step_counters [OF tok_snoc(2) tok_run_ids [OF tok_snoc(1,4)] _ this] tok_snoc(5)
  show ?case
    by (cases l) (auto simp: attempts_in_def resends_in_def algebra_simps split: if_splits)
qed

lemma capped_step:
  "tok_step ts l us \<Longrightarrow> (case l of
      Consumed i (Some n) \<Rightarrow> \<exists>t \<in> set ts. t_ID t = i \<and> t_Attempts t < n
    | Attempted i n \<Rightarrow> \<exists>t \<in> set ts. t_ID t = i \<and> t_Attempts t < n
    | Resent i r \<Rightarrow> \<exists>t \<in> set ts. t_ID t = i \<and> t_ResendCount t < r
    | _ \<Rightarrow> True)"
  by (induction rule: tok_step.induct) (auto simp: count_where_0 guard_defs split: if_splits)

section \<open>Properties\<close>


text \<open>C3: A one-time token is consumed at most once: in any interleaving of statements of any
  requests, however many of them try, at most one consuming statement succeeds on a row, and
  afterwards the row is not live.\<close>

theorem token_consumed_once:
  assumes "tok_run ts ls us" and "distinct (map t_ID ts)" and "Created i \<notin> set ls"
  shows "consumed_in i ls \<le> 1 \<and> (consumed_in i ls = 1 \<longrightarrow> live i us = 0)"
proof -
  have "live i ts \<le> 1"
    using keyed_count_le1 [OF assms(2), of i] count_where_mono [of ts "unused_id i" "\<lambda>r. t_ID r = i"]
    by (simp add: live_def unused_id_def)
  with tok_run_live [OF assms] show ?thesis by auto
qed

text \<open>C4: The attempt budget of a challenge is shared by all its guesses and all its resends: when a
  token is redeemed or charged under a cap of \<open>n\<close>, fewer than \<open>n\<close> failed attempts were recorded on its row
  before, whatever was resent in between; and a resend under a cap of \<open>n\<close> was preceded by fewer
  than \<open>n\<close> resends.\<close>

theorem attempt_budget:
  assumes "tok_run ts ls us" and "distinct (map t_ID ts)" and "Created i \<notin> set ls"
    and "\<forall>t \<in> set ts. 0 \<le> t_Attempts t \<and> 0 \<le> t_ResendCount t"
    and "tok_step us l vs"
  shows "(l = Consumed i (Some n) \<or> l = Attempted i n \<longrightarrow> int (attempts_in i ls) < n) \<and>
         (l = Resent i n \<longrightarrow> int (resends_in i ls) < n)"
proof -
  have "counters_ge i ts 0 0" using assms(4) by (simp add: counters_ge_def)
  from tok_run_counters [OF assms(1-3) this]
  have c: "t \<in> set us \<Longrightarrow> t_ID t = i \<Longrightarrow> int (attempts_in i ls) \<le> t_Attempts t \<and> int (resends_in i ls) \<le> t_ResendCount t" for t
    by (simp add: counters_ge_def)
  show ?thesis using capped_step [OF assms(5)] c by fastforce
qed

section \<open>Witnesses\<close>

definition token_ex :: token where
  "token_ex = \<lparr>t_ID = ''k'', t_UserID = Some ''u1'', t_Email = ''a@b.c'', t_TokenHash = ''h'', t_Type = TokenTwoFactor,
     t_ExpiresAt = 100, t_UsedAt = None, t_CreatedAt = 1, t_CodeVerifier = None, t_Attempts = 0, t_ResendCount = 0,
     t_ContextHash = '''', t_EncryptedPayload = ''''\<rparr>"

definition consume_ex :: consume_input where
  "consume_ex = \<lparr>c_ID = ''k'', c_TokenHash = ''h'', c_UserID = ''u1'', c_Type = TokenTwoFactor, c_UsedAt = 50\<rparr>"

lemma step_ex1: "tok_step [token_ex] (Attempted ''k'' 2) [add_attempt token_ex]"
  using tok_step.attempt [of "''k''" 2 "[token_ex]"]
  by (simp add: token_ex_def attempt_guard_def count_where_def update_where_def)

lemma step_ex2: "tok_step [add_attempt token_ex] (Consumed ''k'' (Some 2)) [set_used 50 (add_attempt token_ex)]"
  using tok_step.consume_cap [of consume_ex 2 "[add_attempt token_ex]"]
  by (simp add: token_ex_def consume_ex_def guard_defs add_attempt_def count_where_def update_where_def)

lemma run_ex1: "tok_run [token_ex] [Attempted ''k'' 2] [add_attempt token_ex]"
  using tok_run.tok_snoc [OF tok_run.tok_nil step_ex1] by simp

lemma run_ex2:
  "tok_run [token_ex] [Attempted ''k'' 2, Consumed ''k'' (Some 2)] [set_used 50 (add_attempt token_ex)]"
  using tok_run.tok_snoc [OF run_ex1 step_ex2] by simp


theorem token_consumed_once_witness:
  "consumed_in ''k'' [Attempted ''k'' 2, Consumed ''k'' (Some 2)] = 1 \<and>
   live ''k'' [set_used 50 (add_attempt token_ex)] = 0"
  using token_consumed_once [OF run_ex2, of "''k''"] by (simp add: consumed_in_def)

theorem attempt_budget_witness:
  "attempts_in ''k'' [Attempted ''k'' 2] = 1 \<and> int (attempts_in ''k'' [Attempted ''k'' 2]) < 2"
  using attempt_budget [OF run_ex1 _ _ _ step_ex2, of "''k''" 2]
  by (simp add: token_ex_def attempts_in_def)

end
