(* ===== verification/Users.thy ===== *)
theory Users
  imports Sessions Tokens
begin

text \<open>
  \<open>internal/sqlstore/user_repo.go\<close>, \<open>user_mutations.go\<close>, \<open>user_authentication.go\<close> and
  \<open>user_guard.go\<close>: user rows, the row lock and the account guard under which administrators are
  banned, demoted and deleted; \<open>internal/service/admin.go\<close>, \<open>admin_lookup.go\<close>, \<open>admin_users.go\<close>
  and \<open>admin_bulk.go\<close> on top of it, and \<open>credential_guard.go\<close>. Fixed roles: application
  permissions are not configured. \<open>sq\<close> says that the driver is SQLite. The log is not modelled.
\<close>

section \<open>The repository\<close>

definition user_id_is :: "string \<Rightarrow> user \<Rightarrow> bool" where
  "user_id_is i u \<longleftrightarrow> u_ID u = i"

definition usr_Create :: "ctx \<Rightarrow> user \<Rightarrow> unit action" where
  "usr_Create ctx u = stmt ctx (\<lambda>d.
     if list_ex (\<lambda>x. u_ID x = u_ID u \<or> u_Email x = u_Email u) (users d) then (Inl ErrDuplicateKey, d)
     else (Inr (), put_users (users d @ [u\<lparr>u_BannedAt := None, u_LastLoginAt := None\<rparr>]) d))"

definition usr_GetByID :: "ctx \<Rightarrow> string \<Rightarrow> user option action" where
  "usr_GetByID ctx i = query ctx (\<lambda>d. select1 (user_id_is i) (users d))"

definition GetByEmail :: "ctx \<Rightarrow> string \<Rightarrow> user option action" where
  "GetByEmail ctx e = query ctx (\<lambda>d. select1 (\<lambda>u. u_Email u = e) (users d))"

definition usr_Update :: "ctx \<Rightarrow> user \<Rightarrow> unit action" where
  "usr_Update ctx u = stmt ctx (\<lambda>d.
     if list_ex (user_id_is (u_ID u)) (users d) \<and> list_ex (\<lambda>x. u_ID x \<noteq> u_ID u \<and> u_Email x = u_Email u) (users d)
     then (Inl ErrDatabase, d)
     else (Inr (), put_users (update_where (user_id_is (u_ID u))
            (\<lambda>x. x\<lparr>u_Email := u_Email u, u_Name := u_Name u, u_IsVerified := u_IsVerified u,
                   u_VerifiedAt := u_VerifiedAt u, u_UpdatedAt := u_UpdatedAt u\<rparr>) (users d)) d))"

definition set_ban :: "bool \<Rightarrow> time option \<Rightarrow> time \<Rightarrow> user \<Rightarrow> user" where
  "set_ban isBanned bannedAt updatedAt u =
     u\<lparr>u_IsBanned := isBanned, u_BannedAt := bannedAt, u_UpdatedAt := updatedAt\<rparr>"

definition SetBanStatus :: "ctx \<Rightarrow> string \<Rightarrow> bool \<Rightarrow> time option \<Rightarrow> time \<Rightarrow> unit action" where
  "SetBanStatus ctx userID isBanned bannedAt updatedAt = exec ctx (\<lambda>d. put_users
     (update_where (user_id_is userID) (set_ban isBanned bannedAt updatedAt) (users d)) d)"

definition SetTwoFactorEnabled :: "ctx \<Rightarrow> string \<Rightarrow> bool \<Rightarrow> time \<Rightarrow> unit action" where
  "SetTwoFactorEnabled ctx userID enabled updatedAt = exec ctx (\<lambda>d. put_users
     (update_where (user_id_is userID) (\<lambda>u. u\<lparr>u_TwoFactorEnabled := enabled, u_UpdatedAt := updatedAt\<rparr>) (users d)) d)"

definition UpdateLastLoginAt :: "ctx \<Rightarrow> string \<Rightarrow> time \<Rightarrow> unit action" where
  "UpdateLastLoginAt ctx userID t = exec ctx (\<lambda>d. put_users
     (update_where (user_id_is userID) (\<lambda>u. u\<lparr>u_LastLoginAt := Some t, u_UpdatedAt := t\<rparr>) (users d)) d)"

definition UpdateName :: "ctx \<Rightarrow> string \<Rightarrow> string \<Rightarrow> time \<Rightarrow> bool action" where
  "UpdateName ctx userID name updatedAt =
     affected ctx users put_users (user_id_is userID) (\<lambda>u. u\<lparr>u_Name := name, u_UpdatedAt := updatedAt\<rparr>)"

definition VerifyEmailIfMatches :: "ctx \<Rightarrow> string \<Rightarrow> string \<Rightarrow> time \<Rightarrow> bool action" where
  "VerifyEmailIfMatches ctx userID expectedEmail verifiedAt =
     affected ctx users put_users (\<lambda>u. u_ID u = userID \<and> u_Email u = expectedEmail)
       (\<lambda>u. u\<lparr>u_IsVerified := True, u_VerifiedAt := Some verifiedAt, u_UpdatedAt := verifiedAt\<rparr>)"

text \<open>\<open>DELETE FROM users\<close> with the foreign keys of the schema: sessions, tokens, memberships, provider
  accounts, organisation invites and the email change of the user are deleted with it, and the
  organisations it created stay without a creator. An account invite it created blocks the deletion.\<close>

definition delete_user :: "string \<Rightarrow> tables \<Rightarrow> tables" where
  "delete_user i d = put_users (delete_where (user_id_is i) (users d))
     (put_sessions (delete_where (\<lambda>s. s_UserID s = i) (sessions d))
     (put_tokens (delete_where (\<lambda>t. t_UserID t = Some i) (tokens d))
     (put_members (delete_where (\<lambda>m. m_UserID m = i) (members d))
     (put_orgs (update_where (\<lambda>x. o_CreatedBy x = Some i) (\<lambda>x. x\<lparr>o_CreatedBy := None\<rparr>) (orgs d))
     (put_org_invites (delete_where (\<lambda>v. oi_InvitedBy v = i) (org_invites d))
     (put_providers (delete_where (\<lambda>p. pa_UserID p = i) (providers d))
     (put_email_changes (delete_where (\<lambda>v. ec_UserID v = i) (email_changes d)) d)))))))"

definition user_delete_stmt :: "ctx \<Rightarrow> string \<Rightarrow> bool action" where
  "user_delete_stmt ctx i = stmt ctx (\<lambda>d.
     if list_ex (user_id_is i) (users d)
     then (if list_ex (\<lambda>v. i_CreatedBy v = i) (invites d) then (Inl ErrDatabase, d) else (Inr True, delete_user i d))
     else (Inr False, d))"

definition usr_Delete :: "ctx \<Rightarrow> string \<Rightarrow> unit action" where
  "usr_Delete ctx i = bnd (user_delete_stmt ctx i) (\<lambda>_. ret ())"

section \<open>The row lock and passwords\<close>

definition GetByIDForUpdate :: "bool \<Rightarrow> ctx \<Rightarrow> string \<Rightarrow> user option action" where
  "GetByIDForUpdate sq ctx i =
     (if \<not> InTx ctx then fail (Sentinel ''authentication lock requires a transaction'')
      else seq (run_if sq (wrap ''locking authentication state''
                  (exec ctx (\<lambda>d. put_users (update_where (user_id_is i) (\<lambda>u. u) (users d)) d))))
               (query ctx (\<lambda>d. select1 (user_id_is i) (users d))))"

definition passwordPepperVersionValue :: "nat option \<Rightarrow> nat" where
  "passwordPepperVersionValue v = (case v of None \<Rightarrow> 0 | Some n \<Rightarrow> n)"

definition lockPasswordIdentity :: "bool \<Rightarrow> ctx \<Rightarrow> user \<Rightarrow> user action" where
  "lockPasswordIdentity sq ctx expected =
     bnd (wrap ''locking password identity'' (GetByIDForUpdate sq ctx (u_ID expected))) (\<lambda>current.
     case current of
       None \<Rightarrow> fail ErrInvalidCredentials
     | Some c \<Rightarrow>
         if \<not> HasPassword c \<or> \<not> HasPassword expected \<or> the (u_PasswordHash c) \<noteq> the (u_PasswordHash expected) \<or>
            passwordPepperVersionValue (u_PepperVersion c) \<noteq> passwordPepperVersionValue (u_PepperVersion expected)
         then fail ErrInvalidCredentials
         else if u_IsBanned c then fail ErrUserBanned
         else if u_Role c \<noteq> u_Role expected \<or> u_Email c \<noteq> u_Email expected \<or>
                 u_IsVerified c \<noteq> u_IsVerified expected \<or> u_TwoFactorEnabled c \<noteq> u_TwoFactorEnabled expected
         then fail ErrInvalidCredentials
         else ret c)"

record set_password_input =
  sp_TokenID :: string
  sp_TokenHash :: string
  sp_UserID :: string
  sp_Email :: string
  sp_PasswordHash :: string
  sp_PepperVersion :: "nat option"

definition setpw_consume :: "set_password_input \<Rightarrow> time \<Rightarrow> consume_input" where
  "setpw_consume inp t = \<lparr>c_ID = sp_TokenID inp, c_TokenHash = sp_TokenHash inp, c_UserID = sp_UserID inp,
     c_Type = TokenSetPass, c_UsedAt = t\<rparr>"

definition setpw_user :: "set_password_input \<Rightarrow> time \<Rightarrow> user \<Rightarrow> user" where
  "setpw_user inp t x = x\<lparr>u_PasswordHash := Some (sp_PasswordHash inp), u_PepperVersion := sp_PepperVersion inp,
     u_IsVerified := True, u_VerifiedAt := Some t, u_UpdatedAt := t\<rparr>"

definition SetPasswordAndVerify :: "bool \<Rightarrow> ctx \<Rightarrow> set_password_input \<Rightarrow> bool action" where
  "SetPasswordAndVerify sq ctx inp = WithTx ctx (\<lambda>tx.
     bnd (GetByIDForUpdate sq tx (sp_UserID inp)) (\<lambda>found. case found of
       None \<Rightarrow> ret False
     | Some u \<Rightarrow>
         if HasPassword u \<or> u_IsBanned u \<or> u_Email u \<noteq> sp_Email inp then ret False
         else bnd (if sq then ret True
                   else query tx (\<lambda>d. list_ex (\<lambda>t. t_ID t = sp_TokenID inp \<and> t_UserID t = Some (sp_UserID inp) \<and>
                                                    t_Type t = TokenSetPass) (tokens d))) (\<lambda>present.
           if \<not> present then ret False
           else bnd now (\<lambda>t.
             bnd (ConsumeIfValid tx (setpw_consume inp t)) (\<lambda>claimed.
             if \<not> claimed then ret False
             else bnd (affected tx users put_users (\<lambda>x. u_ID x = sp_UserID inp \<and> u_PasswordHash x = None)
                        (setpw_user inp t)) (\<lambda>updated.
               if \<not> updated then fail (Wrapf ''setting password: locked user state changed'' [])
               else ret True))))))"

definition hash_guard :: "string \<Rightarrow> string \<Rightarrow> nat option \<Rightarrow> nat option \<Rightarrow> user \<Rightarrow> bool" where
  "hash_guard userID oldHash oldVersion newVersion u \<longleftrightarrow>
     u_ID u = userID \<and> u_PasswordHash u = Some oldHash \<and>
     passwordPepperVersionValue (u_PepperVersion u) = passwordPepperVersionValue oldVersion \<and>
     passwordPepperVersionValue (u_PepperVersion u) \<le> passwordPepperVersionValue newVersion"

definition set_hash :: "string \<Rightarrow> nat option \<Rightarrow> time \<Rightarrow> user \<Rightarrow> user" where
  "set_hash newHash newVersion updatedAt u =
     u\<lparr>u_PasswordHash := Some newHash, u_PepperVersion := newVersion, u_UpdatedAt := updatedAt\<rparr>"

definition UpdatePasswordHash ::
  "ctx \<Rightarrow> string \<Rightarrow> string \<Rightarrow> nat option \<Rightarrow> string \<Rightarrow> nat option \<Rightarrow> time \<Rightarrow> bool action" where
  "UpdatePasswordHash ctx userID oldHash oldVersion newHash newVersion updatedAt =
     wrap ''updating password hash'' (stmt ctx (\<lambda>d.
       let G = hash_guard userID oldHash oldVersion newVersion
       in (Inr (count_where G (users d) = 1), put_users (update_where G (set_hash newHash newVersion updatedAt) (users d)) d)))"

section \<open>The account guard\<close>

definition WithAdminGuard :: "bool \<Rightarrow> ctx \<Rightarrow> (ctx \<Rightarrow> 'a action) \<Rightarrow> 'a action" where
  "WithAdminGuard sq ctx fn =
     (if c_guard ctx then fn ctx
      else WithTx ctx (\<lambda>tx.
        seq (run_if sq (wrap ''locking account mutations'' (exec tx (\<lambda>d. d))))
        (seq (wrap ''locking account mutations'' (query tx (\<lambda>d. map u_ID (users d))))
        (fn (tx\<lparr>c_guard := True\<rparr>)))))"

text \<open>The loop of \<open>adminReductionAllowed\<close> over the users: found, target usable, another usable.\<close>

definition usable_admin :: "user \<Rightarrow> bool" where
  "usable_admin u \<longleftrightarrow> u_Role u = ''admin'' \<and> \<not> u_IsBanned u"

fun scan_admins :: "string \<Rightarrow> user list \<Rightarrow> bool \<times> bool \<times> bool \<Rightarrow> bool \<times> bool \<times> bool" where
  "scan_admins userID [] acc = acc"
| "scan_admins userID (u # us) (found, targetUsable, otherUsable) =
     (let usable = usable_admin u in
      scan_admins userID us
        (if u_ID u = userID then (True, usable, otherUsable)
         else if usable then (found, targetUsable, True)
         else (found, targetUsable, otherUsable)))"

definition adminReductionAllowed :: "ctx \<Rightarrow> string \<Rightarrow> bool action" where
  "adminReductionAllowed ctx userID = bnd (query ctx users) (\<lambda>rows.
     case scan_admins userID rows (False, False, False) of (found, targetUsable, otherUsable) \<Rightarrow>
       if \<not> found then fail ErrUserNotFound else ret (\<not> targetUsable \<or> otherUsable))"

definition DeleteWithAdminGuard :: "bool \<Rightarrow> ctx \<Rightarrow> string \<Rightarrow> bool action" where
  "DeleteWithAdminGuard sq ctx userID = WithAdminGuard sq ctx (\<lambda>tx.
     bnd (adminReductionAllowed tx userID) (\<lambda>allowed.
       if \<not> allowed then ret False else user_delete_stmt tx userID))"

definition BanWithAdminGuard :: "bool \<Rightarrow> ctx \<Rightarrow> string \<Rightarrow> bool \<Rightarrow> time option \<Rightarrow> time \<Rightarrow> bool action" where
  "BanWithAdminGuard sq ctx userID banned bannedAt updatedAt = WithAdminGuard sq ctx (\<lambda>tx.
     bnd (adminReductionAllowed tx userID) (\<lambda>allowed.
       if banned \<and> \<not> allowed then ret False
       else seq (SetBanStatus tx userID banned bannedAt updatedAt) (ret True)))"

definition set_role :: "string \<Rightarrow> time \<Rightarrow> user \<Rightarrow> user" where
  "set_role role updatedAt u = u\<lparr>u_Role := role, u_UpdatedAt := updatedAt\<rparr>"

definition DemoteWithAdminGuard :: "bool \<Rightarrow> ctx \<Rightarrow> string \<Rightarrow> string \<Rightarrow> time \<Rightarrow> bool action" where
  "DemoteWithAdminGuard sq ctx userID role updatedAt = WithAdminGuard sq ctx (\<lambda>tx.
     bnd (adminReductionAllowed tx userID) (\<lambda>allowed.
       if role \<noteq> ''admin'' \<and> \<not> allowed then ret False
       else seq (exec tx (\<lambda>d. put_users (update_where (user_id_is userID) (set_role role updatedAt) (users d)) d))
                (ret True)))"

section \<open>The administration service\<close>

record admin_service =
  ad_sqlite :: bool
  ad_audit :: "audit_service option"
  ad_sessions :: session_service

definition requireAdminRole :: "ctx \<Rightarrow> string \<Rightarrow> unit action" where
  "requireAdminRole ctx actorID =
     (if actorID = '''' then fail ErrForbidden
      else bnd (usr_GetByID ctx actorID) (\<lambda>actor. case actor of
        None \<Rightarrow> fail ErrForbidden
      | Some a \<Rightarrow> reject_if (u_Role a \<noteq> ''admin'' \<or> u_IsBanned a) ErrForbidden))"

definition targetUser :: "ctx \<Rightarrow> string \<Rightarrow> user action" where
  "targetUser ctx i = bnd (attempt (usr_GetByID ctx i)) (\<lambda>r. case r of
     Inl e \<Rightarrow> if errors_is e ErrUserNotFound then fail ErrUserNotFound else fail (Wrapf ''admin target user lookup'' [e])
   | Inr None \<Rightarrow> fail ErrUserNotFound
   | Inr (Some u) \<Rightarrow> ret u)"

definition admin_event :: "string \<Rightarrow> string \<Rightarrow> string \<Rightarrow> audit_event" where
  "admin_event typ actorID userID = \<lparr>e_Type = typ, e_Actor = actorID, e_Ref = userID\<rparr>"

definition BanUser :: "admin_service \<Rightarrow> ctx \<Rightarrow> string \<Rightarrow> string \<Rightarrow> unit action" where
  "BanUser svc ctx userID actorID =
     seq (requireAdminRole ctx actorID)
     (bnd (targetUser ctx userID) (\<lambda>user.
      if u_IsBanned user then fail (NewError ''already_banned'' ''User is already banned'')
      else bnd now (\<lambda>t.
        bnd (attempt (WithAdminGuard (ad_sqlite svc) ctx (\<lambda>tx.
               bnd (BanWithAdminGuard (ad_sqlite svc) tx userID True (Some t) t) (\<lambda>banned.
               if \<not> banned then ret False
               else seq (RevokeAll (ad_sessions svc) tx userID)
                   (seq (publish (ad_audit svc) tx (admin_event ''admin.user.banned'' actorID userID))
                   (ret True)))))) (\<lambda>r. case r of
          Inl e \<Rightarrow> if errors_is e ErrUserNotFound
                   then bnd (targetUser ctx userID) (\<lambda>_. fail ErrUserNotFound)
                   else fail ErrInternal
        | Inr False \<Rightarrow> bnd (targetUser ctx userID) (\<lambda>_. fail (NewError ''last_admin'' ''Cannot ban the last admin''))
        | Inr True \<Rightarrow> ret ()))))"

definition UnbanUser :: "admin_service \<Rightarrow> ctx \<Rightarrow> string \<Rightarrow> string \<Rightarrow> unit action" where
  "UnbanUser svc ctx userID actorID =
     seq (requireAdminRole ctx actorID)
     (bnd (targetUser ctx userID) (\<lambda>user.
      if \<not> u_IsBanned user then fail (NewError ''not_banned'' ''User is not banned'')
      else bnd now (\<lambda>t.
        bnd (attempt (WithTx ctx (\<lambda>tx.
               seq (SetBanStatus tx userID False None t)
                   (publish (ad_audit svc) tx (admin_event ''admin.user.unbanned'' actorID userID))))) (\<lambda>r. case r of
          Inl e \<Rightarrow> fail ErrInternal
        | Inr _ \<Rightarrow> ret ()))))"

definition UpdateUserRole :: "admin_service \<Rightarrow> ctx \<Rightarrow> string \<Rightarrow> string \<Rightarrow> string \<Rightarrow> unit action" where
  "UpdateUserRole svc ctx userID role actorID =
     seq (requireAdminRole ctx actorID)
     (if role \<noteq> ''user'' \<and> role \<noteq> ''admin'' then fail (NewError ''invalid_role'' (''Role must be 'user' or 'admin'' @ [CHR 0x27]))
      else bnd (targetUser ctx userID) (\<lambda>user.
        bnd (WithAdminGuard (ad_sqlite svc) ctx (\<lambda>tx.
               bnd now (\<lambda>t.
               bnd (DemoteWithAdminGuard (ad_sqlite svc) tx userID role t) (\<lambda>updated.
               if \<not> updated then ret False
               else seq (publish (ad_audit svc) tx (admin_event ''role.changed'' actorID userID))
                        (ret True))))) (\<lambda>updated.
          if updated then bnd now (\<lambda>_. ret ())
          else bnd (targetUser ctx userID) (\<lambda>_. fail (NewError ''last_admin'' ''Cannot demote the last admin'')))))"

text \<open>\<open>admin_bulk.go\<close>: one call per user, failures collected.\<close>

record bulk_failure =
  bf_UserID :: string
  bf_Code :: string
  bf_Message :: string

record bulk_result =
  br_Succeeded :: "string list"
  br_Failed :: "bulk_failure list"

definition maxBulkUserIDs :: nat where
  "maxBulkUserIDs = 100"

definition validateBulkUserActionInput :: "string list \<Rightarrow> unit action" where
  "validateBulkUserActionInput userIDs =
     (if userIDs = [] then fail (NewError ''invalid_input'' ''userIds must not be empty'')
      else if maxBulkUserIDs < length userIDs
      then fail (NewError ''invalid_input'' (''at most '' @ itoa_nat maxBulkUserIDs @ '' userIds per bulk request''))
      else ret ())"

definition bulkFailure :: "string \<Rightarrow> go_err \<Rightarrow> bulk_failure" where
  "bulkFailure userID e = (case as_auth e of
       Some ae \<Rightarrow> \<lparr>bf_UserID = userID, bf_Code = err_code ae, bf_Message = err_message ae\<rparr>
     | None \<Rightarrow> \<lparr>bf_UserID = userID, bf_Code = ''internal_error'', bf_Message = ''Internal error''\<rparr>)"

fun bulk_loop :: "(string \<Rightarrow> unit action) \<Rightarrow> string list \<Rightarrow> bulk_result \<Rightarrow> bulk_result action" where
  "bulk_loop op [] res = ret res"
| "bulk_loop op (i # is) res = bnd (attempt (op i)) (\<lambda>r. case r of
     Inl e \<Rightarrow> bulk_loop op is (res\<lparr>br_Failed := br_Failed res @ [bulkFailure i e]\<rparr>)
   | Inr _ \<Rightarrow> bulk_loop op is (res\<lparr>br_Succeeded := br_Succeeded res @ [i]\<rparr>))"

definition bulk_action :: "ctx \<Rightarrow> string \<Rightarrow> string list \<Rightarrow> (string \<Rightarrow> unit action) \<Rightarrow> bulk_result action" where
  "bulk_action ctx actorID userIDs op =
     seq (requireAdminRole ctx actorID)
     (seq (validateBulkUserActionInput userIDs)
     (bulk_loop op userIDs \<lparr>br_Succeeded = [], br_Failed = []\<rparr>))"

definition BulkBanUsers :: "admin_service \<Rightarrow> ctx \<Rightarrow> string list \<Rightarrow> string \<Rightarrow> bulk_result action" where
  "BulkBanUsers svc ctx userIDs actorID = bulk_action ctx actorID userIDs (\<lambda>i. BanUser svc ctx i actorID)"

definition BulkUnbanUsers :: "admin_service \<Rightarrow> ctx \<Rightarrow> string list \<Rightarrow> string \<Rightarrow> bulk_result action" where
  "BulkUnbanUsers svc ctx userIDs actorID = bulk_action ctx actorID userIDs (\<lambda>i. UnbanUser svc ctx i actorID)"

section \<open>The scan and the statements\<close>

lemma scan_admins_spec:
  assumes "distinct (map u_ID us)"
  shows "scan_admins i us (f, t, ot) =
     (f \<or> (\<exists>u \<in> set us. u_ID u = i),
      if \<exists>u \<in> set us. u_ID u = i then \<exists>u \<in> set us. u_ID u = i \<and> usable_admin u else t,
      ot \<or> (\<exists>u \<in> set us. u_ID u \<noteq> i \<and> usable_admin u))"
  using assms
proof (induction us arbitrary: f t ot)
  case (Cons a us)
  show ?case
  proof (cases "u_ID a = i")
    case True
    with Cons.prems have "\<not> (\<exists>u \<in> set us. u_ID u = i)" by (auto simp: image_iff)
    with True Cons show ?thesis by (auto simp: Let_def)
  qed (use Cons in \<open>auto simp: Let_def\<close>)
qed simp

definition has_admin :: "tables \<Rightarrow> bool" where
  "has_admin d \<longleftrightarrow> list_ex usable_admin (users d)"

definition admin_inv :: "tables \<Rightarrow> bool" where
  "admin_inv d \<longleftrightarrow> distinct (map u_ID (users d)) \<and> has_admin d"

text \<open>\<open>i\<close> is the only usable administrator.\<close>

definition last_admin :: "string \<Rightarrow> tables \<Rightarrow> bool" where
  "last_admin i d \<longleftrightarrow> list_ex (\<lambda>u. u_ID u = i \<and> usable_admin u) (users d) \<and>
     \<not> list_ex (\<lambda>u. u_ID u \<noteq> i \<and> usable_admin u) (users d)"

lemma users_put [simp]: "users (put_users us d) = us" "users (put_sessions ss d) = users d"
  "users (put_tokens ts d) = users d" "users (put_members ms d) = users d" "users (put_orgs os d) = users d"
  by (simp_all add: put_users_def put_sessions_def put_tokens_def put_members_def put_orgs_def)

lemma wp_adminReductionAllowed:
  assumes "c_tx ctx" and "distinct (map u_ID (users d))" and "Q (Inl ErrDatabase) d"
    and "\<not> list_ex (user_id_is i) (users d) \<Longrightarrow> Q (Inl ErrUserNotFound) d"
    and "list_ex (user_id_is i) (users d) \<Longrightarrow> Q (Inr (\<not> last_admin i d)) d"
  shows "wp (adminReductionAllowed ctx i) Q d"
  using assms unfolding adminReductionAllowed_def
  by (auto intro!: wp_bnd wp_query wp_fail wp_ret
      simp: scan_admins_spec last_admin_def list_ex_iff user_id_is_def split: if_splits)
    (metis (no_types, lifting))+

lemma has_admin_keep:
  assumes "has_admin d" and "\<not> last_admin i d"
    and "\<And>u. u \<in> set (users d) \<Longrightarrow> u_ID u \<noteq> i \<Longrightarrow> u \<in> set (users d')"
  shows "has_admin d'"
  using assms unfolding has_admin_def last_admin_def list_ex_iff by metis

lemma wp_guard_body:
  assumes "c_tx ctx" and "\<And>e. Q (Inl e) d" and "wp k Q d"
  shows "wp (seq (run_if sq (wrap m (exec ctx (\<lambda>d. d)))) (seq (wrap m (query ctx f)) k)) Q d"
  using assms by (auto intro!: wps split: sum.split)

lemma wp_WithAdminGuard:
  assumes "c_tx ctx" and "\<And>e. Q (Inl e) d" and "wp (fn (ctx\<lparr>c_guard := True\<rparr>)) Q d"
  shows "wp (WithAdminGuard sq ctx fn) Q d"
proof (cases "c_guard ctx")
  case True
  then have "ctx\<lparr>c_guard := True\<rparr> = ctx" by (cases ctx) simp
  with True assms(3) show ?thesis by (simp add: WithAdminGuard_def)
next
  case False
  with assms show ?thesis
    unfolding WithAdminGuard_def by (auto intro!: wps split: sum.split)
qed

lemma keeps_WithAdminGuard:
  assumes "\<not> c_tx ctx" and "\<not> c_guard ctx"
    and "\<And>d. I d \<Longrightarrow> wp (fn (ctx\<lparr>c_tx := True, c_guard := True\<rparr>)) (\<lambda>r d'. case r of Inl e \<Rightarrow> True | Inr a \<Rightarrow> I d') d"
  shows "keeps I (WithAdminGuard sq ctx fn)"
  unfolding WithAdminGuard_def using assms
  by (auto intro!: keeps_WithTx tx_hoare_wp wp_guard_body)

lemma keeps_WithAdminGuard_all: "(\<And>c. keeps I (fn c)) \<Longrightarrow> keeps I (WithAdminGuard sq ctx fn)"
  unfolding WithAdminGuard_def by (auto intro!: keeps keeps_WithTx_all keeps_exec)

lemma rq_WithAdminGuard:
  assumes "\<not> c_tx ctx" and "\<not> c_guard ctx" and "\<And>e. Q (Inl e) d"
    and "wp (fn (ctx\<lparr>c_tx := True, c_guard := True\<rparr>)) (\<lambda>r d'. case r of Inl e \<Rightarrow> True | Inr a \<Rightarrow> Q (Inr a) d') d"
  shows "rq (WithAdminGuard sq ctx fn) Q d"
  unfolding WithAdminGuard_def using assms
  by (auto intro!: rq_WithTx wp_guard_body)

text \<open>The three guarded reductions, with the guard held.\<close>

lemma wp_BanWithAdminGuard:
  assumes "c_tx ctx" and "c_guard ctx" and "distinct (map u_ID (users d))" and "\<And>e. Q (Inl e) d"
    and "b \<Longrightarrow> last_admin i d \<Longrightarrow> Q (Inr False) d"
    and "\<not> (b \<and> last_admin i d) \<Longrightarrow> list_ex (user_id_is i) (users d) \<Longrightarrow>
         Q (Inr True) (put_users (update_where (user_id_is i) (set_ban b at t) (users d)) d)"
  shows "wp (BanWithAdminGuard sq ctx i b at t) Q d"
  unfolding BanWithAdminGuard_def WithAdminGuard_def using assms
  by (auto intro!: wps wp_adminReductionAllowed simp: SetBanStatus_def split: sum.split)

lemma wp_DemoteWithAdminGuard:
  assumes "c_tx ctx" and "c_guard ctx" and "distinct (map u_ID (users d))" and "\<And>e. Q (Inl e) d"
    and "role \<noteq> ''admin'' \<Longrightarrow> last_admin i d \<Longrightarrow> Q (Inr False) d"
    and "\<not> (role \<noteq> ''admin'' \<and> last_admin i d) \<Longrightarrow> list_ex (user_id_is i) (users d) \<Longrightarrow>
         Q (Inr True) (put_users (update_where (user_id_is i) (set_role role t) (users d)) d)"
  shows "wp (DemoteWithAdminGuard sq ctx i role t) Q d"
  unfolding DemoteWithAdminGuard_def WithAdminGuard_def using assms
  by (auto intro!: wps wp_adminReductionAllowed split: sum.split)

lemma wp_user_delete_stmt:
  assumes "c_tx ctx" and "\<And>e. Q (Inl e) d" and "\<not> list_ex (user_id_is i) (users d) \<Longrightarrow> Q (Inr False) d"
    and "list_ex (user_id_is i) (users d) \<Longrightarrow> Q (Inr True) (delete_user i d)"
  shows "wp (user_delete_stmt ctx i) Q d"
  unfolding user_delete_stmt_def using assms by (intro wp_stmt) (simp_all split: if_split)

lemma wp_DeleteWithAdminGuard:
  assumes "c_tx ctx" and "c_guard ctx" and "distinct (map u_ID (users d))" and "\<And>e. Q (Inl e) d"
    and "last_admin i d \<Longrightarrow> Q (Inr False) d"
    and "\<not> last_admin i d \<Longrightarrow> list_ex (user_id_is i) (users d) \<Longrightarrow> Q (Inr True) (delete_user i d)"
  shows "wp (DeleteWithAdminGuard sq ctx i) Q d"
  unfolding DeleteWithAdminGuard_def WithAdminGuard_def using assms
  by (auto intro!: wps wp_adminReductionAllowed wp_user_delete_stmt split: sum.split)

section \<open>The last usable administrator\<close>

lemma admin_closed [simp]: "same_but_audit d d' \<Longrightarrow> admin_inv d' = admin_inv d"
  by (auto simp: same_but_audit_def admin_inv_def has_admin_def)

lemma admin_put_new [simp]:
  "admin_inv (put_invites vs d) = admin_inv d" "admin_inv (put_org_invites ois d) = admin_inv d"
  "admin_inv (put_email_changes ecs d) = admin_inv d" "admin_inv (put_recoveries rrs d) = admin_inv d"
  "admin_inv (put_providers pas d) = admin_inv d"
  by (simp_all add: admin_inv_def has_admin_def)

lemma admin_inv_distinct: "admin_inv d \<Longrightarrow> distinct (map u_ID (users d))"
  by (simp add: admin_inv_def)

lemma admin_inv_put [simp]:
  "admin_inv (put_sessions ss d) = admin_inv d" "admin_inv (put_tokens ts d) = admin_inv d"
  "admin_inv (put_members ms d) = admin_inv d" "admin_inv (put_orgs os d) = admin_inv d"
  by (simp_all add: admin_inv_def has_admin_def)

lemma u_ID_set [simp]: "u_ID (set_ban b at t u) = u_ID u" "u_ID (set_role r t u) = u_ID u"
  by (simp_all add: set_ban_def set_role_def)

text \<open>A change of the rows of one user keeps the invariant unless it is the last administrator or the
  change leaves it one.\<close>

lemma admin_inv_update:
  assumes "admin_inv d" and "\<And>u. u_ID (f u) = u_ID u"
    and "\<not> last_admin i d \<or> (\<forall>u. usable_admin u \<longrightarrow> usable_admin (f u))"
  shows "admin_inv (put_users (update_where (user_id_is i) f (users d)) d)"
proof -
  have "has_admin (put_users (update_where (user_id_is i) f (users d)) d)"
    using assms(3)
  proof
    assume "\<not> last_admin i d"
    then show ?thesis using assms(1)
      by (auto intro!: has_admin_keep [of d i] simp: admin_inv_def set_update_where user_id_is_def)
  next
    assume keep: "\<forall>u. usable_admin u \<longrightarrow> usable_admin (f u)"
    from assms(1) obtain u where u: "u \<in> set (users d)" "usable_admin u"
      by (auto simp: admin_inv_def has_admin_def list_ex_iff)
    let ?u = "if user_id_is i u then f u else u"
    have "?u \<in> set (update_where (user_id_is i) f (users d))" using u(1) by (auto simp: set_update_where)
    moreover have "usable_admin ?u" using u(2) keep by simp
    ultimately show ?thesis unfolding has_admin_def list_ex_iff users_put by blast
  qed
  moreover have "map u_ID (update_where (user_id_is i) f (users d)) = map u_ID (users d)"
    by (rule map_update_where) (simp add: assms(2))
  ultimately show ?thesis using assms(1) by (simp add: admin_inv_def)
qed

lemma admin_inv_delete:
  assumes "admin_inv d" and "\<not> last_admin i d"
  shows "admin_inv (delete_user i d)"
proof -
  have u: "users (delete_user i d) = delete_where (user_id_is i) (users d)"
    by (simp add: delete_user_def)
  have "has_admin (delete_user i d)"
    using assms by (auto intro!: has_admin_keep [of d i] simp: admin_inv_def u set_delete_where user_id_is_def)
  with assms(1) u show ?thesis by (simp add: admin_inv_def distinct_map_delete_where)
qed

lemma wp_RevokeAll:
  assumes "c_tx ctx" and "\<And>e d'. same_but_audit d d' \<or> same_but_audit (put_sessions (delete_where (\<lambda>s. s_UserID s = i) (sessions d)) d) d' \<Longrightarrow> Q (Inl e) d'"
    and "\<And>d'. same_but_audit (put_sessions (delete_where (\<lambda>s. s_UserID s = i) (sessions d)) d) d' \<Longrightarrow> Q (Inr ()) d'"
  shows "wp (RevokeAll svc ctx i) Q d"
  unfolding RevokeAll_def DeleteAllForUser_def using assms(1)
  apply (auto intro!: wps assms(2) split: sum.split)
  subgoal for r d' using assms(2,3) by (cases r) auto
  done

lemma keeps_requireAdminRole [keeps]: "keeps I (requireAdminRole ctx a)"
  unfolding requireAdminRole_def usr_GetByID_def by (auto intro!: keeps split: option.split)

lemma keeps_targetUser [keeps]: "keeps I (targetUser ctx i)"
  unfolding targetUser_def usr_GetByID_def by (auto intro!: keeps split: option.split sum.split)

lemma keeps_BanUser:
  assumes "\<not> c_tx ctx" and "\<not> c_guard ctx"
  shows "keeps admin_inv (BanUser svc ctx i a)"
  unfolding BanUser_def using assms
  by (auto intro!: keeps keeps_WithAdminGuard wps wp_BanWithAdminGuard wp_RevokeAll admin_inv_update
      simp: admin_inv_distinct split: sum.split bool.split)

lemma keeps_UnbanUser:
  assumes "\<not> c_tx ctx"
  shows "keeps admin_inv (UnbanUser svc ctx i a)"
  unfolding UnbanUser_def SetBanStatus_def using assms
  by (auto intro!: keeps keeps_WithTx tx_hoare_wp wps admin_inv_update
      simp: usable_admin_def set_ban_def split: sum.split)

lemma keeps_UpdateUserRole:
  assumes "\<not> c_tx ctx" and "\<not> c_guard ctx"
  shows "keeps admin_inv (UpdateUserRole svc ctx i r a)"
  unfolding UpdateUserRole_def using assms
  by (auto intro!: keeps keeps_WithAdminGuard wps wp_DemoteWithAdminGuard admin_inv_update
      simp: admin_inv_distinct usable_admin_def set_role_def split: sum.split)

lemma keeps_bulk_loop: "(\<And>i. keeps I (op i)) \<Longrightarrow> keeps I (bulk_loop op is res)"
  by (induction "is" arbitrary: res) (auto intro!: keeps split: sum.split)

lemma keeps_bulk: "(\<And>i. keeps I (op i)) \<Longrightarrow> keeps I (bulk_action ctx a is op)"
  unfolding bulk_action_def validateBulkUserActionInput_def by (auto intro!: keeps keeps_bulk_loop)

section \<open>Properties\<close>

lemma update_where_same: "update_where P (\<lambda>r. r) rows = rows"
  by (simp add: update_where_def)

lemma put_same [simp]: "put_users (users d) d = d" "put_tokens (tokens d) d = d"
  "put_sessions (sessions d) d = d" "put_members (members d) d = d" "put_orgs (orgs d) d = d"
  by (simp_all add: put_users_def put_tokens_def put_sessions_def put_members_def put_orgs_def)

lemma rq_requireAdminRole [rqs]:
  "(\<And>e. Q (Inl e) d) \<Longrightarrow> Q (Inr ()) d \<Longrightarrow> rq (requireAdminRole ctx a) Q d"
  unfolding requireAdminRole_def usr_GetByID_def by (auto intro!: rqs split: option.split)

lemma rq_targetUser [rqs]:
  "(\<And>e. Q (Inl e) d) \<Longrightarrow> (\<And>u. u \<in> set (users d) \<Longrightarrow> u_ID u = i \<Longrightarrow> Q (Inr u) d) \<Longrightarrow> rq (targetUser ctx i) Q d"
  unfolding targetUser_def usr_GetByID_def
  by (auto intro!: rqs split: option.split sum.split dest!: select1_Some simp: user_id_is_def)

text \<open>C7: Banning a user is all or nothing and never takes the last usable administrator: it succeeds only
  for an existing, not yet banned user who is not the last one, and then the user is banned and
  all of its sessions are gone in the same commit; a failure of any statement leaves the tables
  as they were.\<close>

theorem ban_user_outcome:
  assumes "\<not> c_tx ctx" and "\<not> c_guard ctx" and "faults_only w" and "distinct (map u_ID (users (store w)))"
    and "BanUser svc ctx i actor w = (r, w')"
  shows "case r of
      Inl e \<Rightarrow> store w' = store w
    | Inr _ \<Rightarrow> \<not> last_admin i (store w) \<and> list_ex (\<lambda>u. u_ID u = i \<and> \<not> u_IsBanned u) (users (store w)) \<and>
        (\<exists>t. users (store w') = update_where (user_id_is i) (set_ban True (Some t) t) (users (store w))) \<and>
        sessions (store w') = delete_where (\<lambda>s. s_UserID s = i) (sessions (store w))"
proof -
  let ?Q = "\<lambda>r d'. case r of
      Inl e \<Rightarrow> d' = store w
    | Inr _ \<Rightarrow> \<not> last_admin i (store w) \<and> list_ex (\<lambda>u. u_ID u = i \<and> \<not> u_IsBanned u) (users (store w)) \<and>
        (\<exists>t. users d' = update_where (user_id_is i) (set_ban True (Some t) t) (users (store w))) \<and>
        sessions d' = delete_where (\<lambda>s. s_UserID s = i) (sessions (store w))"
  have "rq (BanUser svc ctx i actor) ?Q (store w)"
    unfolding BanUser_def using assms(1,2,4)
    by (auto intro!: rqs rq_WithAdminGuard wps wp_BanWithAdminGuard wp_RevokeAll
        simp: list_ex_iff same_but_audit_def put_sessions_def put_users_def split: sum.split) blast+
  from rqD [OF this assms(3,5)] show ?thesis by simp
qed

lemma wp_GetByIDForUpdate:
  assumes "c_tx ctx" and "\<And>e. Q (Inl e) d" and "Q (Inr (select1 (user_id_is i) (users d))) d"
  shows "wp (GetByIDForUpdate sq ctx i) Q d"
  unfolding GetByIDForUpdate_def using assms
  by (auto intro!: wps simp: InTx_def update_where_same split: sum.split)

lemma affected_none: "count_where G rows = 0 \<Longrightarrow> update_where G f rows = rows"
  by (rule update_where_id) (simp add: count_where_0)

text \<open>C8: Setting a first password claims its code and writes the password in one commit, or does
  nothing: on success a live, unexpired set-password token of the user was consumed and the user,
  who had no password, is not banned and still has the address the code was sent to, has the
  new hash; otherwise no table changed, the token included.\<close>

theorem set_password_all_or_nothing:
  assumes "\<not> c_tx ctx" and "faults_only w" and "SetPasswordAndVerify sq ctx inp w = (r, w')"
  shows "if r = Inr True
    then \<exists>t u. store w' = put_users (update_where (\<lambda>x. u_ID x = sp_UserID inp \<and> u_PasswordHash x = None) (setpw_user inp t) (users (store w)))
              (put_tokens (update_where (consume_guard (setpw_consume inp t)) (set_used t) (tokens (store w))) (store w)) \<and>
           count_where (consume_guard (setpw_consume inp t)) (tokens (store w)) \<noteq> 0 \<and>
           u \<in> set (users (store w)) \<and> u_ID u = sp_UserID inp \<and> u_PasswordHash u = None \<and> \<not> u_IsBanned u \<and>
           u_Email u = sp_Email inp
    else store w' = store w"
proof -
  let ?Q = "\<lambda>r d'. if r = Inr True
    then \<exists>t u. d' = put_users (update_where (\<lambda>x. u_ID x = sp_UserID inp \<and> u_PasswordHash x = None) (setpw_user inp t) (users (store w)))
              (put_tokens (update_where (consume_guard (setpw_consume inp t)) (set_used t) (tokens (store w))) (store w)) \<and>
           count_where (consume_guard (setpw_consume inp t)) (tokens (store w)) \<noteq> 0 \<and>
           u \<in> set (users (store w)) \<and> u_ID u = sp_UserID inp \<and> u_PasswordHash u = None \<and> \<not> u_IsBanned u \<and>
           u_Email u = sp_Email inp
    else d' = store w"
  have "rq (SetPasswordAndVerify sq ctx inp) ?Q (store w)"
    unfolding SetPasswordAndVerify_def ConsumeIfValid_def using assms(1)
    apply (auto intro!: rq_WithTx wps wp_GetByIDForUpdate split: sum.split option.split dest!: select1_Some
        simp: affected_none HasPassword_def user_id_is_def)
    by (simp add: setpw_consume_def, blast)+
  from rqD [OF this assms(2,3)] show ?thesis by (rule conjunct1)
qed

text \<open>C9: A rehash after login is a compare-and-swap: it replaces the hash of exactly the user whose
  stored hash is still the one that was verified, never moves a stored password to an older pepper
  version, and reports whether it did; a failed statement changes nothing.\<close>

theorem rehash_compare_and_swap:
  assumes "faults_only w" and "distinct (map u_ID (users (store w)))"
    and "UpdatePasswordHash ctx i old ov new nv t w = (r, w')"
  shows "case r of
      Inl e \<Rightarrow> store w' = store w
    | Inr b \<Rightarrow>
        (b \<longleftrightarrow> (\<exists>u \<in> set (users (store w)). u_ID u = i \<and> u_PasswordHash u = Some old \<and>
            passwordPepperVersionValue (u_PepperVersion u) = passwordPepperVersionValue ov \<and>
            passwordPepperVersionValue ov \<le> passwordPepperVersionValue nv)) \<and>
        store w' = put_users (map (\<lambda>u. if b \<and> u_ID u = i then set_hash new nv t u else u) (users (store w))) (store w)"
proof -
  let ?G = "hash_guard i old ov nv" and ?us = "users (store w)"
  have le: "count_where ?G ?us \<le> 1"
    using keyed_count_le1 [OF assms(2), of i] count_where_mono [of ?us ?G "\<lambda>u. u_ID u = i"]
    by (simp add: hash_guard_def)
  then have one: "count_where ?G ?us = 1 \<longleftrightarrow> (\<exists>u \<in> set ?us. ?G u)"
    using count_where_0 [of ?G ?us] by (cases "count_where ?G ?us") auto
  have upd: "update_where ?G f ?us = map (\<lambda>u. if count_where ?G ?us = 1 \<and> u_ID u = i then f u else u) ?us" for f
    unfolding update_where_def
  proof (rule map_cong [OF refl])
    fix u assume u: "u \<in> set ?us"
    have "?G u \<longleftrightarrow> count_where ?G ?us = 1 \<and> u_ID u = i"
    proof
      assume "?G u"
      then show "count_where ?G ?us = 1 \<and> u_ID u = i" using u unfolding one by (auto simp: hash_guard_def)
    next
      assume "count_where ?G ?us = 1 \<and> u_ID u = i"
      then obtain x where x: "x \<in> set ?us" "?G x" "u_ID u = i" unfolding one by blast
      then have "u = x" using keyed_unique [OF assms(2) u x(1)] by (simp add: hash_guard_def)
      with x show "?G u" by simp
    qed
    then show "(if ?G u then f u else u) = (if count_where ?G ?us = 1 \<and> u_ID u = i then f u else u)" by simp
  qed
  let ?Q = "\<lambda>r d'. case r of
      Inl e \<Rightarrow> d' = store w
    | Inr b \<Rightarrow> (b \<longleftrightarrow> count_where ?G ?us = 1) \<and> d' = put_users (update_where ?G (set_hash new nv t) ?us) (store w)"
  have "rq (UpdatePasswordHash ctx i old ov new nv t) ?Q (store w)"
    unfolding UpdatePasswordHash_def by (auto intro!: rqs simp: Let_def)
  note run = rqD [OF this assms(1,3)]
  have exG: "(\<exists>u \<in> set ?us. ?G u) \<longleftrightarrow> (\<exists>u \<in> set ?us. u_ID u = i \<and> u_PasswordHash u = Some old \<and>
            passwordPepperVersionValue (u_PepperVersion u) = passwordPepperVersionValue ov \<and>
            passwordPepperVersionValue ov \<le> passwordPepperVersionValue nv)"
    by (auto simp: hash_guard_def)
  from run show ?thesis unfolding upd one exG by (cases r) (simp_all only: sum.case simp_thms)
qed

section \<open>Witnesses\<close>

definition admin_ex :: "string \<Rightarrow> user" where
  "admin_ex i = user_ex\<lparr>u_ID := i, u_Email := i, u_Role := ''admin''\<rparr>"

definition admin_service_ex :: admin_service where
  "admin_service_ex = \<lparr>ad_sqlite = False, ad_audit = None, ad_sessions =
     \<lparr>RequireEmailVerification = False, Duration = 20, IdleTTL = 10, RefreshTTL = 90, MaxLifetime = 0,
      GraceWindow = 5, TouchDebounce = 5, sc_audit = None, sc_mysql = False, sc_uuidOK = (\<lambda>i. i \<noteq> '''')\<rparr>\<rparr>"

theorem ban_user_outcome_witness:
  "fst (BanUser admin_service_ex request_ctx ''u2'' ''u1'' (quiet_world (tables_of [admin_ex ''u1'', admin_ex ''u2''] []))) = Inr () \<and>
   \<not> last_admin ''u2'' (tables_of [admin_ex ''u1'', admin_ex ''u2''] []) \<and>
   fst (BanUser admin_service_ex request_ctx ''u1'' ''u1'' (quiet_world (tables_of [admin_ex ''u1''] []))) =
     Inl (NewError ''last_admin'' ''Cannot ban the last admin'')"
proof -
  let ?d = "tables_of [admin_ex ''u1'', admin_ex ''u2''] []"
  obtain r w' where run: "BanUser admin_service_ex request_ctx ''u2'' ''u1'' (quiet_world ?d) = (r, w')" by fastforce
  moreover have "fst (BanUser admin_service_ex request_ctx ''u2'' ''u1'' (quiet_world ?d)) = Inr ()" by code_simp
  ultimately have r: "r = Inr ()" by simp
  have "distinct (map u_ID (users (store (quiet_world ?d))))"
    by (simp add: tables_of_def admin_ex_def)
  with ban_user_outcome [OF _ _ _ _ run] r have "\<not> last_admin ''u2'' ?d" by simp
  moreover have "fst (BanUser admin_service_ex request_ctx ''u1'' ''u1'' (quiet_world (tables_of [admin_ex ''u1''] []))) =
     Inl (NewError ''last_admin'' ''Cannot ban the last admin'')"
    by code_simp
  ultimately show ?thesis using run r by simp
qed

definition setpw_token_ex :: token where
  "setpw_token_ex = token_ex\<lparr>t_Type := TokenSetPass\<rparr>"

definition setpw_ex :: "string \<Rightarrow> set_password_input" where
  "setpw_ex h = \<lparr>sp_TokenID = ''k'', sp_TokenHash = h, sp_UserID = ''u1'', sp_Email = ''a@b.c'',
     sp_PasswordHash = ''pw'', sp_PepperVersion = None\<rparr>"

theorem set_password_all_or_nothing_witness:
  "fst (SetPasswordAndVerify False request_ctx (setpw_ex ''h'') (quiet_world (tables_of [user_ex] [setpw_token_ex]))) = Inr True \<and>
   store (snd (SetPasswordAndVerify False request_ctx (setpw_ex ''x'') (quiet_world (tables_of [user_ex] [setpw_token_ex])))) =
     tables_of [user_ex] [setpw_token_ex]"
proof -
  let ?w = "quiet_world (tables_of [user_ex] [setpw_token_ex])"
  have *: "fst (SetPasswordAndVerify False request_ctx (setpw_ex ''h'') ?w) = Inr True"
    "fst (SetPasswordAndVerify False request_ctx (setpw_ex ''x'') ?w) \<noteq> Inr True"
    by code_simp+
  obtain r w' where run: "SetPasswordAndVerify False request_ctx (setpw_ex ''x'') ?w = (r, w')" by fastforce
  with set_password_all_or_nothing [OF _ _ run] * show ?thesis by simp
qed

theorem rehash_compare_and_swap_witness:
  "UpdatePasswordHash request_ctx ''u1'' ''old'' None ''new'' (Some 2) 5
     (quiet_world (tables_of [user_ex\<lparr>u_PasswordHash := Some ''newer''\<rparr>] [])) =
   (Inr False, quiet_world (tables_of [user_ex\<lparr>u_PasswordHash := Some ''newer''\<rparr>] []))"
proof -
  let ?d = "tables_of [user_ex\<lparr>u_PasswordHash := Some ''newer''\<rparr>] []"
  obtain r w' where run: "UpdatePasswordHash request_ctx ''u1'' ''old'' None ''new'' (Some 2) 5 (quiet_world ?d) = (r, w')"
    by fastforce
  then have "r = Inr False" "w' = (quiet_world ?d)\<lparr>store := store w'\<rparr>"
    by (auto simp: UpdatePasswordHash_def effect_defs stmt_quiet Let_def count_where_def hash_guard_def tables_of_def
        user_ex_def)
  moreover have "distinct (map u_ID (users (store (quiet_world ?d))))" by (simp add: tables_of_def)
  ultimately have "store w' = ?d" using rehash_compare_and_swap [OF _ _ run] by simp
  with \<open>w' = _\<close> have "w' = quiet_world ?d" by (simp add: quiet_world_def)
  with run \<open>r = _\<close> show ?thesis by simp
qed

end
