(* ===== verification/Base64.thy ===== *)
theory Base64
  imports Sha256
begin

text \<open>
  Go's \<open>encoding/base64\<close> as the source uses it: the standard alphabet with and without padding,
  the URL alphabet without padding, and strict decoding. Decoding skips carriage returns and line
  feeds, and unless strict ignores the unused bits of the last character.
\<close>

record b64_encoding =
  b_alphabet :: string
  b_pad :: bool
  b_strict :: bool

definition std_alphabet :: string where
  "std_alphabet = ''ABCDEFGHIJKLMNOPQRSTUVWXYZabcdefghijklmnopqrstuvwxyz0123456789+/''"

definition url_alphabet :: string where
  "url_alphabet = ''ABCDEFGHIJKLMNOPQRSTUVWXYZabcdefghijklmnopqrstuvwxyz0123456789-_''"

definition StdEncoding :: b64_encoding where
  "StdEncoding = \<lparr>b_alphabet = std_alphabet, b_pad = True, b_strict = False\<rparr>"

definition RawStdEncodingStrict :: b64_encoding where
  "RawStdEncodingStrict = \<lparr>b_alphabet = std_alphabet, b_pad = False, b_strict = True\<rparr>"

definition RawURLEncoding :: b64_encoding where
  "RawURLEncoding = \<lparr>b_alphabet = url_alphabet, b_pad = False, b_strict = False\<rparr>"

section \<open>Encoding\<close>

fun b64_digits :: "nat list \<Rightarrow> nat list" where
  "b64_digits [] = []"
| "b64_digits [a] = [a div 4, a mod 4 * 16]"
| "b64_digits [a, b] = [a div 4, a mod 4 * 16 + b div 16, b mod 16 * 4]"
| "b64_digits (a # b # c # bs) = a div 4 # (a mod 4 * 16 + b div 16) # (b mod 16 * 4 + c div 64) # c mod 64 # b64_digits bs"

definition b64_padding :: "nat \<Rightarrow> string" where
  "b64_padding n = (if n mod 3 = 1 then ''=='' else if n mod 3 = 2 then ''='' else '''')"

definition EncodeToString :: "b64_encoding \<Rightarrow> string \<Rightarrow> string" where
  "EncodeToString enc s =
     map (\<lambda>n. b_alphabet enc ! n) (b64_digits (bytes_of s)) @ (if b_pad enc then b64_padding (length s) else '''')"

section \<open>Decoding\<close>

fun index_of :: "'a \<Rightarrow> 'a list \<Rightarrow> nat option" where
  "index_of x [] = None"
| "index_of x (y # ys) = (if x = y then Some 0 else map_option Suc (index_of x ys))"

text \<open>The bytes of a sequence of digits; the last group may have two or three of them.\<close>

fun b64_bytes :: "bool \<Rightarrow> nat list \<Rightarrow> nat list option" where
  "b64_bytes strict [] = Some []"
| "b64_bytes strict [a] = None"
| "b64_bytes strict [a, b] = (if strict \<and> b mod 16 \<noteq> 0 then None else Some [a * 4 + b div 16])"
| "b64_bytes strict [a, b, c] =
     (if strict \<and> c mod 4 \<noteq> 0 then None else Some [a * 4 + b div 16, b mod 16 * 16 + c div 4])"
| "b64_bytes strict (a # b # c # d # ds) =
     map_option (\<lambda>bs. (a * 4 + b div 16) # (b mod 16 * 16 + c div 4) # (c mod 4 * 64 + d) # bs) (b64_bytes strict ds)"

fun all_some :: "'a option list \<Rightarrow> 'a list option" where
  "all_some [] = Some []"
| "all_some (None # xs) = None"
| "all_some (Some x # xs) = map_option ((#) x) (all_some xs)"

definition strip_pad :: "string \<Rightarrow> string option" where
  "strip_pad s = (let body = takeWhile (\<lambda>c. c \<noteq> CHR ''='') s in
     if s = body @ (if length body mod 4 = 2 then ''=='' else if length body mod 4 = 3 then ''='' else '''') \<and>
        length body mod 4 \<noteq> 1 then Some body else None)"

definition DecodeString :: "b64_encoding \<Rightarrow> string \<Rightarrow> string option" where
  "DecodeString enc s =
     (let s1 = filter (\<lambda>c. c \<noteq> CHR 0x0D \<and> c \<noteq> CHR 0x0A) s in
      case (if b_pad enc then strip_pad s1 else Some s1) of
        None \<Rightarrow> None
      | Some body \<Rightarrow>
      case all_some (map (\<lambda>c. index_of c (b_alphabet enc)) body) of
        None \<Rightarrow> None
      | Some ds \<Rightarrow> map_option string_of (b64_bytes (b_strict enc) ds))"

section \<open>Round trip\<close>

definition good_alphabet :: "string \<Rightarrow> bool" where
  "good_alphabet a \<longleftrightarrow> length a = 64 \<and> distinct a \<and> CHR ''='' \<notin> set a \<and> CHR 0x0D \<notin> set a \<and> CHR 0x0A \<notin> set a"

lemma good_alphabets [simp]: "good_alphabet std_alphabet" "good_alphabet url_alphabet"
  by code_simp+

lemma index_of_nth: "distinct xs \<Longrightarrow> n < length xs \<Longrightarrow> index_of (xs ! n) xs = Some n"
  by (induction xs arbitrary: n) (auto simp: nth_Cons split: nat.splits)

lemma all_some_map: "(\<And>x. x \<in> set xs \<Longrightarrow> f x = Some (g x)) \<Longrightarrow> all_some (map f xs) = Some (map g xs)"
  by (induction xs) auto

lemma b64_digits_lt: "(\<forall>x \<in> set bs. x < 256) \<Longrightarrow> x \<in> set (b64_digits bs) \<Longrightarrow> x < 64"
  by (induction bs rule: b64_digits.induct) auto

lemma b64_bytes_digits: "(\<forall>x \<in> set bs. x < 256) \<Longrightarrow> b64_bytes strict (b64_digits bs) = Some bs"
  by (induction bs rule: b64_digits.induct) auto

lemma length_b64_digits: "length (b64_digits bs) = (length bs * 4 + 2) div 3"
  by (induction bs rule: b64_digits.induct) auto

lemma length_digits_mod: "length (b64_digits bs) mod 4 = (if length bs mod 3 = 0 then 0 else Suc (length bs mod 3))"
  by (induction bs rule: b64_digits.induct) (auto simp: mod_Suc)

lemma string_of_bytes: "string_of (bytes_of s) = s"
  by (simp add: string_of_def bytes_of_def o_def)

lemma bytes_lt: "x \<in> set (bytes_of s) \<Longrightarrow> x < 256"
  unfolding bytes_of_def by auto

lemma Decode_Encode:
  assumes "good_alphabet (b_alphabet enc)"
  shows "DecodeString enc (EncodeToString enc s) = Some s"
proof -
  let ?ds = "b64_digits (bytes_of s)" and ?a = "b_alphabet enc"
  let ?body = "map (\<lambda>n. ?a ! n) ?ds"
  note a = assms [unfolded good_alphabet_def]
  have lt: "n < 64" if "n \<in> set ?ds" for n using that b64_digits_lt bytes_lt by blast
  have body: "x \<in> set ?a" if "x \<in> set ?body" for x using that a lt by auto
  have nonl: "x \<noteq> CHR 0x0D \<and> x \<noteq> CHR 0x0A" if "x \<in> set ?body" for x using body [OF that] a by metis
  have clean: "filter (\<lambda>c. c \<noteq> CHR 0x0D \<and> c \<noteq> CHR 0x0A) (?body @ p) = ?body @ p"
    if "CHR 0x0D \<notin> set p" "CHR 0x0A \<notin> set p" for p
    using nonl that by (intro filter_True) (metis Un_iff set_append)
  have "all_some (map (\<lambda>c. index_of c ?a) ?body) = Some ?ds"
    using all_some_map [of ?ds "\<lambda>n. index_of (?a ! n) ?a" "\<lambda>n. n"] a lt by (auto simp: index_of_nth o_def)
  moreover have "b64_bytes (b_strict enc) ?ds = Some (bytes_of s)" using bytes_lt by (intro b64_bytes_digits) auto
  moreover have "takeWhile (\<lambda>c. c \<noteq> CHR ''='') (?body @ b64_padding (length s)) = ?body"
  proof -
    have "takeWhile (\<lambda>c. c \<noteq> CHR ''='') (?body @ p) = ?body @ takeWhile (\<lambda>c. c \<noteq> CHR ''='') p" for p
      by (rule takeWhile_append2) (use body a in metis)
    then show ?thesis by (simp add: b64_padding_def)
  qed
  then have "strip_pad (?body @ b64_padding (length s)) = Some ?body"
    using length_digits_mod [of "bytes_of s"] by (auto simp: strip_pad_def Let_def b64_padding_def bytes_of_def)
  ultimately show ?thesis
    using clean [of "b64_padding (length s)"] clean [of "[]"]
    by (auto simp: DecodeString_def EncodeToString_def Let_def b64_padding_def string_of_bytes)
qed

end
