(* ===== verification/Passwords.thy ===== *)
theory Passwords
  imports Users HasherRegistry Base64
begin

text \<open>
  \<open>internal/service/password_hasher.go\<close> and \<open>password_update.go\<close>: the password pipeline (the
  hasher registry behind a versioned pepper keyring), the functions the services call on it, and
  the guarded replacement of a stored password. A service holds a \<open>port.Hasher\<close>; the type
  assertion on it is a case of \<open>service_hasher\<close>. The limiter is threaded through as in \<open>HasherRegistry\<close>,
  and a seed stands for the salt the hash draws.
\<close>

section \<open>The pipeline\<close>

definition errUnsupportedPepperVersion :: go_err where
  "errUnsupportedPepperVersion = Sentinel ''service: unsupported password pepper version''"

record password_hasher =
  ph_registry :: registry
  ph_currentVersion :: nat
  ph_keys :: "nat \<rightharpoonup> string"

text \<open>The keys are a map; they are listed in the order the loop meets them.\<close>

fun clone_keys :: "(nat \<times> string) list \<Rightarrow> (nat \<rightharpoonup> string) \<Rightarrow> go_err + (nat \<rightharpoonup> string)" where
  "clone_keys [] m = Inr m"
| "clone_keys ((version, key) # ks) m =
     (if version = 0 then Inl (Wrapf ''password hasher: pepper version 0 is reserved'' [])
      else if key = '''' then Inl (Wrapf (''password hasher: pepper key version '' @ itoa_nat version @ '' is empty'') [])
      else clone_keys ks (m(version \<mapsto> key)))"

definition NewPasswordHasher :: "registry option \<Rightarrow> nat \<Rightarrow> (nat \<times> string) list \<Rightarrow> go_err + password_hasher" where
  "NewPasswordHasher reg currentVersion keys =
     (case reg of
        None \<Rightarrow> Inl (Wrapf ''password hasher: registry is nil'' [])
      | Some r \<Rightarrow>
     (case clone_keys keys Map.empty of
        Inl e \<Rightarrow> Inl e
      | Inr m \<Rightarrow>
          if currentVersion \<noteq> 0 \<and> m currentVersion = None
          then Inl (Wrapf (''password hasher: current pepper version '' @ itoa_nat currentVersion @ '' has no key'') [])
          else Inr \<lparr>ph_registry = r, ph_currentVersion = currentVersion, ph_keys = m\<rparr>))"

text \<open>The sorted versions without a key, which the error lists.\<close>

definition missing_versions :: "password_hasher \<Rightarrow> nat list \<Rightarrow> nat list" where
  "missing_versions h versions = sort (filter (\<lambda>v. ph_keys h v = None) versions)"

definition ValidateStoredVersions :: "password_hasher \<Rightarrow> nat list \<Rightarrow> go_err option" where
  "ValidateStoredVersions h versions =
     (let missing = missing_versions h versions in
      if missing = [] then None
      else Some (Wrapf (''password hasher: database contains password pepper versions with no configured key: ['' @
             join_with '' '' (map itoa_nat missing) @ '']'') []))"

definition uint32Pointer :: "nat \<Rightarrow> nat option" where
  "uint32Pointer value = (if value = 0 then None else Some value)"

definition pepperPassword :: "string \<Rightarrow> string \<Rightarrow> string" where
  "pepperPassword password pepper = EncodeToString StdEncoding (hmac_sha256 pepper password)"

definition hashVersionedAtLeast ::
  "password_hasher \<Rightarrow> work_limiter \<Rightarrow> nat \<Rightarrow> string \<Rightarrow> nat option \<Rightarrow> (go_err + string \<times> nat option) \<times> work_limiter" where
  "hashVersionedAtLeast h l seed password minimumVersion =
     (let low = (case minimumVersion of None \<Rightarrow> False | Some m \<Rightarrow> ph_currentVersion h < m) in
      if low \<and> ph_keys h (the minimumVersion) = None
      then (Inl (Wrapf (''cannot hash at stored version '' @ itoa_nat (the minimumVersion) @ '' because its key is unavailable'')
              [errUnsupportedPepperVersion]), l)
      else let version = (if low then the minimumVersion else ph_currentVersion h);
               input = (if version = 0 then password else pepperPassword password (the (ph_keys h version)))
      in case reg_Hash (ph_registry h) l seed input of
           (Inl e, l1) \<Rightarrow> (Inl e, l1)
         | (Inr hash, l1) \<Rightarrow> (Inr (hash, if version = 0 then None else uint32Pointer version), l1))"

definition hashVersioned ::
  "password_hasher \<Rightarrow> work_limiter \<Rightarrow> nat \<Rightarrow> string \<Rightarrow> (go_err + string \<times> nat option) \<times> work_limiter" where
  "hashVersioned h l seed password = hashVersionedAtLeast h l seed password None"

definition compareVersioned ::
  "password_hasher \<Rightarrow> work_limiter \<Rightarrow> string \<Rightarrow> string \<Rightarrow> nat option \<Rightarrow> go_err option \<times> work_limiter" where
  "compareVersioned h l password stored version =
     (case version of
        None \<Rightarrow> reg_Compare (ph_registry h) l password stored
      | Some v \<Rightarrow>
          if ph_keys h v = None \<or> v = 0
          then (case BurnDummy (ph_registry h) l stored of
                  (Some e, l1) \<Rightarrow> (Some e, l1)
                | (None, l1) \<Rightarrow> (Some (Wrapf (itoa_nat v) [errUnsupportedPepperVersion]), l1))
          else reg_Compare (ph_registry h) l (pepperPassword password (the (ph_keys h v))) stored)"

definition needsRehash :: "(string \<Rightarrow> go_err + int) \<Rightarrow> password_hasher \<Rightarrow> string \<Rightarrow> nat option \<Rightarrow> bool" where
  "needsRehash bcryptCost h stored storedVersion =
     (let version = (case storedVersion of None \<Rightarrow> 0 | Some v \<Rightarrow> v) in
      if ph_currentVersion h < version then False
      else version < ph_currentVersion h \<or> NeedsRehash bcryptCost (ph_registry h) stored)"

definition ph_dummyHash :: "password_hasher \<Rightarrow> string" where
  "ph_dummyHash h = DummyHash (ph_registry h)"

definition ph_Hash :: "password_hasher \<Rightarrow> work_limiter \<Rightarrow> nat \<Rightarrow> string \<Rightarrow> (go_err + string) \<times> work_limiter" where
  "ph_Hash h l seed password =
     (case hashVersioned h l seed password of (Inl e, l1) \<Rightarrow> (Inl e, l1) | (Inr p, l1) \<Rightarrow> (Inr (fst p), l1))"

definition ph_Compare :: "password_hasher \<Rightarrow> work_limiter \<Rightarrow> string \<Rightarrow> string \<Rightarrow> go_err option \<times> work_limiter" where
  "ph_Compare h l password stored = compareVersioned h l password stored (uint32Pointer (ph_currentVersion h))"

section \<open>What the services call\<close>

datatype service_hasher = Versioned password_hasher | Bare hasher

definition hashPassword ::
  "service_hasher \<Rightarrow> work_limiter \<Rightarrow> nat \<Rightarrow> string \<Rightarrow> (go_err + string \<times> nat option) \<times> work_limiter" where
  "hashPassword sh l seed password =
     (case sh of
        Versioned h \<Rightarrow> hashVersioned h l seed password
      | Bare b \<Rightarrow>
          (case h_MaxPasswordBytes b of
             Some limit \<Rightarrow>
               if 0 < limit \<and> limit < int (length password)
               then (Inl (NewError ''weak_password''
                       (''Password exceeds the selected hasher's '' @ itoa limit @ ''-byte input limit'')), l)
               else (map_sum id (\<lambda>x. (x, None)) (h_Hash b seed password), l)
           | None \<Rightarrow> (map_sum id (\<lambda>x. (x, None)) (h_Hash b seed password), l)))"

definition hashPasswordAtLeast ::
  "service_hasher \<Rightarrow> work_limiter \<Rightarrow> nat \<Rightarrow> string \<Rightarrow> nat option \<Rightarrow> (go_err + string \<times> nat option) \<times> work_limiter" where
  "hashPasswordAtLeast sh l seed password minimumVersion =
     (case sh of
        Versioned h \<Rightarrow> hashVersionedAtLeast h l seed password minimumVersion
      | Bare b \<Rightarrow> hashPassword sh l seed password)"

definition comparePassword ::
  "service_hasher \<Rightarrow> work_limiter \<Rightarrow> string \<Rightarrow> string \<Rightarrow> nat option \<Rightarrow> go_err option \<times> work_limiter" where
  "comparePassword sh l password stored version =
     (case sh of
        Versioned h \<Rightarrow> compareVersioned h l password stored version
      | Bare b \<Rightarrow> (h_Compare b password stored, l))"

definition passwordHashError :: "go_err \<Rightarrow> go_err" where
  "passwordHashError e =
     (if errors_is e ErrWeakPassword \<or> errors_is e ErrPasswordWorkBusy then e
      else Wrapf ''password hashing failed'' [ErrInternal, e])"

definition passwordCompareError :: "go_err \<Rightarrow> go_err \<Rightarrow> go_err" where
  "passwordCompareError e invalid = (if errors_is e ErrPasswordWorkBusy then ErrPasswordWorkBusy else invalid)"

section \<open>Password work in a request\<close>

text \<open>Whether a slot of the limiter is free and which salt is drawn is up to the world: one value of
  its entropy per call, \<open>None\<close> when other requests hold all slots.\<close>

definition limiter_at :: "bool \<Rightarrow> work_limiter" where
  "limiter_at free = \<lparr>slots_used = (if free then 0 else 1), slots_cap = 1\<rparr>"

definition seed_of :: "string \<Rightarrow> nat" where
  "seed_of salt = foldl (\<lambda>n b. n * 256 + b) 0 (bytes_of salt)"

definition password_work :: "(work_limiter \<Rightarrow> nat \<Rightarrow> go_err + 'a) \<Rightarrow> 'a action" where
  "password_work f = bnd (attempt draw) (\<lambda>r.
     case (case r of Inl _ \<Rightarrow> f (limiter_at False) 0 | Inr salt \<Rightarrow> f (limiter_at True) (seed_of salt)) of
       Inl e \<Rightarrow> fail e
     | Inr a \<Rightarrow> ret a)"

definition hash_work :: "service_hasher \<Rightarrow> string \<Rightarrow> (string \<times> nat option) action" where
  "hash_work sh password = password_work (\<lambda>l seed. fst (hashPassword sh l seed password))"

definition hash_at_least_work :: "service_hasher \<Rightarrow> string \<Rightarrow> nat option \<Rightarrow> (string \<times> nat option) action" where
  "hash_at_least_work sh password v = password_work (\<lambda>l seed. fst (hashPasswordAtLeast sh l seed password v))"

definition compare_work :: "service_hasher \<Rightarrow> string \<Rightarrow> string \<Rightarrow> nat option \<Rightarrow> unit action" where
  "compare_work sh password stored v =
     password_work (\<lambda>l _. case fst (comparePassword sh l password stored v) of None \<Rightarrow> Inr () | Some e \<Rightarrow> Inl e)"

section \<open>The guarded replacement\<close>

definition errPasswordPepperDowngrade :: go_err where
  "errPasswordPepperDowngrade = Sentinel ''service: password pepper version downgrade''"

text \<open>Returns the user with the new hash when the row was updated.\<close>

definition guardedPasswordUpdate ::
  "ctx \<Rightarrow> user \<Rightarrow> string \<Rightarrow> nat option \<Rightarrow> time \<Rightarrow> user option action" where
  "guardedPasswordUpdate ctx user newHash newVersion updatedAt =
     (case u_PasswordHash user of
        None \<Rightarrow> fail (Wrapf ''service: guarded password update requires an existing password'' [])
      | Some oldHash \<Rightarrow>
          if passwordPepperVersionValue newVersion < passwordPepperVersionValue (u_PepperVersion user)
          then fail (Wrapf ''downgrade'' [errPasswordPepperDowngrade])
          else bnd (wrap ''guarded password update''
                      (UpdatePasswordHash ctx (u_ID user) oldHash (u_PepperVersion user) newHash newVersion updatedAt))
                 (\<lambda>updated. ret (if updated then Some (set_hash newHash newVersion updatedAt user) else None)))"

section \<open>Round trip and monotony of pepper versions\<close>

lemma clone_keys_ok: "clone_keys ks m = Inr m' \<Longrightarrow> m 0 = None \<Longrightarrow> m' 0 = None"
  by (induction ks m rule: clone_keys.induct) (auto split: if_splits)

lemma NewPasswordHasher_cases:
  assumes "NewPasswordHasher reg cur keys = Inr h"
  obtains r where "reg = Some r" "ph_registry h = r" "ph_currentVersion h = cur" "ph_keys h 0 = None"
    "cur \<noteq> 0 \<Longrightarrow> ph_keys h cur \<noteq> None"
  using assms clone_keys_ok [of keys Map.empty]
  by (auto simp: NewPasswordHasher_def split: option.splits sum.splits if_splits)

lemma hashVersionedAtLeast_cases:
  assumes "NewPasswordHasher (Some r) cur keys = Inr h" and "hashVersionedAtLeast h l seed pw v0 = (Inr (x, v), l1)"
  obtains (plain) "v = None" "cur = 0" "passwordPepperVersionValue v0 = 0" "reg_Hash r l seed pw = (Inr x, l1)"
  | (keyed) n key where "v = Some n" "n \<noteq> 0" "n = max cur (passwordPepperVersionValue v0)" "ph_keys h n = Some key"
      "reg_Hash r l seed (pepperPassword pw key) = (Inr x, l1)"
proof -
  from NewPasswordHasher_cases [OF assms(1)]
  have h: "ph_registry h = r" "ph_currentVersion h = cur" "cur \<noteq> 0 \<Longrightarrow> ph_keys h cur \<noteq> None" by auto
  show thesis
  proof (cases "case v0 of None \<Rightarrow> False | Some m \<Rightarrow> cur < m")
    case True
    then obtain m where m: "v0 = Some m" "cur < m" by (auto split: option.splits)
    then show thesis using assms(2) h
      by (intro keyed [of m "the (ph_keys h m)"])
        (auto simp: hashVersionedAtLeast_def Let_def uint32Pointer_def passwordPepperVersionValue_def split: if_splits prod.splits sum.splits)
  next
    case False
    then have le: "passwordPepperVersionValue v0 \<le> cur" by (auto simp: passwordPepperVersionValue_def split: option.splits)
    show thesis
    proof (cases "cur = 0")
      case True
      with assms(2) h False le show thesis
        by (intro plain) (auto simp: hashVersionedAtLeast_def Let_def split: if_splits prod.splits sum.splits option.splits)
    next
      case nz: False
      with assms(2) h False le show thesis
        by (intro keyed [of cur "the (ph_keys h cur)"])
          (auto simp: hashVersionedAtLeast_def Let_def uint32Pointer_def max_def split: if_splits prod.splits sum.splits option.splits)
    qed
  qed
qed

text \<open>C30: a password hashed under the keyring verifies under the version stored with it; the version is
  the current one or the one the row had, whichever is higher, and the row is not rewritten at once.\<close>

theorem pepper_roundtrip:
  assumes "newRegistry bc argon probe_seed cur_hasher legacy = Inr r" and "consistent_hasher bc (current r)"
    and "currentIsBcrypt r \<or> currentParameters r \<noteq> ''''"
    and "NewPasswordHasher (Some r) cur keys = Inr h"
    and "hashVersionedAtLeast h l seed pw v0 = (Inr (x, v), l1)" and "slots_used l1 < slots_cap l1"
  shows "compareVersioned h l1 pw x v = (None, l1) \<and> \<not> needsRehash bc h x v \<and>
    passwordPepperVersionValue v = max cur (passwordPepperVersionValue v0) \<and>
    (\<forall>n. v = Some n \<longrightarrow> ValidateStoredVersions h [n] = None)"
proof -
  note rt = reg_roundtrip [OF assms(1-3) _ assms(6)]
  have h: "ph_registry h = r" "ph_currentVersion h = cur" using NewPasswordHasher_cases [OF assms(4)] by auto
  from assms(4,5) show ?thesis
  proof (cases rule: hashVersionedAtLeast_cases)
    case plain
    with rt [OF plain(4)] h show ?thesis
      by (simp add: compareVersioned_def needsRehash_def passwordPepperVersionValue_def)
  next
    case (keyed n key)
    with rt [OF keyed(5)] h show ?thesis
      by (auto simp: compareVersioned_def needsRehash_def passwordPepperVersionValue_def ValidateStoredVersions_def
          missing_versions_def)
  qed
qed

text \<open>Replacing a stored password never lowers the pepper version of a row, never touches another
  user, and reports success exactly when the row still held the password it was read with.\<close>

theorem password_replacement:
  assumes "faults_only w" and "distinct (map u_ID (users (store w)))"
    and "guardedPasswordUpdate ctx user new nv t w = (r, w')" and "u_PasswordHash user = Some old"
  shows "(\<forall>x \<in> set (users (store w)). \<exists>y \<in> set (users (store w')). u_ID y = u_ID x \<and>
       passwordPepperVersionValue (u_PepperVersion x) \<le> passwordPepperVersionValue (u_PepperVersion y) \<and>
       (y = x \<or> u_ID x = u_ID user \<and> u_PasswordHash x = Some old \<and> y = set_hash new nv t x)) \<and>
     (r = Inr (Some (set_hash new nv t user)) \<longrightarrow>
        (\<exists>x \<in> set (users (store w)). u_ID x = u_ID user \<and> u_PasswordHash x = Some old)) \<and>
     (r = Inr None \<longrightarrow> store w' = store w)"
proof -
  let ?G = "hash_guard (u_ID user) old (u_PepperVersion user) nv" and ?us = "users (store w)"
  let ?Q = "\<lambda>r d'. (case r of Inr (Some y) \<Rightarrow> y = set_hash new nv t user \<and> count_where ?G ?us = 1 | _ \<Rightarrow> True) \<and>
     (d' = store w \<or> r \<noteq> Inr None \<and> d' = put_users (update_where ?G (set_hash new nv t) ?us) (store w))"
  have le: "count_where ?G ?us \<le> 1"
    using keyed_count_le1 [OF assms(2), of "u_ID user"] count_where_mono [of ?us ?G "\<lambda>u. u_ID u = u_ID user"]
    by (simp add: hash_guard_def)
  then have none: "count_where ?G ?us \<noteq> 1 \<Longrightarrow> put_users (update_where ?G f ?us) (store w) = store w" for f
    using count_where_0 [of ?G ?us] by (subst update_where_id) (auto simp: put_users_def)
  have "rq (guardedPasswordUpdate ctx user new nv t) ?Q (store w)"
    unfolding guardedPasswordUpdate_def UpdatePasswordHash_def assms(4) using none
    by (auto intro!: rqs simp: Let_def)
  from rqD [OF this assms(1,3)] have q: "?Q r (store w')" by blast
  have row: "\<exists>y \<in> set (update_where ?G (set_hash new nv t) ?us). u_ID y = u_ID x \<and>
       passwordPepperVersionValue (u_PepperVersion x) \<le> passwordPepperVersionValue (u_PepperVersion y) \<and>
       (y = x \<or> u_ID x = u_ID user \<and> u_PasswordHash x = Some old \<and> y = set_hash new nv t x)" if "x \<in> set ?us" for x
    using that by (intro bexI [of _ "if ?G x then set_hash new nv t x else x"])
      (auto simp: set_update_where hash_guard_def set_hash_def)
  have "count_where ?G ?us = 1 \<Longrightarrow> \<exists>x \<in> set ?us. ?G x" using count_where_0 [of ?G ?us] by auto
  with q row show ?thesis by (auto simp: hash_guard_def)
qed

section \<open>Witnesses\<close>

text \<open>Two pepper keys, the first current; the row was written under the second.\<close>

definition peppered_ex :: password_hasher where
  "peppered_ex = \<lparr>ph_registry = the_reg, ph_currentVersion = 1, ph_keys = [1 \<mapsto> ''k1'', 2 \<mapsto> ''k2'']\<rparr>"

theorem pepper_roundtrip_witness:
  "\<exists>x. hashVersionedAtLeast peppered_ex (limiter_at True) 7 ''pw'' (Some 2) = (Inr (x, Some 2), limiter_at True) \<and>
       compareVersioned peppered_ex (limiter_at True) ''pw'' x (Some 2) = (None, limiter_at True)"
proof -
  have new: "NewPasswordHasher (Some the_reg) 1 [(1, ''k1''), (2, ''k2'')] = Inr peppered_ex"
    by (simp add: NewPasswordHasher_def peppered_ex_def)
  have slots: "slots_used (limiter_at True) < slots_cap (limiter_at True)" by (simp add: limiter_at_def)
  obtain x where h: "hashVersionedAtLeast peppered_ex (limiter_at True) 7 ''pw'' (Some 2) = (Inr (x, Some 2), limiter_at True)"
    by (simp add: hashVersionedAtLeast_def peppered_ex_def reg_Hash_def reg_MaxPasswordBytes_def the_reg_facts prefix_hasher_def
        limiter_Do_ok [OF slots] uint32Pointer_def)
  from pepper_roundtrip [OF reg_ex_built _ _ new h slots] h show ?thesis
    using bcrypt_example_consistent the_reg_facts by auto
qed

theorem password_replacement_witness:
  "store (snd (guardedPasswordUpdate request_ctx (user_ex\<lparr>u_PasswordHash := Some ''old''\<rparr>) ''new'' (Some 2) 5
      (quiet_world (tables_of [user_ex\<lparr>u_PasswordHash := Some ''newer'', u_PepperVersion := Some 1\<rparr>] [])))) =
    tables_of [user_ex\<lparr>u_PasswordHash := Some ''newer'', u_PepperVersion := Some 1\<rparr>] []"
proof -
  let ?w = "quiet_world (tables_of [user_ex\<lparr>u_PasswordHash := Some ''newer'', u_PepperVersion := Some 1\<rparr>] [])"
  let ?u = "user_ex\<lparr>u_PasswordHash := Some ''old''\<rparr>"
  have "fst (guardedPasswordUpdate request_ctx ?u ''new'' (Some 2) 5 ?w) = Inr None" by code_simp
  then obtain w' where run: "guardedPasswordUpdate request_ctx ?u ''new'' (Some 2) 5 ?w = (Inr None, w')"
    by (metis prod.collapse)
  with password_replacement [OF _ _ run] show ?thesis by (simp add: tables_of_def)
qed

end
