(* ===== verification/Claims.thy ===== *)
theory Claims
  imports Tokens
begin

text \<open>
  The interface every code-confirming flow relies on: a repository call that claims a one-time token
  in one guarded statement. \<open>live\<close> says which rows a call may claim; the laws are those of a guarded
  \<open>UPDATE\<close>. The flows only use the locale's lemmas; it is interpreted on \<open>ConsumeIfValid\<close>,
  \<open>ConsumeIfValidUnderCap\<close>, \<open>MarkUsedIfUnused\<close> and \<open>MarkUsedIfUnderCap\<close>.
\<close>

locale one_time_claim =
  fixes claim :: "ctx \<Rightarrow> 'i \<Rightarrow> bool action"
    and live :: "'i \<Rightarrow> token \<Rightarrow> bool"
  assumes claim_wp: "c_tx ctx \<Longrightarrow> (\<And>e. Q (Inl e) d) \<Longrightarrow>
      (\<not> list_ex (live i) (tokens d) \<Longrightarrow> Q (Inr False) d) \<Longrightarrow>
      (\<And>t. list_ex (live i) (tokens d) \<Longrightarrow> Q (Inr True) (put_tokens (update_where (live i) (set_used t) (tokens d)) d)) \<Longrightarrow>
      wp (claim ctx i) Q d"
    and live_unused: "live i t \<Longrightarrow> t_UsedAt t = None"
begin

text \<open>A claim, and the rest under it: the shape of every confirming transaction.\<close>

lemma wp_claim_then:
  assumes "c_tx ctx" and "\<And>e d'. Q (Inl e) d'"
    and "\<And>t. list_ex (live i) (tokens d) \<Longrightarrow> wp k Q (put_tokens (update_where (live i) (set_used t) (tokens d)) d)"
  shows "wp (bnd (claim ctx i) (\<lambda>ok. if \<not> ok then fail e else k)) Q d"
  using assms by (auto intro!: wp_bnd claim_wp wp_fail)

text \<open>After a successful claim nothing is left to claim: a second one fails.\<close>

lemma claimed_dead: "\<not> list_ex (live i) (update_where (live i) (set_used t) ts)"
  by (auto simp: list_ex_iff set_update_where set_used_def dest: live_unused)

lemma second_claim_fails:
  assumes "c_tx ctx"
  shows "wp (claim ctx i) (\<lambda>r d'. case r of Inl e \<Rightarrow> True
     | Inr b \<Rightarrow> b \<longrightarrow> wp (claim ctx i) (\<lambda>r2 _. r2 \<noteq> Inr True) d') d"
  using assms by (auto intro!: claim_wp simp: claimed_dead)

end

lemma count_where_pos: "0 < count_where P rows \<longleftrightarrow> list_ex P rows"
  by (induction rows) (auto simp: count_where_def)

lemma wp_affected_tokens:
  assumes "c_tx ctx" and "\<And>e. Q (Inl e) d" and "\<not> list_ex G (tokens d) \<Longrightarrow> Q (Inr False) d"
    and "list_ex G (tokens d) \<Longrightarrow> Q (Inr True) (put_tokens (update_where G f (tokens d)) d)"
  shows "wp (affected ctx tokens put_tokens G f) Q d"
proof (rule wp_affected [OF assms(1)])
  have "\<not> list_ex G (tokens d) \<Longrightarrow> put_tokens (update_where G f (tokens d)) d = d"
    by (subst update_where_id) (auto simp: list_ex_iff put_tokens_def)
  then show "Q (Inr (0 < count_where G (tokens d))) (put_tokens (update_where G f (tokens d)) d)"
    using assms(3,4) by (cases "list_ex G (tokens d)") (simp_all add: count_where_pos)
qed (rule assms(2))

interpretation consume: one_time_claim ConsumeIfValid consume_guard
  by unfold_locales (auto simp: ConsumeIfValid_def guard_defs intro!: wp_affected_tokens)

interpretation consume_cap: one_time_claim "\<lambda>ctx (inp, n). ConsumeIfValidUnderCap ctx inp n" "\<lambda>(inp, n). consume_cap_guard inp n"
  by unfold_locales
    (auto simp: ConsumeIfValidUnderCap_def guard_defs split: if_splits prod.splits intro!: wp_affected_tokens)

interpretation mark: one_time_claim MarkUsedIfUnused unused_id
  by unfold_locales (auto simp: MarkUsedIfUnused_def guard_defs intro!: wp_bnd wp_now wp_affected_tokens)

interpretation mark_cap: one_time_claim "\<lambda>ctx (i, n). MarkUsedIfUnderCap ctx i n" "\<lambda>(i, n). used_cap_guard i n"
  by unfold_locales
    (auto simp: MarkUsedIfUnderCap_def guard_defs split: prod.splits intro!: wp_bnd wp_now wp_affected_tokens)

end
