(* ===== verification/Orgs.thy ===== *)
theory Orgs
  imports Users "HOL-Library.Char_ord" "HOL-Library.List_Lexorder"
begin

text \<open>
  \<open>internal/sqlstore/org_repo.go\<close> with \<open>org_queries.go\<close>, and \<open>internal/service/org.go\<close> with
  \<open>org_membership_guard.go\<close>, \<open>org_permission_operations.go\<close> and \<open>maxorgs.go\<close>: organisations, their
  members and the denormalised counters. Fixed-role mode: no organisation permission service and
  no custom role assignments are configured, so \<open>orgOperationAuthorized\<close> is false and the
  management guards are not taken. Metadata and invitations are not modelled.
\<close>

section \<open>Roles and limits\<close>

fun role_string :: "org_role \<Rightarrow> string" where
  "role_string Owner = ''owner''"
| "role_string OrgAdmin = ''admin''"
| "role_string Member = ''member''"

definition org_role_of :: "string \<Rightarrow> org_role option" where
  "org_role_of s = (if s = ''owner'' then Some Owner else if s = ''admin'' then Some OrgAdmin
     else if s = ''member'' then Some Member else None)"

definition IsValid :: "string \<Rightarrow> bool" where
  "IsValid r \<longleftrightarrow> org_role_of r \<noteq> None"

fun Weight :: "org_role \<Rightarrow> nat" where
  "Weight Owner = 3"
| "Weight OrgAdmin = 2"
| "Weight Member = 1"

definition ReservedOrgSlugs :: "string list" where
  "ReservedOrgSlugs = [''api'', ''admin'', ''auth'', ''www'', ''app'', ''static'', ''assets'', ''public'', ''cdn'',
     ''status'', ''billing'', ''settings'', ''support'', ''help'', ''login'', ''register'', ''signup'', ''logout'',
     ''oauth'', ''root'', ''system'', ''org'', ''orgs'', ''organization'', ''organizations'']"

definition resolveMaxOrgsPerUser :: "int \<Rightarrow> int" where
  "resolveMaxOrgsPerUser configured = (if configured \<le> 0 then 100 else configured)"

record org_service =
  os_maxOrgs :: int
  os_audit :: "audit_service option"
  os_sqlite :: bool

definition NewOrgService :: "int \<Rightarrow> audit_service option \<Rightarrow> bool \<Rightarrow> org_service" where
  "NewOrgService maxOrgsPerUser aud sqlite =
     \<lparr>os_maxOrgs = resolveMaxOrgsPerUser maxOrgsPerUser, os_audit = aud, os_sqlite = sqlite\<rparr>"

section \<open>The repository\<close>

definition is_member :: "string \<Rightarrow> string \<Rightarrow> org_member \<Rightarrow> bool" where
  "is_member orgID userID m \<longleftrightarrow> m_OrgID m = orgID \<and> m_UserID m = userID"

definition org_Create :: "ctx \<Rightarrow> org \<Rightarrow> unit action" where
  "org_Create ctx o1 = stmt ctx (\<lambda>d.
     if list_ex (\<lambda>x. o_ID x = o_ID o1 \<or> o_Slug x = o_Slug o1) (orgs d) then (Inl ErrDuplicateKey, d)
     else if case o_CreatedBy o1 of None \<Rightarrow> False | Some u \<Rightarrow> \<not> list_ex (\<lambda>x. u_ID x = u) (users d) then (Inl ErrDatabase, d)
     else (Inr (), put_orgs (orgs d @ [o1]) d))"

definition org_GetByID :: "ctx \<Rightarrow> string \<Rightarrow> org option action" where
  "org_GetByID ctx i = query ctx (\<lambda>d. select1 (\<lambda>x. o_ID x = i) (orgs d))"

definition org_GetBySlug :: "ctx \<Rightarrow> string \<Rightarrow> org option action" where
  "org_GetBySlug ctx s = query ctx (\<lambda>d. select1 (\<lambda>x. o_Slug x = s) (orgs d))"

definition org_Update :: "ctx \<Rightarrow> org \<Rightarrow> unit action" where
  "org_Update ctx o1 = stmt ctx (\<lambda>d.
     if list_ex (\<lambda>x. o_ID x = o_ID o1) (orgs d) \<and> list_ex (\<lambda>x. o_ID x \<noteq> o_ID o1 \<and> o_Slug x = o_Slug o1) (orgs d)
     then (Inl ErrDuplicateKey, d)
     else (Inr (), put_orgs (update_where (\<lambda>x. o_ID x = o_ID o1)
            (\<lambda>x. x\<lparr>o_Name := o_Name o1, o_Slug := o_Slug o1, o_UpdatedAt := o_UpdatedAt o1\<rparr>) (orgs d)) d))"

text \<open>\<open>Delete\<close>: the sessions are detached first; deleting the row cascades to its members.\<close>

definition org_Delete :: "ctx \<Rightarrow> string \<Rightarrow> bool action" where
  "org_Delete ctx i = WithTx ctx (\<lambda>tx.
     seq (exec tx (\<lambda>d. put_sessions (update_where (\<lambda>s. s_ActiveOrgID s = Some i) clear_org (sessions d)) d))
         (stmt tx (\<lambda>d. (Inr (0 < count_where (\<lambda>x. o_ID x = i) (orgs d)),
            put_members (delete_where (\<lambda>m. m_OrgID m = i) (members d))
              (put_orgs (delete_where (\<lambda>x. o_ID x = i) (orgs d))
                (put_org_invites (delete_where (\<lambda>v. oi_OrgID v = i) (org_invites d)) d))))))"

definition repo_AddMember :: "ctx \<Rightarrow> org_member \<Rightarrow> unit action" where
  "repo_AddMember ctx m = stmt ctx (\<lambda>d.
     if list_ex (is_member (m_OrgID m) (m_UserID m)) (members d) then (Inl ErrDuplicateKey, d)
     else if \<not> list_ex (\<lambda>x. o_ID x = m_OrgID m) (orgs d) \<or> \<not> list_ex (\<lambda>x. u_ID x = m_UserID m) (users d)
     then (Inl ErrDatabase, d)
     else (Inr (), put_members (members d @ [m]) d))"

definition repo_RemoveMember :: "ctx \<Rightarrow> string \<Rightarrow> string \<Rightarrow> org_role \<Rightarrow> bool action" where
  "repo_RemoveMember ctx orgID userID expectRole = stmt ctx (\<lambda>d.
     let P = (\<lambda>m. is_member orgID userID m \<and> m_Role m = expectRole)
     in (Inr (0 < count_where P (members d)), put_members (delete_where P (members d)) d))"

definition repo_UpdateMemberRole :: "ctx \<Rightarrow> string \<Rightarrow> string \<Rightarrow> org_role \<Rightarrow> org_role \<Rightarrow> bool action" where
  "repo_UpdateMemberRole ctx orgID userID expectRole newRole =
     affected ctx members put_members (\<lambda>m. is_member orgID userID m \<and> m_Role m = expectRole)
       (\<lambda>m. m\<lparr>m_Role := newRole\<rparr>)"

definition GetMembership :: "ctx \<Rightarrow> string \<Rightarrow> string \<Rightarrow> org_member option action" where
  "GetMembership ctx orgID userID = query ctx (\<lambda>d. select1 (is_member orgID userID) (members d))"

definition LockMembership :: "bool \<Rightarrow> ctx \<Rightarrow> string \<Rightarrow> string \<Rightarrow> org_member option action" where
  "LockMembership sqlite ctx orgID userID =
     (if \<not> InTx ctx then fail (Sentinel ''lock membership requires a transaction'')
      else if sqlite
      then seq (exec ctx (\<lambda>d. put_members (update_where (is_member orgID userID) (\<lambda>m. m) (members d)) d))
               (GetMembership ctx orgID userID)
      else GetMembership ctx orgID userID)"

text \<open>The counter statements; the guarded ones turn zero affected rows into an error.\<close>

definition guarded ::
  "ctx \<Rightarrow> (tables \<Rightarrow> 'r list) \<Rightarrow> ('r list \<Rightarrow> tables \<Rightarrow> tables) \<Rightarrow> ('r \<Rightarrow> bool) \<Rightarrow> ('r \<Rightarrow> 'r) \<Rightarrow> go_err \<Rightarrow> unit action" where
  "guarded ctx get put P f e = bnd (affected ctx get put P f) (\<lambda>ok. if ok then ret () else fail e)"

definition add_owned :: "int \<Rightarrow> user \<Rightarrow> user" where
  "add_owned n u = u\<lparr>u_OrgOwnerCount := u_OrgOwnerCount u + n\<rparr>"

definition add_owners :: "int \<Rightarrow> org \<Rightarrow> org" where
  "add_owners n x = x\<lparr>o_OwnerCount := o_OwnerCount x + n\<rparr>"

definition add_members :: "int \<Rightarrow> org \<Rightarrow> org" where
  "add_members n x = x\<lparr>o_MemberCount := o_MemberCount x + n\<rparr>"

definition IncrementUserOrgOwnerCount :: "ctx \<Rightarrow> string \<Rightarrow> int \<Rightarrow> unit action" where
  "IncrementUserOrgOwnerCount ctx userID maxOrgs =
     guarded ctx users put_users (\<lambda>u. u_ID u = userID \<and> u_OrgOwnerCount u < maxOrgs) (add_owned 1) ErrOrgLimitReached"

definition DecrementUserOrgOwnerCount :: "ctx \<Rightarrow> string \<Rightarrow> unit action" where
  "DecrementUserOrgOwnerCount ctx userID = exec ctx (\<lambda>d. put_users
     (update_where (\<lambda>u. u_ID u = userID \<and> 0 < u_OrgOwnerCount u) (add_owned (- 1)) (users d)) d)"

definition IncrementOrgMemberCount :: "ctx \<Rightarrow> string \<Rightarrow> int \<Rightarrow> unit action" where
  "IncrementOrgMemberCount ctx orgID maxMembers =
     guarded ctx orgs put_orgs (\<lambda>x. o_ID x = orgID \<and> o_MemberCount x < maxMembers) (add_members 1) ErrOrgMemberLimitReached"

definition DecrementOrgMemberCount :: "ctx \<Rightarrow> string \<Rightarrow> unit action" where
  "DecrementOrgMemberCount ctx orgID = exec ctx (\<lambda>d. put_orgs
     (update_where (\<lambda>x. o_ID x = orgID \<and> 0 < o_MemberCount x) (add_members (- 1)) (orgs d)) d)"

definition TryDecrementOrgOwnerCount :: "ctx \<Rightarrow> string \<Rightarrow> unit action" where
  "TryDecrementOrgOwnerCount ctx orgID =
     guarded ctx orgs put_orgs (\<lambda>x. o_ID x = orgID \<and> 1 < o_OwnerCount x) (add_owners (- 1)) ErrCannotRemoveLastOwner"

definition IncrementOrgOwnerCount :: "ctx \<Rightarrow> string \<Rightarrow> unit action" where
  "IncrementOrgOwnerCount ctx orgID = exec ctx (\<lambda>d. put_orgs
     (update_where (\<lambda>x. o_ID x = orgID) (add_owners 1) (orgs d)) d)"

definition DecrementOwnerCountForOrgOwners :: "ctx \<Rightarrow> string \<Rightarrow> unit action" where
  "DecrementOwnerCountForOrgOwners ctx orgID = exec ctx (\<lambda>d. put_users
     (update_where (\<lambda>u. list_ex (\<lambda>m. m_OrgID m = orgID \<and> m_UserID m = u_ID u \<and> m_Role m = Owner) (members d))
        (add_owned (- 1)) (users d)) d)"

section \<open>The service\<close>

definition org_event :: "string \<Rightarrow> string \<Rightarrow> string \<Rightarrow> audit_event" where
  "org_event typ actorID orgID = \<lparr>e_Type = typ, e_Actor = actorID, e_Ref = orgID\<rparr>"

definition guardAndIncrementOwnerCount :: "org_service \<Rightarrow> ctx \<Rightarrow> string \<Rightarrow> unit action" where
  "guardAndIncrementOwnerCount svc ctx userID = IncrementUserOrgOwnerCount ctx userID (os_maxOrgs svc)"

definition requireOrgRole :: "org_member option \<Rightarrow> org_role \<Rightarrow> unit action" where
  "requireOrgRole m minimum =
     (case m of
        None \<Rightarrow> fail ErrOrgMemberNotFound
      | Some x \<Rightarrow> reject_if (Weight (m_Role x) < Weight minimum) ErrOrgForbidden)"

definition requireRole :: "ctx \<Rightarrow> string \<Rightarrow> string \<Rightarrow> org_role \<Rightarrow> unit action" where
  "requireRole ctx orgID actorID minimum =
     (if actorID = '''' then fail ErrForbidden
      else bnd (GetMembership ctx orgID actorID) (\<lambda>m. requireOrgRole m minimum))"

definition CreateOrg :: "org_service \<Rightarrow> ctx \<Rightarrow> string \<Rightarrow> string \<Rightarrow> string \<Rightarrow> org action" where
  "CreateOrg svc ctx name slug ownerID =
     (if slug \<in> set ReservedOrgSlugs then fail ErrOrgSlugReserved
      else if 255 < length slug then fail (NewError ''invalid_slug'' ''Slug must be 255 characters or less'')
      else if name = '''' then fail (NewError ''invalid_name'' ''Organization name is required'')
      else WithTx ctx (\<lambda>tx.
        seq (guardAndIncrementOwnerCount svc tx ownerID)
        (bnd (org_GetBySlug tx slug) (\<lambda>existing.
         if existing \<noteq> None then fail ErrOrgSlugExists
         else bnd now (\<lambda>t. bnd draw (\<lambda>newID.
           let o1 = \<lparr>o_ID = newID, o_Name = name, o_Slug = slug, o_CreatedBy = Some ownerID, o_OwnerCount = 1,
                     o_MemberCount = 1, o_CreatedAt = t, o_UpdatedAt = t\<rparr> in
           bnd (attempt (org_Create tx o1)) (\<lambda>r. case r of
             Inl e \<Rightarrow> if errors_is e ErrDuplicateKey then fail ErrOrgSlugExists else fail e
           | Inr _ \<Rightarrow>
               seq (repo_AddMember tx \<lparr>m_OrgID = newID, m_UserID = ownerID, m_Role = Owner, m_JoinedAt = t\<rparr>)
               (seq (publish (os_audit svc) tx (org_event ''organization.created'' ownerID newID))
               (ret o1)))))))))"

definition UpdateOrg :: "ctx \<Rightarrow> string \<Rightarrow> string \<Rightarrow> string option \<Rightarrow> string option \<Rightarrow> org action" where
  "UpdateOrg ctx orgID actorID newName newSlug =
     seq (requireRole ctx orgID actorID OrgAdmin)
     (bnd (org_GetByID ctx orgID) (\<lambda>found. case found of
        None \<Rightarrow> fail ErrOrgNotFound
      | Some o1 \<Rightarrow>
        bnd (case newSlug of
               None \<Rightarrow> ret o1
             | Some slug \<Rightarrow>
                 if slug \<in> set ReservedOrgSlugs then fail ErrOrgSlugReserved
                 else if slug = o_Slug o1 then ret o1
                 else bnd (org_GetBySlug ctx slug) (\<lambda>existing.
                        if existing \<noteq> None then fail ErrOrgSlugExists else ret (o1\<lparr>o_Slug := slug\<rparr>))) (\<lambda>o2.
        let o3 = (case newName of None \<Rightarrow> o2 | Some n \<Rightarrow> o2\<lparr>o_Name := n\<rparr>) in
        bnd now (\<lambda>t. let o4 = o3\<lparr>o_UpdatedAt := t\<rparr> in seq (org_Update ctx o4) (ret o4)))))"

definition deleteOrgTx :: "ctx \<Rightarrow> string \<Rightarrow> (ctx \<Rightarrow> org \<Rightarrow> unit action) \<Rightarrow> org action" where
  "deleteOrgTx ctx orgID record =
     bnd (org_GetByID ctx orgID) (\<lambda>found. case found of
       None \<Rightarrow> fail ErrOrgNotFound
     | Some o1 \<Rightarrow>
         seq (WithTx ctx (\<lambda>tx.
                seq (DecrementOwnerCountForOrgOwners tx orgID)
                (seq (ClearActiveOrgForAllMembers tx orgID)
                (bnd (org_Delete tx orgID) (\<lambda>deleted.
                 if \<not> deleted then fail ErrOrgNotFound else record tx o1)))))
             (ret o1))"

definition DeleteOrg :: "org_service \<Rightarrow> ctx \<Rightarrow> string \<Rightarrow> string \<Rightarrow> unit action" where
  "DeleteOrg svc ctx orgID actorID =
     seq (requireRole ctx orgID actorID Owner)
     (bnd (deleteOrgTx ctx orgID (\<lambda>tx _. publish (os_audit svc) tx (org_event ''organization.deleted'' actorID orgID)))
       (\<lambda>_. ret ()))"

definition addMemberTx ::
  "org_service \<Rightarrow> ctx \<Rightarrow> string \<Rightarrow> string \<Rightarrow> org_role \<Rightarrow> (ctx \<Rightarrow> unit action) \<Rightarrow> unit action" where
  "addMemberTx svc ctx orgID userID role record =
     bnd (GetMembership ctx orgID userID) (\<lambda>membership.
     if membership \<noteq> None then fail ErrOrgMemberExists
     else WithTx ctx (\<lambda>tx.
       seq (run_if (role = Owner)
              (seq (guardAndIncrementOwnerCount svc tx userID) (IncrementOrgOwnerCount tx orgID)))
       (seq (IncrementOrgMemberCount tx orgID 10000)
       (bnd now (\<lambda>t.
        bnd (attempt (repo_AddMember tx \<lparr>m_OrgID = orgID, m_UserID = userID, m_Role = role, m_JoinedAt = t\<rparr>)) (\<lambda>r. case r of
          Inl e \<Rightarrow> if errors_is e ErrDuplicateKey then fail ErrOrgMemberExists else fail e
        | Inr _ \<Rightarrow> record tx))))))"

definition requireMemberMutation :: "org_member option \<Rightarrow> org_role \<Rightarrow> unit action" where
  "requireMemberMutation actor minimum = requireOrgRole actor minimum"

text \<open>\<open>lockActorAndTarget\<close> locks the smaller user id first; the results do not depend on the order.\<close>

definition lockActorAndTarget ::
  "org_service \<Rightarrow> ctx \<Rightarrow> string \<Rightarrow> string \<Rightarrow> string \<Rightarrow> (org_member option \<times> org_member option) action" where
  "lockActorAndTarget svc ctx orgID actorID targetID =
     (if actorID = '''' then fail ErrForbidden
      else let lock = LockMembership (os_sqlite svc) ctx orgID in
      if targetID = actorID then bnd (lock actorID) (\<lambda>m. ret (m, m))
      else if targetID < actorID
      then bnd (lock targetID) (\<lambda>t. bnd (lock actorID) (\<lambda>a. ret (a, t)))
      else bnd (lock actorID) (\<lambda>a. bnd (lock targetID) (\<lambda>t. ret (a, t))))"

definition AddMember :: "org_service \<Rightarrow> ctx \<Rightarrow> string \<Rightarrow> string \<Rightarrow> string \<Rightarrow> string \<Rightarrow> unit action" where
  "AddMember svc ctx orgID userID role actorID =
     (case org_role_of role of
        None \<Rightarrow> fail ErrInvalidOrgRole
      | Some r \<Rightarrow> WithTx ctx (\<lambda>tx.
          if actorID = '''' then fail ErrForbidden
          else bnd (LockMembership (os_sqlite svc) tx orgID actorID) (\<lambda>actor.
            let minimum = (if r = Owner then Owner else OrgAdmin) in
            seq (requireMemberMutation actor minimum)
                (addMemberTx svc tx orgID userID r
                   (\<lambda>tx2. publish (os_audit svc) tx2 (org_event ''organization.member.invited'' actorID orgID))))))"

definition membershipRaceError :: "ctx \<Rightarrow> string \<Rightarrow> string \<Rightarrow> org_role \<Rightarrow> 'a action" where
  "membershipRaceError ctx orgID userID expectRole =
     bnd (GetMembership ctx orgID userID) (\<lambda>current. case current of
       None \<Rightarrow> fail ErrOrgMemberNotFound
     | Some c \<Rightarrow> if m_Role c \<noteq> expectRole then fail ErrOrgMemberConflict else fail ErrOrgMemberConflict)"

definition removeMemberTx ::
  "ctx \<Rightarrow> string \<Rightarrow> string \<Rightarrow> (ctx \<Rightarrow> org_role \<Rightarrow> unit action) \<Rightarrow> org_role action" where
  "removeMemberTx ctx orgID userID record = WithTx ctx (\<lambda>tx.
     bnd (GetMembership tx orgID userID) (\<lambda>found. case found of
       None \<Rightarrow> fail ErrOrgMemberNotFound
     | Some m \<Rightarrow> let removedRole = m_Role m in
         bnd (repo_RemoveMember tx orgID userID removedRole) (\<lambda>removed.
         if \<not> removed then membershipRaceError tx orgID userID removedRole
         else
           seq (run_if (removedRole = Owner)
                  (seq (TryDecrementOrgOwnerCount tx orgID) (DecrementUserOrgOwnerCount tx userID)))
           (seq (DecrementOrgMemberCount tx orgID)
           (seq (ClearActiveOrgForUser tx userID orgID)
           (seq (record tx removedRole)
                (ret removedRole)))))))"

definition RemoveMember :: "org_service \<Rightarrow> ctx \<Rightarrow> string \<Rightarrow> string \<Rightarrow> string \<Rightarrow> unit action" where
  "RemoveMember svc ctx orgID userID actorID = WithTx ctx (\<lambda>tx.
     bnd (lockActorAndTarget svc tx orgID actorID userID) (\<lambda>(actor, target). case target of
       None \<Rightarrow> fail ErrOrgMemberNotFound
     | Some t \<Rightarrow>
         let minimum = (if actorID \<noteq> userID then (if m_Role t = Owner then Owner else OrgAdmin) else Member) in
         seq (requireMemberMutation actor minimum)
         (bnd (removeMemberTx tx orgID userID
                 (\<lambda>tx2 _. publish (os_audit svc) tx2 (org_event ''organization.member.removed'' actorID orgID)))
           (\<lambda>_. ret ()))))"

text \<open>The returned role is \<open>None\<close> for Go's empty string: nothing was changed.\<close>

definition updateMemberRoleTx ::
  "org_service \<Rightarrow> ctx \<Rightarrow> string \<Rightarrow> string \<Rightarrow> org_role \<Rightarrow> (ctx \<Rightarrow> org_role \<Rightarrow> unit action) \<Rightarrow> org_role option action" where
  "updateMemberRoleTx svc ctx orgID userID newRole record = WithTx ctx (\<lambda>tx.
     bnd (GetMembership tx orgID userID) (\<lambda>found. case found of
       None \<Rightarrow> fail ErrOrgMemberNotFound
     | Some m \<Rightarrow>
         if m_Role m = newRole then ret None
         else let oldRole = m_Role m in
         bnd (repo_UpdateMemberRole tx orgID userID oldRole newRole) (\<lambda>updated.
         if \<not> updated
         then bnd (GetMembership tx orgID userID) (\<lambda>current. case current of
                None \<Rightarrow> fail ErrOrgMemberNotFound
              | Some c \<Rightarrow> if m_Role c = newRole then ret None else fail ErrOrgMemberConflict)
         else
           seq (run_if (oldRole = Owner)
                  (seq (TryDecrementOrgOwnerCount tx orgID) (DecrementUserOrgOwnerCount tx userID)))
           (seq (run_if (newRole = Owner)
                  (seq (guardAndIncrementOwnerCount svc tx userID) (IncrementOrgOwnerCount tx orgID)))
           (seq (UpdateActiveOrgRoleForUser tx userID orgID (role_string newRole))
           (seq (record tx oldRole)
                (ret (Some oldRole))))))))"

definition UpdateMemberRole :: "org_service \<Rightarrow> ctx \<Rightarrow> string \<Rightarrow> string \<Rightarrow> string \<Rightarrow> string \<Rightarrow> unit action" where
  "UpdateMemberRole svc ctx orgID userID newRole actorID =
     (case org_role_of newRole of
        None \<Rightarrow> fail ErrInvalidOrgRole
      | Some r \<Rightarrow> WithTx ctx (\<lambda>tx.
          bnd (lockActorAndTarget svc tx orgID actorID userID) (\<lambda>(actor, target). case target of
            None \<Rightarrow> fail ErrOrgMemberNotFound
          | Some t \<Rightarrow>
              let minimum = (if r = Owner \<or> m_Role t = Owner then Owner else OrgAdmin) in
              seq (requireMemberMutation actor minimum)
              (bnd (updateMemberRoleTx svc tx orgID userID r
                      (\<lambda>tx2 _. publish (os_audit svc) tx2 (org_event ''organization.member.role_changed'' actorID orgID)))
                (\<lambda>_. ret ())))))"

definition LeaveOrg :: "org_service \<Rightarrow> ctx \<Rightarrow> string \<Rightarrow> string \<Rightarrow> unit action" where
  "LeaveOrg svc ctx orgID userID = RemoveMember svc ctx orgID userID userID"

definition SetActiveOrg :: "org_service \<Rightarrow> ctx \<Rightarrow> string \<Rightarrow> string \<Rightarrow> string \<Rightarrow> unit action" where
  "SetActiveOrg svc ctx sessionID userID orgID = WithTx ctx (\<lambda>tx.
     bnd (LockMembership (os_sqlite svc) tx orgID userID) (\<lambda>m. case m of
       None \<Rightarrow> fail ErrOrgMemberNotFound
     | Some x \<Rightarrow> sess_SetActiveOrg tx sessionID orgID (role_string (m_Role x))))"

definition ClearActiveOrg :: "ctx \<Rightarrow> string \<Rightarrow> unit action" where
  "ClearActiveOrg ctx sessionID = sess_ClearActiveOrg ctx sessionID"

section \<open>Platform administrators\<close>

text \<open>\<open>org_admin.go\<close>: the same transactions, authorised by the application role instead of a membership.\<close>

definition requirePlatformAdmin :: "ctx \<Rightarrow> string \<Rightarrow> unit action" where
  "requirePlatformAdmin ctx userID = requireAdminRole ctx userID"

definition AdminDeleteOrg :: "org_service \<Rightarrow> ctx \<Rightarrow> string \<Rightarrow> string \<Rightarrow> unit action" where
  "AdminDeleteOrg svc ctx orgID actorID =
     seq (requirePlatformAdmin ctx actorID)
     (bnd (deleteOrgTx ctx orgID (\<lambda>tx _. publish (os_audit svc) tx (org_event ''admin.org.deleted'' actorID orgID)))
       (\<lambda>_. ret ()))"

definition AdminAddMember :: "org_service \<Rightarrow> ctx \<Rightarrow> string \<Rightarrow> string \<Rightarrow> string \<Rightarrow> string \<Rightarrow> unit action" where
  "AdminAddMember svc ctx orgID userID role actorID =
     (case org_role_of role of
        None \<Rightarrow> fail ErrInvalidOrgRole
      | Some r \<Rightarrow>
          seq (requirePlatformAdmin ctx actorID)
              (addMemberTx svc ctx orgID userID r
                 (\<lambda>tx. publish (os_audit svc) tx (org_event ''admin.org.member.added'' actorID orgID))))"

definition AdminRemoveMember :: "org_service \<Rightarrow> ctx \<Rightarrow> string \<Rightarrow> string \<Rightarrow> string \<Rightarrow> unit action" where
  "AdminRemoveMember svc ctx orgID userID actorID =
     seq (requirePlatformAdmin ctx actorID)
     (bnd (removeMemberTx ctx orgID userID
             (\<lambda>tx _. publish (os_audit svc) tx (org_event ''admin.org.member.removed'' actorID orgID)))
       (\<lambda>_. ret ()))"

definition AdminUpdateMemberRole :: "org_service \<Rightarrow> ctx \<Rightarrow> string \<Rightarrow> string \<Rightarrow> string \<Rightarrow> string \<Rightarrow> unit action" where
  "AdminUpdateMemberRole svc ctx orgID userID newRole actorID =
     (case org_role_of newRole of
        None \<Rightarrow> fail ErrInvalidOrgRole
      | Some r \<Rightarrow>
          seq (requirePlatformAdmin ctx actorID)
          (bnd (updateMemberRoleTx svc ctx orgID userID r
                  (\<lambda>tx _. publish (os_audit svc) tx (org_event ''admin.org.member.role_changed'' actorID orgID)))
            (\<lambda>_. ret ())))"

end
