(* ===== verification/OrgInv.thy ===== *)
theory OrgInv
  imports Orgs
begin

text \<open>
  The integrity of organisations: the denormalised counters \<open>owner_count\<close>, \<open>member_count\<close> and
  \<open>org_owner_count\<close> are exact, memberships refer to existing rows, and every organisation has an owner.
  A sequence of counter statements is a \<open>shift\<close> of the counters; the laws below say how the
  statements of \<open>internal/sqlstore/org_repo.go\<close> shift them and when a shift matches a change of the members.
\<close>

section \<open>The invariant\<close>

definition owners_of :: "org_member list \<Rightarrow> string \<Rightarrow> int" where
  "owners_of ms i = int (count_where (\<lambda>m. m_OrgID m = i \<and> m_Role m = Owner) ms)"

definition members_of :: "org_member list \<Rightarrow> string \<Rightarrow> int" where
  "members_of ms i = int (count_where (\<lambda>m. m_OrgID m = i) ms)"

definition owned_by :: "org_member list \<Rightarrow> string \<Rightarrow> int" where
  "owned_by ms u = int (count_where (\<lambda>m. m_UserID m = u \<and> m_Role m = Owner) ms)"

definition member_key :: "org_member \<Rightarrow> string \<times> string" where
  "member_key m = (m_OrgID m, m_UserID m)"

definition members_ok :: "tables \<Rightarrow> org_member list \<Rightarrow> bool" where
  "members_ok d ms \<longleftrightarrow> distinct (map member_key ms) \<and>
     (\<forall>m \<in> set ms. m_OrgID m \<in> o_ID ` set (orgs d) \<and> m_UserID m \<in> u_ID ` set (users d))"

definition org_inv :: "tables \<Rightarrow> bool" where
  "org_inv d \<longleftrightarrow> distinct (map o_ID (orgs d)) \<and> distinct (map u_ID (users d)) \<and> members_ok d (members d) \<and>
     (\<forall>x \<in> set (orgs d). o_OwnerCount x = owners_of (members d) (o_ID x) \<and>
        o_MemberCount x = members_of (members d) (o_ID x) \<and> 0 < owners_of (members d) (o_ID x)) \<and>
     (\<forall>u \<in> set (users d). u_OrgOwnerCount u = owned_by (members d) (u_ID u))"

lemma org_inv_distinct: "org_inv d \<Longrightarrow> distinct (map o_ID (orgs d))" "org_inv d \<Longrightarrow> distinct (map u_ID (users d))"
  "org_inv d \<Longrightarrow> distinct (map member_key (members d))"
  by (simp_all add: org_inv_def members_ok_def)

section \<open>Shifts\<close>

definition pt :: "string \<Rightarrow> int \<Rightarrow> string \<Rightarrow> int" where
  "pt i n j = (if j = i then n else 0)"

definition shift :: "(string \<Rightarrow> int) \<Rightarrow> (string \<Rightarrow> int) \<Rightarrow> (string \<Rightarrow> int) \<Rightarrow> tables \<Rightarrow> tables" where
  "shift a b c d =
     d\<lparr>orgs := map (\<lambda>x. x\<lparr>o_OwnerCount := o_OwnerCount x + a (o_ID x), o_MemberCount := o_MemberCount x + b (o_ID x)\<rparr>) (orgs d),
       users := map (\<lambda>u. u\<lparr>u_OrgOwnerCount := u_OrgOwnerCount u + c (u_ID u)\<rparr>) (users d)\<rparr>"

lemma shift_select [simp]:
  "sessions (shift a b c d) = sessions d" "tokens (shift a b c d) = tokens d" "members (shift a b c d) = members d"
  "map o_ID (orgs (shift a b c d)) = map o_ID (orgs d)" "map u_ID (users (shift a b c d)) = map u_ID (users d)"
  "o_ID ` set (orgs (shift a b c d)) = o_ID ` set (orgs d)" "u_ID ` set (users (shift a b c d)) = u_ID ` set (users d)"
  by (simp_all add: shift_def image_image)

lemma put_new_select [simp]:
  "invites (put_users us d) = invites d" "invites (put_sessions ss d) = invites d" "invites (put_tokens ts d) = invites d"
  "invites (put_orgs os d) = invites d" "invites (put_members ms d) = invites d"
  "org_invites (put_users us d) = org_invites d" "org_invites (put_sessions ss d) = org_invites d"
  "org_invites (put_tokens ts d) = org_invites d" "org_invites (put_orgs os d) = org_invites d"
  "org_invites (put_members ms d) = org_invites d"
  "email_changes (put_users us d) = email_changes d" "email_changes (put_sessions ss d) = email_changes d"
  "email_changes (put_tokens ts d) = email_changes d" "email_changes (put_orgs os d) = email_changes d"
  "email_changes (put_members ms d) = email_changes d"
  "recoveries (put_users us d) = recoveries d" "recoveries (put_sessions ss d) = recoveries d"
  "recoveries (put_tokens ts d) = recoveries d" "recoveries (put_orgs os d) = recoveries d"
  "recoveries (put_members ms d) = recoveries d"
  "providers (put_users us d) = providers d" "providers (put_sessions ss d) = providers d"
  "providers (put_tokens ts d) = providers d" "providers (put_orgs os d) = providers d"
  "providers (put_members ms d) = providers d"
  by (simp_all add: put_sessions_def put_members_def put_orgs_def put_users_def put_tokens_def)

lemma put_select [simp]:
  "sessions (put_sessions ss d) = ss" "members (put_members ms d) = ms" "orgs (put_orgs os d) = os"
  "orgs (put_sessions ss d) = orgs d" "orgs (put_members ms d) = orgs d" "orgs (put_users us d) = orgs d"
  "orgs (put_tokens ts d) = orgs d" "members (put_sessions ss d) = members d" "members (put_orgs os d) = members d"
  "members (put_users us d) = members d" "members (put_tokens ts d) = members d"
  "sessions (put_members ms d) = sessions d" "sessions (put_orgs os d) = sessions d" "sessions (put_users us d) = sessions d"
  by (simp_all add: put_sessions_def put_members_def put_orgs_def put_users_def put_tokens_def)

lemma shift_shift [simp]:
  "shift a b c (shift a' b' c' d) = shift (\<lambda>i. a' i + a i) (\<lambda>i. b' i + b i) (\<lambda>i. c' i + c i) d"
  by (simp add: shift_def o_def add.assoc)

lemma shift_put [simp]:
  "shift a b c (put_members ms d) = put_members ms (shift a b c d)"
  "shift a b c (put_sessions ss d) = put_sessions ss (shift a b c d)"
  "put_members ms (put_sessions ss d) = put_sessions ss (put_members ms d)"
  "put_orgs os (put_sessions ss d) = put_sessions ss (put_orgs os d)"
  "put_sessions ss (put_sessions ss' d) = put_sessions ss d"
  "shift a b c (put_org_invites vs d) = put_org_invites vs (shift a b c d)"
  "put_orgs os (put_org_invites vs d) = put_org_invites vs (put_orgs os d)"
  "put_members ms (put_org_invites vs d) = put_org_invites vs (put_members ms d)"
  "put_sessions ss (put_org_invites vs d) = put_org_invites vs (put_sessions ss d)"
  "put_users us (put_org_invites vs d) = put_org_invites vs (put_users us d)"
  by (simp_all add: shift_def put_members_def put_sessions_def put_orgs_def put_users_def put_org_invites_def)

lemma org_inv_put [simp]: "org_inv (put_sessions ss d) = org_inv d" "org_inv (put_tokens ts d) = org_inv d"
  "org_inv (put_invites vs d) = org_inv d" "org_inv (put_org_invites ois d) = org_inv d"
  "org_inv (put_email_changes ecs d) = org_inv d" "org_inv (put_recoveries rrs d) = org_inv d"
  "org_inv (put_providers pas d) = org_inv d"
  by (simp_all add: org_inv_def members_ok_def)

lemma org_inv_audit [simp]: "same_but_audit d d' \<Longrightarrow> org_inv d' = org_inv d"
  by (auto simp: same_but_audit_def org_inv_def members_ok_def)

text \<open>A change of the members with the shift that accounts for it.\<close>

lemma org_inv_shift:
  assumes inv: "org_inv d" and ok: "members_ok d ms"
    and o: "\<And>i. owners_of ms i = owners_of (members d) i + a i"
    and m: "\<And>i. members_of ms i = members_of (members d) i + b i"
    and u: "\<And>i. owned_by ms i = owned_by (members d) i + c i"
    and pos: "\<And>x. x \<in> set (orgs d) \<Longrightarrow> 0 < owners_of ms (o_ID x)"
  shows "org_inv (put_members ms (shift a b c d))"
proof -
  let ?d = "put_members ms (shift a b c d)"
  note i = inv [unfolded org_inv_def]
  have "o_OwnerCount y = owners_of ms (o_ID y) \<and> o_MemberCount y = members_of ms (o_ID y) \<and> 0 < owners_of ms (o_ID y)"
    if "y \<in> set (orgs ?d)" for y
  proof -
    from that obtain x where x: "x \<in> set (orgs d)"
      "y = x\<lparr>o_OwnerCount := o_OwnerCount x + a (o_ID x), o_MemberCount := o_MemberCount x + b (o_ID x)\<rparr>"
      by (auto simp: shift_def)
    with i have "o_OwnerCount x = owners_of (members d) (o_ID x)" "o_MemberCount x = members_of (members d) (o_ID x)"
      by auto
    with x pos [OF x(1)] show ?thesis by (simp only: o m) simp
  qed
  moreover have "u_OrgOwnerCount y = owned_by ms (u_ID y)" if "y \<in> set (users ?d)" for y
  proof -
    from that obtain x where x: "x \<in> set (users d)" "y = x\<lparr>u_OrgOwnerCount := u_OrgOwnerCount x + c (u_ID x)\<rparr>"
      by (auto simp: shift_def)
    with i have "u_OrgOwnerCount x = owned_by (members d) (u_ID x)" by auto
    with x show ?thesis by (simp only: u) simp
  qed
  moreover have "members_ok ?d ms" using ok by (simp add: members_ok_def)
  ultimately show ?thesis using i by (simp add: org_inv_def)
qed

section \<open>The counter statements shift\<close>

lemma guarded_update_keyed:
  assumes "distinct (map k rows)" and "0 < count_where (\<lambda>r. k r = i \<and> P r) rows"
  shows "update_where (\<lambda>r. k r = i \<and> P r) f rows = map (\<lambda>r. if k r = i then f r else r) rows"
proof -
  from assms(2) obtain r where r: "r \<in> set rows" "k r = i" "P r"
    using count_where_0 [of "\<lambda>r. k r = i \<and> P r" rows] by auto
  show ?thesis
    unfolding update_where_def using keyed_unique [OF assms(1) _ r(1)] r(2,3) by (intro map_cong) auto
qed

lemma wp_guarded:
  assumes "c_tx ctx" and "\<And>e. Q (Inl e) d"
    and "0 < count_where P (get d) \<Longrightarrow> Q (Inr ()) (put (update_where P f (get d)) d)"
    and "put (get d) d = d"
  shows "wp (guarded ctx get put P f e) Q d"
  unfolding guarded_def using assms
  by (auto intro!: wps simp: affected_none split: sum.split)

lemma shift_owned: "put_users (map (\<lambda>u. if u_ID u = i then add_owned n u else u) (users d)) d = shift (\<lambda>_. 0) (\<lambda>_. 0) (pt i n) d"
  by (simp add: shift_def put_users_def pt_def add_owned_def cong: map_cong if_cong)
lemma shift_owners: "put_orgs (map (\<lambda>x. if o_ID x = i then add_owners n x else x) (orgs d)) d = shift (pt i n) (\<lambda>_. 0) (\<lambda>_. 0) d"
  by (simp add: shift_def put_orgs_def pt_def add_owners_def cong: map_cong if_cong)

lemma shift_members: "put_orgs (map (\<lambda>x. if o_ID x = i then add_members n x else x) (orgs d)) d = shift (\<lambda>_. 0) (pt i n) (\<lambda>_. 0) d"
  by (simp add: shift_def put_orgs_def pt_def add_members_def cong: map_cong if_cong)

lemmas shift_stmts = shift_owned shift_owners shift_members guarded_update_keyed

text \<open>An unguarded decrement whose guard holds.\<close>

lemma update_keyed_all:
  assumes "\<And>r. r \<in> set rows \<Longrightarrow> k r = i \<Longrightarrow> P r"
  shows "update_where (\<lambda>r. k r = i \<and> P r) f rows = map (\<lambda>r. if k r = i then f r else r) rows"
  unfolding update_where_def using assms by (intro map_cong) auto

lemma wp_TryDecrement:
  assumes "c_tx ctx" and "distinct (map o_ID (orgs d))" and "\<And>e. Q (Inl e) d"
    and "\<And>x. x \<in> set (orgs d) \<Longrightarrow> o_ID x = i \<Longrightarrow> 1 < o_OwnerCount x \<Longrightarrow> Q (Inr ()) (shift (pt i (- 1)) (\<lambda>_. 0) (\<lambda>_. 0) d)"
  shows "wp (TryDecrementOrgOwnerCount ctx i) Q d"
  unfolding TryDecrementOrgOwnerCount_def
proof (rule wp_guarded)
  assume n: "0 < count_where (\<lambda>x. o_ID x = i \<and> 1 < o_OwnerCount x) (orgs d)"
  then obtain x where "x \<in> set (orgs d)" "o_ID x = i" "1 < o_OwnerCount x"
    using count_where_0 [of "\<lambda>x. o_ID x = i \<and> 1 < o_OwnerCount x" "orgs d"] by auto
  from assms(4) [OF this] n show "Q (Inr ()) (put_orgs (update_where (\<lambda>x. o_ID x = i \<and> 1 < o_OwnerCount x) (add_owners (- 1)) (orgs d)) d)"
    by (simp only: guarded_update_keyed [OF assms(2)] shift_owners)
qed (use assms in simp_all)

lemma wp_IncrementUserOwner:
  assumes "c_tx ctx" and "distinct (map u_ID (users d))" and "\<And>e. Q (Inl e) d"
    and "\<And>u. u \<in> set (users d) \<Longrightarrow> u_ID u = i \<Longrightarrow> u_OrgOwnerCount u < n \<Longrightarrow> Q (Inr ()) (shift (\<lambda>_. 0) (\<lambda>_. 0) (pt i 1) d)"
  shows "wp (IncrementUserOrgOwnerCount ctx i n) Q d"
  unfolding IncrementUserOrgOwnerCount_def
proof (rule wp_guarded)
  assume n: "0 < count_where (\<lambda>u. u_ID u = i \<and> u_OrgOwnerCount u < n) (users d)"
  then obtain u where "u \<in> set (users d)" "u_ID u = i" "u_OrgOwnerCount u < n"
    using count_where_0 [of "\<lambda>u. u_ID u = i \<and> u_OrgOwnerCount u < n" "users d"] by auto
  from assms(4) [OF this] n show "Q (Inr ()) (put_users (update_where (\<lambda>u. u_ID u = i \<and> u_OrgOwnerCount u < n) (add_owned 1) (users d)) d)"
    by (simp only: guarded_update_keyed [OF assms(2)] shift_owned)
qed (use assms in simp_all)

lemma wp_IncrementOrgMember:
  assumes "c_tx ctx" and "distinct (map o_ID (orgs d))" and "\<And>e. Q (Inl e) d"
    and "\<And>x. x \<in> set (orgs d) \<Longrightarrow> o_ID x = i \<Longrightarrow> o_MemberCount x < n \<Longrightarrow> Q (Inr ()) (shift (\<lambda>_. 0) (pt i 1) (\<lambda>_. 0) d)"
  shows "wp (IncrementOrgMemberCount ctx i n) Q d"
  unfolding IncrementOrgMemberCount_def
proof (rule wp_guarded)
  assume n: "0 < count_where (\<lambda>x. o_ID x = i \<and> o_MemberCount x < n) (orgs d)"
  then obtain x where "x \<in> set (orgs d)" "o_ID x = i" "o_MemberCount x < n"
    using count_where_0 [of "\<lambda>x. o_ID x = i \<and> o_MemberCount x < n" "orgs d"] by auto
  from assms(4) [OF this] n show "Q (Inr ()) (put_orgs (update_where (\<lambda>x. o_ID x = i \<and> o_MemberCount x < n) (add_members 1) (orgs d)) d)"
    by (simp only: guarded_update_keyed [OF assms(2)] shift_members)
qed (use assms in simp_all)

lemma wp_IncrementOrgOwner:
  assumes "c_tx ctx" and "Q (Inl ErrDatabase) d" and "Q (Inr ()) (shift (pt i 1) (\<lambda>_. 0) (\<lambda>_. 0) d)"
  shows "wp (IncrementOrgOwnerCount ctx i) Q d"
  unfolding IncrementOrgOwnerCount_def using assms
  by (auto intro!: wps simp: update_where_def shift_owners)

lemma wp_DecrementUserOwner:
  assumes "c_tx ctx" and "Q (Inl ErrDatabase) d"
    and "\<And>u. u \<in> set (users d) \<Longrightarrow> u_ID u = i \<Longrightarrow> 0 < u_OrgOwnerCount u"
    and "Q (Inr ()) (shift (\<lambda>_. 0) (\<lambda>_. 0) (pt i (- 1)) d)"
  shows "wp (DecrementUserOrgOwnerCount ctx i) Q d"
  unfolding DecrementUserOrgOwnerCount_def using assms by (intro wp_exec) (simp_all add: shift_owned update_keyed_all)

lemma wp_DecrementOrgMember:
  assumes "c_tx ctx" and "Q (Inl ErrDatabase) d"
    and "\<And>x. x \<in> set (orgs d) \<Longrightarrow> o_ID x = i \<Longrightarrow> 0 < o_MemberCount x"
    and "Q (Inr ()) (shift (\<lambda>_. 0) (pt i (- 1)) (\<lambda>_. 0) d)"
  shows "wp (DecrementOrgMemberCount ctx i) Q d"
  unfolding DecrementOrgMemberCount_def
  using assms by (intro wp_exec) (simp_all add: shift_members update_keyed_all)

section \<open>One membership changes\<close>

lemma count_one:
  "distinct rows \<Longrightarrow> r \<in> set rows \<Longrightarrow> (\<And>x. x \<in> set rows \<Longrightarrow> G x \<longleftrightarrow> x = r) \<Longrightarrow>
   int (count_where (\<lambda>x. P x \<and> \<not> G x) rows) = int (count_where P rows) - (if P r then 1 else 0)"
proof (induction rows)
  case (Cons a rows)
  show ?case
  proof (cases "a = r")
    case True
    with Cons.prems have "filter (\<lambda>x. P x \<and> \<not> G x) rows = filter P rows"
      by (intro filter_cong) auto
    with True Cons.prems show ?thesis by (simp add: count_where_def)
  next
    case False
    with Cons show ?thesis by (auto simp: count_where_def split: if_splits)
  qed
qed simp

lemma count_delete_one:
  "distinct rows \<Longrightarrow> r \<in> set rows \<Longrightarrow> (\<And>x. x \<in> set rows \<Longrightarrow> G x \<longleftrightarrow> x = r) \<Longrightarrow>
   int (count_where P (delete_where G rows)) = int (count_where P rows) - (if P r then 1 else 0)"
  unfolding count_delete_where by (rule count_one)

lemma count_update_one:
  assumes "distinct rows" and "r \<in> set rows" and "\<And>x. x \<in> set rows \<Longrightarrow> G x \<longleftrightarrow> x = r"
  shows "int (count_where P (update_where G f rows)) = int (count_where P rows) - (if P r then 1 else 0) + (if P (f r) then 1 else 0)"
  using assms
proof (induction rows)
  case (Cons a rows)
  show ?case
  proof (cases "a = r")
    case True
    with Cons.prems have "update_where G f rows = rows" by (intro update_where_id) auto
    with True Cons.prems show ?thesis by (auto simp: count_where_def update_where_def)
  next
    case False
    with Cons have "int (count_where P (update_where G f rows)) = int (count_where P rows) - (if P r then 1 else 0) + (if P (f r) then 1 else 0)"
      by auto
    with False Cons.prems show ?thesis by (auto simp: count_where_def update_where_def)
  qed
qed simp

text \<open>The row of one membership, as the guarded statements address it.\<close>

lemma member_row:
  assumes "distinct (map member_key ms)" and "m \<in> set ms"
  shows "x \<in> set ms \<Longrightarrow> is_member (m_OrgID m) (m_UserID m) x \<and> m_Role x = m_Role m \<longleftrightarrow> x = m"
    and "x \<in> set ms \<Longrightarrow> is_member (m_OrgID m) (m_UserID m) x \<longleftrightarrow> x = m"
  using keyed_unique [OF assms(1) _ assms(2)] by (auto simp: is_member_def member_key_def)

lemma distinct_members: "distinct (map member_key ms) \<Longrightarrow> distinct ms"
  by (simp add: distinct_map)

lemmas count_defs = owners_of_def members_of_def owned_by_def

lemma counts_remove:
  assumes "distinct (map member_key ms)" and "m \<in> set ms" and "G = (\<lambda>x. is_member (m_OrgID m) (m_UserID m) x \<and> m_Role x = m_Role m)"
  shows "owners_of (delete_where G ms) j = owners_of ms j + pt (m_OrgID m) (if m_Role m = Owner then - 1 else 0) j"
    and "members_of (delete_where G ms) j = members_of ms j + pt (m_OrgID m) (- 1) j"
    and "owned_by (delete_where G ms) j = owned_by ms j + pt (m_UserID m) (if m_Role m = Owner then - 1 else 0) j"
  unfolding count_defs assms(3)
  by (simp_all add: count_delete_one [OF distinct_members [OF assms(1)] assms(2) member_row(1) [OF assms(1,2)]] pt_def)

lemma counts_add:
  "owners_of (ms @ [m]) j = owners_of ms j + pt (m_OrgID m) (if m_Role m = Owner then 1 else 0) j"
  "members_of (ms @ [m]) j = members_of ms j + pt (m_OrgID m) 1 j"
  "owned_by (ms @ [m]) j = owned_by ms j + pt (m_UserID m) (if m_Role m = Owner then 1 else 0) j"
  unfolding count_defs by (auto simp: count_where_snoc pt_def)

lemma counts_role:
  assumes "distinct (map member_key ms)" and "m \<in> set ms" and "G = (\<lambda>x. is_member (m_OrgID m) (m_UserID m) x \<and> m_Role x = m_Role m)"
    and "f = (\<lambda>x. x\<lparr>m_Role := r\<rparr>)"
  shows "owners_of (update_where G f ms) j = owners_of ms j +
            pt (m_OrgID m) ((if r = Owner then 1 else 0) - (if m_Role m = Owner then 1 else 0)) j"
    and "members_of (update_where G f ms) j = members_of ms j"
    and "owned_by (update_where G f ms) j = owned_by ms j +
            pt (m_UserID m) ((if r = Owner then 1 else 0) - (if m_Role m = Owner then 1 else 0)) j"
  unfolding count_defs assms(3,4)
  by (simp_all add: count_update_one [OF distinct_members [OF assms(1)] assms(2) member_row(1) [OF assms(1,2)]] pt_def)

section \<open>Removing a membership\<close>

lemma shift_rows [simp]:
  "users (shift a b (\<lambda>_. 0) d) = users d" "orgs (shift (\<lambda>_. 0) (\<lambda>_. 0) c d) = orgs d"
  by (simp_all add: shift_def)

lemma shift_0 [simp]: "shift (\<lambda>_. 0) (\<lambda>_. 0) (\<lambda>_. 0) d = d"
  by (simp add: shift_def)

lemma shift_orgs_members:
  "x \<in> set (orgs (shift a (\<lambda>_. 0) c d)) \<Longrightarrow> \<exists>y \<in> set (orgs d). o_ID x = o_ID y \<and> o_MemberCount x = o_MemberCount y"
  by (auto simp: shift_def)

lemma pt_0 [simp]: "pt i 0 = (\<lambda>_. 0)"
  by (simp add: pt_def fun_eq_iff)

definition owner_bit :: "org_role \<Rightarrow> int" where
  "owner_bit r = (if r = Owner then 1 else 0)"

lemma members_ok_subset:
  "members_ok d ms \<Longrightarrow> distinct (map member_key (delete_where G ms)) \<and> members_ok d (delete_where G ms)"
  by (auto simp: members_ok_def distinct_map_delete_where set_delete_where)

lemma org_inv_remove:
  assumes inv: "org_inv d" and m: "m \<in> set (members d)"
    and G: "G = (\<lambda>x. is_member (m_OrgID m) (m_UserID m) x \<and> m_Role x = m_Role m)"
    and last: "m_Role m = Owner \<Longrightarrow> \<exists>x \<in> set (orgs d). o_ID x = m_OrgID m \<and> 1 < o_OwnerCount x"
  shows "org_inv (put_members (delete_where G (members d))
     (shift (pt (m_OrgID m) (- owner_bit (m_Role m))) (pt (m_OrgID m) (- 1)) (pt (m_UserID m) (- owner_bit (m_Role m))) d))"
proof (rule org_inv_shift [OF inv])
  note c = counts_remove [OF org_inv_distinct(3) [OF inv] m G]
  show "members_ok d (delete_where G (members d))"
    using inv members_ok_subset unfolding org_inv_def by blast
  show "owners_of (delete_where G (members d)) i = owners_of (members d) i + pt (m_OrgID m) (- owner_bit (m_Role m)) i" for i
    by (simp add: c owner_bit_def)
  show "members_of (delete_where G (members d)) i = members_of (members d) i + pt (m_OrgID m) (- 1) i" for i
    by (simp add: c)
  show "owned_by (delete_where G (members d)) i = owned_by (members d) i + pt (m_UserID m) (- owner_bit (m_Role m)) i" for i
    by (simp add: c owner_bit_def)
  fix x assume x: "x \<in> set (orgs d)"
  then have pos: "0 < owners_of (members d) (o_ID x)" "o_OwnerCount x = owners_of (members d) (o_ID x)"
    using inv by (auto simp: org_inv_def)
  show "0 < owners_of (delete_where G (members d)) (o_ID x)"
  proof (cases "m_Role m = Owner \<and> o_ID x = m_OrgID m")
    case True
    with last obtain y where "y \<in> set (orgs d)" "o_ID y = m_OrgID m" "1 < o_OwnerCount y" by blast
    with keyed_unique [OF org_inv_distinct(1) [OF inv] x] True have "1 < o_OwnerCount x" by metis
    with pos True show ?thesis by (simp add: c pt_def)
  next
    case False
    with pos show ?thesis by (auto simp: c pt_def)
  qed
qed

lemma count_pos: "r \<in> set rows \<Longrightarrow> P r \<Longrightarrow> 0 < count_where P rows"
  using count_where_0 [of P rows] by (cases "count_where P rows") auto

lemma owned_pos: "org_inv d \<Longrightarrow> m \<in> set (members d) \<Longrightarrow> m_Role m = Owner \<Longrightarrow> u \<in> set (users d) \<Longrightarrow>
    u_ID u = m_UserID m \<Longrightarrow> 0 < u_OrgOwnerCount u"
  by (auto simp: org_inv_def owned_by_def intro: count_pos)

lemma member_count_pos: "org_inv d \<Longrightarrow> m \<in> set (members d) \<Longrightarrow> x \<in> set (orgs d) \<Longrightarrow> o_ID x = m_OrgID m \<Longrightarrow>
    0 < o_MemberCount x"
  by (auto simp: org_inv_def members_of_def intro: count_pos)

text \<open>The counter upkeep after the row of \<open>m\<close> was deleted.\<close>

lemma wp_remove_counters:
  assumes tx: "c_tx ctx" and inv: "org_inv d" and m: "m \<in> set (members d)"
    and G: "G = (\<lambda>x. is_member (m_OrgID m) (m_UserID m) x \<and> m_Role x = m_Role m)"
    and err: "\<And>e d'. Q (Inl e) d'"
    and k: "\<And>d'. d' = put_members (delete_where G (members d))
        (shift (pt (m_OrgID m) (- owner_bit (m_Role m))) (pt (m_OrgID m) (- 1)) (pt (m_UserID m) (- owner_bit (m_Role m))) d) \<Longrightarrow>
        org_inv d' \<Longrightarrow> wp k Q d'"
  shows "wp (seq (run_if (m_Role m = Owner)
                 (seq (TryDecrementOrgOwnerCount ctx (m_OrgID m)) (DecrementUserOrgOwnerCount ctx (m_UserID m))))
            (seq (DecrementOrgMemberCount ctx (m_OrgID m)) k)) Q (put_members (delete_where G (members d)) d)"
proof (cases "m_Role m = Owner")
  case True
  show ?thesis
    using tx err True org_inv_distinct [OF inv] k [OF refl org_inv_remove [OF inv m G]]
    by (auto intro!: wps wp_TryDecrement wp_DecrementUserOwner wp_DecrementOrgMember
        simp: owner_bit_def owned_pos [OF inv m] split: sum.split dest!: shift_orgs_members)
      (use member_count_pos [OF inv m] in blast)+
next
  case False
  show ?thesis
    using tx err False k [OF refl org_inv_remove [OF inv m G]]
    by (auto intro!: wps wp_DecrementOrgMember simp: owner_bit_def split: sum.split)
      (use member_count_pos [OF inv m] in blast)+
qed

section \<open>Adding and changing a membership\<close>

lemma org_inv_add:
  assumes inv: "org_inv d" and new: "\<not> list_ex (is_member (m_OrgID m) (m_UserID m)) (members d)"
    and fk: "m_OrgID m \<in> o_ID ` set (orgs d)" "m_UserID m \<in> u_ID ` set (users d)"
  shows "org_inv (put_members (members d @ [m])
     (shift (pt (m_OrgID m) (owner_bit (m_Role m))) (pt (m_OrgID m) 1) (pt (m_UserID m) (owner_bit (m_Role m))) d))"
proof (rule org_inv_shift [OF inv])
  have "member_key m \<notin> member_key ` set (members d)"
    using new by (auto simp: list_ex_iff is_member_def member_key_def)
  with inv fk show "members_ok d (members d @ [m])"
    by (auto simp: org_inv_def members_ok_def)
  fix x assume "x \<in> set (orgs d)"
  with inv have "0 < owners_of (members d) (o_ID x)" by (auto simp: org_inv_def)
  then show "0 < owners_of (members d @ [m]) (o_ID x)" by (auto simp: counts_add pt_def)
qed (simp_all add: counts_add owner_bit_def)

lemma org_inv_role:
  assumes inv: "org_inv d" and m: "m \<in> set (members d)"
    and G: "G = (\<lambda>x. is_member (m_OrgID m) (m_UserID m) x \<and> m_Role x = m_Role m)" and f: "f = (\<lambda>x. x\<lparr>m_Role := r\<rparr>)"
    and last: "m_Role m = Owner \<Longrightarrow> r \<noteq> Owner \<Longrightarrow> \<exists>x \<in> set (orgs d). o_ID x = m_OrgID m \<and> 1 < o_OwnerCount x"
  shows "org_inv (put_members (update_where G f (members d))
     (shift (pt (m_OrgID m) (owner_bit r - owner_bit (m_Role m))) (\<lambda>_. 0) (pt (m_UserID m) (owner_bit r - owner_bit (m_Role m))) d))"
proof (rule org_inv_shift [OF inv])
  note c = counts_role [OF org_inv_distinct(3) [OF inv] m G f]
  have "map member_key (update_where G f (members d)) = map member_key (members d)"
    by (rule map_update_where) (simp add: f member_key_def)
  with inv show "members_ok d (update_where G f (members d))"
    by (auto simp: org_inv_def members_ok_def set_update_where f)
  show "owners_of (update_where G f (members d)) i = owners_of (members d) i + pt (m_OrgID m) (owner_bit r - owner_bit (m_Role m)) i" for i
    by (simp add: c owner_bit_def)
  show "owned_by (update_where G f (members d)) i = owned_by (members d) i + pt (m_UserID m) (owner_bit r - owner_bit (m_Role m)) i" for i
    by (simp add: c owner_bit_def)
  show "members_of (update_where G f (members d)) i = members_of (members d) i + 0" for i by (simp add: c)
  fix x assume x: "x \<in> set (orgs d)"
  then have pos: "0 < owners_of (members d) (o_ID x)" "o_OwnerCount x = owners_of (members d) (o_ID x)"
    using inv by (auto simp: org_inv_def)
  show "0 < owners_of (update_where G f (members d)) (o_ID x)"
  proof (cases "m_Role m = Owner \<and> r \<noteq> Owner \<and> o_ID x = m_OrgID m")
    case True
    with last obtain y where "y \<in> set (orgs d)" "o_ID y = m_OrgID m" "1 < o_OwnerCount y" by blast
    with keyed_unique [OF org_inv_distinct(1) [OF inv] x] True have "1 < o_OwnerCount x" by metis
    with pos True show ?thesis by (simp add: c pt_def)
  next
    case False
    with pos show ?thesis by (auto simp: c pt_def)
  qed
qed

section \<open>Creating and deleting an organisation\<close>

lemma no_members: "org_inv d \<Longrightarrow> i \<notin> o_ID ` set (orgs d) \<Longrightarrow> owners_of (members d) i = 0 \<and> members_of (members d) i = 0"
  by (auto simp: org_inv_def members_ok_def owners_of_def members_of_def count_where_0)

lemma org_inv_create:
  assumes inv: "org_inv d" and new: "i \<notin> o_ID ` set (orgs d)" and user: "u \<in> u_ID ` set (users d)"
    and o1: "o_ID o1 = i" "o_OwnerCount o1 = 1" "o_MemberCount o1 = 1"
    and m: "m_OrgID m = i" "m_UserID m = u" "m_Role m = Owner"
  shows "org_inv (put_members (members d @ [m]) (put_orgs (orgs d @ [o1]) (shift (\<lambda>_. 0) (\<lambda>_. 0) (pt u 1) d)))"
proof -
  let ?ms = "members d @ [m]" and ?d = "put_orgs (orgs d @ [o1]) (shift (\<lambda>_. 0) (\<lambda>_. 0) (pt u 1) d)"
  note inv' = inv [unfolded org_inv_def]
  have fresh: "m_OrgID x \<noteq> i" if "x \<in> set (members d)" for x
    using inv' new that by (auto simp: members_ok_def)
  have us: "u_OrgOwnerCount y = owned_by ?ms (u_ID y)" if "y \<in> set (users ?d)" for y
  proof -
    from that obtain x where x: "x \<in> set (users d)" "y = x\<lparr>u_OrgOwnerCount := u_OrgOwnerCount x + pt u 1 (u_ID x)\<rparr>"
      by (auto simp: shift_def put_orgs_def)
    with inv' have "u_OrgOwnerCount x = owned_by (members d) (u_ID x)" by auto
    with x m show ?thesis by (simp add: counts_add)
  qed
  have os: "o_OwnerCount y = owners_of ?ms (o_ID y) \<and> o_MemberCount y = members_of ?ms (o_ID y) \<and> 0 < owners_of ?ms (o_ID y)"
    if y: "y \<in> set (orgs d @ [o1])" for y
  proof (cases "y = o1")
    case True
    with no_members [OF inv new] o1 m show ?thesis by (simp add: counts_add pt_def)
  next
    case False
    with y new have "o_ID y \<noteq> i" by auto
    with False y inv' m show ?thesis by (auto simp: counts_add pt_def)
  qed
  have key: "member_key m \<notin> member_key ` set (members d)"
    using fresh m by (auto simp: member_key_def) (use m in blast)
  have ids: "u_ID ` set (users ?d) = u_ID ` set (users d)" "map u_ID (users ?d) = map u_ID (users d)"
    by (simp_all add: shift_def put_orgs_def image_image)
  show ?thesis
    unfolding org_inv_def using inv' new us os key user m o1 ids
    by (auto simp: members_ok_def)
qed

lemma owned_delete:
  assumes "distinct (map member_key ms)"
  shows "owned_by (delete_where (\<lambda>m. m_OrgID m = i) ms) u =
    owned_by ms u - (if list_ex (\<lambda>m. m_OrgID m = i \<and> m_UserID m = u \<and> m_Role m = Owner) ms then 1 else 0)"
  using assms
proof (induction ms)
  case (Cons m ms)
  show ?case
  proof (cases "m_OrgID m = i \<and> m_UserID m = u \<and> m_Role m = Owner")
    case True
    with Cons.prems have "\<not> list_ex (\<lambda>m. m_OrgID m = i \<and> m_UserID m = u \<and> m_Role m = Owner) ms"
      by (auto simp: list_ex_iff member_key_def image_iff)
    with True Cons show ?thesis by (auto simp: owned_by_def delete_where_def count_where_def)
  next
    case False
    with Cons show ?thesis by (auto simp: owned_by_def delete_where_def count_where_def)
  qed
qed (simp add: owned_by_def delete_where_def)

lemma org_inv_delete:
  assumes inv: "org_inv d"
  shows "org_inv (put_members (delete_where (\<lambda>m. m_OrgID m = i) (members d))
     (put_orgs (delete_where (\<lambda>x. o_ID x = i) (orgs d))
     (put_users (update_where (\<lambda>u. list_ex (\<lambda>m. m_OrgID m = i \<and> m_UserID m = u_ID u \<and> m_Role m = Owner) (members d))
        (add_owned (- 1)) (users d)) d)))"
proof -
  let ?ms = "delete_where (\<lambda>m. m_OrgID m = i) (members d)"
  let ?G = "\<lambda>u. list_ex (\<lambda>m. m_OrgID m = i \<and> m_UserID m = u_ID u \<and> m_Role m = Owner) (members d)"
  note inv' = inv [unfolded org_inv_def]
  have same: "owners_of ?ms j = owners_of (members d) j" "members_of ?ms j = members_of (members d) j" if "j \<noteq> i" for j
    using that unfolding count_defs by (auto simp: count_delete_where intro!: arg_cong [of _ _ int] arg_cong2 [of _ _ _ _ count_where])
  have ids: "map u_ID (update_where ?G (add_owned (- 1)) (users d)) = map u_ID (users d)"
    by (rule map_update_where) (simp add: add_owned_def)
  then have ids': "u_ID ` set (update_where ?G (add_owned (- 1)) (users d)) = u_ID ` set (users d)"
    by (metis list.set_map)
  have us: "u_OrgOwnerCount y = owned_by ?ms (u_ID y)" if "y \<in> set (update_where ?G (add_owned (- 1)) (users d))" for y
    using that inv' owned_delete [OF org_inv_distinct(3) [OF inv]]
    by (auto simp: set_update_where add_owned_def)
  show ?thesis
    unfolding org_inv_def using inv' us ids ids' same
    by (auto simp: members_ok_def distinct_map_delete_where set_delete_where)
qed

section \<open>The transactions\<close>

abbreviation org_post :: "go_err + 'a \<Rightarrow> tables \<Rightarrow> bool" where
  "org_post \<equiv> on_ok org_inv"

lemma wp_membershipRaceError: "c_tx ctx \<Longrightarrow> (\<And>e. Q (Inl e) d) \<Longrightarrow> wp (membershipRaceError ctx i u r) Q d"
  unfolding membershipRaceError_def GetMembership_def by (auto intro!: wps split: option.split)

lemma select_member: "select1 (is_member i u) ms = Some m \<Longrightarrow> m \<in> set ms \<and> m_OrgID m = i \<and> m_UserID m = u"
  by (auto dest: select1_Some simp: is_member_def)

lemma wp_removeMemberTx:
  assumes tx: "c_tx ctx" and inv: "org_inv d"
    and rec: "\<And>r d. org_inv d \<Longrightarrow> wp (record ctx r) org_post d"
  shows "wp (removeMemberTx ctx i u record) org_post d"
  unfolding removeMemberTx_def GetMembership_def repo_RemoveMember_def Let_def
  using tx inv
  apply (auto intro!: wp_WithTx wp_bnd wp_query wp_stmt wp_fail wp_membershipRaceError split: option.split
      dest!: select_member)
  subgoal for m
    apply (rule wp_remove_counters [OF tx inv, of m], simp, simp, simp)
    apply (auto simp: ClearActiveOrgForUser_def intro!: wps split: sum.split)
    apply (rule wp_conseq [OF rec])
     apply (auto intro!: wps split: sum.split)
    done
  done

text \<open>A record callback keeps the invariant; what follows it returns.\<close>

lemma wp_record_ret:
  "wp (record :: unit action) org_post d \<Longrightarrow> wp (seq record (ret a)) org_post d"
  by (rule wp_seq, erule wp_conseq) (auto intro!: wps split: sum.split)

text \<open>The transaction of \<open>addMemberTx\<close>.\<close>

definition addMember_body ::
  "org_service \<Rightarrow> string \<Rightarrow> string \<Rightarrow> org_role \<Rightarrow> (ctx \<Rightarrow> unit action) \<Rightarrow> ctx \<Rightarrow> unit action" where
  "addMember_body svc i u r record tx =
       seq (run_if (r = Owner)
              (seq (guardAndIncrementOwnerCount svc tx u) (IncrementOrgOwnerCount tx i)))
       (seq (IncrementOrgMemberCount tx i 10000)
       (bnd now (\<lambda>t.
        bnd (attempt (repo_AddMember tx \<lparr>m_OrgID = i, m_UserID = u, m_Role = r, m_JoinedAt = t\<rparr>)) (\<lambda>res. case res of
          Inl e \<Rightarrow> if errors_is e ErrDuplicateKey then fail ErrOrgMemberExists else fail e
        | Inr _ \<Rightarrow> record tx))))"

lemma addMemberTx_body:
  "addMemberTx svc ctx i u r record = bnd (GetMembership ctx i u) (\<lambda>m.
     if m \<noteq> None then fail ErrOrgMemberExists else WithTx ctx (addMember_body svc i u r record))"
  unfolding addMemberTx_def addMember_body_def by (rule refl)

lemma wp_addMember_body:
  assumes tx: "c_tx ctx" and inv: "org_inv d"
    and rec: "\<And>d. org_inv d \<Longrightarrow> wp (record ctx) org_post d"
  shows "wp (addMember_body svc i u r record ctx) org_post d"
proof -
  let ?b = "owner_bit r"
  let ?d = "shift (pt i ?b) (pt i 1) (pt u ?b) d"
  have fin: "wp (bnd now (\<lambda>t. bnd (attempt (repo_AddMember ctx \<lparr>m_OrgID = i, m_UserID = u, m_Role = r, m_JoinedAt = t\<rparr>)) (\<lambda>x. case x of
          Inl e \<Rightarrow> if errors_is e ErrDuplicateKey then fail ErrOrgMemberExists else fail e
        | Inr _ \<Rightarrow> record ctx))) org_post ?d"
    unfolding repo_AddMember_def using tx
    apply (auto intro!: wps split: sum.split if_splits)
    subgoal for t
      using org_inv_add [OF inv, of "\<lparr>m_OrgID = i, m_UserID = u, m_Role = r, m_JoinedAt = t\<rparr>"]
      by (intro rec) (auto simp: list_ex_iff shift_def image_iff)
    done
  show ?thesis
    unfolding addMember_body_def guardAndIncrementOwnerCount_def
    using tx fin org_inv_distinct [OF inv]
    by (cases "r = Owner")
      (auto intro!: wp_seq wp_run_if wp_IncrementUserOwner wp_IncrementOrgOwner wp_IncrementOrgMember
        split: sum.split simp: owner_bit_def)
qed

lemma wp_addMemberTx:
  assumes tx: "c_tx ctx" and inv: "org_inv d"
    and rec: "\<And>d. org_inv d \<Longrightarrow> wp (record ctx) org_post d"
  shows "wp (addMemberTx svc ctx i u r record) org_post d"
  unfolding addMemberTx_body GetMembership_def
  using assms by (auto intro!: wp_bnd wp_query wp_fail wp_WithTx wp_addMember_body)

lemma wp_role_counters:
  assumes tx: "c_tx ctx" and inv: "org_inv d" and m: "m \<in> set (members d)" and ne: "m_Role m \<noteq> r"
    and G: "G = (\<lambda>x. is_member (m_OrgID m) (m_UserID m) x \<and> m_Role x = m_Role m)" and f: "f = (\<lambda>x. x\<lparr>m_Role := r\<rparr>)"
    and err: "\<And>e d'. Q (Inl e) d'"
    and k: "\<And>d'. org_inv d' \<Longrightarrow> members d' = update_where G f (members d) \<Longrightarrow> sessions d' = sessions d \<Longrightarrow> wp k Q d'"
  shows "wp (seq (run_if (m_Role m = Owner)
                 (seq (TryDecrementOrgOwnerCount ctx (m_OrgID m)) (DecrementUserOrgOwnerCount ctx (m_UserID m))))
            (seq (run_if (r = Owner)
                 (seq (guardAndIncrementOwnerCount svc ctx (m_UserID m)) (IncrementOrgOwnerCount ctx (m_OrgID m)))) k)) Q
           (put_members (update_where G f (members d)) d)"
proof -
  note inv' = org_inv_role [OF inv m G f]
  note k' = k [OF inv']
  consider "m_Role m = Owner" "r \<noteq> Owner" | "m_Role m \<noteq> Owner" "r = Owner" | "m_Role m \<noteq> Owner" "r \<noteq> Owner"
    using ne by metis
  then show ?thesis
  proof cases
    case 1
    with k' show ?thesis
      using tx err org_inv_distinct [OF inv] owned_pos [OF inv m]
      by (auto intro!: wp_seq wp_run_if wp_TryDecrement wp_DecrementUserOwner simp: owner_bit_def split: sum.split) blast+
  next
    case 2
    with k' show ?thesis
      using tx err org_inv_distinct [OF inv]
      by (auto intro!: wp_seq wp_run_if wp_IncrementUserOwner wp_IncrementOrgOwner
          simp: owner_bit_def guardAndIncrementOwnerCount_def split: sum.split)
  next
    case 3
    with k' show ?thesis
      by (auto intro!: wp_seq wp_run_if simp: owner_bit_def)
  qed
qed

lemma wp_updateMemberRoleTx:
  assumes tx: "c_tx ctx" and inv: "org_inv d"
    and rec: "\<And>r d. org_inv d \<Longrightarrow> wp (record ctx r) org_post d"
  shows "wp (updateMemberRoleTx svc ctx i u r record) org_post d"
proof -
  have fin: "org_inv d1 \<Longrightarrow> wp (seq (UpdateActiveOrgRoleForUser ctx v j s) (seq (record ctx q) (ret a))) org_post d1" for d1 v j q s a
    unfolding UpdateActiveOrgRoleForUser_def using tx
    by (auto intro!: wp_seq [of "exec _ _"] wp_exec wp_record_ret rec)
  show ?thesis
    unfolding updateMemberRoleTx_def GetMembership_def repo_UpdateMemberRole_def Let_def
    using tx inv
    apply (auto intro!: wp_WithTx wp_bnd wp_query wp_affected wp_fail wp_ret split: option.split
        dest!: select_member simp: affected_none)
    subgoal for m
      by (rule wp_role_counters [OF tx inv, of m]) (auto intro: fin)
    done
qed

lemma wp_publish_org: "c_tx ctx \<Longrightarrow> org_inv d \<Longrightarrow> wp (publish a ctx ev) org_post d"
  by (rule wp_publish) (auto intro: on_okI)

lemmas keeps_org_tx = keeps_tx_ok [of _ org_inv]

lemma org_inv_lock [simp]:
  "put_members (update_where P (\<lambda>m. m) (members d)) d = d"
  by (simp add: update_where_same)

lemma wp_LockMembership:
  assumes "c_tx ctx" and "\<And>e. Q (Inl e) d" and "\<And>m. m = select1 (is_member i u) (members d) \<Longrightarrow> Q (Inr m) d"
  shows "wp (LockMembership sq ctx i u) Q d"
  unfolding LockMembership_def GetMembership_def using assms
  by (auto intro!: wps simp: InTx_def split: sum.split)

lemma wp_requireOrgRole:
  assumes "\<And>e. Q (Inl e) d" and "\<And>x. m = Some x \<Longrightarrow> Weight r \<le> Weight (m_Role x) \<Longrightarrow> Q (Inr ()) d"
  shows "wp (requireOrgRole m r) Q d"
  unfolding requireOrgRole_def using assms by (auto intro!: wps split: option.split)

lemma wp_lockActorAndTarget:
  assumes "c_tx ctx" and "\<And>e. Q (Inl e) d"
    and "a \<noteq> '''' \<Longrightarrow> Q (Inr (select1 (is_member i a) (members d), select1 (is_member i t) (members d))) d"
  shows "wp (lockActorAndTarget svc ctx i a t) Q d"
  unfolding lockActorAndTarget_def Let_def using assms
  by (auto intro!: wps wp_LockMembership split: sum.split)

lemma keeps_CreateOrg:
  assumes "\<not> c_tx ctx"
  shows "keeps org_inv (CreateOrg svc ctx name slug owner)"
proof -
  have "wp (WithTx (ctx\<lparr>c_tx := True\<rparr>) (\<lambda>tx.
        seq (guardAndIncrementOwnerCount svc tx owner)
        (bnd (org_GetBySlug tx slug) (\<lambda>existing.
         if existing \<noteq> None then fail ErrOrgSlugExists
         else bnd now (\<lambda>t. bnd draw (\<lambda>newID.
           let o1 = \<lparr>o_ID = newID, o_Name = name, o_Slug = slug, o_CreatedBy = Some owner, o_OwnerCount = 1,
                     o_MemberCount = 1, o_CreatedAt = t, o_UpdatedAt = t\<rparr> in
           bnd (attempt (org_Create tx o1)) (\<lambda>r. case r of
             Inl e \<Rightarrow> if errors_is e ErrDuplicateKey then fail ErrOrgSlugExists else fail e
           | Inr _ \<Rightarrow>
               seq (repo_AddMember tx \<lparr>m_OrgID = newID, m_UserID = owner, m_Role = Owner, m_JoinedAt = t\<rparr>)
               (seq (publish (os_audit svc) tx (org_event ''organization.created'' owner newID))
               (ret o1))))))))) org_post d" if inv: "org_inv d" for d
  proof -
    have fin: "org_inv (put_members (members d @ [\<lparr>m_OrgID = n, m_UserID = v, m_Role = Owner, m_JoinedAt = t\<rparr>])
          (put_orgs (orgs d @ [\<lparr>o_ID = n, o_Name = name, o_Slug = slug, o_CreatedBy = Some v, o_OwnerCount = 1,
                     o_MemberCount = 1, o_CreatedAt = t, o_UpdatedAt = t\<rparr>]) (shift (\<lambda>_. 0) (\<lambda>_. 0) (pt v 1) d)))"
      if "\<not> list_ex (\<lambda>x. o_ID x = n \<or> o_Slug x = slug) (orgs d)" "u \<in> set (users d)" "u_ID u = v" for n t u v
      using that by (intro org_inv_create [OF inv]) (auto simp: list_ex_iff)
    show ?thesis
      unfolding guardAndIncrementOwnerCount_def org_GetBySlug_def org_Create_def repo_AddMember_def Let_def
      using org_inv_distinct [OF inv]
      apply (auto intro!: wp_WithTx wp_seq [of "IncrementUserOrgOwnerCount _ _ _"] wp_IncrementUserOwner split: sum.split)
      subgoal premises p for u
        using p by (auto intro!: wps wp_record_ret wp_publish_org fin [OF _ _ refl] split: sum.split if_splits)
      done
  qed
  with assms show ?thesis
    unfolding CreateOrg_def by (auto intro!: keeps keeps_org_tx)
qed

lemma keeps_deleteOrgTx:
  assumes "\<not> c_tx ctx" and rec: "\<And>tx o1 d. c_tx tx \<Longrightarrow> org_inv d \<Longrightarrow> wp (record tx o1) org_post d"
  shows "keeps org_inv (deleteOrgTx ctx i record)"
  unfolding deleteOrgTx_def org_GetByID_def DecrementOwnerCountForOrgOwners_def ClearActiveOrgForAllMembers_def org_Delete_def
  using assms(1)
  by (auto intro!: keeps keeps_org_tx wps rec split: option.split sum.split simp: org_inv_delete)

lemma keeps_GetMembership [keeps]: "keeps I (GetMembership ctx i u)"
  unfolding GetMembership_def by (rule keeps)

lemma keeps_requireRole [keeps]: "keeps I (requireRole ctx i a r)"
  unfolding requireRole_def requireOrgRole_def by (auto intro!: keeps split: option.split)

lemma keeps_requirePlatformAdmin [keeps]: "keeps I (requirePlatformAdmin ctx a)"
  unfolding requirePlatformAdmin_def by (rule keeps)

text \<open>The member transactions as requests of their own (a platform administrator's), and inside the
  transaction of a member's request.\<close>

lemma keeps_addMemberTx:
  assumes "\<not> c_tx ctx" and "\<And>tx d. c_tx tx \<Longrightarrow> org_inv d \<Longrightarrow> wp (record tx) org_post d"
  shows "keeps org_inv (addMemberTx svc ctx i u r record)"
proof -
  have "wp (WithTx (ctx\<lparr>c_tx := True\<rparr>) (addMember_body svc i u r record)) org_post d" if "org_inv d" for d
    by (rule wp_WithTx, simp, rule wp_addMember_body) (use assms that in auto)
  with assms(1) show ?thesis
    unfolding addMemberTx_body by (auto intro!: keeps keeps_org_tx)
qed

lemma keeps_removeMemberTx:
  assumes "\<not> c_tx ctx" and "\<And>tx r d. c_tx tx \<Longrightarrow> org_inv d \<Longrightarrow> wp (record tx r) org_post d"
  shows "keeps org_inv (removeMemberTx ctx i u record)"
  using wp_removeMemberTx [of "ctx\<lparr>c_tx := True\<rparr>" _ "record" i u] assms
  unfolding removeMemberTx_def by (intro keeps_org_tx) auto

lemma keeps_updateMemberRoleTx:
  assumes "\<not> c_tx ctx" and "\<And>tx r d. c_tx tx \<Longrightarrow> org_inv d \<Longrightarrow> wp (record tx r) org_post d"
  shows "keeps org_inv (updateMemberRoleTx svc ctx i u r record)"
  using wp_updateMemberRoleTx [of "ctx\<lparr>c_tx := True\<rparr>" _ "record" svc i u r] assms
  unfolding updateMemberRoleTx_def by (intro keeps_org_tx) auto

lemma keeps_AdminAddMember: "\<not> c_tx ctx \<Longrightarrow> keeps org_inv (AdminAddMember svc ctx i u r a)"
  unfolding AdminAddMember_def by (auto intro!: keeps keeps_addMemberTx wp_publish_org split: option.split)

lemma keeps_AdminRemoveMember: "\<not> c_tx ctx \<Longrightarrow> keeps org_inv (AdminRemoveMember svc ctx i u a)"
  unfolding AdminRemoveMember_def by (auto intro!: keeps keeps_removeMemberTx wp_publish_org)

lemma keeps_AdminUpdateMemberRole: "\<not> c_tx ctx \<Longrightarrow> keeps org_inv (AdminUpdateMemberRole svc ctx i u r a)"
  unfolding AdminUpdateMemberRole_def
  by (auto intro!: keeps keeps_updateMemberRoleTx wp_publish_org split: option.split)

lemma keeps_AdminDeleteOrg: "\<not> c_tx ctx \<Longrightarrow> keeps org_inv (AdminDeleteOrg svc ctx i a)"
  unfolding AdminDeleteOrg_def by (auto intro!: keeps keeps_deleteOrgTx wp_publish_org)

lemma keeps_DeleteOrg: "\<not> c_tx ctx \<Longrightarrow> keeps org_inv (DeleteOrg svc ctx i a)"
  unfolding DeleteOrg_def by (auto intro!: keeps keeps_deleteOrgTx wp_publish_org)

lemma wp_requireMemberMutation:
  "(\<And>e. Q (Inl e) d) \<Longrightarrow> (\<And>x. m = Some x \<Longrightarrow> Weight r \<le> Weight (m_Role x) \<Longrightarrow> Q (Inr ()) d) \<Longrightarrow>
   wp (requireMemberMutation m r) Q d"
  unfolding requireMemberMutation_def by (rule wp_requireOrgRole)

lemma keeps_AddMember:
  assumes "\<not> c_tx ctx" shows "keeps org_inv (AddMember svc ctx i u r a)"
  unfolding AddMember_def using assms
  by (auto intro!: keeps keeps_org_tx wp_WithTx wp_bnd wp_seq [of "requireMemberMutation _ _"] wp_LockMembership
      wp_requireMemberMutation wp_addMemberTx wp_publish_org wp_fail simp: Let_def split: option.split sum.split)

lemma keeps_RemoveMember:
  assumes "\<not> c_tx ctx" shows "keeps org_inv (RemoveMember svc ctx i u a)"
proof -
  have fin: "c_tx tx \<Longrightarrow> org_inv d \<Longrightarrow> wp (bnd (removeMemberTx tx i u (\<lambda>tx2 _. publish p tx2 ev)) (\<lambda>_. ret ())) org_post d" for tx d p ev
    by (rule wp_bnd, rule wp_conseq [OF wp_removeMemberTx]) (auto intro!: wp_publish_org wp_ret split: sum.split)
  show ?thesis
    unfolding RemoveMember_def Let_def using assms
    by (auto intro!: keeps_org_tx wp_WithTx wp_bnd [of "lockActorAndTarget _ _ _ _ _"] wp_seq [of "requireMemberMutation _ _"]
        wp_lockActorAndTarget wp_requireMemberMutation fin wp_fail split: option.split sum.split)
qed

lemma keeps_UpdateMemberRole:
  assumes "\<not> c_tx ctx" shows "keeps org_inv (UpdateMemberRole svc ctx i u r a)"
proof -
  have fin: "c_tx tx \<Longrightarrow> org_inv d \<Longrightarrow>
      wp (bnd (updateMemberRoleTx svc tx i u q (\<lambda>tx2 _. publish p tx2 ev)) (\<lambda>_. ret ())) org_post d" for tx d p ev q
    by (rule wp_bnd, rule wp_conseq [OF wp_updateMemberRoleTx]) (auto intro!: wp_publish_org wp_ret split: sum.split)
  show ?thesis
    unfolding UpdateMemberRole_def Let_def using assms
    by (auto intro!: keeps keeps_org_tx wp_WithTx wp_bnd [of "lockActorAndTarget _ _ _ _ _"] wp_seq [of "requireMemberMutation _ _"]
        wp_lockActorAndTarget wp_requireMemberMutation fin wp_fail split: option.split sum.split)
qed

lemma keeps_LeaveOrg: "\<not> c_tx ctx \<Longrightarrow> keeps org_inv (LeaveOrg svc ctx i u)"
  unfolding LeaveOrg_def by (rule keeps_RemoveMember)

lemma keeps_SetActiveOrg: "\<not> c_tx ctx \<Longrightarrow> keeps org_inv (SetActiveOrg svc ctx s u i)"
  unfolding SetActiveOrg_def sess_SetActiveOrg_def
  by (auto intro!: keeps_org_tx wps wp_LockMembership split: option.split sum.split)

lemma keeps_ClearActiveOrg: "keeps org_inv (ClearActiveOrg ctx s)"
  unfolding ClearActiveOrg_def sess_ClearActiveOrg_def by (auto intro!: keeps_exec)

text \<open>Renaming leaves ids and counters alone.\<close>

lemma org_inv_rename:
  assumes "org_inv d" and "\<And>x. o_ID (f x) = o_ID x" "\<And>x. o_OwnerCount (f x) = o_OwnerCount x" "\<And>x. o_MemberCount (f x) = o_MemberCount x"
  shows "org_inv (put_orgs (update_where P f (orgs d)) d)"
proof -
  have "map o_ID (update_where P f (orgs d)) = map o_ID (orgs d)" by (rule map_update_where) (rule assms(2))
  moreover from this have "o_ID ` set (update_where P f (orgs d)) = o_ID ` set (orgs d)" by (metis list.set_map)
  ultimately show ?thesis
    using assms by (auto simp: org_inv_def members_ok_def set_update_where)
qed

lemma keeps_UpdateOrg: "keeps org_inv (UpdateOrg ctx i a n s)"
  unfolding UpdateOrg_def org_GetByID_def org_GetBySlug_def org_Update_def
  by (auto intro!: keeps keeps_stmt org_inv_rename split: option.split if_splits simp: Let_def)

end
