(* ===== verification/OrgProps.thy ===== *)
theory OrgProps
  imports OrgInv
begin

text \<open>
  What the organisation requests promise beyond the integrity of the counters: who may touch an
  owner, how large organisations and ownership can grow, and that the organisation and role
  a session acts in are a membership its user holds.
\<close>

section \<open>Frames\<close>

text \<open>What the last-administrator rule sees of the users.\<close>

definition admin_view :: "tables \<Rightarrow> (string \<times> bool) list" where
  "admin_view d = map (\<lambda>u. (u_ID u, usable_admin u)) (users d)"

text \<open>The counter statements leave memberships, sessions and this view alone.\<close>

definition counters_only :: "tables \<Rightarrow> tables \<Rightarrow> bool" where
  "counters_only d d' \<longleftrightarrow> members d' = members d \<and> sessions d' = sessions d \<and> admin_view d' = admin_view d"

lemma admin_view_put [simp]:
  "admin_view (put_members ms d) = admin_view d" "admin_view (put_sessions ss d) = admin_view d"
  "admin_view (put_orgs os d) = admin_view d" "admin_view (put_tokens ts d) = admin_view d"
  by (simp_all add: admin_view_def)

lemma admin_view_owned [simp]: "admin_view (put_users (update_where P (add_owned n) (users d)) d) = admin_view d"
  by (auto simp: admin_view_def update_where_def add_owned_def usable_admin_def)

named_theorems frames \<open>statements that only touch counters or audit tables\<close>

lemma counters_only_refl [simp]: "counters_only d d" "counters_only d (put_orgs os d)"
  "counters_only d (put_users (update_where P (add_owned n) (users d)) d)"
  by (simp_all add: counters_only_def)

lemma counters_only_trans: "counters_only d d1 \<Longrightarrow> counters_only d1 d2 \<Longrightarrow> counters_only d d2"
  by (simp add: counters_only_def)

lemma audit_counters_only: "same_but_audit d d' \<Longrightarrow> counters_only d d'"
  by (auto simp: same_but_audit_def counters_only_def admin_view_def)

lemma frame_guarded_users:
  "c_tx ctx \<Longrightarrow> (\<And>r d'. counters_only d d' \<Longrightarrow> Q r d') \<Longrightarrow> wp (guarded ctx users put_users P (add_owned n) e) Q d"
  unfolding guarded_def by (auto intro!: wps split: sum.split)

lemma frame_guarded_orgs:
  "c_tx ctx \<Longrightarrow> (\<And>r d'. counters_only d d' \<Longrightarrow> Q r d') \<Longrightarrow> wp (guarded ctx orgs put_orgs P f e) Q d"
  unfolding guarded_def by (auto intro!: wps split: sum.split)

lemma frame_counters [frames]:
  assumes "c_tx ctx" and "\<And>r d'. counters_only d d' \<Longrightarrow> Q r d'"
  shows "wp (IncrementUserOrgOwnerCount ctx u n) Q d" "wp (DecrementUserOrgOwnerCount ctx u) Q d"
    "wp (IncrementOrgMemberCount ctx i n) Q d" "wp (DecrementOrgMemberCount ctx i) Q d"
    "wp (TryDecrementOrgOwnerCount ctx i) Q d" "wp (IncrementOrgOwnerCount ctx i) Q d"
    "wp (DecrementOwnerCountForOrgOwners ctx i) Q d" "wp (guardAndIncrementOwnerCount svc ctx u) Q d"
  unfolding IncrementUserOrgOwnerCount_def DecrementUserOrgOwnerCount_def IncrementOrgMemberCount_def
    DecrementOrgMemberCount_def TryDecrementOrgOwnerCount_def IncrementOrgOwnerCount_def
    DecrementOwnerCountForOrgOwners_def guardAndIncrementOwnerCount_def
  using assms by (auto intro!: frame_guarded_users frame_guarded_orgs wp_exec)

lemma frame_publish [frames]:
  "c_tx ctx \<Longrightarrow> (\<And>r d'. counters_only d d' \<Longrightarrow> Q r d') \<Longrightarrow> wp (publish a ctx ev) Q d"
  by (rule wp_publish) (auto dest: audit_counters_only)

text \<open>Sequencing with a frame: the rest runs on tables that agree on members and sessions.\<close>

lemma frame_seq:
  assumes "\<And>Q. (\<And>r d'. counters_only d d' \<Longrightarrow> Q r d') \<Longrightarrow> wp m Q d"
    and "\<And>e d'. counters_only d d' \<Longrightarrow> Q (Inl e) d'"
    and "\<And>d'. counters_only d d' \<Longrightarrow> wp k Q d'"
  shows "wp (seq m k) Q d"
  by (rule wp_seq, rule assms(1)) (use assms(2,3) in \<open>auto split: sum.split\<close>)

lemma frame_run_if:
  assumes "\<And>Q. (\<And>r d'. counters_only d d' \<Longrightarrow> Q r d') \<Longrightarrow> wp m Q d" and "\<And>r d'. counters_only d d' \<Longrightarrow> Q r d'"
  shows "wp (run_if c m) Q d"
  by (rule wp_run_if, rule assms(1)) (use assms(2) in auto)

text \<open>The counter upkeep of each transaction, as one step.\<close>

lemma frame_pair:
  assumes "c_tx ctx" and "\<And>r d'. counters_only d d' \<Longrightarrow> Q r d'"
  shows "wp (seq (TryDecrementOrgOwnerCount ctx i) (DecrementUserOrgOwnerCount ctx u)) Q d"
    "wp (seq (guardAndIncrementOwnerCount svc ctx u) (IncrementOrgOwnerCount ctx i)) Q d"
  using assms by (auto intro!: frame_seq frames intro: counters_only_trans)

lemma wp_remove_frame:
  assumes "c_tx ctx" and "\<And>e d'. counters_only d d' \<Longrightarrow> Q (Inl e) d'" and "\<And>d'. counters_only d d' \<Longrightarrow> wp k Q d'"
  shows "wp (seq (run_if c (seq (TryDecrementOrgOwnerCount ctx i) (DecrementUserOrgOwnerCount ctx u)))
            (seq (DecrementOrgMemberCount ctx i) k)) Q d"
  using assms
  by (auto intro!: frame_seq frame_run_if frame_pair frames intro: counters_only_trans)

lemma wp_role_frame:
  assumes "c_tx ctx" and "\<And>e d'. counters_only d d' \<Longrightarrow> Q (Inl e) d'" and "\<And>d'. counters_only d d' \<Longrightarrow> wp k Q d'"
  shows "wp (seq (run_if c (seq (TryDecrementOrgOwnerCount ctx i) (DecrementUserOrgOwnerCount ctx u)))
            (seq (run_if c' (seq (guardAndIncrementOwnerCount svc ctx u) (IncrementOrgOwnerCount ctx i))) k)) Q d"
  using assms
  by (auto intro!: frame_seq frame_run_if frame_pair intro: counters_only_trans)

lemma wp_add_frame:
  assumes "c_tx ctx" and "\<And>e d'. counters_only d d' \<Longrightarrow> Q (Inl e) d'" and "\<And>d'. counters_only d d' \<Longrightarrow> wp k Q d'"
  shows "wp (seq (run_if c (seq (guardAndIncrementOwnerCount svc ctx u) (IncrementOrgOwnerCount ctx i)))
            (seq (IncrementOrgMemberCount ctx i n) k)) Q d"
  using assms
  by (auto intro!: frame_seq frame_run_if frame_pair frames intro: counters_only_trans)

section \<open>What the member transactions do to members and sessions\<close>

definition framed :: "unit action \<Rightarrow> bool" where
  "framed m \<longleftrightarrow> (\<forall>d. wp m (\<lambda>r. counters_only d) d)"

lemma framedD: "framed m \<Longrightarrow> (\<And>r d'. counters_only d d' \<Longrightarrow> Q r d') \<Longrightarrow> wp m Q d"
  unfolding framed_def by (blast intro: wp_conseq)

lemma framed_cases:
  assumes "framed m" and "\<And>e d'. Q (Inl e) d'" and "\<And>d'. counters_only d d' \<Longrightarrow> Q (Inr ()) d'"
  shows "wp m Q d"
proof (rule framedD [OF assms(1)])
  fix r d' assume "counters_only d d'"
  with assms(2,3) show "Q r d'" by (cases r) auto
qed

lemma framed_publish [simp]: "c_tx ctx \<Longrightarrow> framed (publish a ctx ev)"
  unfolding framed_def by (auto intro: frame_publish)

definition removed :: "string \<Rightarrow> string \<Rightarrow> org_role \<Rightarrow> tables \<Rightarrow> tables \<Rightarrow> bool" where
  "removed i u r d d' \<longleftrightarrow> members d' = delete_where (\<lambda>m. is_member i u m \<and> m_Role m = r) (members d) \<and>
     sessions d' = update_where (\<lambda>s. s_UserID s = u \<and> s_ActiveOrgID s = Some i \<and> \<not> s_IsRevoked s) clear_org (sessions d)"

lemma spec_removeMemberTx:
  assumes tx: "c_tx ctx" and rec: "\<And>r. framed (record ctx r)" and err: "\<And>e d'. Q (Inl e) d'"
    and ok: "\<And>m d'. m \<in> set (members d) \<Longrightarrow> is_member i u m \<Longrightarrow> removed i u (m_Role m) d d' \<Longrightarrow> Q (Inr (m_Role m)) d'"
  shows "wp (removeMemberTx ctx i u record) Q d"
proof -
  have fin: "wp (seq (ClearActiveOrgForUser ctx u i) (seq (record ctx (m_Role m)) (ret (m_Role m)))) Q d'"
    if "m \<in> set (members d)" "is_member i u m" "counters_only
      (put_members (delete_where (\<lambda>x. is_member i u x \<and> m_Role x = m_Role m) (members d)) d) d'" for m d'
    unfolding ClearActiveOrgForUser_def using tx err that
    by (auto intro!: wp_seq wp_exec wp_ret framedD [OF rec] ok split: sum.split simp: counters_only_def removed_def)
  show ?thesis
    unfolding removeMemberTx_def GetMembership_def repo_RemoveMember_def Let_def
    using tx err
    by (auto intro!: wp_WithTx wp_bnd wp_query wp_stmt wp_fail wp_membershipRaceError wp_remove_frame fin
        split: option.split dest!: select1_Some)
qed

definition role_changed :: "string \<Rightarrow> string \<Rightarrow> org_role \<Rightarrow> org_role \<Rightarrow> tables \<Rightarrow> tables \<Rightarrow> bool" where
  "role_changed i u r r' d d' \<longleftrightarrow>
     members d' = update_where (\<lambda>m. is_member i u m \<and> m_Role m = r) (\<lambda>m. m\<lparr>m_Role := r'\<rparr>) (members d) \<and>
     sessions d' = update_where (\<lambda>s. s_UserID s = u \<and> s_ActiveOrgID s = Some i \<and> \<not> s_IsRevoked s)
       (\<lambda>s. s\<lparr>s_ActiveOrgRole := Some (role_string r')\<rparr>) (sessions d)"

lemma spec_updateMemberRoleTx:
  assumes tx: "c_tx ctx" and rec: "\<And>r. framed (record ctx r)" and err: "\<And>e d'. Q (Inl e) d'"
    and same: "Q (Inr None) d"
    and ok: "\<And>m d'. m \<in> set (members d) \<Longrightarrow> is_member i u m \<Longrightarrow> m_Role m \<noteq> r \<Longrightarrow>
       role_changed i u (m_Role m) r d d' \<Longrightarrow> Q (Inr (Some (m_Role m))) d'"
  shows "wp (updateMemberRoleTx svc ctx i u r record) Q d"
proof -
  have fin: "wp (seq (UpdateActiveOrgRoleForUser ctx u i (role_string r)) (seq (record ctx (m_Role m)) (ret (Some (m_Role m))))) Q d'"
    if "m \<in> set (members d)" "is_member i u m" "m_Role m \<noteq> r" "counters_only
      (put_members (update_where (\<lambda>x. is_member i u x \<and> m_Role x = m_Role m) (\<lambda>x. x\<lparr>m_Role := r\<rparr>) (members d)) d) d'" for m d'
    unfolding UpdateActiveOrgRoleForUser_def using tx err that
    by (auto intro!: wp_seq wp_exec wp_ret framedD [OF rec] ok split: sum.split simp: counters_only_def role_changed_def)
  show ?thesis
    unfolding updateMemberRoleTx_def GetMembership_def repo_UpdateMemberRole_def Let_def
    using tx err same
    by (auto intro!: wp_WithTx wp_bnd wp_query wp_affected wp_fail wp_ret wp_role_frame fin
        split: option.split dest!: select1_Some simp: affected_none)
qed

definition added :: "string \<Rightarrow> string \<Rightarrow> org_role \<Rightarrow> tables \<Rightarrow> tables \<Rightarrow> bool" where
  "added i u r d d' \<longleftrightarrow> \<not> list_ex (is_member i u) (members d) \<and> sessions d' = sessions d \<and>
     (\<exists>t. members d' = members d @ [\<lparr>m_OrgID = i, m_UserID = u, m_Role = r, m_JoinedAt = t\<rparr>])"

lemma spec_addMember_body:
  assumes tx: "c_tx ctx" and rec: "framed (record ctx)" and err: "\<And>e d'. Q (Inl e) d'"
    and ok: "\<And>d'. added i u r d d' \<Longrightarrow> Q (Inr ()) d'"
  shows "wp (addMember_body svc i u r record ctx) Q d"
proof -
  have ok': "wp (record ctx) Q (put_members (members d1 @ [\<lparr>m_OrgID = i, m_UserID = u, m_Role = r, m_JoinedAt = t\<rparr>]) d1)"
    if "counters_only d d1" "\<not> list_ex (is_member i u) (members d1)" for d1 t
    using that by (intro framed_cases [OF rec] err ok) (auto simp: counters_only_def added_def)
  show ?thesis
    unfolding addMember_body_def repo_AddMember_def using tx err
    by (auto intro!: wp_add_frame wp_bnd wp_now wp_attempt wp_stmt wp_fail ok' split: sum.split if_splits)
qed

lemma spec_addMemberTx:
  assumes tx: "c_tx ctx" and rec: "framed (record ctx)" and err: "\<And>e d'. Q (Inl e) d'"
    and ok: "\<And>d'. added i u r d d' \<Longrightarrow> Q (Inr ()) d'"
  shows "wp (addMemberTx svc ctx i u r record) Q d"
  unfolding addMemberTx_body GetMembership_def using assms
  by (auto intro!: wp_bnd wp_query wp_fail wp_WithTx spec_addMember_body)

lemma framed_lock:
  assumes "c_tx ctx" and "\<And>e. Q (Inl e) d" and "\<And>m. m = select1 (is_member i u) (members d) \<Longrightarrow> wp (f m) Q d"
  shows "wp (bnd (LockMembership sq ctx i u) f) Q d"
  using assms by (auto intro!: wp_bnd wp_LockMembership)

section \<open>Only an owner touches owners\<close>

definition owner_rows :: "tables \<Rightarrow> org_member list" where
  "owner_rows d = filter (\<lambda>m. m_Role m = Owner) (members d)"

definition owns :: "string \<Rightarrow> string \<Rightarrow> tables \<Rightarrow> bool" where
  "owns i u d \<longleftrightarrow> list_ex (\<lambda>m. is_member i u m \<and> m_Role m = Owner) (members d)"

lemma Weight_Owner: "3 \<le> Weight r \<longleftrightarrow> r = Owner"
  by (cases r) simp_all

lemma owns_weight: "select1 (is_member i a) (members d) = Some x \<Longrightarrow> 3 \<le> Weight (m_Role x) \<Longrightarrow> owns i a d"
  by (auto simp: owns_def list_ex_iff Weight_Owner dest: select1_Some)

lemma owner_rows_removed: "removed i u r d d' \<Longrightarrow> r \<noteq> Owner \<Longrightarrow> owner_rows d' = owner_rows d"
  by (auto simp: removed_def owner_rows_def delete_where_def intro!: filter_cong)

lemma owner_rows_role: "role_changed i u r r' d d' \<Longrightarrow> r \<noteq> Owner \<Longrightarrow> r' \<noteq> Owner \<Longrightarrow> owner_rows d' = owner_rows d"
proof -
  have "filter (\<lambda>m. m_Role m = Owner) (update_where (\<lambda>m. is_member i u m \<and> m_Role m = r) (\<lambda>m. m\<lparr>m_Role := r'\<rparr>) ms) =
      filter (\<lambda>m. m_Role m = Owner) ms" if "r \<noteq> Owner" "r' \<noteq> Owner" for ms
    using that by (induction ms) (auto simp: update_where_def)
  then show "role_changed i u r r' d d' \<Longrightarrow> r \<noteq> Owner \<Longrightarrow> r' \<noteq> Owner \<Longrightarrow> ?thesis"
    by (simp add: role_changed_def owner_rows_def)
qed

lemma owner_rows_added: "added i u r d d' \<Longrightarrow> r \<noteq> Owner \<Longrightarrow> owner_rows d' = owner_rows d"
  by (auto simp: added_def owner_rows_def)

text \<open>The member a guarded statement addresses is the locked one.\<close>

lemma member_unique:
  "distinct (map member_key (members d)) \<Longrightarrow> m \<in> set (members d) \<Longrightarrow> is_member i u m \<Longrightarrow>
   select1 (is_member i u) (members d) = Some x \<Longrightarrow> m = x"
  using keyed_unique [of member_key "members d" m x] select1_Some [of "is_member i u" "members d" x]
  by (auto simp: is_member_def member_key_def)

lemma not_owner: "\<not> owns i a d \<Longrightarrow> select1 (is_member i a) (members d) = Some x \<Longrightarrow> \<not> 3 \<le> Weight (m_Role x)"
  using owns_weight by blast

lemma the_member:
  "distinct (map member_key (members d)) \<Longrightarrow> m \<in> set (members d) \<Longrightarrow> is_member i u m \<Longrightarrow>
   the (select1 (is_member i u) (members d)) = m"
  using select1_ex [of m "members d" "is_member i u"] member_unique by (metis option.sel)

lemma owners_AddMember:
  assumes "\<not> c_tx ctx" and "\<not> owns i a d"
  shows "rq (AddMember svc ctx i u r a) (\<lambda>_ d'. owner_rows d' = owner_rows d) d"
  unfolding AddMember_def Let_def using assms(1) not_owner [OF assms(2)]
  by (auto intro!: rqs rq_WithTx_ok framed_lock wp_fail wp_seq [of "requireMemberMutation _ _"] wp_requireMemberMutation
      spec_addMemberTx split: option.split) (blast intro: owner_rows_added)+

lemma owners_RemoveMember:
  assumes "\<not> c_tx ctx" and "\<not> owns i a d" and "distinct (map member_key (members d))"
  shows "rq (RemoveMember svc ctx i u a) (\<lambda>_ d'. owner_rows d' = owner_rows d) d"
proof -
  have fin: "wp (bnd (removeMemberTx tx i u (\<lambda>tx2 _. publish p tx2 ev)) (\<lambda>_. ret ()))
        (on_ok (\<lambda>d'. owner_rows d' = owner_rows d)) d"
    if "c_tx tx" "m_Role (the (select1 (is_member i u) (members d))) \<noteq> Owner" for tx p ev
    using that owner_rows_removed the_member [OF assms(3)]
    by (auto intro!: wp_bnd spec_removeMemberTx wp_ret)
  show ?thesis
    unfolding RemoveMember_def Let_def using assms(1) not_owner [OF assms(2)]
    by (auto intro!: rq_WithTx_ok wp_bnd [of "lockActorAndTarget _ _ _ _ _"] wp_lockActorAndTarget wp_fail
        wp_seq [of "requireMemberMutation _ _"] wp_requireMemberMutation fin split: option.split sum.split
        simp: Weight_Owner)
qed

lemma owners_UpdateMemberRole:
  assumes "\<not> c_tx ctx" and "\<not> owns i a d" and "distinct (map member_key (members d))"
  shows "rq (UpdateMemberRole svc ctx i u r a) (\<lambda>_ d'. owner_rows d' = owner_rows d) d"
proof -
  have fin: "wp (bnd (updateMemberRoleTx svc tx i u q (\<lambda>tx2 _. publish p tx2 ev)) (\<lambda>_. ret ()))
        (on_ok (\<lambda>d'. owner_rows d' = owner_rows d)) d"
    if "c_tx tx" "m_Role (the (select1 (is_member i u) (members d))) \<noteq> Owner" "q \<noteq> Owner" for tx p ev q
    using that owner_rows_role the_member [OF assms(3)]
    by (auto intro!: wp_bnd spec_updateMemberRoleTx wp_ret)
  show ?thesis
    unfolding UpdateMemberRole_def Let_def using assms(1) not_owner [OF assms(2)]
    by (auto intro!: rqs rq_WithTx_ok wp_bnd [of "lockActorAndTarget _ _ _ _ _"] wp_lockActorAndTarget wp_fail
        wp_seq [of "requireMemberMutation _ _"] wp_requireMemberMutation fin split: option.split sum.split)
qed

lemma owners_DeleteOrg:
  assumes "\<not> owns i a d"
  shows "rq (DeleteOrg svc ctx i a) (\<lambda>_ d'. owner_rows d' = owner_rows d) d"
  unfolding DeleteOrg_def requireRole_def requireOrgRole_def GetMembership_def using not_owner [OF assms]
  by (auto intro!: rqs split: option.split sum.split simp: not_less)

section \<open>Caps\<close>

definition org_caps :: "int \<Rightarrow> tables \<Rightarrow> bool" where
  "org_caps n d \<longleftrightarrow> (\<forall>x \<in> set (orgs d). o_MemberCount x \<le> 10000) \<and> (\<forall>u \<in> set (users d). u_OrgOwnerCount u \<le> n)"

lemma caps_update_users:
  "org_caps n d \<Longrightarrow> (\<And>u. P u \<Longrightarrow> u_OrgOwnerCount u \<le> n \<Longrightarrow> u_OrgOwnerCount (f u) \<le> n) \<Longrightarrow>
   org_caps n (put_users (update_where P f (users d)) d)"
  by (auto simp: org_caps_def set_update_where)

lemma caps_update_orgs:
  "org_caps n d \<Longrightarrow> (\<And>x. P x \<Longrightarrow> o_MemberCount x \<le> 10000 \<Longrightarrow> o_MemberCount (f x) \<le> 10000) \<Longrightarrow>
   org_caps n (put_orgs (update_where P f (orgs d)) d)"
  by (auto simp: org_caps_def set_update_where)

lemma caps_put [simp]:
  "org_caps n (put_sessions ss d) = org_caps n d" "org_caps n (put_members ms d) = org_caps n d"
  "org_caps n (put_tokens ts d) = org_caps n d"
  by (simp_all add: org_caps_def)

lemma caps_audit: "audit_closed (org_caps n)"
  by (simp add: audit_closed_def org_caps_def)

named_theorems caps \<open>statements and handlers that respect the caps\<close>

lemma caps_guarded_users:
  "(\<And>u. P u \<Longrightarrow> u_OrgOwnerCount u \<le> n \<Longrightarrow> u_OrgOwnerCount (f u) \<le> n) \<Longrightarrow> keeps (org_caps n) (guarded ctx users put_users P f e)"
  unfolding guarded_def by (auto intro!: keeps keeps_affected caps_update_users)

lemma caps_guarded_orgs:
  "(\<And>x. P x \<Longrightarrow> o_MemberCount x \<le> 10000 \<Longrightarrow> o_MemberCount (f x) \<le> 10000) \<Longrightarrow>
   keeps (org_caps n) (guarded ctx orgs put_orgs P f e)"
  unfolding guarded_def by (auto intro!: keeps keeps_affected caps_update_orgs)

lemma caps_counters [caps]:
  "m \<le> n \<Longrightarrow> keeps (org_caps n) (IncrementUserOrgOwnerCount ctx u m)"
  "keeps (org_caps n) (DecrementUserOrgOwnerCount ctx u)"
  "keeps (org_caps n) (IncrementOrgMemberCount ctx i 10000)"
  "keeps (org_caps n) (DecrementOrgMemberCount ctx i)"
  "keeps (org_caps n) (TryDecrementOrgOwnerCount ctx i)"
  "keeps (org_caps n) (IncrementOrgOwnerCount ctx i)"
  "keeps (org_caps n) (DecrementOwnerCountForOrgOwners ctx i)"
  "os_maxOrgs svc \<le> n \<Longrightarrow> keeps (org_caps n) (guardAndIncrementOwnerCount svc ctx u)"
  unfolding IncrementUserOrgOwnerCount_def DecrementUserOrgOwnerCount_def IncrementOrgMemberCount_def
    DecrementOrgMemberCount_def TryDecrementOrgOwnerCount_def IncrementOrgOwnerCount_def
    DecrementOwnerCountForOrgOwners_def guardAndIncrementOwnerCount_def
  by (auto intro!: caps_guarded_users caps_guarded_orgs keeps_exec caps_update_users caps_update_orgs
      simp: add_owned_def add_owners_def add_members_def)

lemma caps_repo [caps]:
  "o_MemberCount o1 \<le> 10000 \<Longrightarrow> keeps (org_caps n) (org_Create ctx o1)"
  "keeps (org_caps n) (org_GetByID ctx i)" "keeps (org_caps n) (org_GetBySlug ctx s)"
  "keeps (org_caps n) (org_Update ctx o2)" "keeps (org_caps n) (org_Delete ctx i)"
  "keeps (org_caps n) (repo_AddMember ctx m)" "keeps (org_caps n) (repo_RemoveMember ctx i u r)"
  "keeps (org_caps n) (repo_UpdateMemberRole ctx i u r r')" "keeps (org_caps n) (LockMembership sq ctx i u)"
  "keeps (org_caps n) (ClearActiveOrgForUser ctx u i)" "keeps (org_caps n) (ClearActiveOrgForAllMembers ctx i)"
  "keeps (org_caps n) (UpdateActiveOrgRoleForUser ctx u i s)" "keeps (org_caps n) (sess_SetActiveOrg ctx s i s')"
  "keeps (org_caps n) (sess_ClearActiveOrg ctx s)" "keeps (org_caps n) (publish a ctx ev)"
  unfolding org_Create_def org_GetByID_def org_GetBySlug_def org_Update_def org_Delete_def repo_AddMember_def
    repo_RemoveMember_def repo_UpdateMemberRole_def LockMembership_def GetMembership_def ClearActiveOrgForUser_def
    ClearActiveOrgForAllMembers_def UpdateActiveOrgRoleForUser_def sess_SetActiveOrg_def sess_ClearActiveOrg_def
  by (auto intro!: keeps keeps_stmt keeps_exec keeps_affected keeps_WithTx_all caps_update_orgs keeps_publish [OF caps_audit]
      split: if_splits simp: Let_def) (auto simp: org_caps_def set_delete_where)

lemma caps_roles [caps]:
  "keeps I (requireMemberMutation m r)" "keeps I (membershipRaceError ctx i u q)"
  unfolding requireMemberMutation_def requireOrgRole_def membershipRaceError_def
  by (auto intro!: keeps split: option.split)

lemma caps_lockActorAndTarget [caps]: "keeps (org_caps n) (lockActorAndTarget svc ctx i a t)"
  unfolding lockActorAndTarget_def Let_def by (auto intro!: keeps caps)

lemma caps_transactions [caps]:
  "(\<And>tx r. keeps (org_caps n) (f tx r)) \<Longrightarrow> keeps (org_caps n) (removeMemberTx ctx i u f)"
  "os_maxOrgs svc \<le> n \<Longrightarrow> (\<And>tx. keeps (org_caps n) (g tx)) \<Longrightarrow> keeps (org_caps n) (addMemberTx svc ctx i u r g)"
  "os_maxOrgs svc \<le> n \<Longrightarrow> (\<And>tx r. keeps (org_caps n) (f tx r)) \<Longrightarrow> keeps (org_caps n) (updateMemberRoleTx svc ctx i u r f)"
  "(\<And>tx o1. keeps (org_caps n) (h tx o1)) \<Longrightarrow> keeps (org_caps n) (deleteOrgTx ctx i h)"
  unfolding removeMemberTx_def addMemberTx_def updateMemberRoleTx_def deleteOrgTx_def Let_def
  by (auto intro!: keeps keeps_WithTx_all caps split: option.split sum.split)

lemma caps_handlers:
  assumes "os_maxOrgs svc \<le> n"
  shows "keeps (org_caps n) (CreateOrg svc ctx name slug u)" "keeps (org_caps n) (UpdateOrg ctx i a nm sl)"
    "keeps (org_caps n) (DeleteOrg svc ctx i a)" "keeps (org_caps n) (AddMember svc ctx i u r a)"
    "keeps (org_caps n) (RemoveMember svc ctx i u a)" "keeps (org_caps n) (UpdateMemberRole svc ctx i u r a)"
    "keeps (org_caps n) (LeaveOrg svc ctx i u)" "keeps (org_caps n) (SetActiveOrg svc ctx s u i)"
    "keeps (org_caps n) (ClearActiveOrg ctx s)" "keeps (org_caps n) (AdminDeleteOrg svc ctx i a)"
    "keeps (org_caps n) (AdminAddMember svc ctx i u r a)" "keeps (org_caps n) (AdminRemoveMember svc ctx i u a)"
    "keeps (org_caps n) (AdminUpdateMemberRole svc ctx i u r a)"
  unfolding CreateOrg_def UpdateOrg_def DeleteOrg_def AddMember_def RemoveMember_def UpdateMemberRole_def LeaveOrg_def
    SetActiveOrg_def ClearActiveOrg_def AdminDeleteOrg_def AdminAddMember_def AdminRemoveMember_def AdminUpdateMemberRole_def Let_def
  using assms by (auto intro!: keeps keeps_WithTx_all caps split: option.split sum.split)

section \<open>Sessions act in memberships\<close>

text \<open>Every live session that acts in an organisation holds its user's current role there. \<open>who\<close> is the
  user of each session id, which never changes.\<close>

definition acting_ok :: "org_member list \<Rightarrow> session \<Rightarrow> bool" where
  "acting_ok ms s \<longleftrightarrow> (\<forall>j. \<not> s_IsRevoked s \<longrightarrow> s_ActiveOrgID s = Some j \<longrightarrow>
     list_ex (\<lambda>m. is_member j (s_UserID s) m \<and> s_ActiveOrgRole s = Some (role_string (m_Role m))) ms)"

definition active_ok :: "(string \<Rightarrow> string) \<Rightarrow> tables \<Rightarrow> bool" where
  "active_ok who d \<longleftrightarrow> distinct (map member_key (members d)) \<and>
     (\<forall>s \<in> set (sessions d). s_UserID s = who (s_ID s) \<and> acting_ok (members d) s)"

lemma active_put_new [simp]:
  "active_ok who (put_invites vs d) = active_ok who d" "active_ok who (put_org_invites ois d) = active_ok who d"
  "active_ok who (put_email_changes ecs d) = active_ok who d" "active_ok who (put_recoveries rrs d) = active_ok who d"
  "active_ok who (put_providers pas d) = active_ok who d"
  by (simp_all add: active_ok_def)

lemma active_ok_counters: "counters_only d d' \<Longrightarrow> active_ok who d' = active_ok who d"
  by (simp add: counters_only_def active_ok_def)

lemma acting_okD: "acting_ok ms s \<Longrightarrow> \<not> s_IsRevoked s \<Longrightarrow> s_ActiveOrgID s = Some j \<Longrightarrow>
    \<exists>m \<in> set ms. is_member j (s_UserID s) m \<and> s_ActiveOrgRole s = Some (role_string (m_Role m))"
  by (auto simp: acting_ok_def list_ex_iff)

lemma acting_clear [simp]: "acting_ok ms (clear_org s)" "s_UserID (clear_org s) = s_UserID s" "s_ID (clear_org s) = s_ID s"
  by (simp_all add: acting_ok_def clear_org_def)

lemma acting_removed:
  assumes "acting_ok ms s" and "\<not> (s_UserID s = u \<and> s_ActiveOrgID s = Some i \<and> \<not> s_IsRevoked s)"
  shows "acting_ok (delete_where (\<lambda>m. is_member i u m \<and> m_Role m = r) ms) s"
  unfolding acting_ok_def
proof (intro allI impI)
  fix j assume s: "\<not> s_IsRevoked s" "s_ActiveOrgID s = Some j"
  from acting_okD [OF assms(1) s] obtain m where
    m: "m \<in> set ms" "is_member j (s_UserID s) m" "s_ActiveOrgRole s = Some (role_string (m_Role m))" by blast
  with assms(2) s have "\<not> is_member i u m" by (auto simp: is_member_def)
  with m show "list_ex (\<lambda>m. is_member j (s_UserID s) m \<and> s_ActiveOrgRole s = Some (role_string (m_Role m)))
      (delete_where (\<lambda>m. is_member i u m \<and> m_Role m = r) ms)"
    by (auto simp: list_ex_iff set_delete_where)
qed

lemma active_removed: "active_ok who d \<Longrightarrow> removed i u r d d' \<Longrightarrow> active_ok who d'"
  by (auto simp: active_ok_def removed_def distinct_map_delete_where set_update_where intro: acting_removed)

lemma acting_role:
  assumes ok: "acting_ok ms s" and m: "m \<in> set ms" "is_member i u m" and r: "m_Role m = q"
    and s': "s' = (if s_UserID s = u \<and> s_ActiveOrgID s = Some i \<and> \<not> s_IsRevoked s
       then s\<lparr>s_ActiveOrgRole := Some (role_string r')\<rparr> else s)"
  shows "acting_ok (update_where (\<lambda>m. is_member i u m \<and> m_Role m = q) (\<lambda>m. m\<lparr>m_Role := r'\<rparr>) ms) s'"
  unfolding acting_ok_def
proof (intro allI impI)
  fix j assume j: "\<not> s_IsRevoked s'" "s_ActiveOrgID s' = Some j"
  then have j0: "\<not> s_IsRevoked s" "s_ActiveOrgID s = Some j" by (auto simp: s' split: if_splits)
  let ?ms = "update_where (\<lambda>m. is_member i u m \<and> m_Role m = q) (\<lambda>m. m\<lparr>m_Role := r'\<rparr>) ms"
  show "list_ex (\<lambda>m. is_member j (s_UserID s') m \<and> s_ActiveOrgRole s' = Some (role_string (m_Role m))) ?ms"
  proof (cases "s_UserID s = u \<and> j = i")
    case True
    have "m\<lparr>m_Role := r'\<rparr> \<in> set ?ms" unfolding set_update_where using m r by force
    moreover have "is_member j (s_UserID s') (m\<lparr>m_Role := r'\<rparr>)" using True m(2) by (simp add: s' is_member_def)
    moreover have "s_ActiveOrgRole s' = Some (role_string r')" using True j0 by (simp add: s')
    ultimately show ?thesis unfolding list_ex_iff by force
  next
    case False
    from acting_okD [OF ok j0] obtain n where
      n: "n \<in> set ms" "is_member j (s_UserID s) n" "s_ActiveOrgRole s = Some (role_string (m_Role n))" by blast
    with False have "\<not> is_member i u n" by (auto simp: is_member_def)
    with n(1) have "n \<in> set ?ms" unfolding set_update_where by force
    with n False j0 show ?thesis unfolding list_ex_iff by (auto simp: s')
  qed
qed

lemma active_role:
  assumes "active_ok who d" and "role_changed i u (m_Role m) r d d'" and "m \<in> set (members d)" "is_member i u m"
  shows "active_ok who d'"
proof -
  have "map member_key (members d') = map member_key (members d)"
    using assms(2) unfolding role_changed_def by (simp add: map_update_where member_key_def)
  moreover have "s_UserID s' = who (s_ID s') \<and> acting_ok (members d') s'" if s': "s' \<in> set (sessions d')" for s'
  proof -
    from s' assms(2) obtain s where s: "s \<in> set (sessions d)"
      "s' = (if s_UserID s = u \<and> s_ActiveOrgID s = Some i \<and> \<not> s_IsRevoked s
         then s\<lparr>s_ActiveOrgRole := Some (role_string r)\<rparr> else s)"
      by (auto simp: role_changed_def set_update_where)
    with assms(1) have "acting_ok (members d) s" "s_UserID s = who (s_ID s)" by (auto simp: active_ok_def)
    with acting_role [OF _ assms(3,4) refl s(2)] assms(2) s(2) show ?thesis by (simp add: role_changed_def)
  qed
  ultimately show ?thesis using assms(1) by (simp add: active_ok_def)
qed

lemma active_added: "active_ok who d \<Longrightarrow> added i u r d d' \<Longrightarrow> active_ok who d'"
proof -
  assume ok: "active_ok who d" and ad: "added i u r d d'"
  then obtain t where ms: "members d' = members d @ [\<lparr>m_OrgID = i, m_UserID = u, m_Role = r, m_JoinedAt = t\<rparr>]"
    "\<not> list_ex (is_member i u) (members d)" "sessions d' = sessions d" by (auto simp: added_def)
  have "acting_ok (members d) s \<Longrightarrow> acting_ok (members d') s" for s
    by (auto simp: acting_ok_def ms(1))
  moreover have "(i, u) \<notin> member_key ` set (members d)"
    using ms(2) by (auto simp: list_ex_iff is_member_def member_key_def)
  ultimately show ?thesis using ok ms by (auto simp: active_ok_def member_key_def)
qed

lemma active_deleted:
  assumes ok: "active_ok who d" and ms: "members d' = delete_where (\<lambda>m. m_OrgID m = i) (members d)"
    and ss: "sessions d' = update_where (\<lambda>s. s_ActiveOrgID s = Some i) clear_org (sessions d)"
  shows "active_ok who d'"
proof -
  have "acting_ok (delete_where (\<lambda>m. m_OrgID m = i) (members d)) s" if "acting_ok (members d) s" "s_ActiveOrgID s \<noteq> Some i" for s
    unfolding acting_ok_def
  proof (intro allI impI)
    fix j assume s: "\<not> s_IsRevoked s" "s_ActiveOrgID s = Some j"
    from acting_okD [OF that(1) s] that(2) s
    show "list_ex (\<lambda>m. is_member j (s_UserID s) m \<and> s_ActiveOrgRole s = Some (role_string (m_Role m)))
        (delete_where (\<lambda>m. m_OrgID m = i) (members d))"
      by (auto simp: list_ex_iff set_delete_where is_member_def)
  qed
  with ok show ?thesis
    by (auto simp: active_ok_def ms ss distinct_map_delete_where set_update_where)
qed

lemma active_lock [simp]: "active_ok who (put_members (members d) d) = active_ok who d"
  by simp

lemma wp_publish_active: "c_tx ctx \<Longrightarrow> active_ok who d \<Longrightarrow> wp (publish a ctx ev) (on_ok (active_ok who)) d"
  by (rule frame_publish) (auto intro: on_okI simp: active_ok_counters)

lemma wp_ret_ok: "P d \<Longrightarrow> wp (ret a) (on_ok P) d"
  by (rule wp_ret) simp

lemmas tx_heads = wp_bnd [of "lockActorAndTarget _ _ _ _ _"] wp_lockActorAndTarget framed_lock
  wp_seq [of "requireMemberMutation _ _"] wp_requireMemberMutation

lemma active_body:
  assumes "c_tx tx" and "active_ok who d"
  shows "wp (bnd (removeMemberTx tx i u (\<lambda>tx2 _. publish p tx2 ev)) (\<lambda>_. ret ())) (on_ok (active_ok who)) d"
    and "wp (bnd (updateMemberRoleTx svc tx i u q (\<lambda>tx2 _. publish p tx2 ev)) (\<lambda>_. ret ())) (on_ok (active_ok who)) d"
    and "wp (removeMemberTx tx i u (\<lambda>tx2 _. publish p tx2 ev)) (on_ok (active_ok who)) d"
    and "wp (updateMemberRoleTx svc tx i u q (\<lambda>tx2 _. publish p tx2 ev)) (on_ok (active_ok who)) d"
    and "wp (addMemberTx svc tx i u q (\<lambda>tx2. publish p tx2 ev)) (on_ok (active_ok who)) d"
    and "wp (addMember_body svc i u q (\<lambda>tx2. publish p tx2 ev) tx) (on_ok (active_ok who)) d"
  using assms by (auto intro!: wp_bnd [of "removeMemberTx _ _ _ _"] wp_bnd [of "updateMemberRoleTx _ _ _ _ _ _"] spec_removeMemberTx
      spec_updateMemberRoleTx spec_addMemberTx spec_addMember_body wp_ret_ok intro: active_removed active_role active_added)

lemma active_member_handlers:
  assumes "\<not> c_tx ctx"
  shows "keeps (active_ok who) (AddMember svc ctx i u r a)" "keeps (active_ok who) (RemoveMember svc ctx i u a)"
    "keeps (active_ok who) (UpdateMemberRole svc ctx i u r a)" "keeps (active_ok who) (LeaveOrg svc ctx i u)"
  unfolding AddMember_def RemoveMember_def UpdateMemberRole_def LeaveOrg_def Let_def using assms
  by (auto intro!: keeps keeps_tx_ok wp_WithTx tx_heads wp_fail active_body split: option.split sum.split)

lemma active_admin_handlers:
  assumes "\<not> c_tx ctx"
  shows "keeps (active_ok who) (AdminAddMember svc ctx i u r a)" "keeps (active_ok who) (AdminRemoveMember svc ctx i u a)"
    "keeps (active_ok who) (AdminUpdateMemberRole svc ctx i u r a)"
proof -
  let ?c = "ctx\<lparr>c_tx := True\<rparr>"
  have "keeps (active_ok who) (addMemberTx svc ctx i u q (\<lambda>tx2. publish p tx2 ev))" for q p ev
    unfolding addMemberTx_body using assms by (auto intro!: keeps keeps_tx_ok wp_WithTx active_body)
  moreover have "keeps (active_ok who) (removeMemberTx ctx i u (\<lambda>tx2 _. publish p tx2 ev))" for p ev
    using active_body(3) [of ?c who _ i u p ev] assms unfolding removeMemberTx_def by (intro keeps_tx_ok) auto
  moreover have "keeps (active_ok who) (updateMemberRoleTx svc ctx i u q (\<lambda>tx2 _. publish p tx2 ev))" for p ev q
    using active_body(4) [of ?c who _ svc i u q p ev] assms unfolding updateMemberRoleTx_def by (intro keeps_tx_ok) auto
  ultimately show "keeps (active_ok who) (AdminAddMember svc ctx i u r a)"
    "keeps (active_ok who) (AdminRemoveMember svc ctx i u a)" "keeps (active_ok who) (AdminUpdateMemberRole svc ctx i u r a)"
    unfolding AdminAddMember_def AdminRemoveMember_def AdminUpdateMemberRole_def
    by (auto intro!: keeps split: option.split)
qed

lemma active_set:
  assumes ok: "active_ok who d" and m: "m \<in> set (members d)" "is_member i u m" and who: "who sid = u"
  shows "active_ok who (put_sessions (update_where (\<lambda>s. s_ID s = sid \<and> \<not> s_IsRevoked s)
     (\<lambda>s. s\<lparr>s_ActiveOrgID := Some i, s_ActiveOrgRole := Some (role_string (m_Role m))\<rparr>) (sessions d)) d)"
proof -
  have "acting_ok (members d) (s\<lparr>s_ActiveOrgID := Some i, s_ActiveOrgRole := Some (role_string (m_Role m))\<rparr>)"
    if "s_UserID s = u" for s :: session
    using m that by (auto simp: acting_ok_def list_ex_iff)
  with ok who show ?thesis by (auto simp: active_ok_def set_update_where)
qed

lemma active_clear:
  "active_ok who d \<Longrightarrow> active_ok who (put_sessions (update_where P clear_org (sessions d)) d)"
  by (auto simp: active_ok_def set_update_where)

lemma active_SetActiveOrg:
  assumes "\<not> c_tx ctx" and "who s = u"
  shows "keeps (active_ok who) (SetActiveOrg svc ctx s u i)"
  unfolding SetActiveOrg_def sess_SetActiveOrg_def using assms
  by (auto intro!: keeps_tx_ok wp_WithTx framed_lock wp_fail wp_exec active_set split: option.split dest!: sym [of _ "select1 _ _"] select1_Some)

lemma active_ClearActiveOrg: "keeps (active_ok who) (ClearActiveOrg ctx s)"
  unfolding ClearActiveOrg_def sess_ClearActiveOrg_def by (auto intro!: keeps_exec active_clear)

lemma active_deleteOrgTx:
  assumes "\<not> c_tx ctx"
  shows "keeps (active_ok who) (deleteOrgTx ctx i (\<lambda>tx _. publish p tx ev))"
proof -
  have fin: "active_ok who (put_sessions (update_where (\<lambda>s. s_ActiveOrgID s = Some i) clear_org
        (update_where (\<lambda>s. s_ActiveOrgID s = Some i \<and> \<not> s_IsRevoked s) clear_org (sessions d1)))
      (put_members (delete_where (\<lambda>m. m_OrgID m = i) (members d1)) (put_orgs os d1)))"
    if "active_ok who d" "counters_only d d1" for d d1 os
  proof (rule active_deleted)
    show "active_ok who (put_sessions (update_where (\<lambda>s. s_ActiveOrgID s = Some i \<and> \<not> s_IsRevoked s) clear_org (sessions d1)) d1)"
      using that by (intro active_clear) (simp add: active_ok_counters)
  qed simp_all
  have "wp (WithTx (ctx\<lparr>c_tx := True\<rparr>) (\<lambda>tx.
                seq (DecrementOwnerCountForOrgOwners tx i)
                (seq (ClearActiveOrgForAllMembers tx i)
                (bnd (org_Delete tx i) (\<lambda>deleted.
                 if \<not> deleted then fail ErrOrgNotFound else publish p tx ev))))) (on_ok (active_ok who)) d" if "active_ok who d" for d
    unfolding ClearActiveOrgForAllMembers_def org_Delete_def using that
    by (auto intro!: wp_WithTx frame_seq frames wp_seq wp_exec wp_bnd wp_stmt wp_fail wp_publish_active fin split: sum.split)
  with assms show ?thesis
    unfolding deleteOrgTx_def org_GetByID_def by (auto intro!: keeps keeps_tx_ok split: option.split)
qed

lemma active_DeleteOrg:
  assumes "\<not> c_tx ctx"
  shows "keeps (active_ok who) (DeleteOrg svc ctx i a)" "keeps (active_ok who) (AdminDeleteOrg svc ctx i a)"
  unfolding DeleteOrg_def AdminDeleteOrg_def using assms by (auto intro!: keeps active_deleteOrgTx)

lemma active_CreateOrg:
  assumes "\<not> c_tx ctx"
  shows "keeps (active_ok who) (CreateOrg svc ctx name slug u)"
proof -
  have fin: "wp (seq (repo_AddMember tx \<lparr>m_OrgID = n, m_UserID = u, m_Role = Owner, m_JoinedAt = t\<rparr>) (seq (publish p tx ev) (ret o1)))
      (on_ok (active_ok who)) (put_orgs os d1)" if "c_tx tx" "active_ok who d" "counters_only d d1" for tx d d1 p ev n t os o1
  proof -
    have "active_ok who (put_members (members d1 @ [\<lparr>m_OrgID = n, m_UserID = u, m_Role = Owner, m_JoinedAt = t\<rparr>]) (put_orgs os d1))"
      if "\<not> list_ex (is_member n u) (members d1)"
      using that \<open>counters_only d d1\<close>
      by (intro active_added [OF \<open>active_ok who d\<close>, of n u Owner]) (auto simp: added_def counters_only_def)
    with that show ?thesis
      unfolding repo_AddMember_def
      by (auto intro!: wp_seq [of "stmt _ _"] wp_stmt wp_seq [of "publish _ _ _"] wp_ret_ok frame_publish
          simp: active_ok_counters split: sum.split if_splits)
  qed
  show ?thesis
    unfolding CreateOrg_def org_GetBySlug_def org_Create_def Let_def using assms
    by (auto intro!: keeps keeps_tx_ok wp_WithTx frame_seq frames wp_bnd wp_query wp_fail wp_now wp_draw wp_attempt wp_stmt fin
        split: sum.split if_splits)
qed

end
