(* ===== verification/Accounts.thy ===== *)
theory Accounts
  imports OrgProps Passwords Claims PasswordPolicy
begin

text \<open>
  Account deletion: \<open>internal/service/account_deletion.go\<close> and \<open>account_deletion_code.go\<close>, the
  administrator's \<open>DeleteUser\<close> and \<open>BulkDeleteUsers\<close>, and the self-service deletions and
  \<open>ChangeName\<close> of \<open>auth.go\<close>. \<open>Config\<close> is the part of the configuration the modelled services read;
  rendering a template is a draw of the world, which may fail.
\<close>

section \<open>Configuration of the account services\<close>

record config =
  cf_PasswordAuthenticationDisabled :: bool
  cf_OAuthAuthenticationDisabled :: bool
  cf_EmailPassword :: bool
  cf_InviteOnly :: bool
  cf_RequireEmailVerification :: bool
  cf_VerificationCodeTTL :: duration
  cf_VerificationResendInterval :: duration
  cf_TokenTTL :: duration
  cf_RequireEmail2FA :: bool
  cf_DefaultTwoFactorEnabled :: bool
  cf_TwoFactorCodeTTL :: duration
  cf_DisableAdminTwoFactor :: bool
  cf_TwoFactorBindingKey :: string
  cf_DisableTwoFactorChallengeBinding :: bool
  cf_OTPPepper :: string
  cf_SecretRotatedAt :: time

record auth_service =
  au_config :: config
  au_policy :: policy
  au_unicode :: unicode_tables
  au_lower :: "string \<Rightarrow> string"
  au_trim :: "string \<Rightarrow> string"
  au_emailOK :: "string \<Rightarrow> bool"
  au_hasher :: service_hasher
  au_rehash :: "string \<Rightarrow> nat option \<Rightarrow> bool"
  au_mailer :: bool
  au_recovery :: bool
  au_sqlite :: bool
  au_audit :: "audit_service option"
  au_sessions :: session_service

text \<open>\<open>config.PasswordPolicy.Validate\<close>, and \<open>strings.TrimSpace(strings.ToLower(email))\<close>.\<close>

definition policy_check :: "auth_service \<Rightarrow> string \<Rightarrow> unit action" where
  "policy_check svc password = (case Validate (au_unicode svc) (au_policy svc) password of None \<Rightarrow> ret () | Some e \<Rightarrow> fail e)"

definition normalize_email :: "auth_service \<Rightarrow> string \<Rightarrow> string" where
  "normalize_email svc e = au_trim svc (au_lower svc e)"

text \<open>Rendering and sending one message.\<close>

definition Render :: "mail \<Rightarrow> mail action" where
  "Render m = bnd draw (\<lambda>_. ret m)"

definition email :: "string \<Rightarrow> string \<Rightarrow> string \<Rightarrow> mail" where
  "email to kind code = \<lparr>mail_to = to, mail_kind = kind, mail_code = code\<rparr>"

text \<open>\<open>generateID\<close>: a fresh UUID. \<open>otp.Generate\<close>: one draw per character of the alphabet.\<close>

definition generateID :: "string action" where
  "generateID = draw"

definition otp_alphabet :: string where
  "otp_alphabet = ''ABCDEFGHJKLMNPQRSTUVWXYZ23456789''"

definition otp_digits :: string where
  "otp_digits = ''0123456789''"

fun otp_generate :: "nat \<Rightarrow> string \<Rightarrow> string action" where
  "otp_generate 0 alphabet = ret ''''"
| "otp_generate (Suc n) alphabet =
     bnd (wrap ''otp generate'' draw) (\<lambda>r.
     bnd (otp_generate n alphabet) (\<lambda>cs.
     ret (alphabet ! (seed_of r mod length alphabet) # cs)))"

definition otp_Generate :: "nat \<Rightarrow> string action" where
  "otp_Generate n = otp_generate n otp_alphabet"

definition GenerateNumeric :: "nat \<Rightarrow> string action" where
  "GenerateNumeric n = otp_generate n otp_digits"

definition discardUndeliveredToken :: "ctx \<Rightarrow> string \<Rightarrow> unit action" where
  "discardUndeliveredToken ctx i = wrap ''discard undelivered token'' (DeleteUnusedByID ctx i)"

section \<open>The deletion\<close>

record account_deletion =
  del_orgs :: bool
  del_sqlite :: bool

definition ListUserMemberships :: "ctx \<Rightarrow> string \<Rightarrow> string list action" where
  "ListUserMemberships ctx userID = query ctx (\<lambda>d.
     map m_OrgID (sort_key m_JoinedAt (filter (\<lambda>m. m_UserID m = userID) (members d))))"

fun unwind_memberships :: "ctx \<Rightarrow> string \<Rightarrow> string list \<Rightarrow> unit action \<Rightarrow> unit action" where
  "unwind_memberships ctx userID [] k = k"
| "unwind_memberships ctx userID (i # is) k =
     bnd (GetMembership ctx i userID) (\<lambda>member. case member of
       None \<Rightarrow> unwind_memberships ctx userID is k
     | Some m \<Rightarrow>
         bnd (repo_RemoveMember ctx i userID (m_Role m)) (\<lambda>removed.
         if \<not> removed then fail ErrOrgMemberConflict
         else
           seq (run_if (m_Role m = Owner)
                  (seq (TryDecrementOrgOwnerCount ctx i) (DecrementUserOrgOwnerCount ctx userID)))
           (seq (DecrementOrgMemberCount ctx i)
           (unwind_memberships ctx userID is k))))"

definition delete_tail :: "account_deletion \<Rightarrow> ctx \<Rightarrow> string \<Rightarrow> (ctx \<Rightarrow> unit action) \<Rightarrow> unit action" where
  "delete_tail del tx userID rec =
     seq (DeleteAllForUser tx userID)
     (bnd (DeleteWithAdminGuard (del_sqlite del) tx userID) (\<lambda>deleted.
      if \<not> deleted
      then bnd (usr_GetByID tx userID) (\<lambda>user. case user of
             None \<Rightarrow> fail ErrUserNotFound | Some _ \<Rightarrow> fail ErrCannotDeleteLastAdmin)
      else rec tx))"

definition DeleteUserAndRecord :: "account_deletion \<Rightarrow> ctx \<Rightarrow> string \<Rightarrow> (ctx \<Rightarrow> unit action) \<Rightarrow> unit action" where
  "DeleteUserAndRecord del ctx userID rec = WithAdminGuard (del_sqlite del) ctx (\<lambda>tx.
     if del_orgs del
     then bnd (ListUserMemberships tx userID) (\<lambda>ms. unwind_memberships tx userID ms (delete_tail del tx userID rec))
     else delete_tail del tx userID rec)"

definition deleteWithCode :: "account_deletion \<Rightarrow> ctx \<Rightarrow> string \<Rightarrow> token \<Rightarrow> (ctx \<Rightarrow> unit action) \<Rightarrow> unit action" where
  "deleteWithCode del ctx userID tok rec = WithAdminGuard (del_sqlite del) ctx (\<lambda>tx.
     bnd now (\<lambda>t.
     bnd (ConsumeIfValid tx \<lparr>c_ID = t_ID tok, c_TokenHash = t_TokenHash tok, c_UserID = userID,
            c_Type = TokenDeleteAccount, c_UsedAt = t\<rparr>) (\<lambda>claimed.
     if \<not> claimed then fail ErrDeleteCodeInvalid
     else DeleteUserAndRecord del tx userID rec)))"

section \<open>The administrator's deletions\<close>

text \<open>\<open>del\<close> is the attached coordinator; without one the service fails closed.\<close>

definition DeleteUser :: "admin_service \<Rightarrow> account_deletion option \<Rightarrow> ctx \<Rightarrow> string \<Rightarrow> string \<Rightarrow> unit action" where
  "DeleteUser svc del ctx userID actorID =
     seq (requireAdminRole ctx actorID)
     (bnd (targetUser ctx userID) (\<lambda>_. case del of
        None \<Rightarrow> fail ErrInternal
      | Some dl \<Rightarrow>
          bnd (attempt (DeleteUserAndRecord dl ctx userID
                 (\<lambda>tx. publish (ad_audit svc) tx (admin_event ''admin.user.deleted'' actorID userID)))) (\<lambda>r. case r of
            Inl e \<Rightarrow> if errors_is e ErrUserNotFound
                     then bnd (targetUser ctx userID) (\<lambda>_. fail e)
                     else fail e
          | Inr _ \<Rightarrow> ret ())))"

definition BulkDeleteUsers ::
  "admin_service \<Rightarrow> account_deletion option \<Rightarrow> ctx \<Rightarrow> string list \<Rightarrow> string \<Rightarrow> bulk_result action" where
  "BulkDeleteUsers svc del ctx userIDs actorID = bulk_action ctx actorID userIDs (\<lambda>i. DeleteUser svc del ctx i actorID)"

section \<open>Self-service\<close>

definition user_event :: "string \<Rightarrow> string \<Rightarrow> audit_event" where
  "user_event typ userID = \<lparr>e_Type = typ, e_Actor = userID, e_Ref = ''''\<rparr>"

definition updateUserName :: "ctx \<Rightarrow> user \<Rightarrow> string \<Rightarrow> time \<Rightarrow> unit action" where
  "updateUserName ctx user name t =
     bnd (UpdateName ctx (u_ID user) name t) (\<lambda>updated. if \<not> updated then fail ErrUserNotFound else ret ())"

definition ChangeName :: "auth_service \<Rightarrow> ctx \<Rightarrow> string \<Rightarrow> string \<Rightarrow> unit action" where
  "ChangeName svc ctx userID name =
     bnd (wrap ''change name: lookup'' (usr_GetByID ctx userID)) (\<lambda>found. case found of
       None \<Rightarrow> fail ErrUserNotFound
     | Some user \<Rightarrow>
         if name = '''' then fail (NewError ''validation_error'' ''Name cannot be empty'')
         else bnd now (\<lambda>t.
           bnd (attempt (updateUserName ctx user name t)) (\<lambda>r. case r of
             Inl e \<Rightarrow> fail ErrInternal
           | Inr _ \<Rightarrow> publish (au_audit svc) ctx (user_event ''user.name_changed'' userID))))"

definition DeleteAccount ::
  "auth_service \<Rightarrow> account_deletion option \<Rightarrow> ctx \<Rightarrow> string \<Rightarrow> string \<Rightarrow> unit action" where
  "DeleteAccount svc del ctx userID password =
     bnd (wrap ''delete account: lookup'' (usr_GetByID ctx userID)) (\<lambda>found. case found of
       None \<Rightarrow> fail ErrUserNotFound
     | Some user \<Rightarrow>
       (case u_PasswordHash user of
          None \<Rightarrow> fail ErrPasswordRequired
        | Some h \<Rightarrow>
          bnd (attempt (compare_work (au_hasher svc) password h (u_PepperVersion user))) (\<lambda>r. case r of
            Inl e \<Rightarrow> fail (passwordCompareError e (NewError ''wrong_password'' ''Password is incorrect''))
          | Inr _ \<Rightarrow> (case del of
              None \<Rightarrow> fail ErrInternal
            | Some dl \<Rightarrow> WithAdminGuard (au_sqlite svc) ctx (\<lambda>tx.
                bnd (lockPasswordIdentity (au_sqlite svc) tx user) (\<lambda>_.
                DeleteUserAndRecord dl tx userID
                  (\<lambda>tx2. publish (au_audit svc) tx2 (user_event ''user.account_deleted'' userID))))))))"

definition deleteAccountCodeTTL :: duration where
  "deleteAccountCodeTTL = 10 * minute"

text \<open>A new row of a code a user is sent.\<close>

definition code_token :: "string \<Rightarrow> user \<Rightarrow> string \<Rightarrow> token_type \<Rightarrow> time \<Rightarrow> time \<Rightarrow> token" where
  "code_token i user h ty expires created =
     \<lparr>t_ID = i, t_UserID = Some (u_ID user), t_Email = u_Email user, t_TokenHash = h, t_Type = ty, t_ExpiresAt = expires,
      t_UsedAt = None, t_CreatedAt = created, t_CodeVerifier = None, t_Attempts = 0, t_ResendCount = 0,
      t_ContextHash = '''', t_EncryptedPayload = ''''\<rparr>"

text \<open>Delivering a code; when it is not delivered its token is discarded.\<close>

definition deliver_code :: "ctx \<Rightarrow> string \<Rightarrow> mail \<Rightarrow> go_err \<Rightarrow> unit action" where
  "deliver_code ctx tokenID m sendErr =
     bnd (attempt (Render m)) (\<lambda>r. case r of
       Inl e \<Rightarrow> bnd (attempt (discardUndeliveredToken ctx tokenID)) (\<lambda>c. case c of
           Inl cleanupErr \<Rightarrow> fail (Wrapf '''' [e, cleanupErr])
         | Inr _ \<Rightarrow> fail ErrInternal)
     | Inr msg \<Rightarrow> bnd (attempt (send_mail ctx msg)) (\<lambda>s. case s of
           Inl e \<Rightarrow> bnd (attempt (discardUndeliveredToken ctx tokenID)) (\<lambda>c. case c of
               Inl cleanupErr \<Rightarrow> fail (Wrapf '''' [e, cleanupErr])
             | Inr _ \<Rightarrow> fail sendErr)
         | Inr _ \<Rightarrow> ret ()))"

definition internal :: "'a action \<Rightarrow> 'a action" where
  "internal m = bnd (attempt m) (\<lambda>r. case r of Inl e \<Rightarrow> fail ErrInternal | Inr a \<Rightarrow> ret a)"

definition RequestDeleteAccount :: "auth_service \<Rightarrow> ctx \<Rightarrow> string \<Rightarrow> unit action" where
  "RequestDeleteAccount svc ctx userID =
     (let cf = au_config svc;
          mint = (\<lambda>user.
            bnd (internal (otp_Generate 8)) (\<lambda>raw.
            if cf_OTPPepper cf = '''' then fail ErrInternal
            else bnd now (\<lambda>t. bnd generateID (\<lambda>i.
              seq (internal (tok_Create ctx (code_token i user (hashOTP raw (cf_OTPPepper cf)) TokenDeleteAccount
                     (t + deleteAccountCodeTTL) 0)))
                  (deliver_code ctx i (email (u_Email user) ''delete_account'' raw)
                     (NewError ''email_failed'' ''Failed to send deletion email'')))))) in
      bnd (wrap ''request delete account: lookup'' (usr_GetByID ctx userID)) (\<lambda>found. case found of
        None \<Rightarrow> fail ErrUserNotFound
      | Some user \<Rightarrow>
        if HasPassword user
        then fail (NewError ''password_account'' ''Use DELETE /auth/account with password to delete your account'')
        else if \<not> au_mailer svc then fail ErrEmailNotConfigured
        else bnd (wrap ''request delete account: check outstanding code'' (HasValidByUserAndType ctx userID TokenDeleteAccount)) (\<lambda>hasValid.
          if \<not> hasValid then mint user
          else bnd (wrap ''request delete account: look up outstanding code'' (GetLastByUserAndType ctx userID TokenDeleteAccount)) (\<lambda>last.
            case last of
              None \<Rightarrow> ret ()
            | Some l \<Rightarrow>
                if t_UsedAt l \<noteq> None then ret ()
                else bnd now (\<lambda>t.
                  if t_ExpiresAt l < t \<or> \<not> stalePepper (t_CreatedAt l) (cf_SecretRotatedAt cf) then ret ()
                  else seq (internal (DeleteUnusedByUserAndType ctx userID TokenDeleteAccount)) (mint user))))))"

definition ConfirmDeleteAccount ::
  "auth_service \<Rightarrow> account_deletion option \<Rightarrow> ctx \<Rightarrow> string \<Rightarrow> string \<Rightarrow> unit action" where
  "ConfirmDeleteAccount svc del ctx userID code =
     (let cf = au_config svc in
      bnd (wrap ''confirm delete account: lookup'' (usr_GetByID ctx userID)) (\<lambda>found. case found of
        None \<Rightarrow> fail ErrUserNotFound
      | Some user \<Rightarrow>
        if cf_OTPPepper cf = '''' then fail ErrInternal
        else bnd (wrap ''confirm delete account: lookup'' (GetLastByUserAndType ctx userID TokenDeleteAccount)) (\<lambda>last. case last of
          None \<Rightarrow> fail ErrDeleteCodeInvalid
        | Some tok \<Rightarrow>
          if t_Type tok \<noteq> TokenDeleteAccount then fail ErrDeleteCodeInvalid
          else if t_UsedAt tok \<noteq> None then fail ErrDeleteCodeAlreadyUsed
          else bnd now (\<lambda>t.
            if t_ExpiresAt tok < t then fail ErrDeleteCodeExpired
            else if stalePepper (t_CreatedAt tok) (cf_SecretRotatedAt cf) then fail ErrDeleteCodeExpired
            else if \<not> verifyOTP code (t_TokenHash tok) (cf_OTPPepper cf) then fail ErrDeleteCodeInvalid
            else if t_UserID tok \<noteq> Some userID then fail ErrDeleteCodeInvalid
            else case del of
              None \<Rightarrow> fail ErrInternal
            | Some dl \<Rightarrow>
                bnd (attempt (deleteWithCode dl ctx userID tok
                       (\<lambda>tx. publish (au_audit svc) tx (user_event ''user.account_deleted'' userID)))) (\<lambda>r. case r of
                  Inl e \<Rightarrow> (if as_auth e \<noteq> None then fail e else fail ErrInternal)
                | Inr _ \<Rightarrow> ret ())))))"

section \<open>The effect of a deletion\<close>

lemma admin_view_shift [simp]: "admin_view (shift a b c d) = admin_view d"
  by (simp add: admin_view_def shift_def usable_admin_def)

lemma last_admin_view:
  "last_admin i d \<longleftrightarrow> (i, True) \<in> set (admin_view d) \<and> (\<forall>j. (j, True) \<in> set (admin_view d) \<longrightarrow> j = i)"
  by (auto simp: last_admin_def admin_view_def list_ex_iff image_iff)

lemma admin_inv_view: "admin_inv d \<longleftrightarrow> distinct (map fst (admin_view d)) \<and> (\<exists>j. (j, True) \<in> set (admin_view d))"
  by (auto simp: admin_inv_def admin_view_def has_admin_def list_ex_iff image_iff o_def)

lemma view_ids: "map fst (admin_view d) = map u_ID (users d)"
  by (simp add: admin_view_def)

lemma delete_where_delete_where:
  "delete_where P (delete_where Q rows) = delete_where (\<lambda>r. Q r \<or> P r) rows"
  by (auto simp: delete_where_def intro: filter_cong)

lemma delete_where_cong: "(\<And>r. r \<in> set rows \<Longrightarrow> P r = Q r) \<Longrightarrow> delete_where P rows = delete_where Q rows"
  by (auto simp: delete_where_def intro: filter_cong)

lemma delete_where_id: "(\<And>r. r \<in> set rows \<Longrightarrow> \<not> P r) \<Longrightarrow> delete_where P rows = rows"
  by (auto simp: delete_where_def)

lemma delete_where_Cons:
  "delete_where (\<lambda>m. m_UserID m = u \<and> m_OrgID m \<in> set is) (delete_where (\<lambda>m. m_UserID m = u \<and> m_OrgID m = i) ms) =
   delete_where (\<lambda>m. m_UserID m = u \<and> m_OrgID m \<in> set (i # is)) ms"
  unfolding delete_where_delete_where by (rule delete_where_cong) auto

lemma delete_member_row:
  assumes "distinct (map member_key (members d))" and "select1 (is_member i u) (members d) = Some m"
  shows "delete_where (\<lambda>x. is_member i u x \<and> m_Role x = m_Role m) (members d) =
     delete_where (\<lambda>x. m_UserID x = u \<and> m_OrgID x = i) (members d)"
  using member_row [OF assms(1)] select_member [OF assms(2)]
  by (intro delete_where_cong) (auto simp: is_member_def)

lemma wp_unwind_frame:
  assumes tx: "c_tx ctx" and err: "\<And>e d'. Q (Inl e) d'"
    and k: "\<And>d'. distinct (map member_key (members d)) \<longrightarrow> members d' = delete_where (\<lambda>m. m_UserID m = u \<and> m_OrgID m \<in> set is) (members d) \<Longrightarrow>
       sessions d' = sessions d \<Longrightarrow> admin_view d' = admin_view d \<Longrightarrow> wp k Q d'"
  shows "wp (unwind_memberships ctx u is k) Q d"
  using k
proof (induction "is" arbitrary: d)
  case Nil
  then show ?case by (simp add: delete_where_def)
next
  case (Cons i "is")
  have rest: "wp (unwind_memberships ctx u is k) Q d'" if "sessions d' = sessions d" "admin_view d' = admin_view d"
    "distinct (map member_key (members d)) \<longrightarrow> members d' = delete_where (\<lambda>m. m_UserID m = u \<and> m_OrgID m = i) (members d)" for d'
  proof (rule Cons.IH)
    fix d2 assume d2: "sessions d2 = sessions d'" "admin_view d2 = admin_view d'"
      "distinct (map member_key (members d')) \<longrightarrow> members d2 = delete_where (\<lambda>m. m_UserID m = u \<and> m_OrgID m \<in> set is) (members d')"
    then show "wp k Q d2" using that delete_where_Cons [of u "is" i "members d"]
      by (intro Cons.prems) (auto simp: distinct_map_delete_where)
  qed
  have none: "wp (unwind_memberships ctx u is k) Q d" if "select1 (is_member i u) (members d) = None"
    using that by (intro rest) (auto simp: select1_None is_member_def intro!: delete_where_id [symmetric])
  have some: "wp (unwind_memberships ctx u is k) Q d'"
    if "select1 (is_member i u) (members d) = Some m"
      "counters_only (put_members (delete_where (\<lambda>x. is_member i u x \<and> m_Role x = m_Role m) (members d)) d) d'" for m d'
    using that(2) delete_member_row [OF _ that(1)] by (intro rest) (simp_all add: counters_only_def)
  show ?case
    using tx err none some
    by (auto intro!: wp_bnd wp_query wp_stmt wp_fail wp_remove_frame simp: GetMembership_def repo_RemoveMember_def Let_def split: option.split)
qed

lemma wp_unwind:
  assumes tx: "c_tx ctx" and inv: "org_inv d" and err: "\<And>e d'. Q (Inl e) d'"
    and k: "\<And>d'. org_inv d' \<Longrightarrow> members d' = delete_where (\<lambda>m. m_UserID m = u \<and> m_OrgID m \<in> set is) (members d) \<Longrightarrow>
       sessions d' = sessions d \<Longrightarrow> admin_view d' = admin_view d \<Longrightarrow> wp k Q d'"
  shows "wp (unwind_memberships ctx u is k) Q d"
  using inv k
proof (induction "is" arbitrary: d)
  case Nil
  from Nil(2) [OF Nil(1)] show ?case by (simp add: delete_where_def)
next
  case (Cons i "is")
  have rest: "wp (unwind_memberships ctx u is k) Q d'" if "org_inv d'" "sessions d' = sessions d" "admin_view d' = admin_view d"
    "members d' = delete_where (\<lambda>m. m_UserID m = u \<and> m_OrgID m = i) (members d)" for d'
  proof (rule Cons.IH [OF that(1)])
    fix d2 assume "org_inv d2" "sessions d2 = sessions d'" "admin_view d2 = admin_view d'"
      "members d2 = delete_where (\<lambda>m. m_UserID m = u \<and> m_OrgID m \<in> set is) (members d')"
    then show "wp k Q d2" using that delete_where_Cons [of u "is" i "members d"] by (intro Cons.prems(2)) auto
  qed
  have none: "wp (unwind_memberships ctx u is k) Q d" if "select1 (is_member i u) (members d) = None"
    using that Cons.prems(1) by (intro rest) (auto simp: select1_None is_member_def intro!: delete_where_id [symmetric])
  have some: "wp (seq (run_if (m_Role m = Owner) (seq (TryDecrementOrgOwnerCount ctx i) (DecrementUserOrgOwnerCount ctx u)))
        (seq (DecrementOrgMemberCount ctx i) (unwind_memberships ctx u is k))) Q
        (put_members (delete_where (\<lambda>x. is_member i u x \<and> m_Role x = m_Role m) (members d)) d)"
    if "select1 (is_member i u) (members d) = Some m" for m
  proof -
    from select_member [OF that] have m: "m \<in> set (members d)" "m_OrgID m = i" "m_UserID m = u" by auto
    note same = delete_member_row [OF org_inv_distinct(3) [OF Cons.prems(1)] that]
    show ?thesis
      by (rule wp_remove_counters [where Q = Q, OF tx Cons.prems(1) m(1) refl err, unfolded m(2,3)], rule rest)
        (use same in auto)
  qed
  show ?case
    using tx err none some
    by (auto intro!: wp_bnd wp_query wp_stmt wp_fail simp: GetMembership_def repo_RemoveMember_def Let_def split: option.split)
qed

lemma org_inv_delete_user:
  assumes inv: "org_inv d" and none: "\<And>m. m \<in> set (members d) \<Longrightarrow> m_UserID m \<noteq> i"
  shows "org_inv (delete_user i d)"
proof -
  let ?f = "\<lambda>x. x\<lparr>o_CreatedBy := None\<rparr>"
  have "map o_ID (update_where P ?f (orgs d)) = map o_ID (orgs d)" for P by (rule map_update_where) simp
  then have ids: "o_ID ` set (update_where P ?f (orgs d)) = o_ID ` set (orgs d)" for P by (metis (no_types) list.set_map)
  have ms: "delete_where (\<lambda>m. m_UserID m = i) (members d) = members d"
    using none by (intro delete_where_id) auto
  have mem: "m_UserID m \<in> u_ID ` set (delete_where (user_id_is i) (users d))" if m: "m \<in> set (members d)" for m
  proof -
    from inv m obtain u where "u \<in> set (users d)" "m_UserID m = u_ID u" by (auto simp: org_inv_def members_ok_def)
    with none [OF m] show ?thesis by (auto simp: set_delete_where user_id_is_def)
  qed
  show ?thesis
    using inv mem unfolding delete_user_def org_inv_def members_ok_def
    by (simp add: distinct_map_delete_where map_update_where ids ms) (auto simp: set_delete_where set_update_where)
qed

lemma delete_user_fields [simp]:
  "members (delete_user i d) = delete_where (\<lambda>m. m_UserID m = i) (members d)"
  "sessions (delete_user i d) = delete_where (\<lambda>s. s_UserID s = i) (sessions d)"
  "users (delete_user i d) = delete_where (user_id_is i) (users d)"
  by (simp_all add: delete_user_def)

lemma admin_view_delete [simp]: "admin_view (delete_user i d) = filter (\<lambda>p. fst p \<noteq> i) (admin_view d)"
  by (simp add: admin_view_def delete_where_def filter_map o_def user_id_is_def)

text \<open>The tables after the deletion of \<open>i\<close>, up to counters and the audit log.\<close>

definition user_gone :: "string \<Rightarrow> tables \<Rightarrow> tables \<Rightarrow> bool" where
  "user_gone i d d' \<longleftrightarrow>
     (distinct (map member_key (members d)) \<longrightarrow> members d' = delete_where (\<lambda>m. m_UserID m = i) (members d)) \<and>
     sessions d' = delete_where (\<lambda>s. s_UserID s = i) (sessions d) \<and>
     admin_view d' = filter (\<lambda>p. fst p \<noteq> i) (admin_view d) \<and>
     (distinct (map u_ID (users d)) \<longrightarrow> \<not> last_admin i d)"

lemma wp_DeleteWithAdminGuard_any:
  assumes "c_tx ctx" and "\<And>e. Q (Inl e) d" and "Q (Inr False) d"
    and "(distinct (map u_ID (users d)) \<longrightarrow> \<not> last_admin i d) \<Longrightarrow> Q (Inr True) (delete_user i d)"
  shows "wp (DeleteWithAdminGuard sq ctx i) Q d"
proof -
  have "wp (bnd (adminReductionAllowed tx i) (\<lambda>allowed. if \<not> allowed then ret False else user_delete_stmt tx i)) Q d"
    if tx: "c_tx tx" for tx
  proof (cases "distinct (map u_ID (users d))")
    case True
    with assms tx show ?thesis
      by (auto intro!: wp_bnd wp_adminReductionAllowed wp_user_delete_stmt wps)
  next
    case False
    with assms tx show ?thesis
      unfolding adminReductionAllowed_def by (auto intro!: wps wp_user_delete_stmt split: prod.split if_splits)
  qed
  with assms show ?thesis
    unfolding DeleteWithAdminGuard_def by (auto intro!: wp_WithAdminGuard)
qed

lemma wp_delete_tail:
  assumes tx: "c_tx ctx" and err: "\<And>e d'. Q (Inl e) d'"
    and rec: "\<And>d'. user_gone i d d' \<Longrightarrow> d' = delete_user i (put_sessions (delete_where (\<lambda>s. s_UserID s = i) (sessions d)) d) \<Longrightarrow>
       wp (rec ctx) Q d'"
  shows "wp (delete_tail del ctx i rec) Q d"
proof -
  let ?d = "put_sessions (delete_where (\<lambda>s. s_UserID s = i) (sessions d)) d"
  have last: "last_admin i ?d = last_admin i d" by (simp add: last_admin_view)
  have "user_gone i d (delete_user i ?d)" if "distinct (map u_ID (users ?d)) \<longrightarrow> \<not> last_admin i ?d"
    using that last by (simp add: user_gone_def) (auto simp: delete_where_def)
  then show ?thesis
    unfolding delete_tail_def DeleteAllForUser_def usr_GetByID_def
    using tx err rec
    by (auto intro!: wp_seq wp_exec wp_bnd wp_query wp_fail wp_DeleteWithAdminGuard_any split: sum.split option.split)
qed

lemma user_gone_trans:
  assumes "distinct (map member_key (members d)) \<longrightarrow> members d1 = delete_where (\<lambda>m. m_UserID m = i \<and> P m) (members d)"
    "sessions d1 = sessions d"
    "admin_view d1 = admin_view d" and "user_gone i d1 d2"
  shows "user_gone i d d2"
proof -
  have "delete_where (\<lambda>m. m_UserID m = i) (delete_where (\<lambda>m. m_UserID m = i \<and> P m) ms) = delete_where (\<lambda>m. m_UserID m = i) ms" for ms
    unfolding delete_where_delete_where by (rule delete_where_cong) auto
  moreover have "map u_ID (users d1) = map u_ID (users d)" "last_admin i d1 = last_admin i d"
    using assms(3) view_ids [of d] view_ids [of d1] by (simp_all add: last_admin_view)
  ultimately show ?thesis using assms by (auto simp: user_gone_def distinct_map_delete_where)
qed

lemma wp_DeleteUserAndRecord:
  assumes tx: "c_tx ctx" and orgs: "del_orgs del" and err: "\<And>e d'. Q (Inl e) d'"
    and rec: "\<And>d'. (org_inv d \<longrightarrow> org_inv d') \<Longrightarrow> user_gone i d d' \<Longrightarrow> wp (rec (ctx\<lparr>c_guard := True\<rparr>)) Q d'"
  shows "wp (DeleteUserAndRecord del ctx i rec) Q d"
proof -
  let ?ctx = "ctx\<lparr>c_guard := True\<rparr>"
  let ?ms = "map m_OrgID (sort_key m_JoinedAt (filter (\<lambda>m. m_UserID m = i) (members d)))"
  have tail: "wp (delete_tail del ?ctx i rec) Q d'"
    if d': "org_inv d \<longrightarrow> org_inv d'"
      "distinct (map member_key (members d)) \<longrightarrow> members d' = delete_where (\<lambda>m. m_UserID m = i \<and> m_OrgID m \<in> set ?ms) (members d)"
      "sessions d' = sessions d" "admin_view d' = admin_view d" for d'
  proof (rule wp_delete_tail)
    fix d2 assume d2: "user_gone i d' d2" "d2 = delete_user i (put_sessions (delete_where (\<lambda>s. s_UserID s = i) (sessions d')) d')"
    have "org_inv d \<longrightarrow> org_inv d2"
    proof
      assume inv: "org_inv d"
      with d'(2) have "members d' = delete_where (\<lambda>m. m_UserID m = i \<and> m_OrgID m \<in> set ?ms) (members d)"
        by (simp add: org_inv_distinct)
      then have "m_UserID m \<noteq> i" if "m \<in> set (members d')" for m
        using that by (auto simp: set_delete_where)
      with inv d'(1) show "org_inv d2" unfolding d2(2) by (intro org_inv_delete_user) simp_all
    qed
    then show "wp (rec ?ctx) Q d2" using user_gone_trans [OF d'(2,3,4) d2(1)] by (rule rec)
  qed (use tx err in simp_all)
  have "wp (unwind_memberships ?ctx i ?ms (delete_tail del ?ctx i rec)) Q d"
  proof (cases "org_inv d")
    case True
    then show ?thesis by (intro wp_unwind [where Q = Q] err tail) (use tx in auto)
  next
    case False
    then show ?thesis by (intro wp_unwind_frame [where Q = Q] err tail) (use tx in auto)
  qed
  then show ?thesis
    unfolding DeleteUserAndRecord_def ListUserMemberships_def using tx orgs err
    by (auto intro!: wp_WithAdminGuard wp_bnd wp_query)
qed

section \<open>Invariants survive a deletion\<close>

lemma active_gone:
  assumes ok: "active_ok who d" and gone: "user_gone i d d'"
  shows "active_ok who d'"
proof -
  have "acting_ok (delete_where (\<lambda>m. m_UserID m = i) ms) s" if "acting_ok ms s" "s_UserID s \<noteq> i" for ms s
    unfolding acting_ok_def
  proof (intro allI impI)
    fix j assume "\<not> s_IsRevoked s" "s_ActiveOrgID s = Some j"
    from acting_okD [OF that(1) this] that(2)
    show "list_ex (\<lambda>m. is_member j (s_UserID s) m \<and> s_ActiveOrgRole s = Some (role_string (m_Role m)))
        (delete_where (\<lambda>m. m_UserID m = i) ms)"
      by (auto simp: list_ex_iff set_delete_where is_member_def)
  qed
  with ok gone show ?thesis
    by (auto simp: active_ok_def user_gone_def distinct_map_delete_where set_delete_where)
qed

lemma admin_gone:
  assumes inv: "admin_inv d" and gone: "user_gone i d d'"
  shows "admin_inv d'"
proof -
  from inv obtain j where j: "(j, True) \<in> set (admin_view d)" by (auto simp: admin_inv_view)
  have "\<not> last_admin i d" and view: "admin_view d' = filter (\<lambda>p. fst p \<noteq> i) (admin_view d)"
    using gone inv by (simp_all add: user_gone_def admin_inv_distinct)
  with j obtain j' where "(j', True) \<in> set (admin_view d)" "j' \<noteq> i"
    unfolding last_admin_view by metis
  then have "(j', True) \<in> set (admin_view d')" by (simp add: view)
  moreover have "distinct (map fst (admin_view d'))"
    using inv by (simp add: view admin_inv_view distinct_map_filter)
  ultimately show ?thesis unfolding admin_inv_view by blast
qed

lemma admin_view_eq: "admin_view d' = admin_view d \<Longrightarrow> admin_inv d' = admin_inv d"
  by (simp add: admin_inv_view)

text \<open>An invariant a deletion preserves: it does not read tokens or the audit tables, and follows from
  what is left of the tables.\<close>

definition survives :: "(tables \<Rightarrow> bool) \<Rightarrow> bool" where
  "survives J \<longleftrightarrow> audit_closed J \<and> (\<forall>d ts. J d \<longrightarrow> J (put_tokens ts d)) \<and>
     (\<forall>i d d'. J d \<longrightarrow> (org_inv d \<longrightarrow> org_inv d') \<longrightarrow> user_gone i d d' \<longrightarrow> J d')"

lemma survives_org_inv: "survives org_inv"
  unfolding survives_def audit_closed_def
  by (auto simp: org_inv_def members_ok_def)

lemma active_put_tokens [simp]: "active_ok who (put_tokens ts d) = active_ok who d"
  by (simp add: active_ok_def put_tokens_def)

lemma survives_active: "survives (active_ok who)"
  unfolding survives_def by (auto simp: audit_closed_def active_gone) (auto simp: active_ok_def)

lemma survives_admin: "survives admin_inv"
  unfolding survives_def by (auto simp: audit_closed_def admin_gone) (auto simp: admin_inv_def has_admin_def)

lemma wp_publish_ok: "audit_closed J \<Longrightarrow> c_tx ctx \<Longrightarrow> J d \<Longrightarrow> wp (publish a ctx ev) (on_ok J) d"
  by (rule wp_publish) (auto intro: on_okI audit_closed_same)

lemma wp_delete_keeps:
  assumes J: "survives J" and tx: "c_tx ctx" and orgs: "del_orgs del" and inv: "J d"
  shows "wp (DeleteUserAndRecord del ctx i (\<lambda>tx2. publish a tx2 ev)) (on_ok J) d"
proof (rule wp_DeleteUserAndRecord [OF tx orgs])
  fix d' assume "org_inv d \<longrightarrow> org_inv d'" "user_gone i d d'"
  with J inv have "J d'" unfolding survives_def by blast
  with J tx show "wp (publish a (ctx\<lparr>c_guard := True\<rparr>) ev) (on_ok J) d'"
    unfolding survives_def by (intro wp_publish_ok) simp_all
qed simp

lemma wp_lockPasswordIdentity:
  assumes "c_tx ctx" and "\<And>e. Q (Inl e) d"
    and "\<And>c. c \<in> set (users d) \<Longrightarrow> u_ID c = u_ID u \<Longrightarrow> \<not> u_IsBanned c \<Longrightarrow> u_PasswordHash c = u_PasswordHash u \<Longrightarrow>
       HasPassword c \<Longrightarrow> u_Role c = u_Role u \<Longrightarrow> u_TwoFactorEnabled c = u_TwoFactorEnabled u \<Longrightarrow> u_IsVerified c = u_IsVerified u \<Longrightarrow>
       Q (Inr c) d"
  shows "wp (lockPasswordIdentity sq ctx u) Q d"
  unfolding lockPasswordIdentity_def using assms
  by (auto intro!: wp_bnd wp_wrap wp_GetByIDForUpdate wp_fail wp_ret split: option.split
      simp: HasPassword_def user_id_is_def dest!: select1_Some)

lemma keeps_guarded_delete:
  assumes J: "survives J" and ctx: "\<not> c_tx ctx" "\<not> c_guard ctx" and orgs: "del_orgs del"
  shows "keeps J (DeleteUserAndRecord del ctx i (\<lambda>tx2. publish a tx2 ev))"
    and "keeps J (deleteWithCode del ctx i tok (\<lambda>tx2. publish a tx2 ev))"
    and "keeps J (WithAdminGuard sq ctx (\<lambda>tx. bnd (lockPasswordIdentity sq tx user) (\<lambda>_.
            DeleteUserAndRecord del tx i (\<lambda>tx2. publish a tx2 ev))))"
proof -
  let ?ctx = "ctx\<lparr>c_tx := True, c_guard := True\<rparr>"
  have del: "wp (DeleteUserAndRecord del ?ctx i (\<lambda>tx2. publish a tx2 ev)) (on_ok J) d" if "J d" for d
    using J that orgs by (intro wp_delete_keeps) auto
  have "DeleteUserAndRecord del ?ctx i rec = (\<lambda>tx.
     if del_orgs del
     then bnd (ListUserMemberships tx i) (\<lambda>ms. unwind_memberships tx i ms (delete_tail del tx i rec))
     else delete_tail del tx i rec) ?ctx" for rec
    by (simp add: DeleteUserAndRecord_def WithAdminGuard_def)
  then show "keeps J (DeleteUserAndRecord del ctx i (\<lambda>tx2. publish a tx2 ev))"
    unfolding DeleteUserAndRecord_def [of _ ctx] using ctx del
    by (intro keeps_WithAdminGuard) (simp_all add: on_ok_case)
  have tok: "J (put_tokens ts d)" if "J d" for ts d using J that unfolding survives_def by blast
  show "keeps J (deleteWithCode del ctx i tok (\<lambda>tx2. publish a tx2 ev))"
    unfolding deleteWithCode_def using ctx del tok
    by (intro keeps_WithAdminGuard) (auto intro!: wp_bnd [of now] wp_now consume.wp_claim_then simp: on_ok_case)
  show "keeps J (WithAdminGuard sq ctx (\<lambda>tx. bnd (lockPasswordIdentity sq tx user) (\<lambda>_.
            DeleteUserAndRecord del tx i (\<lambda>tx2. publish a tx2 ev))))"
    using ctx del
    by (intro keeps_WithAdminGuard) (auto intro!: wp_bnd [of "lockPasswordIdentity _ _ _"] wp_lockPasswordIdentity simp: on_ok_case)
qed

lemma keeps_password_work [keeps]: "keeps I (password_work f)"
  unfolding password_work_def by (auto intro!: keeps split: sum.split)

lemma keeps_lookups [keeps]:
  "keeps I (usr_GetByID ctx i)" "keeps I (GetByEmail ctx e)" "keeps I (GetLastByUserAndType ctx i ty)"
  "keeps I (HasValidByUserAndType ctx i ty)" "keeps I (GetByHash ctx h)" "keeps I (tok_GetByID ctx i)"
  "keeps I (Render m)" "keeps I generateID" "keeps I (compare_work sh p h v)" "keeps I (hash_work sh p)"
  "keeps I (hash_at_least_work sh p v)"
  unfolding usr_GetByID_def GetByEmail_def GetLastByUserAndType_def HasValidByUserAndType_def GetByHash_def tok_GetByID_def
    Render_def generateID_def compare_work_def hash_work_def hash_at_least_work_def
  by (intro keeps)+

lemma keeps_deletions:
  assumes "survives J" and "\<not> c_tx ctx" "\<not> c_guard ctx" and "\<And>dl. del = Some dl \<Longrightarrow> del_orgs dl"
  shows "keeps J (DeleteUser svc del ctx i a)" "keeps J (BulkDeleteUsers svc del ctx is a)"
    "keeps J (DeleteAccount asvc del ctx i pw)" "keeps J (ConfirmDeleteAccount asvc del ctx i code)"
proof -
  show user: "keeps J (DeleteUser svc del ctx i a)" for i
    unfolding DeleteUser_def using assms
    by (auto intro!: keeps keeps_guarded_delete split: option.split sum.split)
  show "keeps J (BulkDeleteUsers svc del ctx is a)"
    unfolding BulkDeleteUsers_def by (intro keeps_bulk user)
  show "keeps J (DeleteAccount asvc del ctx i pw)" "keeps J (ConfirmDeleteAccount asvc del ctx i code)"
    unfolding DeleteAccount_def ConfirmDeleteAccount_def Let_def using assms
    by (auto intro!: keeps keeps_guarded_delete split: option.split sum.split)
qed

section \<open>An example configuration\<close>

definition hasher_ex :: hasher where
  "hasher_ex = \<lparr>h_Hash = (\<lambda>seed p. Inr (''h'' @ p)),
     h_Compare = (\<lambda>p h. if h = ''h'' @ p then None else Some ErrInvalidCredentials), h_MaxPasswordBytes = None\<rparr>"

definition config_ex :: config where
  "config_ex = \<lparr>cf_PasswordAuthenticationDisabled = False, cf_OAuthAuthenticationDisabled = False, cf_EmailPassword = True,
     cf_InviteOnly = False, cf_RequireEmailVerification = True, cf_VerificationCodeTTL = 600 * second,
     cf_VerificationResendInterval = 60 * second, cf_TokenTTL = hour, cf_RequireEmail2FA = False,
     cf_DefaultTwoFactorEnabled = False, cf_TwoFactorCodeTTL = 600 * second, cf_DisableAdminTwoFactor = False,
     cf_TwoFactorBindingKey = ''key'', cf_DisableTwoFactorChallengeBinding = False, cf_OTPPepper = ''pepper'',
     cf_SecretRotatedAt = 0\<rparr>"

definition auth_ex :: auth_service where
  "auth_ex = \<lparr>au_config = config_ex, au_policy = zero_policy, au_unicode = ascii_tables,
     au_lower = (\<lambda>e. e), au_trim = (\<lambda>s. s), au_emailOK = (\<lambda>e. CHR 0x40 \<in> set e), au_hasher = Bare hasher_ex,
     au_rehash = (\<lambda>_ _. False), au_mailer = True, au_recovery = True, au_sqlite = False, au_audit = None, au_sessions = ad_sessions admin_service_ex\<rparr>"

end
