(* ===== verification/Requests.thy ===== *)
theory Requests
  imports Accounts
begin

text \<open>
  The requests that change organisations, memberships, administrators and accounts, served one after
  another by one process while others commit in between: the invariants of the components hold
  whatever is served, whatever fails, and whatever the others do, if that keeps them too.
\<close>

record deployment =
  dp_org :: org_service
  dp_admin :: admin_service
  dp_auth :: auth_service
  dp_deletion :: account_deletion

datatype request =
    RCreateOrg string string string
  | RUpdateOrg string string "string option" "string option"
  | RDeleteOrg string string
  | RAddMember string string string string
  | RRemoveMember string string string
  | RUpdateMemberRole string string string string
  | RLeaveOrg string string
  | RSetActiveOrg string string string
  | RClearActiveOrg string
  | RAdminDeleteOrg string string
  | RAdminAddMember string string string string
  | RAdminRemoveMember string string string
  | RAdminUpdateMemberRole string string string string
  | RBanUser string string
  | RUnbanUser string string
  | RUpdateUserRole string string string
  | RDeleteUser string string
  | RBulkBan "string list" string
  | RBulkUnban "string list" string
  | RBulkDelete "string list" string
  | RChangeName string string
  | RDeleteAccount string string
  | RConfirmDeleteAccount string string

definition finish :: "'a action \<Rightarrow> unit action" where
  "finish m = bnd m (\<lambda>_. ret ())"

fun serve :: "deployment \<Rightarrow> request \<Rightarrow> unit action" where
  "serve p (RCreateOrg name slug owner) = finish (CreateOrg (dp_org p) request_ctx name slug owner)"
| "serve p (RUpdateOrg i actor name slug) = finish (UpdateOrg request_ctx i actor name slug)"
| "serve p (RDeleteOrg i actor) = DeleteOrg (dp_org p) request_ctx i actor"
| "serve p (RAddMember i u role actor) = AddMember (dp_org p) request_ctx i u role actor"
| "serve p (RRemoveMember i u actor) = RemoveMember (dp_org p) request_ctx i u actor"
| "serve p (RUpdateMemberRole i u role actor) = UpdateMemberRole (dp_org p) request_ctx i u role actor"
| "serve p (RLeaveOrg i u) = LeaveOrg (dp_org p) request_ctx i u"
| "serve p (RSetActiveOrg s u i) = SetActiveOrg (dp_org p) request_ctx s u i"
| "serve p (RClearActiveOrg s) = ClearActiveOrg request_ctx s"
| "serve p (RAdminDeleteOrg i actor) = AdminDeleteOrg (dp_org p) request_ctx i actor"
| "serve p (RAdminAddMember i u role actor) = AdminAddMember (dp_org p) request_ctx i u role actor"
| "serve p (RAdminRemoveMember i u actor) = AdminRemoveMember (dp_org p) request_ctx i u actor"
| "serve p (RAdminUpdateMemberRole i u role actor) = AdminUpdateMemberRole (dp_org p) request_ctx i u role actor"
| "serve p (RBanUser u actor) = BanUser (dp_admin p) request_ctx u actor"
| "serve p (RUnbanUser u actor) = UnbanUser (dp_admin p) request_ctx u actor"
| "serve p (RUpdateUserRole u role actor) = UpdateUserRole (dp_admin p) request_ctx u role actor"
| "serve p (RDeleteUser u actor) = DeleteUser (dp_admin p) (Some (dp_deletion p)) request_ctx u actor"
| "serve p (RBulkBan us actor) = finish (BulkBanUsers (dp_admin p) request_ctx us actor)"
| "serve p (RBulkUnban us actor) = finish (BulkUnbanUsers (dp_admin p) request_ctx us actor)"
| "serve p (RBulkDelete us actor) = finish (BulkDeleteUsers (dp_admin p) (Some (dp_deletion p)) request_ctx us actor)"
| "serve p (RChangeName u name) = ChangeName (dp_auth p) request_ctx u name"
| "serve p (RDeleteAccount u pw) = DeleteAccount (dp_auth p) (Some (dp_deletion p)) request_ctx u pw"
| "serve p (RConfirmDeleteAccount u code) = ConfirmDeleteAccount (dp_auth p) (Some (dp_deletion p)) request_ctx u code"

fun serve_all :: "deployment \<Rightarrow> request list \<Rightarrow> unit action" where
  "serve_all p [] = ret ()"
| "serve_all p (q # qs) = bnd (attempt (serve p q)) (\<lambda>_. serve_all p qs)"

lemma keeps_finish [keeps]: "keeps I m \<Longrightarrow> keeps I (finish m)"
  unfolding finish_def by (intro keeps)

lemma keeps_serve_all: "(\<And>q. q \<in> set qs \<Longrightarrow> keeps I (serve p q)) \<Longrightarrow> keeps I (serve_all p qs)"
  by (induction qs) (auto intro!: keeps)

section \<open>Account requests and invariants of organisations\<close>

text \<open>Invariants that read neither the columns account requests write nor the audit tables, and that
  survive the removal of sessions.\<close>

definition account_closed :: "(tables \<Rightarrow> bool) \<Rightarrow> bool" where
  "account_closed J \<longleftrightarrow> audit_closed J \<and> (\<forall>d P. J d \<longrightarrow> J (put_sessions (delete_where P (sessions d)) d)) \<and>
     (\<forall>d P f. J d \<longrightarrow> (\<forall>u. u_ID (f u) = u_ID u \<and> u_OrgOwnerCount (f u) = u_OrgOwnerCount u) \<longrightarrow>
        J (put_users (update_where P f (users d)) d))"

lemma account_closed_org_inv: "account_closed org_inv"
proof -
  have "org_inv (put_users (update_where P f (users d)) d)"
    if "org_inv d" "\<And>u. u_ID (f u) = u_ID u" "\<And>u. u_OrgOwnerCount (f u) = u_OrgOwnerCount u" for d P f
  proof -
    have "map u_ID (update_where P f (users d)) = map u_ID (users d)" using that by (intro map_update_where) simp
    moreover from this have "u_ID ` set (update_where P f (users d)) = u_ID ` set (users d)" by (metis list.set_map)
    ultimately show ?thesis using that by (auto simp: org_inv_def members_ok_def set_update_where)
  qed
  moreover have "audit_closed org_inv" using survives_org_inv by (simp add: survives_def)
  ultimately show ?thesis unfolding account_closed_def by simp
qed

lemma account_closed_caps: "account_closed (org_caps n)"
  using caps_audit [of n] by (auto simp: account_closed_def org_caps_def set_update_where)

lemma account_closed_active: "account_closed (active_ok who)"
proof -
  have "active_ok who (put_users us d) = active_ok who d" for us d by (simp add: active_ok_def)
  moreover have "active_ok who d \<Longrightarrow> active_ok who (put_sessions (delete_where P (sessions d)) d)" for d P
    by (simp add: active_ok_def set_delete_where)
  moreover have "audit_closed (active_ok who)" using survives_active by (simp add: survives_def)
  ultimately show ?thesis unfolding account_closed_def by simp
qed

lemma keeps_account_requests:
  assumes "account_closed J"
  shows "keeps J (BanUser svc ctx i a)" "keeps J (UnbanUser svc ctx i a)" "keeps J (UpdateUserRole svc ctx i r a)"
    "keeps J (ChangeName asvc ctx i n)"
    "keeps J (BulkBanUsers svc ctx is a)" "keeps J (BulkUnbanUsers svc ctx is a)"
proof -
  have J: "audit_closed J" "\<And>d P. J d \<Longrightarrow> J (put_sessions (delete_where P (sessions d)) d)"
    "\<And>d P f. J d \<Longrightarrow> (\<And>u. u_ID (f u) = u_ID u \<and> u_OrgOwnerCount (f u) = u_OrgOwnerCount u) \<Longrightarrow>
        J (put_users (update_where P f (users d)) d)"
    using assms unfolding account_closed_def by blast+
  have pub: "keeps J (publish p c ev)" for p c ev by (rule keeps_publish [OF J(1)])
  have reduce: "keeps J (adminReductionAllowed c u)" for c u
    unfolding adminReductionAllowed_def by (auto intro!: keeps split: prod.split)
  have stmts: "keeps J (SetBanStatus c u b at t)" "keeps J (RevokeAll s c u)" for c u b at t s
    unfolding SetBanStatus_def RevokeAll_def DeleteAllForUser_def
    by (auto intro!: keeps keeps_exec keeps_WithTx_all J(2,3) pub simp: set_ban_def)
  show ban: "keeps J (BanUser svc ctx i a)" and unban: "keeps J (UnbanUser svc ctx i a)" for i
    unfolding BanUser_def UnbanUser_def BanWithAdminGuard_def
    by (auto intro!: keeps keeps_WithTx_all keeps_WithAdminGuard_all reduce stmts pub split: sum.split bool.split)
  show "keeps J (UpdateUserRole svc ctx i r a)"
    unfolding UpdateUserRole_def DemoteWithAdminGuard_def
    by (auto intro!: keeps keeps_WithAdminGuard_all reduce pub keeps_exec J(3) simp: set_role_def)
  show "keeps J (ChangeName asvc ctx i n)"
    unfolding ChangeName_def updateUserName_def UpdateName_def
    by (auto intro!: keeps keeps_affected J(3) pub split: option.split sum.split)
  show "keeps J (BulkBanUsers svc ctx is a)" "keeps J (BulkUnbanUsers svc ctx is a)"
    unfolding BulkBanUsers_def BulkUnbanUsers_def by (intro keeps_bulk ban unban)+
qed

section \<open>Organisation requests and the last administrator\<close>

lemma admin_inv_owned: "admin_inv d \<Longrightarrow> admin_inv (put_users (update_where P (add_owned n) (users d)) d)"
  using admin_view_eq [OF admin_view_owned] by blast

named_theorems adm \<open>statements that leave the administrators alone\<close>

lemma adm_guarded:
  "keeps admin_inv (guarded ctx users put_users P (add_owned n) e)" "keeps admin_inv (guarded ctx orgs put_orgs P' f e)"
  unfolding guarded_def by (auto intro!: keeps keeps_affected admin_inv_owned)

lemma adm_publish [adm]: "keeps admin_inv (publish a ctx ev)"
  using survives_admin by (intro keeps_publish) (simp add: survives_def)

lemma adm_counters [adm]:
  "keeps admin_inv (DecrementUserOrgOwnerCount ctx u)" "keeps admin_inv (IncrementOrgMemberCount ctx i n)"
  "keeps admin_inv (DecrementOrgMemberCount ctx i)" "keeps admin_inv (TryDecrementOrgOwnerCount ctx i)"
  "keeps admin_inv (IncrementOrgOwnerCount ctx i)" "keeps admin_inv (DecrementOwnerCountForOrgOwners ctx i)"
  "keeps admin_inv (guardAndIncrementOwnerCount svc ctx u)"
  unfolding IncrementUserOrgOwnerCount_def DecrementUserOrgOwnerCount_def IncrementOrgMemberCount_def
    DecrementOrgMemberCount_def TryDecrementOrgOwnerCount_def IncrementOrgOwnerCount_def
    DecrementOwnerCountForOrgOwners_def guardAndIncrementOwnerCount_def
  by (auto intro!: adm_guarded keeps_exec admin_inv_owned)

lemma adm_repo [adm]:
  "keeps admin_inv (org_Create ctx o1)" "keeps admin_inv (org_GetByID ctx i)" "keeps admin_inv (org_GetBySlug ctx s)"
  "keeps admin_inv (org_Update ctx o2)" "keeps admin_inv (org_Delete ctx i)" "keeps admin_inv (repo_AddMember ctx m)"
  "keeps admin_inv (repo_RemoveMember ctx i u r)" "keeps admin_inv (repo_UpdateMemberRole ctx i u r r')"
  "keeps admin_inv (LockMembership sq ctx i u)" "keeps admin_inv (ClearActiveOrgForUser ctx u i)"
  "keeps admin_inv (ClearActiveOrgForAllMembers ctx i)" "keeps admin_inv (UpdateActiveOrgRoleForUser ctx u i s)"
  "keeps admin_inv (sess_SetActiveOrg ctx s i s')" "keeps admin_inv (sess_ClearActiveOrg ctx s)"
  unfolding org_Create_def org_GetByID_def org_GetBySlug_def org_Update_def org_Delete_def repo_AddMember_def
    repo_RemoveMember_def repo_UpdateMemberRole_def LockMembership_def ClearActiveOrgForUser_def
    ClearActiveOrgForAllMembers_def UpdateActiveOrgRoleForUser_def sess_SetActiveOrg_def sess_ClearActiveOrg_def
  by (auto intro!: keeps keeps_stmt keeps_exec keeps_affected keeps_WithTx_all split: if_splits simp: Let_def)

lemma adm_transactions [adm]:
  "keeps admin_inv (lockActorAndTarget svc ctx i a t)"
  "(\<And>tx r. keeps admin_inv (f tx r)) \<Longrightarrow> keeps admin_inv (removeMemberTx ctx i u f)"
  "(\<And>tx. keeps admin_inv (g tx)) \<Longrightarrow> keeps admin_inv (addMemberTx svc ctx i u r g)"
  "(\<And>tx r. keeps admin_inv (f tx r)) \<Longrightarrow> keeps admin_inv (updateMemberRoleTx svc ctx i u r f)"
  "(\<And>tx o1. keeps admin_inv (h tx o1)) \<Longrightarrow> keeps admin_inv (deleteOrgTx ctx i h)"
  unfolding lockActorAndTarget_def removeMemberTx_def addMemberTx_def updateMemberRoleTx_def deleteOrgTx_def Let_def
  by (auto intro!: keeps keeps_WithTx_all adm caps_roles split: option.split sum.split)

lemma adm_handlers:
  "keeps admin_inv (CreateOrg svc ctx name slug u)" "keeps admin_inv (UpdateOrg ctx i a nm sl)"
  "keeps admin_inv (DeleteOrg svc ctx i a)" "keeps admin_inv (AddMember svc ctx i u r a)"
  "keeps admin_inv (RemoveMember svc ctx i u a)" "keeps admin_inv (UpdateMemberRole svc ctx i u r a)"
  "keeps admin_inv (LeaveOrg svc ctx i u)" "keeps admin_inv (SetActiveOrg svc ctx s u i)"
  "keeps admin_inv (ClearActiveOrg ctx s)" "keeps admin_inv (AdminDeleteOrg svc ctx i a)"
  "keeps admin_inv (AdminAddMember svc ctx i u r a)" "keeps admin_inv (AdminRemoveMember svc ctx i u a)"
  "keeps admin_inv (AdminUpdateMemberRole svc ctx i u r a)"
  unfolding CreateOrg_def UpdateOrg_def DeleteOrg_def AddMember_def RemoveMember_def UpdateMemberRole_def LeaveOrg_def
    SetActiveOrg_def ClearActiveOrg_def AdminDeleteOrg_def AdminAddMember_def AdminRemoveMember_def AdminUpdateMemberRole_def Let_def
  by (auto intro!: keeps keeps_WithTx_all adm caps_roles split: option.split sum.split)

lemma admin_ChangeName: "keeps admin_inv (ChangeName asvc ctx i n)"
  unfolding ChangeName_def updateUserName_def UpdateName_def
  by (auto intro!: keeps keeps_affected admin_inv_update adm simp: usable_admin_def split: option.split sum.split)

section \<open>Deletions and the caps\<close>

lemma caps_deletion:
  "(\<And>c. keeps (org_caps n) (rec c)) \<Longrightarrow> keeps (org_caps n) (DeleteUserAndRecord del ctx i rec)"
proof -
  assume rec: "\<And>c. keeps (org_caps n) (rec c)"
  have "org_caps n d \<Longrightarrow> org_caps n (delete_user i d)" for d
    by (auto simp: org_caps_def delete_user_def set_delete_where set_update_where)
  then have del: "keeps (org_caps n) (DeleteWithAdminGuard sq c i)" for sq c
    unfolding DeleteWithAdminGuard_def adminReductionAllowed_def user_delete_stmt_def
    by (auto intro!: keeps_WithAdminGuard_all keeps keeps_stmt split: prod.split if_splits)
  have tail: "keeps (org_caps n) (delete_tail del c i rec)" for c
    unfolding delete_tail_def DeleteAllForUser_def
    by (auto intro!: keeps keeps_exec del rec split: option.split)
  have "keeps (org_caps n) k \<Longrightarrow> keeps (org_caps n) (unwind_memberships c i js k)" for c js k
    by (induction js) (auto intro!: keeps caps split: option.split)
  with tail show "keeps (org_caps n) (DeleteUserAndRecord del ctx i rec)"
    unfolding DeleteUserAndRecord_def ListUserMemberships_def by (auto intro!: keeps_WithAdminGuard_all keeps)
qed

lemma caps_deletions:
  "keeps (org_caps n) (DeleteUser svc del ctx i a)" "keeps (org_caps n) (BulkDeleteUsers svc del ctx is a)"
  "keeps (org_caps n) (DeleteAccount asvc del ctx i pw)" "keeps (org_caps n) (ConfirmDeleteAccount asvc del ctx i code)"
proof -
  have lock: "keeps (org_caps n) (lockPasswordIdentity sq c u)" for sq c u
    unfolding lockPasswordIdentity_def GetByIDForUpdate_def
    by (auto intro!: keeps keeps_exec simp: update_where_same split: option.split)
  have consume: "keeps (org_caps n) (ConsumeIfValid c inp)" for c inp
    unfolding ConsumeIfValid_def by (auto intro!: keeps_affected)
  show user: "keeps (org_caps n) (DeleteUser svc del ctx i a)" for i
    unfolding DeleteUser_def by (auto intro!: keeps caps caps_deletion split: option.split sum.split)
  show "keeps (org_caps n) (BulkDeleteUsers svc del ctx is a)"
    unfolding BulkDeleteUsers_def by (intro keeps_bulk user)
  show "keeps (org_caps n) (DeleteAccount asvc del ctx i pw)" "keeps (org_caps n) (ConfirmDeleteAccount asvc del ctx i code)"
    unfolding DeleteAccount_def ConfirmDeleteAccount_def deleteWithCode_def Let_def
    by (auto intro!: keeps keeps_WithAdminGuard_all lock consume caps caps_deletion split: option.split sum.split)
qed

end
