(* ===== verification/Runs.thy ===== *)
theory Runs
  imports Requests
begin

text \<open>
  What holds after any run of a deployment (\<open>Requests\<close>): every list of requests, served one after
  another under any faults and with any other requests committing in between that keep the invariant
  themselves.
\<close>

lemma serve_all_inv:
  assumes "\<And>q. q \<in> set qs \<Longrightarrow> keeps I (serve p q)" and "I (store w)"
    and "\<forall>g. Interfere g \<in> set (sched w) \<longrightarrow> (\<forall>d. I d \<longrightarrow> I (g d))" and "serve_all p qs w = (r, w')"
  shows "I (store w')"
proof -
  have "good I w" using assms(2,3) by (simp add: good_def rely_def)
  from keepsD [OF keeps_serve_all [OF assms(1)] this assms(4)] show ?thesis by (simp add: good_def)
qed

lemma deletions_kept:
  assumes "survives J" and "del_orgs dl"
  shows "keeps J (DeleteUser svc (Some dl) request_ctx i a)" "keeps J (BulkDeleteUsers svc (Some dl) request_ctx is a)"
    "keeps J (DeleteAccount asvc (Some dl) request_ctx i pw)" "keeps J (ConfirmDeleteAccount asvc (Some dl) request_ctx i code)"
  using assms by (auto intro!: keeps_deletions)

lemma request_org_inv: "del_orgs (dp_deletion p) \<Longrightarrow> keeps org_inv (serve p q)"
  by (cases q) (simp_all add: keeps_finish keeps_CreateOrg keeps_UpdateOrg keeps_DeleteOrg keeps_AddMember keeps_RemoveMember
    keeps_UpdateMemberRole keeps_LeaveOrg keeps_SetActiveOrg keeps_ClearActiveOrg keeps_AdminDeleteOrg keeps_AdminAddMember
    keeps_AdminRemoveMember keeps_AdminUpdateMemberRole keeps_account_requests [OF account_closed_org_inv]
    deletions_kept [OF survives_org_inv])

lemma request_admin_inv: "del_orgs (dp_deletion p) \<Longrightarrow> keeps admin_inv (serve p q)"
  by (cases q) (simp_all add: keeps_finish adm_handlers keeps_BanUser keeps_UnbanUser keeps_UpdateUserRole
    BulkBanUsers_def BulkUnbanUsers_def keeps_bulk admin_ChangeName deletions_kept [OF survives_admin])

lemma request_caps: "os_maxOrgs (dp_org p) \<le> n \<Longrightarrow> keeps (org_caps n) (serve p q)"
  by (cases q) (simp_all add: keeps_finish caps_handlers keeps_account_requests [OF account_closed_caps] caps_deletions)

text \<open>Requests that act for the holder of the session they name.\<close>

definition own_session :: "(string \<Rightarrow> string) \<Rightarrow> request \<Rightarrow> bool" where
  "own_session who q = (case q of RSetActiveOrg s u i \<Rightarrow> who s = u | _ \<Rightarrow> True)"

lemma keeps_UpdateOrg_active: "keeps (active_ok who) (UpdateOrg ctx i a nm sl)"
  unfolding UpdateOrg_def org_GetByID_def org_Update_def org_GetBySlug_def
  by (auto intro!: keeps keeps_stmt simp: active_ok_def Let_def split: option.split if_splits sum.split)

lemma request_active:
  "del_orgs (dp_deletion p) \<Longrightarrow> own_session who q \<Longrightarrow> keeps (active_ok who) (serve p q)"
  by (cases q) (simp_all add: keeps_finish own_session_def active_member_handlers active_admin_handlers active_SetActiveOrg
    active_ClearActiveOrg active_DeleteOrg active_CreateOrg keeps_UpdateOrg_active keeps_account_requests [OF account_closed_active]
    deletions_kept [OF survives_active])

section \<open>An example deployment\<close>

definition deployment_ex :: deployment where
  "deployment_ex = \<lparr>dp_org = \<lparr>os_maxOrgs = 1, os_audit = None, os_sqlite = False\<rparr>, dp_admin = admin_service_ex,
     dp_auth = auth_ex, dp_deletion = \<lparr>del_orgs = True, del_sqlite = False\<rparr>\<rparr>"

text \<open>\<open>u1\<close> founds \<open>o1\<close> (a second organisation is over its cap), takes \<open>u2\<close> in (a statement fails, the
  retry succeeds), \<open>u2\<close> acts in it; \<open>u1\<close> cannot leave as the last owner nor step down as the last
  administrator, and deletes \<open>u2\<close>.\<close>

definition requests_ex :: "request list" where
  "requests_ex = [RCreateOrg ''Acme'' ''acme'' ''u1'', RCreateOrg ''More'' ''more'' ''u1'',
     RAddMember ''o1'' ''u2'' ''admin'' ''u1'', RAddMember ''o1'' ''u2'' ''admin'' ''u1'', RSetActiveOrg ''s2'' ''u2'' ''o1'',
     RLeaveOrg ''o1'' ''u1'', RUpdateUserRole ''u1'' ''user'' ''u1'', RDeleteUser ''u2'' ''u1'']"

definition start_ex :: tables where
  "start_ex = put_sessions
     [\<lparr>s_ID = ''s2'', s_UserID = ''u2'', s_TokenHash = ''t'', s_RefreshTokenHash = ''r'', s_PreviousRefreshHash = '''',
       s_IP = '''', s_UserAgent = '''', s_IsRevoked = False, s_ExpiresAt = 100, s_RefreshExpiresAt = 200,
       s_RefreshRotatedAt = None, s_CreatedAt = 1, s_RevokedAt = None, s_LastActiveAt = 1, s_TwoFactorVerifiedAt = None,
       s_ActiveOrgID = None, s_ActiveOrgRole = None\<rparr>]
     (tables_of [admin_ex ''u1'', user_ex\<lparr>u_ID := ''u2'', u_Email := ''u2''\<rparr>] [])"

definition run_ex :: "tables world" where
  "run_ex = (quiet_world start_ex)\<lparr>sched := replicate 11 Quiet @ [Fault], entropy := [Some ''o1'', Some ''o2'']\<rparr>"

abbreviation ran_ex :: "nat \<Rightarrow> tables" where
  "ran_ex n \<equiv> store (snd (serve_all deployment_ex (take n requests_ex) run_ex))"

lemma run_ex_rely: "Interfere g \<in> set (sched run_ex) \<Longrightarrow> I d \<Longrightarrow> I (g d)"
  by (auto simp: run_ex_def)

lemma deployment_ex_del: "del_orgs (dp_deletion deployment_ex)"
  by (simp add: deployment_ex_def)

lemma store_run_ex: "store run_ex = start_ex"
  by (simp add: run_ex_def quiet_world_def)

section \<open>Properties\<close>

text \<open>C10: after any run the counters of organisations and users equal the number of member and owner rows
  they cache, memberships join existing users and organisations at most once, and every organisation
  has an owner.\<close>

theorem org_counters_exact:
  assumes "org_inv (store w)" and "\<forall>g. Interfere g \<in> set (sched w) \<longrightarrow> (\<forall>d. org_inv d \<longrightarrow> org_inv (g d))"
    and "del_orgs (dp_deletion p)" and "serve_all p qs w = (r, w')"
  shows "org_inv (store w')"
  using request_org_inv [OF assms(3)] assms(1,2,4) by (rule serve_all_inv)

text \<open>C11: after any run at least one administrator who is not banned is left, if there was one.\<close>

theorem an_administrator_remains:
  assumes "admin_inv (store w)" and "\<forall>g. Interfere g \<in> set (sched w) \<longrightarrow> (\<forall>d. admin_inv d \<longrightarrow> admin_inv (g d))"
    and "del_orgs (dp_deletion p)" and "serve_all p qs w = (r, w')"
  shows "\<exists>u \<in> set (users (store w')). u_Role u = ''admin'' \<and> \<not> u_IsBanned u"
proof -
  have "admin_inv (store w')"
    using request_admin_inv [OF assms(3)] assms(1,2,4) by (rule serve_all_inv)
  then show ?thesis by (auto simp: admin_inv_def has_admin_def list_ex_iff usable_admin_def)
qed


text \<open>C13: after any run, a live session that acts in an organisation belongs to a member of it and carries
  the member's present role. Requests name sessions of the user they act for.\<close>

theorem sessions_act_as_members:
  assumes "active_ok who (store w)"
    and "\<forall>g. Interfere g \<in> set (sched w) \<longrightarrow> (\<forall>d. active_ok who d \<longrightarrow> active_ok who (g d))"
    and "del_orgs (dp_deletion p)" and "\<forall>q \<in> set qs. own_session who q" and "serve_all p qs w = (r, w')"
    and "s \<in> set (sessions (store w'))" and "\<not> s_IsRevoked s" and "s_ActiveOrgID s = Some i"
  shows "\<exists>m \<in> set (members (store w')). m_OrgID m = i \<and> m_UserID m = s_UserID s \<and> s_ActiveOrgRole s = Some (role_string (m_Role m))"
proof -
  have "q \<in> set qs \<Longrightarrow> keeps (active_ok who) (serve p q)" for q using request_active assms(3,4) by blast
  then have "active_ok who (store w')" using assms(1,2,5) by (rule serve_all_inv)
  with assms(6) have "acting_ok (members (store w')) s" by (simp add: active_ok_def)
  from acting_okD [OF this assms(7,8)] show ?thesis by (auto simp: is_member_def)
qed

text \<open>The organisation and the actor of a request on members that is not a platform administrator's.\<close>

fun member_request :: "request \<Rightarrow> (string \<times> string) option" where
  "member_request (RDeleteOrg i a) = Some (i, a)"
| "member_request (RAddMember i u role a) = Some (i, a)"
| "member_request (RRemoveMember i u a) = Some (i, a)"
| "member_request (RUpdateMemberRole i u role a) = Some (i, a)"
| "member_request (RLeaveOrg i u) = Some (i, u)"
| "member_request _ = None"

fun_cases member_requestE: "member_request q = Some ia"

lemma rq_member_request:
  assumes "member_request q = Some (i, a)" and "\<not> owns i a d" and "distinct (map member_key (members d))"
  shows "rq (serve p q) (\<lambda>_ d'. owner_rows d' = owner_rows d) d"
  using assms(1)
  by (rule member_requestE) (use assms(2,3) in \<open>auto simp: LeaveOrg_def
    intro!: owners_DeleteOrg owners_AddMember owners_RemoveMember owners_UpdateMemberRole\<close>)

text \<open>C14: a member request of someone who does not own the organisation adds, removes or changes no owner
  of any organisation, whatever it is given and whatever fails.\<close>

theorem only_owners_change_owners:
  assumes "member_request q = Some (i, a)" and "\<not> owns i a (store w)" and "distinct (map member_key (members (store w)))"
    and "faults_only w" and "serve p q w = (r, w')"
  shows "owner_rows (store w') = owner_rows (store w)"
  using rqD [OF rq_member_request [OF assms(1-3)] assms(4,5)] by simp

section \<open>Witnesses\<close>

lemma run_8: "map o_MemberCount (orgs (ran_ex 8)) = [1] \<and> map o_OwnerCount (orgs (ran_ex 8)) = [1] \<and>
   map m_UserID (members (ran_ex 8)) = [''u1''] \<and> map u_ID (users (ran_ex 8)) = [''u1'']"
  by code_simp

lemma start_ex_inv: "org_inv start_ex" "admin_inv start_ex" "org_caps 1 start_ex" "active_ok (\<lambda>_. ''u2'') start_ex"
  by (simp_all add: start_ex_def tables_of_def put_sessions_def org_inv_def members_ok_def admin_inv_def has_admin_def
    usable_admin_def admin_ex_def user_ex_def org_caps_def active_ok_def acting_ok_def owned_by_def count_where_def)

theorem org_counters_exact_witness: "org_inv (ran_ex 8) \<and> map o_MemberCount (orgs (ran_ex 8)) = [1]"
proof -
  obtain r w' where run: "serve_all deployment_ex (take 8 requests_ex) run_ex = (r, w')" by fastforce
  from org_counters_exact [OF _ _ deployment_ex_del run] have "org_inv (store w')"
    using start_ex_inv(1) run_ex_rely by (auto simp: store_run_ex)
  with run run_8 show ?thesis by simp
qed

theorem an_administrator_remains_witness: "\<exists>u \<in> set (users (ran_ex 8)). u_Role u = ''admin'' \<and> \<not> u_IsBanned u"
proof -
  obtain r w' where run: "serve_all deployment_ex (take 8 requests_ex) run_ex = (r, w')" by fastforce
  from an_administrator_remains [OF _ _ deployment_ex_del run] show ?thesis
    using start_ex_inv(2) run_ex_rely run by (auto simp: store_run_ex)
qed


theorem sessions_act_as_members_witness:
  "\<exists>m \<in> set (members (ran_ex 5)). m_OrgID m = ''o1'' \<and> m_UserID m = ''u2'' \<and> m_Role m = OrgAdmin"
proof -
  obtain r w' where run: "serve_all deployment_ex (take 5 requests_ex) run_ex = (r, w')" by fastforce
  have s: "map s_ActiveOrgID (sessions (ran_ex 5)) = [Some ''o1''] \<and> map s_IsRevoked (sessions (ran_ex 5)) = [False] \<and>
     map s_UserID (sessions (ran_ex 5)) = [''u2''] \<and> map s_ActiveOrgRole (sessions (ran_ex 5)) = [Some ''admin'']" by code_simp
  then obtain x where x: "sessions (store w') = [x]" "s_ActiveOrgID x = Some ''o1''" "\<not> s_IsRevoked x" "s_UserID x = ''u2''"
    "s_ActiveOrgRole x = Some ''admin''" using run by auto
  have "\<forall>q \<in> set (take 5 requests_ex). own_session (\<lambda>_. ''u2'') q" by (simp add: requests_ex_def own_session_def)
  from sessions_act_as_members [OF _ _ deployment_ex_del this run _ x(3,2)]
  obtain m where m: "m \<in> set (members (store w'))" "m_OrgID m = ''o1''" "m_UserID m = ''u2''" "''admin'' = role_string (m_Role m)"
    using start_ex_inv(4) run_ex_rely x by (auto simp: store_run_ex)
  then have "m_Role m = OrgAdmin" by (cases "m_Role m") simp_all
  with m run show ?thesis by auto
qed

text \<open>An administrator of the organisation tries to remove its owner, to make itself one and to remove
  itself: only the last changes the members.\<close>

abbreviation after_ex :: "request \<Rightarrow> tables" where
  "after_ex q \<equiv> store (snd (serve deployment_ex q (quiet_world (ran_ex 5))))"

theorem only_owners_change_owners_witness:
  "owner_rows (after_ex (RRemoveMember ''o1'' ''u1'' ''u2'')) = owner_rows (ran_ex 5) \<and>
   owner_rows (after_ex (RUpdateMemberRole ''o1'' ''u2'' ''owner'' ''u2'')) = owner_rows (ran_ex 5) \<and>
   owner_rows (after_ex (RLeaveOrg ''o1'' ''u2'')) = owner_rows (ran_ex 5) \<and>
   map m_UserID (members (after_ex (RLeaveOrg ''o1'' ''u2''))) = [''u1''] \<and> map m_UserID (owner_rows (ran_ex 5)) = [''u1'']"
proof -
  have *: "\<not> owns ''o1'' ''u2'' (ran_ex 5) \<and> distinct (map member_key (members (ran_ex 5))) \<and>
     map m_UserID (members (after_ex (RLeaveOrg ''o1'' ''u2''))) = [''u1''] \<and> map m_UserID (owner_rows (ran_ex 5)) = [''u1'']"
    by code_simp
  have "owner_rows (after_ex q) = owner_rows (ran_ex 5)" if "member_request q = Some (''o1'', ''u2'')" for q
    using only_owners_change_owners [OF that, of "quiet_world (ran_ex 5)" deployment_ex "fst (serve deployment_ex q (quiet_world (ran_ex 5)))"
      "snd (serve deployment_ex q (quiet_world (ran_ex 5)))"] * by simp
  from * this [of "RRemoveMember ''o1'' ''u1'' ''u2''"] this [of "RUpdateMemberRole ''o1'' ''u2'' ''owner'' ''u2''"]
    this [of "RLeaveOrg ''o1'' ''u2''"] show ?thesis by simp
qed

end
