(* ===== verification/Recovery.thy ===== *)
theory Recovery
  imports Accounts "HOL-Library.List_Lexorder" "HOL-Library.Char_ord"
begin

text \<open>
  \<open>internal/sqlstore/recovery.go\<close>, the durable queue of password reset, verification and notice mails, and
  \<open>enqueueRecovery\<close> of \<open>internal/service/recovery.go\<close>. Instants are stored as whole seconds. The step
  relation \<open>rec_step\<close> is one statement of a worker or of a public request, so its runs are all
  interleavings of workers, crashed ones included: a worker that stops simply takes no further step.
\<close>

section \<open>The repository\<close>

definition unix :: "time \<Rightarrow> int" where
  "unix t = (t - unix_epoch) div second"

record recovery_request =
  rq_ID :: string
  rq_Kind :: recovery_kind
  rq_Email :: string
  rq_Attempts :: int
  rq_Owner :: string

definition enqueue_row :: "string \<Rightarrow> recovery_kind \<Rightarrow> string \<Rightarrow> int \<Rightarrow> recovery_row" where
  "enqueue_row i kind address t = \<lparr>rr_ID = i, rr_Kind = kind, rr_Email = address, rr_Attempts = 0, rr_AvailableAt = t,
     rr_LeaseUntil = 0, rr_ClaimOwner = '''', rr_DeadLettered = False, rr_CreatedAt = t\<rparr>"

definition Enqueue :: "ctx \<Rightarrow> recovery_kind \<Rightarrow> string \<Rightarrow> unit action" where
  "Enqueue ctx kind address = bnd now (\<lambda>t. bnd generateID (\<lambda>i. stmt ctx (\<lambda>d.
     if list_ex (\<lambda>r. rr_ID r = i) (recoveries d) then (Inl ErrDatabase, d)
     else (Inr (), put_recoveries (recoveries d @ [enqueue_row i kind address (unix t)]) d))))"

definition day :: duration where
  "day = 24 * hour"

text \<open>The condition of the guarded update, and that of the preceding read.\<close>

definition claim_guard :: "string \<Rightarrow> int \<Rightarrow> recovery_row \<Rightarrow> bool" where
  "claim_guard i t r \<longleftrightarrow> rr_ID r = i \<and> \<not> rr_DeadLettered r \<and> rr_AvailableAt r \<le> t \<and> rr_LeaseUntil r \<le> t"

definition claimable :: "time \<Rightarrow> recovery_row \<Rightarrow> bool" where
  "claimable t r \<longleftrightarrow> \<not> rr_DeadLettered r \<and> rr_AvailableAt r \<le> unix t \<and> rr_LeaseUntil r \<le> unix t \<and>
     unix (t - day) < rr_CreatedAt r"

definition set_claim :: "string \<Rightarrow> int \<Rightarrow> recovery_row \<Rightarrow> recovery_row" where
  "set_claim owner lease r = r\<lparr>rr_ClaimOwner := owner, rr_LeaseUntil := lease, rr_Attempts := rr_Attempts r + 1\<rparr>"

definition owned_claim :: "string \<Rightarrow> string \<Rightarrow> recovery_row \<Rightarrow> bool" where
  "owned_claim i owner r \<longleftrightarrow> rr_ID r = i \<and> rr_ClaimOwner r = owner"

definition affected_recoveries :: "ctx \<Rightarrow> (recovery_row \<Rightarrow> bool) \<Rightarrow> (recovery_row \<Rightarrow> recovery_row) \<Rightarrow> bool action" where
  "affected_recoveries ctx P f = affected ctx recoveries put_recoveries P f"

definition Claim :: "ctx \<Rightarrow> time \<Rightarrow> duration \<Rightarrow> recovery_request option action" where
  "Claim ctx t lease =
     bnd (query ctx (\<lambda>d. case sort_key rr_AvailableAt (sort_key rr_ID (filter (claimable t) (recoveries d))) of
            [] \<Rightarrow> None | r # _ \<Rightarrow> Some r)) (\<lambda>found. case found of
       None \<Rightarrow> ret None
     | Some r \<Rightarrow>
         bnd generateID (\<lambda>owner.
         bnd (affected_recoveries ctx (claim_guard (rr_ID r) (unix t)) (set_claim owner (unix (t + lease)))) (\<lambda>ok.
         if \<not> ok then ret None
         else bnd (query ctx (\<lambda>d. select1 (owned_claim (rr_ID r) owner) (recoveries d))) (\<lambda>again. case again of
             None \<Rightarrow> ret None
           | Some r2 \<Rightarrow> ret (Some \<lparr>rq_ID = rr_ID r, rq_Kind = rr_Kind r, rq_Email = rr_Email r,
                              rq_Attempts = rr_Attempts r2, rq_Owner = owner\<rparr>)))))"

text \<open>Ten seconds, doubled per attempt up to the fifth.\<close>

definition retry_delay :: "int \<Rightarrow> duration" where
  "retry_delay attempts = 10 * second * 2 ^ nat (max 0 (min (attempts - 1) 4))"

definition set_failed :: "int \<Rightarrow> bool \<Rightarrow> recovery_row \<Rightarrow> recovery_row" where
  "set_failed available dead r =
     r\<lparr>rr_AvailableAt := available, rr_LeaseUntil := 0, rr_ClaimOwner := '''', rr_DeadLettered := dead\<rparr>"

definition Complete :: "ctx \<Rightarrow> recovery_request \<Rightarrow> bool \<Rightarrow> time \<Rightarrow> unit action" where
  "Complete ctx request succeeded t =
     (let G = owned_claim (rq_ID request) (rq_Owner request) in
      if succeeded then exec ctx (\<lambda>d. put_recoveries (delete_where G (recoveries d)) d)
      else exec ctx (\<lambda>d. put_recoveries
             (update_where G (set_failed (unix (t + retry_delay (rq_Attempts request))) (5 \<le> rq_Attempts request)) (recoveries d)) d))"

definition prunable :: "time \<Rightarrow> recovery_row \<Rightarrow> bool" where
  "prunable t r \<longleftrightarrow> rr_LeaseUntil r \<le> unix t \<and>
     (\<not> rr_DeadLettered r \<and> rr_CreatedAt r \<le> unix (t - day) \<or> rr_DeadLettered r \<and> rr_CreatedAt r \<le> unix (t - 7 * day))"

section \<open>The public request\<close>

definition enqueueRecovery :: "auth_service \<Rightarrow> ctx \<Rightarrow> recovery_kind \<Rightarrow> string \<Rightarrow> unit action" where
  "enqueueRecovery svc ctx kind e =
     (let e' = normalize_email svc e in
      if 254 < length e' \<or> \<not> au_emailOK svc e' then ret ()
      else internal (Enqueue ctx kind e'))"

section \<open>Statements of concurrent workers\<close>

text \<open>A claim spends one attempt; the label carries the attempt number its owner will read and the lease.\<close>

datatype rec_label = Enqueued string | ClaimedBy string string int int int | Settled string string | Pruned

inductive rec_step :: "recovery_row list \<Rightarrow> rec_label \<Rightarrow> recovery_row list \<Rightarrow> bool" where
  enqueue: "\<forall>r \<in> set rs. rr_ID r \<noteq> i \<Longrightarrow> rec_step rs (Enqueued i) (rs @ [enqueue_row i k e t])"
| claim: "r \<in> set rs \<Longrightarrow> claim_guard i t r \<Longrightarrow>
     rec_step rs (ClaimedBy i owner (rr_Attempts r + 1) t l) (update_where (claim_guard i t) (set_claim owner l) rs)"
| succeed: "rec_step rs (Settled i owner) (delete_where (owned_claim i owner) rs)"
| fail: "rec_step rs (Settled i owner) (update_where (owned_claim i owner) (set_failed a dead) rs)"
| prune: "rec_step rs Pruned (delete_where (prunable t) rs)"
| idle: "rec_step rs Pruned rs"

inductive rec_run :: "recovery_row list \<Rightarrow> rec_label list \<Rightarrow> recovery_row list \<Rightarrow> bool" where
  rec_nil: "rec_run rs [] rs"
| rec_snoc: "rec_run rs ls us \<Longrightarrow> rec_step us l vs \<Longrightarrow> rec_run rs (ls @ [l]) vs"

inductive_cases rec_run_nilE: "rec_run rs [] us"
inductive_cases rec_run_snocE: "rec_run rs (ls @ [l]) us"

definition claims_of :: "string \<Rightarrow> rec_label list \<Rightarrow> int list" where
  "claims_of i ls = concat (map (\<lambda>l. case l of ClaimedBy j owner k t lease \<Rightarrow> if j = i then [k] else [] | _ \<Rightarrow> []) ls)"

definition enqueued :: "string \<Rightarrow> rec_label list \<Rightarrow> nat" where
  "enqueued i ls = length (filter (\<lambda>l. l = Enqueued i) ls)"

text \<open>A request enqueued once: its row, as long as it exists, counts exactly the claims made on it.\<close>

definition counted :: "string \<Rightarrow> rec_label list \<Rightarrow> recovery_row list \<Rightarrow> bool" where
  "counted i ls rs \<longleftrightarrow> distinct (map rr_ID rs) \<and> distinct (claims_of i ls) \<and> (\<forall>k \<in> set (claims_of i ls). 0 < k) \<and>
     (\<forall>r \<in> set rs. rr_ID r = i \<longrightarrow> rr_Attempts r \<ge> 0 \<and> (\<forall>k \<in> set (claims_of i ls). k \<le> rr_Attempts r)) \<and>
     (enqueued i ls = 0 \<longrightarrow> claims_of i ls = [] \<and> (\<forall>r \<in> set rs. rr_ID r \<noteq> i))"

lemma claims_of_snoc [simp]:
  "claims_of i (ls @ [l]) = claims_of i ls @ (case l of ClaimedBy j owner k t lease \<Rightarrow> if j = i then [k] else [] | _ \<Rightarrow> [])"
  by (simp add: claims_of_def)

lemma enqueued_snoc [simp]: "enqueued i (ls @ [l]) = enqueued i ls + (if l = Enqueued i then 1 else 0)"
  by (simp add: enqueued_def)

lemma ids_recovery_updates:
  "map rr_ID (update_where P (set_claim owner l) rs) = map rr_ID rs"
  "map rr_ID (update_where P (set_failed a dead) rs) = map rr_ID rs"
  by (rule map_update_where; simp add: set_claim_def set_failed_def)+

lemma counted_step:
  assumes "counted i ls rs" and "rec_step rs l rs'" and "enqueued i (ls @ [l]) \<le> 1"
  shows "counted i (ls @ [l]) rs'"
  using assms(2)
proof cases
  case (enqueue j k e t)
  with assms(1,3) show ?thesis
    by (auto simp: counted_def enqueue_row_def)
next
  case (claim r j t owner lease)
  have old: "rr_Attempts r \<ge> 0 \<and> (\<forall>k \<in> set (claims_of i ls). k \<le> rr_Attempts r)" if "j = i"
    using that claim assms(1) by (auto simp: counted_def claim_guard_def)
  have same: "x = r" if "x \<in> set rs" "rr_ID x = j" for x
    using that claim assms(1) keyed_unique [of rr_ID rs x r] by (auto simp: counted_def claim_guard_def)
  show ?thesis
  proof (cases "j = i")
    case True
    have row: "x = set_claim owner lease r" if "x \<in> set rs'" "rr_ID x = i" for x
    proof -
      from that(1) claim(2) obtain y where y: "y \<in> set rs" "x = (if claim_guard j t y then set_claim owner lease y else y)"
        by (auto simp: set_update_where)
      with that(2) True have "rr_ID y = j" by (auto simp: set_claim_def split: if_splits)
      with y same claim(4) show ?thesis by simp
    qed
    have le: "k \<le> rr_Attempts r" if "k \<in> set (claims_of i ls)" for k using old [OF True] that by blast
    have new: "claims_of i (ls @ [l]) = claims_of i ls @ [rr_Attempts r + 1]" using claim(1) True by simp
    have "distinct (claims_of i (ls @ [l]))" unfolding new using assms(1) le by (force simp: counted_def)
    moreover have "\<forall>k \<in> set (claims_of i (ls @ [l])). 0 < k" unfolding new using assms(1) old [OF True] by (auto simp: counted_def)
    moreover have "\<forall>x \<in> set rs'. rr_ID x = i \<longrightarrow> rr_Attempts x \<ge> 0 \<and> (\<forall>k \<in> set (claims_of i (ls @ [l])). k \<le> rr_Attempts x)"
      unfolding new using row old [OF True] by (fastforce simp: set_claim_def)
    moreover have "distinct (map rr_ID rs')" using assms(1) claim(2) by (simp add: counted_def ids_recovery_updates)
    moreover have "enqueued i (ls @ [l]) \<noteq> 0"
      using assms(1) claim True by (auto simp: counted_def claim_guard_def)
    ultimately show ?thesis unfolding counted_def by blast
  next
    case False
    with claim assms(1) show ?thesis
      by (auto simp: counted_def ids_recovery_updates set_update_where set_claim_def claim_guard_def)
  qed
next
  case (succeed j owner)
  with assms(1) show ?thesis by (auto simp: counted_def set_delete_where distinct_map_delete_where)
next
  case (fail j owner a dead)
  with assms(1) show ?thesis
    by (auto simp: counted_def ids_recovery_updates set_update_where set_failed_def)
next
  case (prune t)
  with assms(1) show ?thesis by (auto simp: counted_def set_delete_where distinct_map_delete_where)
qed (use assms(1) in \<open>simp add: counted_def\<close>)

lemma enqueued_append: "enqueued i (ls @ ms) = enqueued i ls + enqueued i ms"
  by (simp add: enqueued_def)

lemma counted_run: "rec_run rs ls us \<Longrightarrow> rs = [] \<Longrightarrow> enqueued i ls \<le> 1 \<Longrightarrow> counted i ls us"
proof (induction rule: rec_run.induct)
  case (rec_nil rs)
  then show ?case by (simp add: counted_def claims_of_def enqueued_def)
next
  case (rec_snoc rs ls us l vs)
  then show ?case by (intro counted_step) (auto simp: enqueued_append)
qed

text \<open>While the owner of a claim has not settled it, the row is its or the claim is still leased.\<close>

definition leased :: "string \<Rightarrow> string \<Rightarrow> int \<Rightarrow> recovery_row list \<Rightarrow> bool" where
  "leased i owner l rs \<longleftrightarrow> distinct (map rr_ID rs) \<and> (\<forall>r \<in> set rs. rr_ID r = i \<longrightarrow> rr_ClaimOwner r = owner \<and> rr_LeaseUntil r = l)"

lemma leased_step:
  assumes "leased i owner l rs" and "rec_step rs lab rs'" and "lab \<noteq> Settled i owner" and "lab \<noteq> Enqueued i"
    and "\<And>o2 k t l2. lab \<noteq> ClaimedBy i o2 k t l2"
  shows "leased i owner l rs'"
  using assms(2)
proof cases
  case (enqueue j k e t)
  with assms show ?thesis by (auto simp: leased_def enqueue_row_def)
next
  case (claim r j t o2 lease)
  with assms(5) have "j \<noteq> i" by blast
  with claim assms(1) show ?thesis
    by (auto simp: leased_def ids_recovery_updates set_update_where set_claim_def claim_guard_def)
next
  case (succeed j o2)
  with assms(1) show ?thesis by (auto simp: leased_def set_delete_where distinct_map_delete_where)
next
  case (fail j o2 a dead)
  with assms(1,3) show ?thesis
    by (auto simp: leased_def ids_recovery_updates set_update_where owned_claim_def set_failed_def)
next
  case (prune t)
  with assms(1) show ?thesis by (auto simp: leased_def set_delete_where distinct_map_delete_where)
qed (use assms(1) in simp)

lemma rec_run_append: "rec_run rs (ls @ ms) vs \<Longrightarrow> \<exists>us. rec_run rs ls us \<and> rec_run us ms vs"
proof (induction ms arbitrary: vs rule: rev_induct)
  case Nil
  then show ?case using rec_nil by auto
next
  case (snoc m ms)
  then have "rec_run rs ((ls @ ms) @ [m]) vs" by simp
  then obtain ws where "rec_run rs (ls @ ms) ws" "rec_step ws m vs" by (rule rec_run_snocE)
  with snoc.IH obtain us where "rec_run rs ls us" "rec_run us ms ws" by blast
  with \<open>rec_step ws m vs\<close> rec_snoc show ?case by blast
qed

lemma rec_run_single: "rec_run rs [l] vs \<Longrightarrow> rec_step rs l vs"
proof -
  assume "rec_run rs [l] vs"
  then have "rec_run rs ([] @ [l]) vs" by simp
  then obtain us where "rec_run rs [] us" "rec_step us l vs" by (rule rec_run_snocE)
  then show "rec_step rs l vs" by (elim rec_run_nilE) simp_all
qed

lemma leased_run:
  "rec_run rs ms us \<Longrightarrow> leased i owner l rs \<Longrightarrow> Settled i owner \<notin> set ms \<Longrightarrow> Enqueued i \<notin> set ms \<Longrightarrow>
   claims_of i ms = [] \<Longrightarrow> leased i owner l us"
proof (induction rule: rec_run.induct)
  case (rec_snoc rs ls us lab vs)
  have "claims_of i ls = []" using rec_snoc.prems(4) by simp
  with rec_snoc have us: "leased i owner l us" by simp
  show ?case
  proof (rule leased_step [OF us rec_snoc.hyps(2)])
    show "lab \<noteq> ClaimedBy i o2 k t l2" for o2 k t l2 using rec_snoc.prems(4) by auto
  qed (use rec_snoc.prems in auto)
qed simp

inductive_cases claimedE: "rec_step rs (ClaimedBy i owner k t l) us"

lemma leased_start:
  assumes "rec_step rs (ClaimedBy i owner k t l) us" and "distinct (map rr_ID rs)"
  shows "leased i owner l us"
  using assms(1)
proof (rule claimedE)
  fix r assume r: "us = update_where (claim_guard i t) (set_claim owner l) rs" "r \<in> set rs" "claim_guard i t r"
  have "y = r" if "y \<in> set rs" "rr_ID y = i" for y
    using that r keyed_unique [OF assms(2) that(1) r(2)] by (simp add: claim_guard_def)
  with r assms(2) show ?thesis
    by (auto simp: leased_def ids_recovery_updates set_update_where set_claim_def)
qed

text \<open>Each repository method is one such step, and a claim reports the attempt number of its step.\<close>

lemma some_step:
  "\<exists>lab. rec_step rs lab rs" "\<exists>lab. rec_step rs lab (delete_where (owned_claim i owner) rs)"
  "\<exists>lab. rec_step rs lab (update_where (owned_claim i owner) (set_failed a dead) rs)"
  "\<forall>r \<in> set rs. rr_ID r \<noteq> i \<Longrightarrow> \<exists>lab. rec_step rs lab (rs @ [enqueue_row i k e t])"
  by (blast intro: rec_step.intros)+

lemma rq_affected: "Q (Inl ErrDatabase) d \<Longrightarrow> Q (Inr (0 < count_where G (get d))) (put (update_where G f (get d)) d) \<Longrightarrow>
   rq (affected ctx get put G f) Q d"
  unfolding affected_def by (rule rq_stmt) simp_all

lemma refines_Enqueue:
  "rq (Enqueue ctx k e) (\<lambda>r d'. \<exists>lab. rec_step (recoveries d) lab (recoveries d')) d"
  unfolding Enqueue_def generateID_def
  by (auto intro!: rqs some_step simp: list_ex_iff split: sum.split if_splits)

lemma refines_Complete:
  "rq (Complete ctx q ok t) (\<lambda>r d'. \<exists>lab. rec_step (recoveries d) lab (recoveries d')) d"
  unfolding Complete_def Let_def by (auto intro!: rqs some_step)

lemma refines_Claim:
  assumes "distinct (map rr_ID (recoveries d))"
  shows "rq (Claim ctx t lease) (\<lambda>r d'. case r of
      Inr (Some q) \<Rightarrow> rec_step (recoveries d) (ClaimedBy (rq_ID q) (rq_Owner q) (rq_Attempts q) (unix t) (unix (t + lease))) (recoveries d')
    | _ \<Rightarrow> \<exists>lab. rec_step (recoveries d) lab (recoveries d')) d"
proof -
  let ?rs = "recoveries d"
  let ?upd = "\<lambda>r owner. update_where (claim_guard (rr_ID r) (unix t)) (set_claim owner (unix (t + lease))) ?rs"
  have step: "rec_step ?rs (ClaimedBy (rr_ID r) owner (rr_Attempts r + 1) (unix t) (unix (t + lease))) (?upd r owner)"
    if "r \<in> set ?rs" "claimable t r" for r owner
    using that by (intro rec_step.claim) (auto simp: claimable_def claim_guard_def)
  have again: "rr_Attempts r2 = rr_Attempts r + 1"
    if "r \<in> set ?rs" "claimable t r" "select1 (owned_claim (rr_ID r) owner) (?upd r owner) = Some r2" for r r2 owner
  proof -
    from select1_Some [OF that(3)] have r2: "r2 \<in> set (?upd r owner)" "rr_ID r2 = rr_ID r" by (auto simp: owned_claim_def)
    have "set_claim owner (unix (t + lease)) r \<in> set (?upd r owner)"
      using that(1,2) by (force simp: set_update_where claimable_def claim_guard_def)
    then have "r2 = set_claim owner (unix (t + lease)) r"
      using r2 assms keyed_unique [of rr_ID "?upd r owner" r2] by (simp add: ids_recovery_updates set_claim_def)
    then show ?thesis by (simp add: set_claim_def)
  qed
  have found: "r \<in> set ?rs \<and> claimable t r"
    if "sort_key rr_AvailableAt (sort_key rr_ID (filter (claimable t) ?rs)) = r # rest" for r rest
    using arg_cong [OF that, of set] by auto
  show ?thesis
    unfolding Claim_def generateID_def affected_recoveries_def
    by (auto intro!: rqs rq_affected some_step dest!: found split: sum.split option.split list.split simp: again)
      (blast intro: step)+
qed


section \<open>Witness\<close>

text \<open>A worker claims the request and crashes; another takes it over when the lease has ended, and the first
  one's late completion does not touch the claim of the second.\<close>

definition recovery_labels :: "rec_label list" where
  "recovery_labels = [Enqueued ''r1'', ClaimedBy ''r1'' ''a'' 1 5 125, Pruned, ClaimedBy ''r1'' ''b'' 2 130 250, Settled ''r1'' ''a'']"

lemma recovery_run_ex: "\<exists>rs. rec_run [] recovery_labels rs \<and> map rr_ClaimOwner rs = [''b'']"
proof -
  let ?r0 = "enqueue_row ''r1'' RecoveryPasswordReset ''a@b.c'' 3"
  let ?r1 = "set_claim ''a'' 125 ?r0" and ?r2 = "set_claim ''b'' 250 (set_claim ''a'' 125 ?r0)"
  have s1: "rec_step [] (Enqueued ''r1'') [?r0]"
    using rec_step.enqueue [of "[]" "''r1''" RecoveryPasswordReset "''a@b.c''" 3] by simp
  have s2: "rec_step [?r0] (ClaimedBy ''r1'' ''a'' 1 5 125) [?r1]"
    using rec_step.claim [of ?r0 "[?r0]" "''r1''" 5 "''a''" 125]
    by (simp add: claim_guard_def enqueue_row_def update_where_def)
  have s3: "rec_step [?r1] Pruned [?r1]" by (rule rec_step.idle)
  have s4: "rec_step [?r1] (ClaimedBy ''r1'' ''b'' 2 130 250) [?r2]"
    using rec_step.claim [of ?r1 "[?r1]" "''r1''" 130 "''b''" 250]
    by (simp add: claim_guard_def enqueue_row_def update_where_def set_claim_def)
  have s5: "rec_step [?r2] (Settled ''r1'' ''a'') [?r2]"
    using rec_step.succeed [of "[?r2]" "''r1''" "''a''"]
    by (simp add: delete_where_def owned_claim_def set_claim_def)
  have "rec_run [] (((([] @ [Enqueued ''r1'']) @ [ClaimedBy ''r1'' ''a'' 1 5 125]) @ [Pruned]) @
      [ClaimedBy ''r1'' ''b'' 2 130 250] @ [Settled ''r1'' ''a'']) [?r2]"
    using rec_snoc [OF rec_snoc [OF rec_snoc [OF rec_snoc [OF rec_snoc [OF rec_nil s1] s2] s3] s4] s5] by simp
  then have "rec_run [] recovery_labels [?r2]" by (simp add: recovery_labels_def)
  then show ?thesis by (intro exI [of _ "[?r2]"]) (simp add: set_claim_def)
qed


end
