(* ===== verification/EmailChanges.thy ===== *)
theory EmailChanges
  imports Recovery
begin

text \<open>
  \<open>internal/sqlstore/email_change.go\<close>: the one pending change of address of each account, with
  \<open>RecoveryRepository.Prune\<close>, which clears its expired proofs. Instants are stored in microseconds.
\<close>

lemma put_token_select [simp]:
  "sessions (put_tokens ts d) = sessions d" "tokens (put_sessions ss d) = tokens d" "tokens (put_users us d) = tokens d"
  "tokens (put_orgs os d) = tokens d" "tokens (put_members ms d) = tokens d"
  by (simp_all add: put_tokens_def put_sessions_def put_users_def put_orgs_def put_members_def)

definition micro :: "time \<Rightarrow> time" where
  "micro t = t div 1000 * 1000"

lemma micro_le: "micro t \<le> t" "t < micro t + 1000"
  unfolding micro_def by presburger+

definition stored_change :: "email_change \<Rightarrow> email_change" where
  "stored_change v = v\<lparr>ec_CreatedAt := micro (ec_CreatedAt v), ec_ExpiresAt := micro (ec_ExpiresAt v),
     ec_BudgetStartedAt := micro (ec_BudgetStartedAt v), ec_CurrentSentAt := micro (ec_CurrentSentAt v),
     ec_NewSentAt := micro (ec_NewSentAt v)\<rparr>"

definition ec_Load :: "ctx \<Rightarrow> string \<Rightarrow> email_change option action" where
  "ec_Load ctx userID =
     (if \<not> InTx ctx then fail (Sentinel ''email change load requires a transaction'')
      else query ctx (\<lambda>d. select1 (\<lambda>v. ec_UserID v = userID) (email_changes d)))"

text \<open>\<open>INSERT ... ON CONFLICT (user_id) DO UPDATE\<close>; the user must exist.\<close>

definition upsert_change :: "email_change \<Rightarrow> email_change list \<Rightarrow> email_change list" where
  "upsert_change v rows =
     (if list_ex (\<lambda>r. ec_UserID r = ec_UserID v) rows
      then update_where (\<lambda>r. ec_UserID r = ec_UserID v) (\<lambda>_. v) rows
      else rows @ [v])"

definition ec_Save :: "ctx \<Rightarrow> email_change \<Rightarrow> unit action" where
  "ec_Save ctx v =
     (if \<not> InTx ctx then fail (Sentinel ''email change save requires a transaction'')
      else stmt ctx (\<lambda>d. if \<not> list_ex (user_id_is (ec_UserID v)) (users d) then (Inl ErrDatabase, d)
             else (Inr (), put_email_changes (upsert_change (stored_change v) (email_changes d)) d)))"

definition set_address :: "string \<Rightarrow> time \<Rightarrow> user \<Rightarrow> user" where
  "set_address newEmail t u =
     u\<lparr>u_Email := newEmail, u_IsVerified := True, u_VerifiedAt := Some t, u_UpdatedAt := t\<rparr>"

definition ChangeAddress :: "ctx \<Rightarrow> string \<Rightarrow> string \<Rightarrow> string \<Rightarrow> time \<Rightarrow> bool action" where
  "ChangeAddress ctx userID oldEmail newEmail t = stmt ctx (\<lambda>d.
     let G = (\<lambda>u. u_ID u = userID \<and> u_Email u = oldEmail) in
     if list_ex G (users d) \<and> list_ex (\<lambda>u. u_ID u \<noteq> userID \<and> u_Email u = newEmail) (users d) then (Inl ErrDuplicateKey, d)
     else (Inr (0 < count_where G (users d)), put_users (update_where G (set_address newEmail t) (users d)) d))"

definition InvalidateCredentials :: "ctx \<Rightarrow> string \<Rightarrow> unit action" where
  "InvalidateCredentials ctx userID = tok_delete ctx (\<lambda>t. t_UserID t = Some userID)"

definition cancel_change :: "email_change \<Rightarrow> email_change" where
  "cancel_change v = v\<lparr>ec_Status := ''cancelled'', ec_CurrentCodeHash := '''', ec_NewCodeHash := ''''\<rparr>"

definition update_changes :: "ctx \<Rightarrow> (email_change \<Rightarrow> bool) \<Rightarrow> (email_change \<Rightarrow> email_change) \<Rightarrow> unit action" where
  "update_changes ctx P f = exec ctx (\<lambda>d. put_email_changes (update_where P f (email_changes d)) d)"

definition DiscardVersion :: "ctx \<Rightarrow> email_change \<Rightarrow> unit action" where
  "DiscardVersion ctx v = update_changes ctx (\<lambda>r. ec_UserID r = ec_UserID v \<and> ec_ID r = ec_ID v \<and>
     ec_CurrentCodeHash r = ec_CurrentCodeHash v \<and> ec_NewCodeHash r = ec_NewCodeHash v \<and> ec_Status r = ''pending'') cancel_change"

definition CancelForUser :: "ctx \<Rightarrow> string \<Rightarrow> unit action" where
  "CancelForUser ctx userID = update_changes ctx (\<lambda>r. ec_UserID r = userID \<and> ec_Status r = ''pending'') cancel_change"

text \<open>A batch of expired proofs is read and then cleared row by row.\<close>

definition expired_change :: "time \<Rightarrow> email_change \<Rightarrow> bool" where
  "expired_change t r \<longleftrightarrow> ec_Status r = ''pending'' \<and> ec_ExpiresAt r \<le> micro t"

definition clear_proofs :: "email_change \<Rightarrow> email_change" where
  "clear_proofs v = v\<lparr>ec_CurrentCodeHash := '''', ec_NewCodeHash := ''''\<rparr>"

fun prune_versions :: "ctx \<Rightarrow> time \<Rightarrow> (string \<times> string) list \<Rightarrow> unit action" where
  "prune_versions ctx t [] = ret ()"
| "prune_versions ctx t ((userID, requestID) # vs) =
     seq (update_changes ctx (\<lambda>r. ec_UserID r = userID \<and> ec_ID r = requestID \<and> expired_change t r) clear_proofs)
         (prune_versions ctx t vs)"

definition PruneExpired :: "ctx \<Rightarrow> time \<Rightarrow> unit action" where
  "PruneExpired ctx t =
     bnd (query ctx (\<lambda>d. take 100 (map (\<lambda>r. (ec_UserID r, ec_ID r))
            (filter (\<lambda>r. expired_change t r \<and> (ec_CurrentCodeHash r \<noteq> '''' \<or> ec_NewCodeHash r \<noteq> '''')) (email_changes d)))))
       (prune_versions ctx t)"

definition Prune :: "ctx \<Rightarrow> time \<Rightarrow> unit action" where
  "Prune ctx t = seq (exec ctx (\<lambda>d. put_recoveries (delete_where (prunable t) (recoveries d)) d)) (PruneExpired ctx t)"

lemma upsert_change_keys:
  "distinct (map ec_UserID rows) \<Longrightarrow> distinct (map ec_UserID (upsert_change v rows))"
proof (cases "list_ex (\<lambda>r. ec_UserID r = ec_UserID v) rows")
  case True
  then have "map ec_UserID (upsert_change v rows) = map ec_UserID rows"
    unfolding upsert_change_def by (simp add: map_update_where)
  then show "distinct (map ec_UserID rows) \<Longrightarrow> ?thesis" by simp
qed (auto simp: upsert_change_def list_ex_iff)

text \<open>A cancelled proof verifies no code: an empty digest matches none.\<close>

lemma verifyOTP_empty [simp]: "\<not> verifyOTP code '''' pepper"
proof -
  have "length (hmac_sha256 pepper code) = 32" by (simp add: hmac_sha256_def Let_def)
  then have "hmac_sha256 pepper code \<noteq> []" by (metis list.size(3) zero_neq_numeral)
  then show ?thesis by (simp add: verifyOTP_def)
qed

end
