(* ===== verification/PasswordFlows.thy ===== *)
theory PasswordFlows
  imports EmailChanges
begin

text \<open>
  \<open>internal/service/password.go\<close>: forgotten passwords, first passwords and password changes. A service
  is an \<open>auth_service\<close>: the Go services share their configuration, hasher, mailer and audit service.
  The token generator is \<open>token.Generate\<close>, and the mail carries the raw token instead of its link.
\<close>

definition setPasswordCodeTTL :: duration where
  "setPasswordCodeTTL = 10 * minute"

definition errResetTokenStateChanged :: go_err where
  "errResetTokenStateChanged = Sentinel ''service: reset token state changed''"

definition errForgotPasswordDummyRollback :: go_err where
  "errForgotPasswordDummyRollback = Sentinel ''service: roll back forgot-password dummy write''"

definition anonymous_event :: "string \<Rightarrow> string \<Rightarrow> audit_event" where
  "anonymous_event typ ref = \<lparr>e_Type = typ, e_Actor = '''', e_Ref = ref\<rparr>"

section \<open>Forgotten passwords\<close>

definition ForgotPassword :: "auth_service \<Rightarrow> ctx \<Rightarrow> string \<Rightarrow> unit action" where
  "ForgotPassword svc ctx address =
     (if cf_PasswordAuthenticationDisabled (au_config svc) then fail ErrMethodDisabled
      else if \<not> au_mailer svc then fail ErrEmailNotConfigured
      else if \<not> au_recovery svc then fail ErrInternal
      else enqueueRecovery svc ctx RecoveryPasswordReset address)"

definition writePasswordResetToken :: "ctx \<Rightarrow> string \<Rightarrow> token \<Rightarrow> unit action" where
  "writePasswordResetToken ctx userID tok =
     seq (wrap ''deleting unused password reset tokens'' (DeleteUnusedByUserAndType ctx userID TokenResetPass))
         (wrap ''creating password reset token'' (tok_Create ctx tok))"

text \<open>The row of the dummy request: it belongs to nobody.\<close>

definition dummy_token :: "string \<Rightarrow> string \<Rightarrow> time \<Rightarrow> time \<Rightarrow> token" where
  "dummy_token i h expires created =
     \<lparr>t_ID = i, t_UserID = None, t_Email = ''forgot-password-dummy@invalid'', t_TokenHash = h, t_Type = TokenResetPass,
      t_ExpiresAt = expires, t_UsedAt = None, t_CreatedAt = created, t_CodeVerifier = None, t_Attempts = 0,
      t_ResendCount = 0, t_ContextHash = '''', t_EncryptedPayload = ''''\<rparr>"

definition burnForgotPasswordDummy :: "auth_service \<Rightarrow> ctx \<Rightarrow> unit action" where
  "burnForgotPasswordDummy svc ctx = bnd (attempt Generate) (\<lambda>g. case g of
     Inl e \<Rightarrow> ret ()
   | Inr raw \<Rightarrow>
       bnd now (\<lambda>t. bnd generateID (\<lambda>dummyUserID. bnd generateID (\<lambda>i.
       bnd (attempt (WithTx ctx (\<lambda>tx.
              seq (writePasswordResetToken tx dummyUserID (dummy_token i (hashToken raw) (t + cf_TokenTTL (au_config svc)) t))
                  (fail errForgotPasswordDummyRollback) :: unit action))) (\<lambda>_.
       bnd (attempt (Render (email '''' ''password_reset'' raw))) (\<lambda>_. ret ()))))))"

definition sendPasswordReset :: "auth_service \<Rightarrow> ctx \<Rightarrow> string \<Rightarrow> unit action" where
  "sendPasswordReset svc ctx address =
     (if cf_PasswordAuthenticationDisabled (au_config svc) then fail ErrMethodDisabled
      else if \<not> au_mailer svc then fail ErrEmailNotConfigured
      else bnd (attempt (GetByEmail ctx (normalize_email svc address))) (\<lambda>found. case found of
        Inl e \<Rightarrow> seq (burnForgotPasswordDummy svc ctx) (fail e)
      | Inr None \<Rightarrow> burnForgotPasswordDummy svc ctx
      | Inr (Some user) \<Rightarrow>
          if \<not> HasPassword user then burnForgotPasswordDummy svc ctx
          else bnd Generate (\<lambda>raw. bnd now (\<lambda>t. bnd generateID (\<lambda>i.
            let tok = code_token i user (hashToken raw) TokenResetPass (t + cf_TokenTTL (au_config svc)) 0 in
            bnd (WithTx ctx (\<lambda>tx.
                   bnd (GetByIDForUpdate (au_sqlite svc) tx (u_ID user)) (\<lambda>current. case current of
                     None \<Rightarrow> ret False
                   | Some c \<Rightarrow>
                       if u_PasswordHash c \<noteq> u_PasswordHash user \<or>
                          passwordPepperVersionValue (u_PepperVersion c) \<noteq> passwordPepperVersionValue (u_PepperVersion user) \<or>
                          u_Email c \<noteq> u_Email user
                       then ret False
                       else seq (writePasswordResetToken tx (u_ID user) tok) (ret True)))) (\<lambda>issued.
            if \<not> issued then ret ()
            else bnd (Render (email (u_Email user) ''password_reset'' raw)) (\<lambda>msg.
              seq (send_mail ctx msg)
                  (bnd (attempt (publish (au_audit svc) ctx (anonymous_event ''password.reset.requested'' (u_Email user))))
                    (\<lambda>_. ret ())))))))))"

section \<open>Reset\<close>

text \<open>The reading of the clock the transaction's function left in the variable it shares with its caller.\<close>

definition captured_now :: "time action" where
  "captured_now = (\<lambda>w. (Inr (clock w), w))"

definition reset_input :: "token \<Rightarrow> user \<Rightarrow> time \<Rightarrow> consume_input" where
  "reset_input tok user t = \<lparr>c_ID = t_ID tok, c_TokenHash = t_TokenHash tok, c_UserID = u_ID user,
     c_Type = TokenResetPass, c_UsedAt = t\<rparr>"

definition reset_tx :: "auth_service \<Rightarrow> ctx \<Rightarrow> user \<Rightarrow> token \<Rightarrow> string \<Rightarrow> nat option \<Rightarrow> unit action" where
  "reset_tx svc tx user tok hash version =
     bnd (GetByIDForUpdate (au_sqlite svc) tx (u_ID user)) (\<lambda>current. case current of
       None \<Rightarrow> fail ErrResetTokenInvalid
     | Some c \<Rightarrow> if u_Email c \<noteq> t_Email tok then fail ErrResetTokenInvalid
     else bnd now (\<lambda>t.
       bnd (wrap ''consuming password reset token'' (ConsumeIfValid tx (reset_input tok user t))) (\<lambda>consumed.
       if \<not> consumed then fail errResetTokenStateChanged
       else bnd (guardedPasswordUpdate tx user hash version t) (\<lambda>updated.
         if updated = None then fail ErrPasswordUpdateConflict
         else seq (CancelForUser tx (u_ID user))
           (seq (wrap ''revoking sessions after password reset'' (DeleteAllForUser tx (u_ID user)))
           (seq (wrap ''revoking pending two-factor challenges after password reset'' (DeleteUnusedByUserAndType tx (u_ID user) TokenTwoFactor))
           (seq (wrap ''revoking other password reset tokens'' (DeleteUnusedByUserAndType tx (u_ID user) TokenResetPass))
                (publish (au_audit svc) tx (user_event ''password.reset.completed'' (u_ID user))))))))))"

definition ResetPassword :: "auth_service \<Rightarrow> ctx \<Rightarrow> string \<Rightarrow> string \<Rightarrow> unit action" where
  "ResetPassword svc ctx code newPassword =
     (if cf_PasswordAuthenticationDisabled (au_config svc) then fail ErrMethodDisabled
      else seq (policy_check svc newPassword)
        (bnd (wrap ''reset password: lookup'' (GetByHash ctx (hashToken code))) (\<lambda>found. case found of
          None \<Rightarrow> fail ErrResetTokenInvalid
        | Some tok \<Rightarrow>
          if t_Type tok \<noteq> TokenResetPass then fail ErrResetTokenInvalid
          else if t_UsedAt tok \<noteq> None then fail ErrResetTokenAlreadyUsed
          else bnd now (\<lambda>t.
            if t_ExpiresAt tok < t then fail ErrResetTokenExpired
            else case t_UserID tok of
              None \<Rightarrow> fail ErrResetTokenInvalid
            | Some userID \<Rightarrow>
                bnd (wrap ''reset password: lookup'' (usr_GetByID ctx userID)) (\<lambda>u. case u of
                  None \<Rightarrow> fail ErrUserNotFound
                | Some user \<Rightarrow>
                    if \<not> HasPassword user then fail ErrResetTokenInvalid
                    else bnd (attempt (hash_at_least_work (au_hasher svc) newPassword (u_PepperVersion user))) (\<lambda>h. case h of
                      Inl e \<Rightarrow> fail (passwordHashError e)
                    | Inr (hash, version) \<Rightarrow>
                        bnd now (\<lambda>_.
                        bnd (attempt (WithTx ctx (\<lambda>tx. reset_tx svc tx user tok hash version))) (\<lambda>r. case r of
                          Inr _ \<Rightarrow> ret ()
                        | Inl e \<Rightarrow>
                            if errors_is e errResetTokenStateChanged
                            then bnd captured_now (\<lambda>t2. fail (if t_ExpiresAt tok \<le> t2 then ErrResetTokenExpired else ErrResetTokenInvalid))
                            else if errors_is e ErrPasswordUpdateConflict then fail ErrPasswordUpdateConflict
                            else fail ErrInternal))))))))"

section \<open>First passwords\<close>

definition RequestSetPassword :: "auth_service \<Rightarrow> ctx \<Rightarrow> string \<Rightarrow> unit action" where
  "RequestSetPassword svc ctx userID =
     (let cf = au_config svc in
      if cf_PasswordAuthenticationDisabled cf then fail ErrMethodDisabled
      else bnd (wrap ''request set password: lookup'' (usr_GetByID ctx userID)) (\<lambda>found. case found of
        None \<Rightarrow> fail ErrUserNotFound
      | Some user \<Rightarrow>
          if HasPassword user then fail ErrPasswordAlreadySet
          else if \<not> au_mailer svc then fail ErrEmailNotConfigured
          else bnd (internal (otp_Generate 8)) (\<lambda>raw.
            if cf_OTPPepper cf = '''' then fail ErrInternal
            else bnd now (\<lambda>t.
              seq (internal (DeleteUnusedByUserAndType ctx (u_ID user) TokenSetPass))
              (bnd generateID (\<lambda>i.
               seq (internal (tok_Create ctx (code_token i user (hashOTP raw (cf_OTPPepper cf)) TokenSetPass (t + setPasswordCodeTTL) 0)))
                   (deliver_code ctx i (email (u_Email user) ''set_password'' raw)
                      (NewError ''email_failed'' ''Failed to send email''))))))))"

definition ConfirmSetPassword :: "auth_service \<Rightarrow> ctx \<Rightarrow> string \<Rightarrow> string \<Rightarrow> string \<Rightarrow> unit action" where
  "ConfirmSetPassword svc ctx userID code newPassword =
     (let cf = au_config svc in
      if cf_PasswordAuthenticationDisabled cf then fail ErrMethodDisabled
      else bnd (wrap ''confirm set password: lookup'' (usr_GetByID ctx userID)) (\<lambda>found. case found of
        None \<Rightarrow> fail ErrUserNotFound
      | Some user \<Rightarrow>
          if HasPassword user then fail (NewError ''already_set'' ''User already has a password'')
          else seq (policy_check svc newPassword)
            (if cf_OTPPepper cf = '''' then fail ErrInternal
             else bnd (wrap ''confirm set password: lookup'' (GetLastByUserAndType ctx userID TokenSetPass)) (\<lambda>last. case last of
               None \<Rightarrow> fail ErrInvalidSetPasswordCode
             | Some tok \<Rightarrow>
                 if t_Type tok \<noteq> TokenSetPass then fail ErrInvalidSetPasswordCode
                 else if t_UsedAt tok \<noteq> None then fail ErrSetPasswordCodeUsed
                 else bnd now (\<lambda>t.
                   if t_ExpiresAt tok < t then fail ErrResetTokenExpired
                   else if stalePepper (t_CreatedAt tok) (cf_SecretRotatedAt cf) then fail ErrResetTokenExpired
                   else if \<not> verifyOTP code (t_TokenHash tok) (cf_OTPPepper cf) then fail ErrInvalidSetPasswordCode
                   else if t_UserID tok \<noteq> Some userID then fail ErrInvalidSetPasswordCode
                   else bnd (attempt (hash_work (au_hasher svc) newPassword)) (\<lambda>h. case h of
                     Inl e \<Rightarrow> fail (passwordHashError e)
                   | Inr (hash, version) \<Rightarrow>
                       bnd (internal (SetPasswordAndVerify (au_sqlite svc) ctx
                              \<lparr>sp_TokenID = t_ID tok, sp_TokenHash = t_TokenHash tok, sp_UserID = userID, sp_Email = t_Email tok,
                               sp_PasswordHash = hash, sp_PepperVersion = version\<rparr>)) (\<lambda>claimed.
                       if \<not> claimed then fail ErrSetPasswordCodeUsed else ret ())))))))"

section \<open>Changes\<close>

definition change_tx :: "auth_service \<Rightarrow> ctx \<Rightarrow> user \<Rightarrow> string \<Rightarrow> string \<Rightarrow> string \<Rightarrow> nat option \<Rightarrow> unit action" where
  "change_tx svc tx user userID exceptSessionID hash version =
     bnd now (\<lambda>t.
     bnd (guardedPasswordUpdate tx user hash version t) (\<lambda>updated.
     if updated = None then fail ErrPasswordUpdateConflict
     else seq (CancelForUser tx (u_ID user))
       (seq (if exceptSessionID \<noteq> ''''
             then wrap ''revoking other sessions after password change'' (DeleteAllForUserExcept tx userID exceptSessionID)
             else wrap ''revoking sessions after password change'' (DeleteAllForUser tx userID))
       (seq (wrap ''revoking pending two-factor challenges after password change'' (DeleteUnusedByUserAndType tx userID TokenTwoFactor))
       (seq (wrap ''revoking password reset tokens after password change'' (DeleteUnusedByUserAndType tx userID TokenResetPass))
            (publish (au_audit svc) tx (user_event ''password.changed'' userID)))))))"

definition ChangePassword :: "auth_service \<Rightarrow> ctx \<Rightarrow> string \<Rightarrow> string \<Rightarrow> string \<Rightarrow> string \<Rightarrow> unit action" where
  "ChangePassword svc ctx userID oldPassword newPassword exceptSessionID =
     (if cf_PasswordAuthenticationDisabled (au_config svc) then fail ErrMethodDisabled
      else bnd (wrap ''change password: lookup'' (usr_GetByID ctx userID)) (\<lambda>found. case found of
        None \<Rightarrow> fail ErrUserNotFound
      | Some user \<Rightarrow> (case u_PasswordHash user of
          None \<Rightarrow> fail (NewError ''no_password'' ''No password set. Use set-password instead.'')
        | Some stored \<Rightarrow>
            bnd (attempt (compare_work (au_hasher svc) oldPassword stored (u_PepperVersion user))) (\<lambda>c. case c of
              Inl e \<Rightarrow> fail (passwordCompareError e (NewError ''wrong_password'' ''Current password is incorrect''))
            | Inr _ \<Rightarrow> seq (policy_check svc newPassword)
                (bnd (attempt (hash_at_least_work (au_hasher svc) newPassword (u_PepperVersion user))) (\<lambda>h. case h of
                   Inl e \<Rightarrow> fail (passwordHashError e)
                 | Inr (hash, version) \<Rightarrow>
                     bnd (attempt (WithTx ctx (\<lambda>tx. change_tx svc tx user userID exceptSessionID hash version))) (\<lambda>r. case r of
                       Inr _ \<Rightarrow> ret ()
                     | Inl e \<Rightarrow> if errors_is e ErrPasswordUpdateConflict then fail ErrPasswordUpdateConflict else fail ErrInternal)))))))"

section \<open>Effects of the transactions\<close>

definition unused_of :: "string \<Rightarrow> token_type \<Rightarrow> token \<Rightarrow> bool" where
  "unused_of u ty t \<longleftrightarrow> t_UserID t = Some u \<and> t_Type t = ty \<and> t_UsedAt t = None"

text \<open>The tables after a new password: the row, its pending address change cancelled, the sessions of \<open>P\<close>
  deleted, and every unused challenge and reset token dropped.\<close>

definition password_effect :: "user \<Rightarrow> string \<Rightarrow> nat option \<Rightarrow> time \<Rightarrow> (session \<Rightarrow> bool) \<Rightarrow> token list \<Rightarrow> tables \<Rightarrow> tables" where
  "password_effect user h v t P ts d =
     d\<lparr>users := update_where (hash_guard (u_ID user) (the (u_PasswordHash user)) (u_PepperVersion user) v) (set_hash h v t) (users d),
       sessions := delete_where P (sessions d),
       tokens := delete_where (\<lambda>x. unused_of (u_ID user) TokenTwoFactor x \<or> unused_of (u_ID user) TokenResetPass x) ts,
       email_changes := update_where (\<lambda>r. ec_UserID r = u_ID user \<and> ec_Status r = ''pending'') cancel_change (email_changes d)\<rparr>"

definition password_written :: "user \<Rightarrow> string \<Rightarrow> nat option \<Rightarrow> tables \<Rightarrow> bool" where
  "password_written user h v d \<longleftrightarrow> u_PasswordHash user \<noteq> None \<and>
     count_where (hash_guard (u_ID user) (the (u_PasswordHash user)) (u_PepperVersion user) v) (users d) = 1"

lemma wp_guardedPasswordUpdate:
  assumes "c_tx ctx" and "\<And>e. Q (Inl e) d"
    and "\<And>h0. u_PasswordHash user = Some h0 \<Longrightarrow>
      let G = hash_guard (u_ID user) h0 (u_PepperVersion user) v; b = (count_where G (users d) = 1) in
      Q (Inr (if b then Some (set_hash h v t user) else None)) (put_users (update_where G (set_hash h v t) (users d)) d)"
  shows "wp (guardedPasswordUpdate ctx user h v t) Q d"
  unfolding guardedPasswordUpdate_def UpdatePasswordHash_def using assms
  by (auto intro!: wps simp: Let_def split: option.split)

lemmas revoke_defs = CancelForUser_def update_changes_def DeleteAllForUser_def DeleteAllForUserExcept_def
  DeleteUnusedByUserAndType_def tok_delete_def

lemma wp_revocations:
  assumes "c_tx tx" and "\<And>e d'. Q (Inl e) d'" and "\<And>d'. same_but_audit (f4 (f3 (f2 (f1 d)))) d' \<Longrightarrow> Q (Inr ()) d'"
  shows "wp (seq (exec tx f1) (seq (wrap m2 (exec tx f2)) (seq (wrap m3 (exec tx f3)) (seq (wrap m4 (exec tx f4))
     (publish a tx ev))))) Q d"
proof -
  have "Q r d'" if "same_but_audit (f4 (f3 (f2 (f1 d)))) d'" for r d' using assms(2,3) that by (cases r) simp_all
  with assms(1,2) show ?thesis by (auto intro!: wps)
qed

lemma password_effect_steps:
  "u_PasswordHash user = Some h0 \<Longrightarrow> put_tokens (delete_where (\<lambda>x. t_UserID x = Some (u_ID user) \<and> t_Type x = TokenResetPass \<and> t_UsedAt x = None)
       (delete_where (\<lambda>x. t_UserID x = Some (u_ID user) \<and> t_Type x = TokenTwoFactor \<and> t_UsedAt x = None) ts))
     (put_tokens ts2 (put_sessions (delete_where P (sessions d))
       (put_email_changes (update_where (\<lambda>r. ec_UserID r = u_ID user \<and> ec_Status r = ''pending'') cancel_change (email_changes d))
       (put_users (update_where (hash_guard (u_ID user) h0 (u_PepperVersion user) v) (set_hash h v t) (users d)) (put_tokens ts d))))) =
   password_effect user h v t P ts d"
  by (simp add: password_effect_def put_tokens_def put_sessions_def put_email_changes_def put_users_def
      delete_where_delete_where unused_of_def)

lemma wp_reset_tx:
  assumes "c_tx tx" and "\<And>e d'. Q (Inl e) d'"
    and "\<And>c t d'. c \<in> set (users d) \<Longrightarrow> u_ID c = u_ID user \<Longrightarrow> u_Email c = t_Email tok \<Longrightarrow>
      list_ex (consume_guard (reset_input tok user t)) (tokens d) \<Longrightarrow> password_written user h v d \<Longrightarrow>
      same_but_audit (password_effect user h v t (\<lambda>s. s_UserID s = u_ID user)
        (update_where (consume_guard (reset_input tok user t)) (set_used t) (tokens d)) d) d' \<Longrightarrow> Q (Inr ()) d'"
  shows "wp (reset_tx svc tx user tok h v) Q d"
proof -
  have used: "c_UsedAt (reset_input tok user t) = t" for t by (simp add: reset_input_def)
  have row: "c \<in> set (users d) \<and> u_ID c = u_ID user" if "select1 (user_id_is (u_ID user)) (users d) = Some c" for c
    using select1_Some [OF that] by (simp add: user_id_is_def)
  have consume: "wp (ConsumeIfValid tx (reset_input tok user t)) R d" if "\<And>e. R (Inl e) d" "R (Inr False) d"
    "list_ex (consume_guard (reset_input tok user t)) (tokens d) \<Longrightarrow>
       R (Inr True) (put_tokens (update_where (consume_guard (reset_input tok user t)) (set_used t) (tokens d)) d)" for R t
    using that assms(1) unfolding ConsumeIfValid_def by (auto intro!: wp_affected_tokens simp: used)
  show ?thesis
    unfolding reset_tx_def revoke_defs
    using assms(1,2)
    by (auto intro!: wp_bnd wp_GetByIDForUpdate wp_fail wp_now wp_wrap consume wp_guardedPasswordUpdate wp_revocations
        assms(3) split: option.split dest!: row simp: Let_def password_written_def password_effect_steps)
qed

lemma password_effect_steps':
  "u_PasswordHash user = Some h0 \<Longrightarrow> put_tokens (delete_where (\<lambda>x. t_UserID x = Some (u_ID user) \<and> t_Type x = TokenResetPass \<and> t_UsedAt x = None)
       (delete_where (\<lambda>x. t_UserID x = Some (u_ID user) \<and> t_Type x = TokenTwoFactor \<and> t_UsedAt x = None) (tokens d)))
     (put_tokens ts2 (put_sessions (delete_where P (sessions d))
       (put_email_changes (update_where (\<lambda>r. ec_UserID r = u_ID user \<and> ec_Status r = ''pending'') cancel_change (email_changes d))
       (put_users (update_where (hash_guard (u_ID user) h0 (u_PepperVersion user) v) (set_hash h v t) (users d)) d)))) =
   password_effect user h v t P (tokens d) d"
  using password_effect_steps [of user h0 "tokens d" ts2 P d v h t] by (simp add: put_tokens_def put_users_def)

lemma wp_change_tx:
  assumes "c_tx tx" and "\<And>e d'. Q (Inl e) d'"
    and "\<And>t d'. password_written user h v d \<Longrightarrow>
      same_but_audit (password_effect user h v t (\<lambda>s. s_UserID s = u_ID user \<and> (except = '''' \<or> s_ID s \<noteq> except)) (tokens d) d) d' \<Longrightarrow>
      Q (Inr ()) d'"
  shows "wp (change_tx svc tx user (u_ID user) except h v) Q d"
  unfolding change_tx_def revoke_defs using assms
  by (cases "except = ''''")
    (auto intro!: wp_bnd wp_fail wp_now wp_guardedPasswordUpdate wp_revocations
          simp: Let_def password_written_def password_effect_steps')

section \<open>Requests\<close>

lemma local_password_work [locals]: "local_prog (password_work f)"
proof -
  have "local_prog (attempt draw)" by (simp add: local_prog_def attempt_def draw_def split: list.splits)
  then show ?thesis unfolding password_work_def by (intro locals) (auto intro!: locals split: sum.split)
qed

lemma local_works [locals]: "local_prog (hash_work sh p)" "local_prog (hash_at_least_work sh p v)" "local_prog (compare_work sh p h v)"
  "local_prog captured_now" "local_prog (policy_check svc p)" "local_prog (Render m)" "local_prog generateID" "local_prog Generate"
  unfolding hash_work_def hash_at_least_work_def compare_work_def policy_check_def Render_def generateID_def Generate_def
  by (auto intro!: locals split: option.split) (simp add: captured_now_def local_prog_def)

lemmas rq_works = rq_local [OF local_works(1)] rq_local [OF local_works(2)] rq_local [OF local_works(3)] rq_local [OF local_works(4)]
  rq_local [OF local_works(6)] rq_local [OF local_works(7)] rq_local [OF local_works(8)]

lemma rq_policy_check: "(\<And>e. Q (Inl e) d) \<Longrightarrow> (Validate (au_unicode svc) (au_policy svc) p = None \<Longrightarrow> Q (Inr ()) d) \<Longrightarrow>
   rq (policy_check svc p) Q d"
  unfolding policy_check_def by (auto intro!: rq_ret rq_fail split: option.split)

definition reset_done :: "auth_service \<Rightarrow> string \<Rightarrow> string \<Rightarrow> tables \<Rightarrow> tables \<Rightarrow> bool" where
  "reset_done svc code password d d' \<longleftrightarrow> (\<exists>tok user c t h v.
     Validate (au_unicode svc) (au_policy svc) password = None \<and> t_TokenHash tok = hashToken code \<and>
     list_ex (consume_guard (reset_input tok user t)) (tokens d) \<and>
     c \<in> set (users d) \<and> u_ID c = u_ID user \<and> u_Email c = t_Email tok \<and> password_written user h v d \<and>
     same_but_audit (password_effect user h v t (\<lambda>s. s_UserID s = u_ID user)
       (update_where (consume_guard (reset_input tok user t)) (set_used t) (tokens d)) d) d')"

lemma rq_ResetPassword:
  assumes "\<not> c_tx ctx"
  shows "rq (ResetPassword svc ctx code pw) (\<lambda>r d'. case r of Inl e \<Rightarrow> d' = d | Inr _ \<Rightarrow> reset_done svc code pw d d') d"
proof -
  let ?Q = "\<lambda>r d'. case r of Inl e \<Rightarrow> d' = d | Inr _ \<Rightarrow> reset_done svc code pw d d'"
  have tx: "rq (WithTx ctx (\<lambda>tx. reset_tx svc tx user tok h v)) ?Q d"
    if "Validate (au_unicode svc) (au_policy svc) pw = None" "t_TokenHash tok = hashToken code" for user tok h v
  proof (rule rq_WithTx [OF assms(1)])
    show "wp (reset_tx svc (ctx\<lparr>c_tx := True\<rparr>) user tok h v) (\<lambda>r d'. case r of Inl e \<Rightarrow> True | Inr a \<Rightarrow> ?Q (Inr a) d') d"
    proof (rule wp_reset_tx)
      fix c t d'
      assume "c \<in> set (users d)" "u_ID c = u_ID user" "u_Email c = t_Email tok"
        "list_ex (consume_guard (reset_input tok user t)) (tokens d)" "password_written user h v d"
        "same_but_audit (password_effect user h v t (\<lambda>s. s_UserID s = u_ID user)
          (update_where (consume_guard (reset_input tok user t)) (set_used t) (tokens d)) d) d'"
      with that have "reset_done svc code pw d d'" unfolding reset_done_def by blast
      then show "case Inr () of Inl e \<Rightarrow> True | Inr a \<Rightarrow> ?Q (Inr a) d'" by simp
    qed simp_all
  qed simp
  have tok: "t_TokenHash tok = h" if "select1 (\<lambda>t. t_TokenHash t = h) ts = Some tok" for tok h ts
    using select1_Some [OF that] by simp
  have attempt_tx: "rq (attempt (WithTx ctx (\<lambda>tx. reset_tx svc tx user tok h v))) R d"
    if "Validate (au_unicode svc) (au_policy svc) pw = None" "t_TokenHash tok = hashToken code"
      "\<And>e. R (Inr (Inl e)) d" "\<And>d'. reset_done svc code pw d d' \<Longrightarrow> R (Inr (Inr ())) d'" for user tok h v R
    using rq_conseq [OF tx [OF that(1,2), of user h v], of "\<lambda>r. R (Inr r)"] that(3,4)
    by (auto intro!: rq_attempt split: sum.splits)
  show ?thesis
    unfolding ResetPassword_def GetByHash_def usr_GetByID_def
    by (auto intro!: rq_bnd rq_seq rq_wrap rq_query rq_fail rq_ret rq_now rq_works rq_policy_check rq_attempt [of "hash_at_least_work _ _ _"]
        attempt_tx dest!: tok split: option.split sum.split)
qed

text \<open>C15: a password reset either leaves the tables as they were, or claims an unexpired, unused reset token
  of the presented code whose address is still the user's, writes a password the policy allows over the one
  that was read, ends every session of the user, drops its pending challenges and reset tokens and cancels
  its address change, all at once.\<close>

theorem reset_password_outcome:
  assumes "\<not> c_tx ctx" and "faults_only w" and "ResetPassword svc ctx code pw w = (r, w')"
  shows "case r of Inl e \<Rightarrow> store w' = store w | Inr _ \<Rightarrow> reset_done svc code pw (store w) (store w')"
  using rqD [OF rq_ResetPassword [OF assms(1)] assms(2,3)] by simp

section \<open>Forgotten passwords leave no trace\<close>

text \<open>Programs that send nothing.\<close>

definition silent :: "'a action \<Rightarrow> bool" where
  "silent m \<longleftrightarrow> (\<forall>w. mailbox (snd (m w)) = mailbox w)"

named_theorems silents \<open>programs that send nothing\<close>

lemma silentD: "silent m \<Longrightarrow> m w = (r, w') \<Longrightarrow> mailbox w' = mailbox w"
  unfolding silent_def by (metis snd_conv)

lemma next_event_mail: "next_event ctx w = (ok, w') \<Longrightarrow> mailbox w' = mailbox w"
  by (auto simp: next_event_def split: list.splits event.splits)

lemma silent_basic [silents]: "silent (ret a)" "silent (fail e)" "silent now" "silent draw"
  by (simp_all add: silent_def ret_def fail_def now_def draw_def Let_def split: list.split)

lemma silent_stmt [silents]: "silent (stmt ctx f)" "silent (query ctx g)" "silent (exec ctx h)"
  unfolding query_def exec_def silent_def stmt_def
  by (auto split: prod.split sum.split dest: next_event_mail)

lemma silent_bnd [silents]: "silent m \<Longrightarrow> (\<And>a. silent (f a)) \<Longrightarrow> silent (bnd m f)"
  unfolding silent_def bnd_def by (auto split: prod.splits sum.splits) (metis snd_conv)+

lemma silent_seq [silents]: "silent m \<Longrightarrow> silent k \<Longrightarrow> silent (seq m k)"
  unfolding seq_def by (intro silents)

lemma silent_attempt [silents]: "silent m \<Longrightarrow> silent (attempt m)"
  unfolding silent_def attempt_def by (auto split: prod.splits) (metis snd_conv)

lemma silent_wrap [silents]: "silent m \<Longrightarrow> silent (wrap s m)"
  unfolding silent_def wrap_def by (auto split: prod.splits sum.splits) (metis snd_conv)+

lemma silent_WithTx [silents]:
  assumes "\<And>tx. silent (fn tx)"
  shows "silent (WithTx ctx fn)"
  unfolding silent_def
proof
  fix w :: "tables world"
  obtain ok w1 where ev: "next_event ctx w = (ok, w1)" by fastforce
  obtain r2 w2 where fn: "fn (ctx\<lparr>c_tx := True\<rparr>) w1 = (r2, w2)" by fastforce
  obtain ok3 w3 where ev3: "next_event (ctx\<lparr>c_tx := True\<rparr>) w2 = (ok3, w3)" by fastforce
  have "mailbox (snd (fn ctx w)) = mailbox w" using assms unfolding silent_def by blast
  moreover have "mailbox w1 = mailbox w" "mailbox w2 = mailbox w1" "mailbox w3 = mailbox w2"
    using next_event_mail [OF ev] silentD [OF assms fn] next_event_mail [OF ev3] by simp_all
  ultimately show "mailbox (snd (WithTx ctx fn w)) = mailbox w"
    unfolding WithTx_def by (auto simp: ev fn ev3 split: sum.split)
qed

lemma silent_dummy [silents]: "silent (burnForgotPasswordDummy svc ctx)"
  unfolding burnForgotPasswordDummy_def writePasswordResetToken_def Generate_def generateID_def revoke_defs tok_Create_def Render_def
  by (auto intro!: silents split: sum.split)

lemma rq_dummy:
  assumes "\<not> c_tx ctx" and "\<And>r. Q r d"
  shows "rq (burnForgotPasswordDummy svc ctx) Q d"
proof -
  have tx: "rq (attempt (WithTx ctx (\<lambda>tx. seq (m tx) (fail e) :: unit action))) R d"
    if "\<And>r. R r d" "\<And>tx. c_tx tx \<Longrightarrow> wp (m tx) (\<lambda>_ _. True) d" for R and m :: "ctx \<Rightarrow> unit action" and e
    using that assms(1)
    by (intro rq_attempt rq_WithTx wp_seq) (auto intro!: wp_conseq [OF that(2)] wp_fail split: sum.split)
  show ?thesis
    unfolding burnForgotPasswordDummy_def writePasswordResetToken_def revoke_defs tok_Create_def
    by (auto intro!: rq_bnd rq_now rq_ret tx rq_works rq_attempt [of Generate] rq_attempt [of "Render _"]
        wps assms(2) split: sum.split)
qed


section \<open>Witnesses\<close>

definition reset_user_ex :: user where
  "reset_user_ex = user_ex\<lparr>u_PasswordHash := Some ''hold-secret''\<rparr>"

definition reset_token_ex :: token where
  "reset_token_ex = code_token ''t1'' reset_user_ex (hashToken ''code'') TokenResetPass 100 1"

definition reset_world_ex :: "tables world" where
  "reset_world_ex = (quiet_world (tables_of [reset_user_ex] [reset_token_ex]))\<lparr>entropy := [Some ''salt'']\<rparr>"

lemmas world_simps = quiet_world_def tables_of_def user_ex_def code_token_def

lemmas run_simps = quiet effect_defs reject_if_def run_if_def WithTx_def InTx_def now_def draw_def Let_def

lemma reset_run_ex: "fst (ResetPassword auth_ex request_ctx ''code'' ''passw0rd'' reset_world_ex) = Inr ()"
proof -
  have ok: "Validate ascii_tables zero_policy ''passw0rd'' = None" by code_simp
  show ?thesis
    by (simp add: ResetPassword_def policy_check_def ok run_simps reset_world_ex_def world_simps reset_token_ex_def reset_user_ex_def
      GetByHash_def usr_GetByID_def auth_ex_def config_ex_def select1_def user_id_is_def HasPassword_def
      hash_at_least_work_def password_work_def hashPasswordAtLeast_def hashPassword_def hasher_ex_def
      reset_tx_def GetByIDForUpdate_def ConsumeIfValid_def affected_def put_tokens_def put_users_def guard_defs reset_input_def
      count_where_def update_where_def set_used_def guardedPasswordUpdate_def UpdatePasswordHash_def hash_guard_def passwordPepperVersionValue_def
      revoke_defs put_email_changes_def put_sessions_def delete_where_def publish_def)
qed

theorem reset_password_outcome_witness:
  "reset_done auth_ex ''code'' ''passw0rd'' (tables_of [reset_user_ex] [reset_token_ex])
     (store (snd (ResetPassword auth_ex request_ctx ''code'' ''passw0rd'' reset_world_ex)))"
proof -
  obtain w' where run: "ResetPassword auth_ex request_ctx ''code'' ''passw0rd'' reset_world_ex = (Inr (), w')"
    using reset_run_ex by (metis prod.collapse)
  have "faults_only reset_world_ex" "store reset_world_ex = tables_of [reset_user_ex] [reset_token_ex]"
    by (simp_all add: reset_world_ex_def quiet_world_def)
  with reset_password_outcome [OF _ _ run] run show ?thesis by simp
qed


end
