(* ===== verification/TwoFactor.thy ===== *)
theory TwoFactor
  imports PasswordFlows RateLimit Base64
begin

text \<open>
  \<open>internal/service/twofactor.go\<close> and \<open>internal/service/twofactor_settings.go\<close>: email codes as a second
  factor. A challenge is a \<open>TokenTwoFactor\<close> row; the password or OAuth login that started it is its
  context hash, and the browser that started it holds an HMAC of its id. The service adds to the
  \<open>auth_service\<close> the store of its notification counters, an argument: the code knows its interface only.
  Application roles are the fixed ones (\<open>config.AppPermissions\<close> is nil).
\<close>

record two_factor =
  tf_auth :: auth_service
  tf_store :: "(string \<Rightarrow> rate \<Rightarrow> result action) option"

definition maxAttemptsPerChallenge :: int where
  "maxAttemptsPerChallenge = 5"

definition maxCodeRefreshesPerChallenge :: int where
  "maxCodeRefreshesPerChallenge = 3"

definition notifyThresholdPerAccount :: int where
  "notifyThresholdPerAccount = 20"

definition notifyWindowPerAccount :: duration where
  "notifyWindowPerAccount = hour"

definition twoFactorCodeLength :: nat where
  "twoFactorCodeLength = 6"

record challenge_result =
  ch_ID :: string
  ch_Sent :: bool
  ch_ExpiresAt :: time
  ch_BindingToken :: string

definition Enforce :: "config \<Rightarrow> user option \<Rightarrow> bool" where
  "Enforce cf uo = (case uo of None \<Rightarrow> False
     | Some u \<Rightarrow> cf_RequireEmail2FA cf \<or> u_TwoFactorEnabled u \<or> (u_Role u = ''admin'' \<and> \<not> cf_DisableAdminTwoFactor cf))"

section \<open>Binding a challenge to a browser\<close>

definition bindingToken :: "config \<Rightarrow> string \<Rightarrow> string" where
  "bindingToken cf challengeID =
     (if cf_DisableTwoFactorChallengeBinding cf \<or> cf_TwoFactorBindingKey cf = '''' then ''''
      else EncodeToString RawURLEncoding (hmac_sha256 (cf_TwoFactorBindingKey cf) challengeID))"

definition checkBinding :: "config \<Rightarrow> string \<Rightarrow> string \<Rightarrow> bool" where
  "checkBinding cf challengeID supplied =
     (if cf_DisableTwoFactorChallengeBinding cf then True
      else if cf_TwoFactorBindingKey cf = '''' then False
      else bindingToken cf challengeID = supplied)"

section \<open>Challenges\<close>

definition select_scope :: "ctx \<Rightarrow> scope \<Rightarrow> ctx" where
  "select_scope ctx s = ctx\<lparr>c_scope := With (c_scope ctx) s\<rparr>"

definition current_scope :: "ctx \<Rightarrow> scope" where
  "current_scope ctx = Current (c_scope ctx)"

text \<open>Whether a live challenge of the same kind and browser context is kept.\<close>

definition reusable :: "config \<Rightarrow> ctx \<Rightarrow> string \<Rightarrow> token option \<Rightarrow> bool action" where
  "reusable cf ctx methodHash existing = (case existing of
       None \<Rightarrow> ret False
     | Some t \<Rightarrow>
         if t_ContextHash t = methodHash \<and> Of (t_TokenHash t) = current_scope ctx \<and> t_UsedAt t = None
         then bnd now (\<lambda>n. ret (n < t_ExpiresAt t \<and> t_Attempts t < maxAttemptsPerChallenge \<and>
                t_ResendCount t < maxCodeRefreshesPerChallenge \<and> \<not> stalePepper (t_CreatedAt t) (cf_SecretRotatedAt cf)))
         else ret False)"

definition challenge_token :: "string \<Rightarrow> user \<Rightarrow> string \<Rightarrow> string \<Rightarrow> token_type \<Rightarrow> time \<Rightarrow> time \<Rightarrow> token" where
  "challenge_token i user h methodHash ty expires created = (code_token i user h ty expires created)\<lparr>t_ContextHash := methodHash\<rparr>"

definition prepareIssue :: "auth_service \<Rightarrow> ctx \<Rightarrow> user \<Rightarrow> string \<Rightarrow> (token \<times> string) action" where
  "prepareIssue svc ctx user methodHash =
     (let cf = au_config svc in
      if \<not> au_mailer svc then fail ErrEmailNotConfigured
      else bnd (GenerateNumeric twoFactorCodeLength) (\<lambda>raw.
        if cf_OTPPepper cf = '''' then fail (Sentinel ''2fa issue requires an OTP pepper'')
        else bnd now (\<lambda>t. bnd generateID (\<lambda>i.
          let tok = challenge_token i user (Bind (current_scope ctx) (hashOTP raw (cf_OTPPepper cf))) methodHash TokenTwoFactor
                      (t + cf_TwoFactorCodeTTL cf) t in
          seq (tok_Create ctx tok) (ret (tok, raw))))))"

definition tf_send :: "auth_service \<Rightarrow> ctx \<Rightarrow> user \<Rightarrow> string \<Rightarrow> unit action" where
  "tf_send svc ctx user code =
     (if \<not> au_mailer svc then fail ErrEmailNotConfigured
      else bnd (internal (Render (email (u_Email user) ''two_factor'' code))) (\<lambda>msg.
        bnd (attempt (send_mail ctx msg)) (\<lambda>s. case s of
          Inl e \<Rightarrow> fail (NewError ''email_failed'' ''Failed to send two-factor code'') | Inr _ \<Rightarrow> ret ())))"

text \<open>What callers see of a failed transaction: a domain error as it is, anything else as an internal error.\<close>

definition domain_error :: "go_err \<Rightarrow> go_err" where
  "domain_error e = (if as_auth e \<noteq> None then e else ErrInternal)"

text \<open>The user of a challenge, locked: the one whose password was just verified must still be that one.\<close>

definition lock_challenged :: "bool \<Rightarrow> ctx \<Rightarrow> string \<Rightarrow> user option \<Rightarrow> user option action" where
  "lock_challenged sq tx userID expected = (case expected of
       Some u \<Rightarrow> bnd (lockPasswordIdentity sq tx u) (\<lambda>c. ret (Some c))
     | None \<Rightarrow> GetByIDForUpdate sq tx userID)"

definition challenge_tx ::
  "auth_service \<Rightarrow> ctx \<Rightarrow> ctx \<Rightarrow> string \<Rightarrow> user option \<Rightarrow> string \<Rightarrow> (challenge_result + user \<times> token \<times> string) action" where
  "challenge_tx svc ctx tx userID expected methodHash =
     (let admin = (current_scope ctx = Admin); cf = au_config svc in
      bnd (lock_challenged (au_sqlite svc) tx userID expected) (\<lambda>found. case found of
        None \<Rightarrow> fail ErrUserNotFound
      | Some user \<Rightarrow>
          if u_IsBanned user then fail ErrUserBanned
          else bnd (GetLastTwoFactor tx userID admin) (\<lambda>existing.
            bnd (reusable cf ctx methodHash existing) (\<lambda>reuse.
              if reuse
              then (let t = the existing in
                ret (Inl \<lparr>ch_ID = t_ID t, ch_Sent = False, ch_ExpiresAt = t_ExpiresAt t, ch_BindingToken = bindingToken cf (t_ID t)\<rparr>))
              else seq (DeleteUnusedTwoFactor tx userID admin)
                (bnd (prepareIssue svc tx user methodHash) (\<lambda>(tok, raw). ret (Inr (user, tok, raw))))))))"

definition challenge :: "auth_service \<Rightarrow> ctx \<Rightarrow> string \<Rightarrow> user option \<Rightarrow> string \<Rightarrow> challenge_result action" where
  "challenge svc ctx0 userID expected methodHash =
     (let ctx = select_scope ctx0 (current_scope ctx0); cf = au_config svc in
      bnd (attempt (WithTx ctx (\<lambda>tx. challenge_tx svc ctx tx userID expected methodHash))) (\<lambda>r. case r of
        Inl e \<Rightarrow> fail (domain_error e)
      | Inr (Inl result) \<Rightarrow> ret result
      | Inr (Inr (user, tok, raw)) \<Rightarrow>
          bnd (attempt (tf_send svc ctx user raw)) (\<lambda>s. case s of
            Inl e \<Rightarrow> bnd (attempt (MarkUsedIfUnused ctx (t_ID tok))) (\<lambda>_. fail e)
          | Inr _ \<Rightarrow> seq (publish (au_audit svc) ctx (user_event ''2fa.code.sent'' (u_ID user)))
              (ret \<lparr>ch_ID = t_ID tok, ch_Sent = True, ch_ExpiresAt = t_ExpiresAt tok, ch_BindingToken = bindingToken cf (t_ID tok)\<rparr>))))"

definition Challenge :: "auth_service \<Rightarrow> ctx \<Rightarrow> string \<Rightarrow> challenge_result action" where
  "Challenge svc ctx userID = challenge svc ctx userID None ''''"

definition challengeWithPassword :: "auth_service \<Rightarrow> ctx \<Rightarrow> user \<Rightarrow> challenge_result action" where
  "challengeWithPassword svc ctx expected = challenge svc ctx (u_ID expected) (Some expected) (hashToken ''password'')"

definition challengeWithOAuth :: "auth_service \<Rightarrow> ctx \<Rightarrow> string \<Rightarrow> challenge_result action" where
  "challengeWithOAuth svc ctx userID = challenge svc ctx userID None (hashToken ''oauth'')"

definition checkChallengeMethod :: "config \<Rightarrow> token \<Rightarrow> unit action" where
  "checkChallengeMethod cf tok = reject_if
     ((t_ContextHash tok = hashToken ''password'' \<and> cf_PasswordAuthenticationDisabled cf) \<or>
      (t_ContextHash tok = hashToken ''oauth'' \<and> cf_OAuthAuthenticationDisabled cf)) ErrMethodDisabled"

section \<open>Failed guesses\<close>

definition notifySuspicious :: "auth_service \<Rightarrow> ctx \<Rightarrow> string \<Rightarrow> int \<Rightarrow> unit action" where
  "notifySuspicious svc ctx address n =
     (if \<not> au_mailer svc then ret ()
      else bnd (attempt (Render (email address ''two_factor_suspicious'' (itoa n)))) (\<lambda>m. case m of
        Inl e \<Rightarrow> ret ()
      | Inr msg \<Rightarrow> bnd (attempt (send_mail ctx msg)) (\<lambda>_. ret ())))"

definition recordFailure :: "two_factor \<Rightarrow> ctx \<Rightarrow> string \<Rightarrow> string \<Rightarrow> unit action" where
  "recordFailure tf ctx userID address =
     (let svc = tf_auth tf in
      bnd (attempt (publish (au_audit svc) ctx (user_event ''2fa.failed'' userID))) (\<lambda>_. case tf_store tf of
        None \<Rightarrow> ret ()
      | Some allow \<Rightarrow>
          bnd (attempt (allow (''2fa:fail:'' @ userID) \<lparr>Requests = notifyThresholdPerAccount - 1, Window = notifyWindowPerAccount\<rparr>)) (\<lambda>res.
          case res of Inl e \<Rightarrow> ret () | Inr r \<Rightarrow>
          if Allowed r then ret ()
          else bnd (attempt (allow (''2fa:notified:'' @ userID) \<lparr>Requests = 1, Window = notifyWindowPerAccount\<rparr>)) (\<lambda>latch.
            case latch of Inl e \<Rightarrow> ret () | Inr first \<Rightarrow>
            if \<not> Allowed first then ret ()
            else bnd (attempt (publish (au_audit svc) ctx (user_event ''2fa.suspicious'' userID))) (\<lambda>_.
              notifySuspicious svc ctx address notifyThresholdPerAccount)))))"

section \<open>Verifying a code\<close>

record verify_result =
  vr_User :: user
  vr_Session :: session
  vr_SessionToken :: string
  vr_RefreshToken :: string

definition claim_input :: "token \<Rightarrow> string \<Rightarrow> token_type \<Rightarrow> time \<Rightarrow> consume_input" where
  "claim_input tok userID ty t =
     \<lparr>c_ID = t_ID tok, c_TokenHash = t_TokenHash tok, c_UserID = userID, c_Type = ty, c_UsedAt = t\<rparr>"

definition verify_tx :: "auth_service \<Rightarrow> ctx \<Rightarrow> token \<Rightarrow> string \<Rightarrow> string \<Rightarrow> string \<Rightarrow> (user \<times> session_result) action" where
  "verify_tx svc tx tok userID ip userAgent =
     bnd (GetByIDForUpdate (au_sqlite svc) tx userID) (\<lambda>found. case found of
       None \<Rightarrow> fail ErrUserNotFound
     | Some user \<Rightarrow>
         if u_IsBanned user then fail ErrUserBanned
         else if cf_RequireEmailVerification (au_config svc) \<and> \<not> u_IsVerified user then fail ErrEmailNotVerified
         else bnd now (\<lambda>t.
           bnd (ConsumeIfValidUnderCap tx (claim_input tok userID TokenTwoFactor t) maxAttemptsPerChallenge) (\<lambda>ok.
           if \<not> ok then fail ErrTwoFactorCodeInvalid
           else bnd (create (au_sessions svc) tx (u_ID user) ip userAgent True) (\<lambda>res.
             bnd now (\<lambda>t2.
             seq (UpdateLastLoginAt tx (u_ID user) t2)
             (seq (publish (au_audit svc) tx \<lparr>e_Type = ''2fa.verified'', e_Actor = u_ID user, e_Ref = s_ID (sr_Session res)\<rparr>)
                  (ret (user, res))))))))"

definition Verify :: "two_factor \<Rightarrow> ctx \<Rightarrow> string \<Rightarrow> string \<Rightarrow> string \<Rightarrow> string \<Rightarrow> string \<Rightarrow> verify_result action" where
  "Verify tf ctx0 challengeID binding code ip userAgent =
     (let svc = tf_auth tf; cf = au_config svc in
      if \<not> checkBinding cf challengeID binding then fail ErrTwoFactorCodeInvalid
      else bnd (wrap ''verify: lookup'' (tok_GetByID ctx0 challengeID)) (\<lambda>found. case found of
        None \<Rightarrow> fail ErrTwoFactorCodeInvalid
      | Some tok \<Rightarrow> (case t_UserID tok of
          None \<Rightarrow> fail ErrTwoFactorCodeInvalid
        | Some userID \<Rightarrow>
          if t_Type tok \<noteq> TokenTwoFactor then fail ErrTwoFactorCodeInvalid
          else seq (checkChallengeMethod cf tok)
            (if \<not> Matches (c_scope ctx0) (t_TokenHash tok) then fail ErrTwoFactorCodeInvalid
             else let ctx = select_scope ctx0 (Of (t_TokenHash tok)) in
             if t_UsedAt tok \<noteq> None then fail ErrTwoFactorCodeAlreadyUsed
             else bnd now (\<lambda>n.
               if t_ExpiresAt tok < n then fail ErrTwoFactorCodeExpired
               else if stalePepper (t_CreatedAt tok) (cf_SecretRotatedAt cf) then fail ErrTwoFactorCodeExpired
               else if \<not> verifyOTP code (trim_prefix adminPrefix (t_TokenHash tok)) (cf_OTPPepper cf)
               then bnd (attempt (IncrementAttempts ctx (t_ID tok) maxAttemptsPerChallenge)) (\<lambda>_.
                    seq (recordFailure tf ctx userID (t_Email tok)) (fail ErrTwoFactorCodeInvalid))
               else bnd (attempt (WithTx ctx (\<lambda>tx. verify_tx svc tx tok userID ip userAgent))) (\<lambda>r. case r of
                 Inl e \<Rightarrow> fail (domain_error e)
               | Inr (user, res) \<Rightarrow> ret \<lparr>vr_User = user, vr_Session = sr_Session res,
                   vr_SessionToken = sr_SessionToken res, vr_RefreshToken = sr_RefreshToken res\<rparr>))))))"

section \<open>Resending a code\<close>

definition vague :: go_err where
  "vague = NewError ''challenge_not_found'' ''If the challenge is valid, a new code has been sent''"

definition Resend :: "auth_service \<Rightarrow> ctx \<Rightarrow> string \<Rightarrow> string \<Rightarrow> challenge_result action" where
  "Resend svc ctx0 challengeID binding =
     (let cf = au_config svc in
      if \<not> checkBinding cf challengeID binding then fail vague
      else bnd (wrap ''resend: lookup'' (tok_GetByID ctx0 challengeID)) (\<lambda>found. case found of
        None \<Rightarrow> fail vague
      | Some tok \<Rightarrow> (case t_UserID tok of
          None \<Rightarrow> fail vague
        | Some userID \<Rightarrow>
          if t_Type tok \<noteq> TokenTwoFactor then fail vague
          else if \<not> Matches (c_scope ctx0) (t_TokenHash tok) then fail vague
          else let ctx = select_scope ctx0 (Of (t_TokenHash tok)) in
            bnd (wrap ''resend: lookup'' (usr_GetByID ctx userID)) (\<lambda>u. case u of
              None \<Rightarrow> fail vague
            | Some user \<Rightarrow>
                if \<not> au_mailer svc then fail ErrEmailNotConfigured
                else bnd (internal (GenerateNumeric twoFactorCodeLength)) (\<lambda>raw.
                  if cf_OTPPepper cf = '''' then fail ErrInternal
                  else bnd now (\<lambda>t. bnd now (\<lambda>t2.
                    bnd (internal (UpdateForResend ctx (t_ID tok) (Bind (current_scope ctx) (hashOTP raw (cf_OTPPepper cf)))
                           (t + cf_TwoFactorCodeTTL cf) t2 maxCodeRefreshesPerChallenge maxAttemptsPerChallenge)) (\<lambda>ok.
                    if \<not> ok then fail ErrTwoFactorCodeExpired
                    else seq (tf_send svc ctx user raw)
                      (seq (publish (au_audit svc) ctx (user_event ''2fa.code.sent'' (u_ID user)))
                        (ret \<lparr>ch_ID = t_ID tok, ch_Sent = True, ch_ExpiresAt = t + cf_TwoFactorCodeTTL cf,
                          ch_BindingToken = bindingToken cf (t_ID tok)\<rparr>))))))))))"

section \<open>Personal settings\<close>

definition settingsTokenType :: "string \<Rightarrow> go_err + token_type" where
  "settingsTokenType action =
     (if action = ''enable'' then Inr TokenTwoFactorEnable
      else if action = ''disable'' then Inr TokenTwoFactorDisable
      else Inl ErrTwoFactorCodeInvalid)"

definition settingsSession :: "auth_service \<Rightarrow> ctx \<Rightarrow> string \<Rightarrow> string \<Rightarrow> session action" where
  "settingsSession svc ctx userID sessionID =
     (if sessionID = '''' then fail ErrInvalidCredentials
      else bnd (sess_GetByID ctx sessionID) (\<lambda>so.
        seq (checkSession (au_sessions svc) so) (case so of
          None \<Rightarrow> fail ErrSessionNotFound
        | Some s \<Rightarrow>
            if s_UserID s \<noteq> userID \<or> \<not> Matches (c_scope ctx) (s_TokenHash s) then fail ErrInvalidCredentials
            else ret s)))"

text \<open>The account checks both confirmation paths share.\<close>

definition usable_account :: "auth_service \<Rightarrow> user option \<Rightarrow> user action" where
  "usable_account svc found = (case found of
       None \<Rightarrow> fail ErrUserNotFound
     | Some user \<Rightarrow>
         if u_IsBanned user then fail ErrUserBanned
         else if cf_RequireEmailVerification (au_config svc) \<and> \<not> u_IsVerified user then fail ErrEmailNotVerified
         else ret user)"

definition RequestSettingsChallenge :: "auth_service \<Rightarrow> ctx \<Rightarrow> string \<Rightarrow> string \<Rightarrow> string \<Rightarrow> challenge_result action" where
  "RequestSettingsChallenge svc ctx userID action sessionID =
     (let cf = au_config svc in
      case settingsTokenType action of Inl e \<Rightarrow> fail e | Inr kind \<Rightarrow>
      if cf_RequireEmail2FA cf then fail ErrTwoFactorAlreadyEnforced
      else bnd (WithTx ctx (\<lambda>tx.
        bnd (GetByIDForUpdate (au_sqlite svc) tx userID) (\<lambda>found.
        bnd (usable_account svc found) (\<lambda>user.
        bnd (GetLastByUserAndType tx (u_ID user) kind) (\<lambda>existing.
        bnd (settingsSession svc tx userID sessionID) (\<lambda>s.
          let contextHash = hashToken (s_ID s) in
          bnd (case existing of
                 None \<Rightarrow> ret False
               | Some t \<Rightarrow>
                   if t_UsedAt t = None \<and> t_Email t = u_Email user \<and> t_ContextHash t = contextHash
                   then bnd now (\<lambda>n. ret (n < t_ExpiresAt t \<and> \<not> stalePepper (t_CreatedAt t) (cf_SecretRotatedAt cf)))
                   else ret False) (\<lambda>live.
          if live then ret (user, the existing, None)
          else if \<not> au_mailer svc then fail ErrEmailNotConfigured
          else if cf_OTPPepper cf = '''' then fail ErrInternal
          else bnd (GenerateNumeric twoFactorCodeLength) (\<lambda>raw.
            bnd now (\<lambda>t. bnd generateID (\<lambda>i.
              let tok = challenge_token i user (hashOTP raw (cf_OTPPepper cf)) contextHash kind (t + cf_TwoFactorCodeTTL cf) t in
              seq (tok_Create tx tok) (ret (user, tok, Some raw)))))))))))) (\<lambda>(user, tok, raw).
        let res = \<lparr>ch_ID = t_ID tok, ch_Sent = (raw \<noteq> None), ch_ExpiresAt = t_ExpiresAt tok, ch_BindingToken = ''''\<rparr> in
        case raw of
          None \<Rightarrow> ret res
        | Some code \<Rightarrow> bnd (attempt (tf_send svc ctx user code)) (\<lambda>s. case s of
            Inr _ \<Rightarrow> ret res
          | Inl e \<Rightarrow> seq (wrap ''settings proof cleanup'' (discardUndeliveredToken ctx (t_ID tok))) (fail e))))"

definition authorizeChange :: "auth_service \<Rightarrow> ctx \<Rightarrow> string \<Rightarrow> string \<Rightarrow> user action" where
  "authorizeChange svc ctx userID password =
     (if cf_PasswordAuthenticationDisabled (au_config svc) then fail ErrMethodDisabled
      else if cf_RequireEmail2FA (au_config svc) then fail ErrTwoFactorAlreadyEnforced
      else bnd (wrap ''authorize change: lookup'' (GetByIDForUpdate (au_sqlite svc) ctx userID)) (\<lambda>found.
        bnd (usable_account svc found) (\<lambda>user. case u_PasswordHash user of
          None \<Rightarrow> fail ErrTwoFactorPasswordRequired
        | Some stored \<Rightarrow>
            if password = '''' then fail ErrTwoFactorPasswordRequired
            else bnd (attempt (compare_work (au_hasher svc) password stored (u_PepperVersion user))) (\<lambda>c. case c of
              Inl e \<Rightarrow> fail (passwordCompareError e ErrInvalidCredentials)
            | Inr _ \<Rightarrow> ret user))))"

definition settings_proof :: "string \<Rightarrow> token \<Rightarrow> user \<Rightarrow> session \<Rightarrow> token_type \<Rightarrow> bool" where
  "settings_proof userID tok user s kind \<longleftrightarrow> t_Type tok = kind \<and> t_UserID tok = Some userID \<and>
     t_ContextHash tok = hashToken (s_ID s) \<and> t_Email tok = u_Email user \<and> t_UsedAt tok = None"

definition authorizeSettingChange ::
  "auth_service \<Rightarrow> ctx \<Rightarrow> string \<Rightarrow> string \<Rightarrow> string \<Rightarrow> string \<Rightarrow> string \<Rightarrow> token_type \<Rightarrow> user action" where
  "authorizeSettingChange svc ctx userID password challengeID code sessionID kind =
     (let cf = au_config svc in
      if challengeID = '''' then authorizeChange svc ctx userID password
      else if cf_RequireEmail2FA cf then fail ErrTwoFactorAlreadyEnforced
      else bnd (GetByIDForUpdate (au_sqlite svc) ctx userID) (\<lambda>found.
        bnd (usable_account svc found) (\<lambda>user.
        bnd (settingsSession svc ctx userID sessionID) (\<lambda>s.
        bnd (tok_GetByID ctx challengeID) (\<lambda>challenge. case challenge of
          None \<Rightarrow> fail ErrTwoFactorCodeInvalid
        | Some tok \<Rightarrow>
            if \<not> settings_proof userID tok user s kind then fail ErrTwoFactorCodeInvalid
            else bnd now (\<lambda>n.
              if \<not> n < t_ExpiresAt tok \<or> stalePepper (t_CreatedAt tok) (cf_SecretRotatedAt cf) then fail ErrTwoFactorCodeInvalid
              else if \<not> verifyOTP code (t_TokenHash tok) (cf_OTPPepper cf)
              then bnd (IncrementAttempts ctx (t_ID tok) maxAttemptsPerChallenge) (\<lambda>_. fail ErrTwoFactorCodeInvalid)
              else bnd now (\<lambda>t.
                bnd (ConsumeIfValidUnderCap ctx (claim_input tok (u_ID user) kind t) maxAttemptsPerChallenge) (\<lambda>claimed.
                if \<not> claimed then fail ErrTwoFactorCodeInvalid else ret user))))))))"

text \<open>A failed guess commits: the transaction's function swallows that error and the caller gets it after
  the commit.\<close>

definition settingsTransaction :: "ctx \<Rightarrow> (ctx \<Rightarrow> unit action) \<Rightarrow> unit action" where
  "settingsTransaction ctx change =
     bnd (attempt (WithTx ctx (\<lambda>tx. bnd (attempt (change tx)) (\<lambda>r. case r of
            Inl e \<Rightarrow> if errors_is e ErrTwoFactorCodeInvalid then ret (Some e) else fail e
          | Inr _ \<Rightarrow> ret None)))) (\<lambda>r. case r of
       Inl e \<Rightarrow> fail (if as_auth e \<noteq> None then e else Wrapf ''two-factor settings'' [ErrInternal, e])
     | Inr (Some proofErr) \<Rightarrow> fail proofErr
     | Inr None \<Rightarrow> ret ())"

definition enable_change ::
  "auth_service \<Rightarrow> string \<Rightarrow> string \<Rightarrow> string \<Rightarrow> string \<Rightarrow> string \<Rightarrow> bool \<Rightarrow> ctx \<Rightarrow> unit action" where
  "enable_change svc userID password challengeID code sessionID keepOthers tx =
     bnd (authorizeSettingChange svc tx userID password challengeID code sessionID TokenTwoFactorEnable) (\<lambda>user.
       if u_TwoFactorEnabled user then ret ()
       else bnd now (\<lambda>t.
         seq (SetTwoFactorEnabled tx (u_ID user) True t)
         (seq (CancelForUser tx (u_ID user))
         (seq (run_if (\<not> keepOthers \<and> sessionID \<noteq> '''') (DeleteAllForUserExcept tx (u_ID user) sessionID))
              (publish (au_audit svc) tx (user_event ''2fa.enabled'' (u_ID user)))))))"

definition Enable :: "auth_service \<Rightarrow> ctx \<Rightarrow> string \<Rightarrow> string \<Rightarrow> string \<Rightarrow> string \<Rightarrow> string \<Rightarrow> bool \<Rightarrow> unit action" where
  "Enable svc ctx userID password challengeID code sessionID keepOthers =
     settingsTransaction ctx (enable_change svc userID password challengeID code sessionID keepOthers)"

definition disable_change ::
  "auth_service \<Rightarrow> string \<Rightarrow> string \<Rightarrow> string \<Rightarrow> string \<Rightarrow> string \<Rightarrow> ctx \<Rightarrow> unit action" where
  "disable_change svc userID password challengeID code sessionID tx =
     bnd (authorizeSettingChange svc tx userID password challengeID code sessionID TokenTwoFactorDisable) (\<lambda>user.
       if \<not> u_TwoFactorEnabled user then ret ()
       else bnd now (\<lambda>t.
         seq (SetTwoFactorEnabled tx (u_ID user) False t)
         (seq (CancelForUser tx (u_ID user))
              (publish (au_audit svc) tx (user_event ''2fa.disabled'' (u_ID user))))))"

definition Disable :: "auth_service \<Rightarrow> ctx \<Rightarrow> string \<Rightarrow> string \<Rightarrow> string \<Rightarrow> string \<Rightarrow> string \<Rightarrow> unit action" where
  "Disable svc ctx userID password challengeID code sessionID =
     settingsTransaction ctx (disable_change svc userID password challengeID code sessionID)"

section \<open>Effects\<close>

lemma wp_local: "local_prog m \<Longrightarrow> (\<And>r. Q r d) \<Longrightarrow> wp m Q d"
  using local_progD [of m] by (fastforce simp: wp_def tx_hoare_def)

lemma same_but_audit_trans: "same_but_audit a b \<Longrightarrow> same_but_audit b c \<Longrightarrow> same_but_audit a c"
  by (auto simp: same_but_audit_def) (cases a; simp)+

lemma same_but_audit_put:
  assumes "same_but_audit a b"
  shows "same_but_audit (put_users us a) (put_users us b)" "same_but_audit (put_tokens ts a) (put_tokens ts b)"
    "same_but_audit (put_sessions ss a) (put_sessions ss b)" "same_but_audit (put_email_changes es a) (put_email_changes es b)"
  using assms by (auto simp: same_but_audit_def put_users_def put_tokens_def put_sessions_def put_email_changes_def) (cases a; simp)+

lemma same_but_audit_sel:
  assumes "same_but_audit a b"
  shows "users b = users a" "tokens b = tokens a" "sessions b = sessions a" "email_changes b = email_changes a"
  using assms by (auto simp: same_but_audit_def)

text \<open>A session created inside a transaction.\<close>

definition session_for :: "string \<Rightarrow> bool \<Rightarrow> session_result \<Rightarrow> bool" where
  "session_for userID secondFactor res \<longleftrightarrow> s_UserID (sr_Session res) = userID \<and> \<not> s_IsRevoked (sr_Session res) \<and>
     (s_TwoFactorVerifiedAt (sr_Session res) \<noteq> None \<longleftrightarrow> secondFactor) \<and>
     s_TokenHash (sr_Session res) = hashToken (sr_SessionToken res)"

lemma wp_sess_Create:
  assumes "c_tx tx" and "\<And>e. Q (Inl e) d" and "Q (Inr ()) (put_sessions (sessions d @ [s]) d)"
  shows "wp (sess_Create tx s) Q d"
  unfolding sess_Create_def using assms by (auto intro!: wp_stmt simp: put_sessions_def split: if_splits)

lemma wp_create:
  assumes "c_tx tx" and err: "\<And>e d'. Q (Inl e) d'"
    and ok: "\<And>res d'. session_for u tfv res \<Longrightarrow> same_but_audit (put_sessions (sessions d @ [sr_Session res]) d) d' \<Longrightarrow> Q (Inr res) d'"
  shows "wp (create svc tx u ip ua tfv) Q d"
proof -
  have gen: "wp (wrap m Generate) R d" if "\<And>r. R r d" for m R
    using that by (intro wp_local locals local_works)
  show ?thesis
    unfolding create_def Let_def
    by (auto intro!: wp_bnd wp_seq wp_now wp_draw wp_ret wp_WithTx wp_wrap wp_sess_Create wp_publish gen err ok assms(1)
        simp: session_for_def split: sum.split)
qed

definition last_login :: "string \<Rightarrow> time \<Rightarrow> user list \<Rightarrow> user list" where
  "last_login i t us = update_where (user_id_is i) (\<lambda>u. u\<lparr>u_LastLoginAt := Some t, u_UpdatedAt := t\<rparr>) us"

text \<open>What completing a challenge does: the code is claimed within its lifetime and its budget of guesses, the
  session is added, and the login is noted.\<close>

definition challenge_passed :: "token \<Rightarrow> user \<Rightarrow> session \<Rightarrow> tables \<Rightarrow> tables \<Rightarrow> bool" where
  "challenge_passed tok user s d d' \<longleftrightarrow> (\<exists>t t2.
     list_ex (consume_cap_guard (claim_input tok (u_ID user) TokenTwoFactor t) maxAttemptsPerChallenge) (tokens d) \<and>
     same_but_audit (put_users (last_login (u_ID user) t2 (users d)) (put_sessions (sessions d @ [s]) (put_tokens
       (update_where (consume_cap_guard (claim_input tok (u_ID user) TokenTwoFactor t) maxAttemptsPerChallenge) (set_used t) (tokens d)) d))) d')"

definition may_sign_in :: "config \<Rightarrow> user \<Rightarrow> bool" where
  "may_sign_in cf u \<longleftrightarrow> \<not> u_IsBanned u \<and> (cf_RequireEmailVerification cf \<longrightarrow> u_IsVerified u)"

lemma wp_claim:
  assumes "c_tx tx" and "\<And>e. Q (Inl e) d" and "Q (Inr False) d"
    and "list_ex (consume_cap_guard (claim_input tok u ty t) n) (tokens d) \<Longrightarrow>
      Q (Inr True) (put_tokens (update_where (consume_cap_guard (claim_input tok u ty t) n) (set_used t) (tokens d)) d)"
  shows "wp (ConsumeIfValidUnderCap tx (claim_input tok u ty t) n) Q d"
  using assms unfolding ConsumeIfValidUnderCap_def by (auto intro!: wp_affected_tokens simp: claim_input_def)

lemma select_user: "select1 (user_id_is i) us = Some u \<Longrightarrow> u \<in> set us \<and> u_ID u = i"
  using select1_Some [of "user_id_is i" us u] by (simp add: user_id_is_def)

lemma wp_verify_tx:
  assumes "c_tx tx" and err: "\<And>e d'. Q (Inl e) d'"
    and ok: "\<And>user res d'. user \<in> set (users d) \<Longrightarrow> u_ID user = i \<Longrightarrow> may_sign_in (au_config svc) user \<Longrightarrow>
      session_for i True res \<Longrightarrow> challenge_passed tok user (sr_Session res) d d' \<Longrightarrow> Q (Inr (user, res)) d'"
  shows "wp (verify_tx svc tx tok i ip ua) Q d"
proof -
  have fin: "wp (seq (UpdateLastLoginAt tx (u_ID user) t2) (seq (publish a tx ev) (ret (user, res)))) Q d1"
    if u: "user \<in> set (users d)" "u_ID user = i" "may_sign_in (au_config svc) user" "session_for (u_ID user) True res"
      and g: "list_ex (consume_cap_guard (claim_input tok i TokenTwoFactor t) maxAttemptsPerChallenge) (tokens d)"
      and d1: "same_but_audit (put_sessions (sessions d @ [sr_Session res]) (put_tokens (update_where
        (consume_cap_guard (claim_input tok i TokenTwoFactor t) maxAttemptsPerChallenge) (set_used t) (tokens d)) d)) d1"
    for user res t t2 d1 a ev
  proof -
    have us: "users d1 = users d" using same_but_audit_sel(1) [OF d1] by (simp add: put_sessions_def put_tokens_def)
    have "Q (Inr (user, res)) d2" if "same_but_audit (put_users (last_login (u_ID user) t2 (users d)) d1) d2" for d2
    proof (rule ok [OF u(1,2,3)])
      show "session_for i True res" using u by simp
      from same_but_audit_trans [OF same_but_audit_put(1) [OF d1] that] g u(2)
      show "challenge_passed tok user (sr_Session res) d d2" unfolding challenge_passed_def by blast
    qed
    then show ?thesis
      unfolding UpdateLastLoginAt_def by (auto intro!: wp_bnd wp_seq wp_now wp_exec wp_publish wp_ret err assms(1) simp: us last_login_def split: sum.split)
  qed
  show ?thesis
    unfolding verify_tx_def
    by (auto intro!: wp_bnd wp_fail wp_now wp_GetByIDForUpdate wp_claim wp_create fin err assms(1)
        split: option.split dest!: select_user simp: may_sign_in_def)
qed

section \<open>Requests\<close>

text \<open>The notification counters are kept outside the database.\<close>

definition tf_ok :: "two_factor \<Rightarrow> bool" where
  "tf_ok tf \<longleftrightarrow> (\<forall>allow k r. tf_store tf = Some allow \<longrightarrow> local_prog (allow k r))"

lemma rq_recordFailure:
  assumes "tf_ok tf" and "\<And>r d'. same_but_audit d d' \<Longrightarrow> Q r d'"
  shows "rq (recordFailure tf ctx userID address) Q d"
proof -
  have tell: "rq (notifySuspicious svc ctx address n) R d'" if "\<And>r. R r d'" for svc n R d'
    unfolding notifySuspicious_def
    by (auto intro!: rq_bnd rq_ret rq_attempt rq_mail rq_works that split: sum.split)
  have pub: "rq (attempt (publish a ctx ev)) R d'" if "\<And>r d''. same_but_audit d' d'' \<Longrightarrow> R (Inr r) d''" for a ev R d'
    by (intro rq_attempt rq_publish that)
  have allow: "rq (attempt (allow k r)) R d'" if "tf_store tf = Some allow" "\<And>r. R (Inr r) d'" for allow k r R d'
    using assms(1) that by (intro rq_attempt rq_local) (auto simp: tf_ok_def)
  show ?thesis
    unfolding recordFailure_def Let_def
    by (auto intro!: rq_bnd pub allow tell rq_ret assms(2) split: option.split sum.split) (erule (1) same_but_audit_trans)
qed

text \<open>What a request to verify a code does to the tables.\<close>

definition guess_counted :: "string \<Rightarrow> tables \<Rightarrow> tables \<Rightarrow> bool" where
  "guess_counted i d d' \<longleftrightarrow> same_but_audit d d' \<or>
     same_but_audit (put_tokens (update_where (attempt_guard i maxAttemptsPerChallenge) add_attempt (tokens d)) d) d'"

definition second_factor_done :: "two_factor \<Rightarrow> string \<Rightarrow> string \<Rightarrow> string \<Rightarrow> verify_result \<Rightarrow> tables \<Rightarrow> tables \<Rightarrow> bool" where
  "second_factor_done tf challengeID binding code v d d' \<longleftrightarrow>
     checkBinding (au_config (tf_auth tf)) challengeID binding \<and>
     vr_User v \<in> set (users d) \<and> may_sign_in (au_config (tf_auth tf)) (vr_User v) \<and>
     session_for (u_ID (vr_User v)) True \<lparr>sr_Session = vr_Session v, sr_SessionToken = vr_SessionToken v, sr_RefreshToken = vr_RefreshToken v\<rparr> \<and>
     (\<exists>tok \<in> set (tokens d). t_ID tok = challengeID \<and>
        verifyOTP code (trim_prefix adminPrefix (t_TokenHash tok)) (cf_OTPPepper (au_config (tf_auth tf))) \<and>
        challenge_passed tok (vr_User v) (vr_Session v) d d')"

lemma rq_increment:
  "(\<And>r d'. d' = d \<or> d' = put_tokens (update_where (attempt_guard i n) add_attempt (tokens d)) d \<Longrightarrow> Q r d') \<Longrightarrow>
   rq (IncrementAttempts ctx i n) Q d"
  unfolding IncrementAttempts_def affected_def by (intro rq_stmt) auto

lemma rq_checkChallengeMethod [rqs]:
  "(\<And>e. Q (Inl e) d) \<Longrightarrow> Q (Inr ()) d \<Longrightarrow> rq (checkChallengeMethod cf tok) Q d"
  unfolding checkChallengeMethod_def by (intro rq_reject_if)

lemma rq_verify_tx:
  assumes "\<not> c_tx ctx" and "\<And>e. Q (Inl e) d"
    and "\<And>user res d'. user \<in> set (users d) \<Longrightarrow> u_ID user = i \<Longrightarrow> may_sign_in (au_config svc) user \<Longrightarrow>
      session_for i True res \<Longrightarrow> challenge_passed tok user (sr_Session res) d d' \<Longrightarrow> Q (Inr (user, res)) d'"
  shows "rq (WithTx ctx (\<lambda>tx. verify_tx svc tx tok i ip ua)) Q d"
  using assms by (auto intro!: rq_WithTx wp_verify_tx)

lemma session_result_eta: "\<lparr>sr_Session = sr_Session r, sr_SessionToken = sr_SessionToken r, sr_RefreshToken = sr_RefreshToken r\<rparr> = r"
  by simp

lemma rq_Verify:
  assumes "\<not> c_tx ctx" and "tf_ok tf"
  shows "rq (Verify tf ctx challengeID binding code ip ua)
    (\<lambda>r d'. case r of Inl e \<Rightarrow> guess_counted challengeID d d' | Inr v \<Rightarrow> second_factor_done tf challengeID binding code v d d') d"
proof -
  let ?cf = "au_config (tf_auth tf)"
  have same: "guess_counted i d d" for i by (simp add: guess_counted_def)
  have tok: "tok \<in> set (tokens d) \<and> t_ID tok = challengeID"
    if "select1 (\<lambda>t. t_ID t = challengeID) (tokens d) = Some tok" for tok
    using select1_Some [OF that] by simp
  have scope: "\<not> c_tx (select_scope ctx s)" for s using assms(1) by (simp add: select_scope_def)

  have passed: "second_factor_done tf (t_ID tok) binding code \<lparr>vr_User = user, vr_Session = sr_Session res,
      vr_SessionToken = sr_SessionToken res, vr_RefreshToken = sr_RefreshToken res\<rparr> d d'"
    if "tok \<in> set (tokens d)" "challenge_passed tok user (sr_Session res) d d'" "checkBinding ?cf (t_ID tok) binding"
      "verifyOTP code (trim_prefix adminPrefix (t_TokenHash tok)) (cf_OTPPepper ?cf)" "user \<in> set (users d)"
      "may_sign_in ?cf user" "session_for (u_ID user) True res" for tok user res d'
    using that unfolding second_factor_done_def by (auto simp: session_result_eta)
  show ?thesis
    unfolding Verify_def Let_def tok_GetByID_def
    by (auto intro!: rq_bnd rq_seq rq_wrap rq_query rq_fail rq_ret rq_now rq_checkChallengeMethod same scope
          rq_attempt [of "IncrementAttempts _ _ _"] rq_increment rq_recordFailure [OF assms(2)] rq_attempt [of "WithTx _ _"] rq_verify_tx
        passed simp: session_result_eta dest!: tok split: option.split sum.split) (simp_all add: guess_counted_def)
qed

text \<open>C21: a second factor cannot be had without the code. A request to verify one either fails, having
  changed at most the number of guesses counted on the named challenge, or the presented code is that of
  the challenge, which was unused, unexpired and within its budget of guesses and is used up with the same
  commit that adds the session; its user may sign in and the session records the second factor.\<close>

theorem verify_second_factor:
  assumes "\<not> c_tx ctx" and "tf_ok tf" and "faults_only w" and "Verify tf ctx challengeID binding code ip ua w = (r, w')"
  shows "case r of Inl e \<Rightarrow> guess_counted challengeID (store w) (store w')
     | Inr v \<Rightarrow> second_factor_done tf challengeID binding code v (store w) (store w')"
  using rqD [OF rq_Verify [OF assms(1,2)] assms(3,4)] by simp

section \<open>Settings\<close>

lemma wp_publish_errs:
  assumes "c_tx ctx" and "\<And>d'. same_but_audit d d' \<Longrightarrow> Q (Inr ()) d'" and "\<And>d'. same_but_audit d d' \<Longrightarrow> Q (Inl ErrRecordBlocked) d'"
  shows "wp (publish a ctx ev) Q d"
proof (cases a)
  case None
  then show ?thesis using assms(2) by (auto simp: publish_def intro!: wp_ret)
next
  case (Some s)
  have "wp (Record s ctx ev) Q d"
    unfolding wp_def using assms(2,3)
    by (intro txh_conseq [OF txh_Record [OF assms(1)]]) (auto split: if_splits sum.splits)
  with Some show ?thesis by (simp add: publish_def)
qed

text \<open>What entitles a user to change the preference: the password, or the code of a confirmation of that
  session, which is then used up.\<close>

definition setting_authorized ::
  "auth_service \<Rightarrow> string \<Rightarrow> string \<Rightarrow> string \<Rightarrow> string \<Rightarrow> token_type \<Rightarrow> user \<Rightarrow> tables \<Rightarrow> tables \<Rightarrow> bool" where
  "setting_authorized svc userID challengeID code sessionID kind user d d' \<longleftrightarrow>
     user \<in> set (users d) \<and> u_ID user = userID \<and> may_sign_in (au_config svc) user \<and> \<not> cf_RequireEmail2FA (au_config svc) \<and>
     (if challengeID = '''' then d' = d \<and> u_PasswordHash user \<noteq> None
      else \<exists>tok \<in> set (tokens d). \<exists>s \<in> set (sessions d). \<exists>t. t_ID tok = challengeID \<and> s_ID s = sessionID \<and> s_UserID s = userID \<and>
        settings_proof userID tok user s kind \<and> verifyOTP code (t_TokenHash tok) (cf_OTPPepper (au_config svc)) \<and>
        list_ex (consume_cap_guard (claim_input tok userID kind t) maxAttemptsPerChallenge) (tokens d) \<and>
        d' = put_tokens (update_where (consume_cap_guard (claim_input tok userID kind t) maxAttemptsPerChallenge) (set_used t) (tokens d)) d)"

lemma wp_usable_account:
  "(\<And>e. Q (Inl e) d) \<Longrightarrow> (\<And>u. found = Some u \<Longrightarrow> may_sign_in (au_config svc) u \<Longrightarrow> Q (Inr u) d) \<Longrightarrow> wp (usable_account svc found) Q d"
  unfolding usable_account_def may_sign_in_def by (auto intro!: wp_fail wp_ret split: option.split)

lemma local_checkSession [locals]: "local_prog (checkSession ss so)"
  unfolding checkSession_def by (auto intro!: locals split: option.split)

lemma wp_settingsSession:
  assumes "c_tx tx" and "\<And>e. Q (Inl e) d"
    and "\<And>s. s \<in> set (sessions d) \<Longrightarrow> s_ID s = i \<Longrightarrow> s_UserID s = u \<Longrightarrow> Q (Inr s) d"
  shows "wp (settingsSession svc tx u i) Q d"
proof -
  have row: "s \<in> set (sessions d) \<and> s_ID s = i" if "select1 (\<lambda>s. s_ID s = i) (sessions d) = Some s" for s
    using select1_Some [OF that] by simp
  have chk: "wp (checkSession ss so) R d" if "\<And>r. R r d" for ss so R by (intro wp_local locals that)
  show ?thesis
    unfolding settingsSession_def sess_GetByID_def
    by (auto intro!: wp_bnd wp_seq wp_query wp_fail wp_ret chk assms dest!: row split: option.split sum.split)
qed

lemma wp_authorizeChange:
  assumes "c_tx tx" and "\<And>e. Q (Inl e) d"
    and "\<And>u. u \<in> set (users d) \<Longrightarrow> u_ID u = i \<Longrightarrow> may_sign_in (au_config svc) u \<Longrightarrow> u_PasswordHash u \<noteq> None \<Longrightarrow>
      \<not> cf_RequireEmail2FA (au_config svc) \<Longrightarrow> Q (Inr u) d"
  shows "wp (authorizeChange svc tx i pw) Q d"
proof -
  have cmp: "wp (attempt (compare_work sh p h v)) R d" if "\<And>r. R (Inr r) d" for sh p h v R
    using that by (intro wp_attempt wp_local locals local_works) auto
  show ?thesis
    unfolding authorizeChange_def
    by (auto intro!: wp_bnd wp_fail wp_ret wp_wrap wp_GetByIDForUpdate wp_usable_account cmp assms
        dest!: select_user split: option.split sum.split)
qed

lemma wp_authorizeSettingChange:
  assumes "c_tx tx" and err: "\<And>e. Q (Inl e) d"
    and inc: "Q (Inl ErrTwoFactorCodeInvalid) (put_tokens (update_where (attempt_guard challengeID maxAttemptsPerChallenge) add_attempt (tokens d)) d)"
    and ok: "\<And>u d'. setting_authorized svc i challengeID code sessionID kind u d d' \<Longrightarrow> Q (Inr u) d'"
  shows "wp (authorizeSettingChange svc tx i pw challengeID code sessionID kind) Q d"
proof -
  have row: "tok \<in> set (tokens d) \<and> t_ID tok = challengeID"
    if "select1 (\<lambda>t. t_ID t = challengeID) (tokens d) = Some tok" for tok
    using select1_Some [OF that] by simp
  have guess: "wp (IncrementAttempts tx challengeID maxAttemptsPerChallenge)
      (\<lambda>r d'. case r of Inl e \<Rightarrow> Q (Inl e) d' | Inr _ \<Rightarrow> Q (Inl ErrTwoFactorCodeInvalid) d') d"
    unfolding IncrementAttempts_def by (auto intro!: wp_affected_tokens err inc assms(1))
  have code: "Q (Inr u) (put_tokens (update_where (consume_cap_guard (claim_input tok (u_ID u) kind t) maxAttemptsPerChallenge) (set_used t) (tokens d)) d)"
    if "u \<in> set (users d)" "u_ID u = i" "may_sign_in (au_config svc) u" "\<not> cf_RequireEmail2FA (au_config svc)" "challengeID \<noteq> ''''"
      "tok \<in> set (tokens d)" "t_ID tok = challengeID" "s \<in> set (sessions d)" "s_ID s = sessionID" "s_UserID s = i"
      "settings_proof i tok u s kind" "verifyOTP code (t_TokenHash tok) (cf_OTPPepper (au_config svc))"
      "list_ex (consume_cap_guard (claim_input tok (u_ID u) kind t) maxAttemptsPerChallenge) (tokens d)" for u tok s t
    using that by (intro ok) (auto simp: setting_authorized_def)
  show ?thesis
  proof (cases "challengeID = ''''")
    case True
    then show ?thesis
      unfolding authorizeSettingChange_def Let_def
      by (auto intro!: wp_authorizeChange err ok assms(1) simp: setting_authorized_def)
  next
    case False
    show ?thesis
      unfolding authorizeSettingChange_def Let_def tok_GetByID_def
      using False
      apply (auto intro!: wp_bnd wp_fail wp_ret wp_now wp_query wp_GetByIDForUpdate wp_usable_account
            wp_settingsSession wp_claim err assms(1) dest!: select_user row split: option.split sum.splits)
      subgoal premises p for u s tok t
      proof -
        have "t_ID tok = challengeID" using p by simp
        then show ?thesis by (simp only:) (rule wp_conseq [OF guess], auto intro!: wp_fail split: sum.splits)
      qed
      subgoal for u s tok t ta
        by (rule code [of u tok s ta]) auto
      done
  qed
qed

lemma as_auth_None: "as_auth e = None \<Longrightarrow> \<not> errors_is e (NewError c m)"
  and "as_auths es = None \<Longrightarrow> \<not> list_ex (\<lambda>e. errors_is e (NewError c m)) es"
  by (induction e and es rule: as_auth_as_auths.induct) (auto simp: NewError_def split: option.splits)

text \<open>The preference and what goes with it: a pending address change is cancelled and other sessions end.\<close>

definition setting_effect :: "bool \<Rightarrow> (session \<Rightarrow> bool) \<Rightarrow> user \<Rightarrow> tables \<Rightarrow> tables \<Rightarrow> bool" where
  "setting_effect on P user d d' \<longleftrightarrow> (if u_TwoFactorEnabled user = on then d' = d else \<exists>t. same_but_audit
     (put_sessions (delete_where P (sessions d))
       (put_email_changes (update_where (\<lambda>r. ec_UserID r = u_ID user \<and> ec_Status r = ''pending'') cancel_change (email_changes d))
       (put_users (update_where (user_id_is (u_ID user)) (\<lambda>u. u\<lparr>u_TwoFactorEnabled := on, u_UpdatedAt := t\<rparr>) (users d)) d))) d')"

definition setting_changed ::
  "auth_service \<Rightarrow> string \<Rightarrow> string \<Rightarrow> string \<Rightarrow> string \<Rightarrow> token_type \<Rightarrow> bool \<Rightarrow> (session \<Rightarrow> bool) \<Rightarrow> tables \<Rightarrow> tables \<Rightarrow> bool" where
  "setting_changed svc userID challengeID code sessionID kind on P d d' \<longleftrightarrow>
     (\<exists>user d1. setting_authorized svc userID challengeID code sessionID kind user d d1 \<and> setting_effect on P user d1 d')"

definition guess_committed :: "string \<Rightarrow> tables \<Rightarrow> tables \<Rightarrow> bool" where
  "guess_committed i d d' \<longleftrightarrow> d' = d \<or>
     d' = put_tokens (update_where (attempt_guard i maxAttemptsPerChallenge) add_attempt (tokens d)) d"

lemma rq_settingsTransaction:
  assumes "\<not> c_tx ctx" and "G d"
    and "wp (change (ctx\<lparr>c_tx := True\<rparr>)) (\<lambda>r d'. case r of Inl e \<Rightarrow> errors_is e ErrTwoFactorCodeInvalid \<longrightarrow> G d' | Inr _ \<Rightarrow> P d') d"
  shows "rq (settingsTransaction ctx change) (\<lambda>r d'. case r of Inl e \<Rightarrow> G d' | Inr _ \<Rightarrow> P d') d"
proof -
  have "wp (bnd (attempt (change (ctx\<lparr>c_tx := True\<rparr>))) (\<lambda>r. case r of
            Inl e \<Rightarrow> if errors_is e ErrTwoFactorCodeInvalid then ret (Some e) else fail e
          | Inr _ \<Rightarrow> ret None)) (\<lambda>r d'. case r of Inl e \<Rightarrow> True | Inr (Some e) \<Rightarrow> G d' | Inr None \<Rightarrow> P d') d"
    by (intro wp_bnd wp_attempt wp_conseq [OF assms(3)]) (auto intro!: wp_ret wp_fail split: sum.splits)
  then show ?thesis
    unfolding settingsTransaction_def using assms(1,2)
    by (intro rq_bnd rq_attempt rq_WithTx) (auto intro!: rq_fail rq_ret elim!: wp_conseq split: sum.splits option.splits)
qed

lemma not_code_invalid: "\<not> errors_is ErrDatabase ErrTwoFactorCodeInvalid" "\<not> errors_is ErrRecordBlocked ErrTwoFactorCodeInvalid"
  by (simp_all add: err_defs NewError_def ErrDatabase_def ErrRecordBlocked_def)

lemma setting_effectI: "u_TwoFactorEnabled user \<noteq> on \<Longrightarrow> same_but_audit
     (put_sessions (delete_where P (sessions d))
       (put_email_changes (update_where (\<lambda>r. ec_UserID r = u_ID user \<and> ec_Status r = ''pending'') cancel_change (email_changes d))
       (put_users (update_where (user_id_is (u_ID user)) (\<lambda>u. u\<lparr>u_TwoFactorEnabled := on, u_UpdatedAt := t\<rparr>) (users d)) d))) d' \<Longrightarrow>
   setting_effect on P user d d'"
  unfolding setting_effect_def by auto

lemma no_session: "put_sessions (delete_where (\<lambda>s. False) (sessions d)) (put_email_changes es (put_users us d)) =
   put_email_changes es (put_users us d)"
  by (simp add: put_sessions_def put_email_changes_def put_users_def delete_where_def)

lemma wp_setting_writes:
  assumes "c_tx tx" and "u_TwoFactorEnabled user \<noteq> on" and "setting_authorized svc i ch code sid kind user d0 d"
  shows "wp (seq (SetTwoFactorEnabled tx (u_ID user) on t) (seq (CancelForUser tx (u_ID user))
      (seq (run_if b (DeleteAllForUserExcept tx (u_ID user) sid)) (publish a tx ev))))
    (\<lambda>r d'. case r of Inl e \<Rightarrow> errors_is e ErrTwoFactorCodeInvalid \<longrightarrow> G d'
       | Inr _ \<Rightarrow> setting_changed svc i ch code sid kind on (\<lambda>s. b \<and> s_UserID s = u_ID user \<and> s_ID s \<noteq> sid) d0 d') d"
  using assms unfolding SetTwoFactorEnabled_def CancelForUser_def update_changes_def DeleteAllForUserExcept_def setting_changed_def
  by (auto intro!: wp_seq wp_exec wp_run_if wp_publish_errs exI [of _ user] exI [of _ d] setting_effectI simp: not_code_invalid no_session)

lemma wp_preference:
  assumes "c_tx tx" and "\<And>u. u_TwoFactorEnabled u = on \<longleftrightarrow> same u"
  shows "wp (bnd (authorizeSettingChange svc tx i pw ch code sid kind) (\<lambda>user. if same user then ret () else bnd now (\<lambda>t.
      seq (SetTwoFactorEnabled tx (u_ID user) on t) (seq (CancelForUser tx (u_ID user))
      (seq (run_if b (DeleteAllForUserExcept tx (u_ID user) sid)) (publish a tx (ev user)))))))
    (\<lambda>r d'. case r of Inl e \<Rightarrow> errors_is e ErrTwoFactorCodeInvalid \<longrightarrow> guess_committed ch d d'
       | Inr _ \<Rightarrow> setting_changed svc i ch code sid kind on (\<lambda>s. b \<and> s_UserID s = i \<and> s_ID s \<noteq> sid) d d') d"
proof -
  have same: "setting_changed svc i ch code sid kind on P d d1"
    if "setting_authorized svc i ch code sid kind u d d1" "same u" for u d1 P
    using that assms(2) [of u] unfolding setting_changed_def setting_effect_def by auto
  have i: "u_ID u = i" if "setting_authorized svc i ch code sid kind u d d1" for u d1
    using that by (simp add: setting_authorized_def)
  have writes: "wp (seq (SetTwoFactorEnabled tx (u_ID u) on t) (seq (CancelForUser tx (u_ID u))
      (seq (run_if b (DeleteAllForUserExcept tx (u_ID u) sid)) (publish a tx (ev u)))))
      (\<lambda>r d'. case r of Inl e \<Rightarrow> errors_is e ErrTwoFactorCodeInvalid \<longrightarrow> guess_committed ch d d'
         | Inr _ \<Rightarrow> setting_changed svc i ch code sid kind on (\<lambda>s. b \<and> s_UserID s = i \<and> s_ID s \<noteq> sid) d d') d1"
    if "setting_authorized svc i ch code sid kind u d d1" "\<not> same u" for u d1 t
    using wp_setting_writes [where G = "guess_committed ch d" and on = on and b = b and t = t and a = a and ev = "ev u",
        OF assms(1) _ that(1)] assms(2) [of u] that(2) i [OF that(1)] by (simp cong: sum.case_cong)
  show ?thesis
    by (rule wp_bnd, rule wp_authorizeSettingChange [OF assms(1)])
      (auto simp: guess_committed_def same intro!: wp_ret wp_bnd wp_now writes)
qed

lemma skip_run: "seq (run_if False m) k = k"
  by (simp add: effect_defs run_if_def)

lemma rq_Enable:
  "\<not> c_tx ctx \<Longrightarrow> rq (Enable svc ctx i pw ch code sid keep) (\<lambda>r d'. case r of Inl e \<Rightarrow> guess_committed ch d d'
     | Inr _ \<Rightarrow> setting_changed svc i ch code sid TokenTwoFactorEnable True (\<lambda>s. (\<not> keep \<and> sid \<noteq> '''') \<and> s_UserID s = i \<and> s_ID s \<noteq> sid) d d') d"
  unfolding Enable_def enable_change_def
  by (rule rq_settingsTransaction) (auto simp: guess_committed_def intro!: wp_preference)

lemma rq_Disable:
  assumes "\<not> c_tx ctx"
  shows "rq (Disable svc ctx i pw ch code sid) (\<lambda>r d'. case r of Inl e \<Rightarrow> guess_committed ch d d'
     | Inr _ \<Rightarrow> setting_changed svc i ch code sid TokenTwoFactorDisable False (\<lambda>s. False) d d') d"
  unfolding Disable_def
proof (rule rq_settingsTransaction [OF assms])
  let ?tx = "ctx\<lparr>c_tx := True\<rparr>"
  have "c_tx ?tx" by simp
  from wp_preference [OF this, of False "\<lambda>u. \<not> u_TwoFactorEnabled u" svc i pw ch code sid TokenTwoFactorDisable False
    "au_audit svc" "\<lambda>u. user_event ''2fa.disabled'' (u_ID u)" d]
  show "wp (disable_change svc i pw ch code sid ?tx) (\<lambda>r d'. case r of
      Inl e \<Rightarrow> errors_is e ErrTwoFactorCodeInvalid \<longrightarrow> guess_committed ch d d'
    | Inr _ \<Rightarrow> setting_changed svc i ch code sid TokenTwoFactorDisable False (\<lambda>s. False) d d') d"
    unfolding disable_change_def skip_run by (simp cong: sum.case_cong)
qed (simp add: guess_committed_def)


section \<open>Witnesses\<close>

lemma hex_not_admin: "\<not> prefix adminPrefix (hex_encode s)"
proof (cases s)
  case (Cons c cs)
  have dig: "hex_digit n \<noteq> CHR ''g''" if "n < 16" for n
  proof
    assume "hex_digit n = CHR ''g''"
    then have "hex_value (CHR ''g'') = Some n" using hex_value_digit [OF that] by simp
    then show False by (simp add: hex_value_def)
  qed
  have "of_char c < (256::nat)" by (simp add: of_char_of)
  then have "of_char c div 16 < (16::nat)" by (simp only: div_less_iff_less_mult)
  from dig [OF this] show ?thesis using Cons by (simp add: adminPrefix_def hex_encode_def)
qed (simp add: adminPrefix_def hex_encode_def)

lemma plain_otp: "Of (hashOTP c p) = App" "trim_prefix adminPrefix (hashOTP c p) = hashOTP c p"
  using hex_not_admin by (simp_all add: Of_def trim_prefix_def hashOTP_def)

definition tf_user_ex :: user where
  "tf_user_ex = user_ex\<lparr>u_PasswordHash := Some ''hold-secret'', u_IsVerified := True\<rparr>"

definition tf_token_ex :: token where
  "tf_token_ex = challenge_token ''t1'' tf_user_ex (hashOTP ''123456'' ''pepper'') (hashToken ''password'') TokenTwoFactor 100 1"

definition tf_world_ex :: "tables world" where
  "tf_world_ex = (quiet_world (tables_of [tf_user_ex] [tf_token_ex]))\<lparr>entropy := [Some ''st'', Some ''rt'', Some ''s1'']\<rparr>"

definition tf_ex :: two_factor where
  "tf_ex = \<lparr>tf_auth = auth_ex, tf_store = None\<rparr>"

lemma verify_run_ex:
  "\<exists>v w'. Verify tf_ex request_ctx ''t1'' (bindingToken config_ex ''t1'') ''123456'' ''ip'' ''ua'' tf_world_ex = (Inr v, w')"
  by (simp add: Verify_def run_simps tf_ex_def tf_world_ex_def world_simps tf_token_ex_def tf_user_ex_def challenge_token_def
      checkBinding_def auth_ex_def config_ex_def tok_GetByID_def select1_def checkChallengeMethod_def plain_otp stalePepper_def
      verifyOTP_hashOTP select_scope_def verify_tx_def GetByIDForUpdate_def user_id_is_def ConsumeIfValidUnderCap_def affected_def
      guard_defs claim_input_def count_where_def update_where_def set_used_def put_tokens_def maxAttemptsPerChallenge_def
      create_def Generate_def sess_Create_def UpdateLastLoginAt_def put_users_def publish_def admin_service_ex_def)

theorem verify_second_factor_witness:
  "\<exists>v. second_factor_done tf_ex ''t1'' (bindingToken config_ex ''t1'') ''123456'' v (tables_of [tf_user_ex] [tf_token_ex])
     (store (snd (Verify tf_ex request_ctx ''t1'' (bindingToken config_ex ''t1'') ''123456'' ''ip'' ''ua'' tf_world_ex)))"
proof -
  obtain v w' where run: "Verify tf_ex request_ctx ''t1'' (bindingToken config_ex ''t1'') ''123456'' ''ip'' ''ua'' tf_world_ex = (Inr v, w')"
    using verify_run_ex by blast
  have "faults_only tf_world_ex" "store tf_world_ex = tables_of [tf_user_ex] [tf_token_ex]" "tf_ok tf_ex"
    by (simp_all add: tf_world_ex_def quiet_world_def tf_ok_def tf_ex_def)
  with verify_second_factor [OF _ _ _ run] run show ?thesis by auto
qed

lemma enable_run_ex:
  "fst (Enable auth_ex request_ctx ''u1'' ''old-secret'' '''' '''' ''s1'' False (tf_world_ex\<lparr>entropy := [Some ''seed'']\<rparr>)) = Inr ()"
  by (simp add: Enable_def settingsTransaction_def enable_change_def run_simps tf_world_ex_def world_simps tf_token_ex_def tf_user_ex_def
      challenge_token_def authorizeSettingChange_def authorizeChange_def auth_ex_def config_ex_def GetByIDForUpdate_def select1_def
      user_id_is_def usable_account_def compare_work_def password_work_def comparePassword_def hasher_ex_def
      SetTwoFactorEnabled_def revoke_defs put_users_def put_email_changes_def put_sessions_def publish_def)


end
