(* ===== verification/Verification.thy ===== *)
theory Verification
  imports TwoFactor
begin

text \<open>
  \<open>internal/service/verification.go\<close>: proving an email address with a mailed code. The row of a code is
  found by the HMAC of the code, so a guess that finds nothing has nothing to count against.
\<close>

definition verifyUserEmail :: "ctx \<Rightarrow> user \<Rightarrow> string \<Rightarrow> time \<Rightarrow> bool action" where
  "verifyUserEmail ctx user address t =
     (if u_Email user \<noteq> address then ret False else VerifyEmailIfMatches ctx (u_ID user) address t)"

definition verify_input :: "token \<Rightarrow> user \<Rightarrow> time \<Rightarrow> consume_input" where
  "verify_input tok user t = \<lparr>c_ID = t_ID tok, c_TokenHash = t_TokenHash tok, c_UserID = u_ID user,
     c_Type = TokenVerifyEmail, c_UsedAt = t\<rparr>"

definition verify_email_tx :: "auth_service \<Rightarrow> ctx \<Rightarrow> token \<Rightarrow> user \<Rightarrow> time \<Rightarrow> unit action" where
  "verify_email_tx svc tx tok user t =
     bnd (ConsumeIfValid tx (verify_input tok user t)) (\<lambda>consumed.
     if \<not> consumed then fail ErrVerificationCodeUsed
     else bnd (verifyUserEmail tx user (t_Email tok) t) (\<lambda>updated.
       if \<not> updated then fail ErrVerificationCodeInvalid
       else publish (au_audit svc) tx (user_event ''email.verified'' (u_ID user))))"

definition VerifyEmail :: "auth_service \<Rightarrow> ctx \<Rightarrow> string \<Rightarrow> user action" where
  "VerifyEmail svc ctx code =
     (let cf = au_config svc in
      if cf_OTPPepper cf = '''' then fail ErrInternal
      else bnd (wrap ''verify email: lookup'' (GetByHash ctx (hashOTP code (cf_OTPPepper cf)))) (\<lambda>found. case found of
        None \<Rightarrow> fail ErrVerificationCodeInvalid
      | Some tok \<Rightarrow>
          if t_Type tok \<noteq> TokenVerifyEmail then fail ErrVerificationCodeInvalid
          else if t_UsedAt tok \<noteq> None then fail ErrVerificationCodeUsed
          else bnd now (\<lambda>n.
            if t_ExpiresAt tok < n then fail ErrVerificationCodeExpired
            else if stalePepper (t_CreatedAt tok) (cf_SecretRotatedAt cf) then fail ErrVerificationCodeExpired
            else if \<not> verifyOTP code (t_TokenHash tok) (cf_OTPPepper cf) then fail ErrVerificationCodeInvalid
            else case t_UserID tok of
              None \<Rightarrow> fail ErrVerificationCodeInvalid
            | Some userID \<Rightarrow>
                bnd (wrap ''verify email: lookup'' (usr_GetByID ctx userID)) (\<lambda>u. case u of
                  None \<Rightarrow> fail ErrUserNotFound
                | Some user \<Rightarrow>
                    bnd now (\<lambda>t.
                    bnd (attempt (WithTx ctx (\<lambda>tx. verify_email_tx svc tx tok user t))) (\<lambda>r. case r of
                      Inl e \<Rightarrow> fail (case as_auth e of Some a \<Rightarrow> a | None \<Rightarrow> ErrInternal)
                    | Inr _ \<Rightarrow> ret (user\<lparr>u_IsVerified := True, u_VerifiedAt := Some t, u_UpdatedAt := t\<rparr>)))))))"

section \<open>Sending codes\<close>

record verification_result =
  vf_Sent :: bool
  vf_ExpiresAt :: time

text \<open>The mint at the end of \<open>sendVerification\<close>.\<close>

definition mint_verification :: "auth_service \<Rightarrow> ctx \<Rightarrow> user \<Rightarrow> verification_result action" where
  "mint_verification svc ctx user =
     (let cf = au_config svc in
      bnd (internal (otp_Generate 8)) (\<lambda>raw.
      if cf_OTPPepper cf = '''' then fail ErrInternal
      else bnd now (\<lambda>t. bnd generateID (\<lambda>i.
        let expires = t + cf_VerificationCodeTTL cf in
        seq (internal (tok_Create ctx (code_token i user (hashOTP raw (cf_OTPPepper cf)) TokenVerifyEmail expires t)))
        (seq (deliver_code ctx i (email (u_Email user) ''verification'' raw)
                (NewError ''email_failed'' ''Failed to send verification email''))
        (seq (publish (au_audit svc) ctx (anonymous_event ''email.verification.sent'' (u_Email user)))
             (ret \<lparr>vf_Sent = True, vf_ExpiresAt = expires\<rparr>)))))))"

definition sendVerification :: "auth_service \<Rightarrow> ctx \<Rightarrow> user \<Rightarrow> bool \<Rightarrow> verification_result action" where
  "sendVerification svc ctx user retry =
     (let cf = au_config svc in
      if \<not> au_mailer svc then fail ErrEmailNotConfigured
      else if u_ID user = '''' \<or> retry then mint_verification svc ctx user
      else bnd (internal (GetLastByUserAndType ctx (u_ID user) TokenVerifyEmail)) (\<lambda>last. case last of
        None \<Rightarrow> mint_verification svc ctx user
      | Some l \<Rightarrow>
          let held = ret \<lparr>vf_Sent = False, vf_ExpiresAt = t_ExpiresAt l\<rparr>;
              spent = (if 0 < cf_VerificationResendInterval cf
                       then bnd now (\<lambda>t2. if t2 - t_CreatedAt l < cf_VerificationResendInterval cf then held
                                           else mint_verification svc ctx user)
                       else mint_verification svc ctx user) in
          if t_UsedAt l \<noteq> None then spent
          else bnd now (\<lambda>t.
            if \<not> t < t_ExpiresAt l then spent
            else if stalePepper (t_CreatedAt l) (cf_SecretRotatedAt cf)
            then seq (internal (DeleteUnusedByUserAndType ctx (u_ID user) TokenVerifyEmail)) (mint_verification svc ctx user)
            else held)))"

definition SendVerification :: "auth_service \<Rightarrow> ctx \<Rightarrow> user \<Rightarrow> verification_result action" where
  "SendVerification svc ctx user = sendVerification svc ctx user False"

definition ResendVerification :: "auth_service \<Rightarrow> ctx \<Rightarrow> string \<Rightarrow> verification_result action" where
  "ResendVerification svc ctx userID =
     bnd (wrap ''resend verification: lookup'' (usr_GetByID ctx userID)) (\<lambda>found. case found of
       None \<Rightarrow> fail ErrUserNotFound
     | Some user \<Rightarrow>
         if u_IsVerified user then fail (NewError ''already_verified'' ''Email is already verified'')
         else SendVerification svc ctx user)"

text \<open>The public request always ends in an error: the answer does not say whether anything will be sent.\<close>

definition SendVerificationByEmail :: "auth_service \<Rightarrow> ctx \<Rightarrow> string \<Rightarrow> verification_result action" where
  "SendVerificationByEmail svc ctx address =
     (if \<not> au_mailer svc then fail ErrEmailNotConfigured
      else if \<not> au_recovery svc then fail ErrInternal
      else seq (enqueueRecovery svc ctx RecoveryVerification address) (fail ErrVerificationEmailSent))"

definition processVerificationByEmail :: "auth_service \<Rightarrow> ctx \<Rightarrow> string \<Rightarrow> bool \<Rightarrow> verification_result action" where
  "processVerificationByEmail svc ctx address retry =
     bnd (GetByEmail ctx address) (\<lambda>found. case found of
       None \<Rightarrow> fail ErrVerificationEmailSent
     | Some user \<Rightarrow> if u_IsVerified user then fail ErrVerificationEmailSent else sendVerification svc ctx user retry)"

definition sendVerificationByEmail :: "auth_service \<Rightarrow> ctx \<Rightarrow> string \<Rightarrow> bool \<Rightarrow> unit action" where
  "sendVerificationByEmail svc ctx address retry =
     bnd (attempt (processVerificationByEmail svc ctx address retry)) (\<lambda>r. case r of
       Inl e \<Rightarrow> if errors_is e ErrVerificationEmailSent then ret () else fail e
     | Inr _ \<Rightarrow> ret ())"

end
