(* ===== verification/Login.thy ===== *)
theory Login
  imports Verification
begin

text \<open>
  \<open>internal/service/auth.go\<close>: registration, password logins, logout and the validation of a session with
  its user. Deleting and renaming an account are in the theory Accounts. Application roles are the fixed
  ones, the second-factor service is wired, and a bare hasher has no dummy hash of its own.
\<close>

section \<open>Registration\<close>

datatype register_result =
    Registered user session_result
  | RegisteredVerify user
  | RegisteredTwoFactor user challenge_result

definition new_user :: "string \<Rightarrow> string \<Rightarrow> string \<Rightarrow> nat option \<Rightarrow> string \<Rightarrow> bool \<Rightarrow> time \<Rightarrow> user" where
  "new_user i address hash version name twoFactor t =
     \<lparr>u_ID = i, u_Email = address, u_PasswordHash = Some hash, u_PepperVersion = version, u_Name = name,
      u_Role = ''user'', u_IsVerified = False, u_VerifiedAt = None, u_IsBanned = False, u_BannedAt = None,
      u_TwoFactorEnabled = twoFactor, u_LastLoginAt = None, u_OrgOwnerCount = 0, u_CreatedAt = t, u_UpdatedAt = t\<rparr>"

definition createUser :: "auth_service \<Rightarrow> ctx \<Rightarrow> user \<Rightarrow> unit action" where
  "createUser svc tx user =
     bnd (attempt (usr_Create tx user)) (\<lambda>r. case r of
       Inl e \<Rightarrow> fail (if errors_is e ErrDuplicateKey then ErrEmailAlreadyExists else ErrInternal)
     | Inr _ \<Rightarrow> publish (au_audit svc) tx (user_event ''user.registered'' (u_ID user)))"

definition createAuditedLoginSession ::
  "auth_service \<Rightarrow> ctx \<Rightarrow> user \<Rightarrow> string \<Rightarrow> string \<Rightarrow> string option \<Rightarrow> session_result action" where
  "createAuditedLoginSession svc ctx user ip userAgent loginEvent = WithTx ctx (\<lambda>tx.
     bnd (lockPasswordIdentity (au_sqlite svc) tx user) (\<lambda>_.
     bnd (Create (au_sessions svc) tx (u_ID user) ip userAgent) (\<lambda>created.
     seq (case loginEvent of None \<Rightarrow> ret ()
          | Some typ \<Rightarrow> publish (au_audit svc) tx \<lparr>e_Type = typ, e_Actor = u_ID user, e_Ref = s_ID (sr_Session created)\<rparr>)
         (ret created))))"

text \<open>What callers of \<open>createAuditedLoginSession\<close> return when it fails.\<close>

definition login_error :: "go_err \<Rightarrow> go_err" where
  "login_error e = (if errors_is e ErrInvalidCredentials \<or> errors_is e ErrUserBanned then e else ErrInternal)"

definition finish_register :: "auth_service \<Rightarrow> ctx \<Rightarrow> user \<Rightarrow> string \<Rightarrow> string \<Rightarrow> register_result action" where
  "finish_register svc ctx user ip userAgent =
     (let cf = au_config svc in
      if cf_RequireEmailVerification cf
      then bnd (SendVerification svc ctx user) (\<lambda>_. ret (RegisteredVerify user))
      else if cf_RequireEmail2FA cf
      then bnd (challengeWithPassword svc ctx user) (\<lambda>c. ret (RegisteredTwoFactor user c))
      else bnd (attempt (createAuditedLoginSession svc ctx user ip userAgent None)) (\<lambda>r. case r of
             Inl e \<Rightarrow> fail (login_error e)
           | Inr res \<Rightarrow> ret (Registered user res)))"

definition Register ::
  "auth_service \<Rightarrow> ctx \<Rightarrow> string \<Rightarrow> string \<Rightarrow> string \<Rightarrow> string \<Rightarrow> string \<Rightarrow> register_result action" where
  "Register svc ctx address0 password name0 ip userAgent =
     (let cf = au_config svc; address = normalize_email svc address0; name = au_trim svc name0 in
      if cf_PasswordAuthenticationDisabled cf \<or> \<not> cf_EmailPassword cf then fail ErrMethodDisabled
      else if cf_InviteOnly cf then fail ErrForbidden
      else if \<not> au_emailOK svc address then fail ErrInvalidEmail
      else seq (policy_check svc password)
        (if name = '''' then fail ErrNameRequired
         else bnd (wrap ''register: look up email'' (GetByEmail ctx address)) (\<lambda>existing. case existing of
           Some _ \<Rightarrow> fail ErrEmailAlreadyExists
         | None \<Rightarrow> bnd (attempt (hash_work (au_hasher svc) password)) (\<lambda>h. case h of
             Inl e \<Rightarrow> fail (passwordHashError e)
           | Inr (hash, version) \<Rightarrow>
               bnd now (\<lambda>t. bnd generateID (\<lambda>i.
               let user = new_user i address hash version name (cf_DefaultTwoFactorEnabled cf) t in
               seq (WithTx ctx (\<lambda>tx. createUser svc tx user)) (finish_register svc ctx user ip userAgent)))))))"

section \<open>Passwords\<close>

definition dummyHashForTiming :: "service_hasher \<Rightarrow> string" where
  "dummyHashForTiming sh =
     (case sh of Versioned h \<Rightarrow> if ph_dummyHash h \<noteq> '''' then ph_dummyHash h else ''$2a$12$'' @ replicate 101 (CHR ''.'')
      | Bare _ \<Rightarrow> ''$2a$12$'' @ replicate 101 (CHR ''.''))"

definition burnDummyPasswordVerification :: "auth_service \<Rightarrow> string \<Rightarrow> 'a action" where
  "burnDummyPasswordVerification svc password =
     bnd (attempt (password_work (\<lambda>l _.
       case (case au_hasher svc of Versioned h \<Rightarrow> fst (ph_Compare h l password (dummyHashForTiming (au_hasher svc)))
             | Bare b \<Rightarrow> h_Compare b password (dummyHashForTiming (au_hasher svc))) of
         None \<Rightarrow> Inr () | Some e \<Rightarrow> Inl e))) (\<lambda>r. fail (case r of
       Inl e \<Rightarrow> passwordCompareError e ErrInvalidCredentials | Inr _ \<Rightarrow> ErrInvalidCredentials))"

text \<open>\<open>au_rehash\<close> decides whether a stored hash is stale. The user the login goes on with has the new hash
  when it was written.\<close>

definition rehashIfNeeded :: "auth_service \<Rightarrow> ctx \<Rightarrow> user \<Rightarrow> string \<Rightarrow> user action" where
  "rehashIfNeeded svc ctx user password =
     (if \<not> au_rehash svc (the (u_PasswordHash user)) (u_PepperVersion user) then ret user
      else bnd (attempt (hash_work (au_hasher svc) password)) (\<lambda>h. case h of
        Inl e \<Rightarrow> ret user
      | Inr (newHash, newVersion) \<Rightarrow>
          bnd now (\<lambda>t.
          bnd (attempt (guardedPasswordUpdate ctx user newHash newVersion t)) (\<lambda>r. case r of
            Inr (Some upgraded) \<Rightarrow> ret upgraded
          | _ \<Rightarrow> ret user))))"

definition authenticate :: "auth_service \<Rightarrow> ctx \<Rightarrow> string \<Rightarrow> string \<Rightarrow> (user \<times> bool) action" where
  "authenticate svc ctx address password =
     (if cf_PasswordAuthenticationDisabled (au_config svc) then fail ErrMethodDisabled
      else bnd (wrap ''authenticate: look up email'' (GetByEmail ctx (normalize_email svc address))) (\<lambda>found. case found of
        None \<Rightarrow> burnDummyPasswordVerification svc password
      | Some user \<Rightarrow> (case u_PasswordHash user of
          None \<Rightarrow> burnDummyPasswordVerification svc password
        | Some stored \<Rightarrow>
            bnd (attempt (compare_work (au_hasher svc) password stored (u_PepperVersion user))) (\<lambda>c. case c of
              Inl e \<Rightarrow> fail (if errors_is e ErrPasswordWorkBusy then ErrPasswordWorkBusy else ErrInvalidCredentials)
            | Inr _ \<Rightarrow>
                if u_IsBanned user then fail ErrUserBanned
                else if cf_RequireEmailVerification (au_config svc) \<and> \<not> u_IsVerified user then ret (user, True)
                else bnd (rehashIfNeeded svc ctx user password) (\<lambda>u. ret (u, False))))))"

section \<open>Logins\<close>

datatype login_result =
    LoggedIn user session_result
  | LoginVerify user
  | LoginTwoFactor user challenge_result

definition complete_login :: "auth_service \<Rightarrow> ctx \<Rightarrow> user \<Rightarrow> string \<Rightarrow> string \<Rightarrow> string \<Rightarrow> login_result action" where
  "complete_login svc ctx user ip userAgent typ =
     (if Enforce (au_config svc) (Some user)
      then bnd (challengeWithPassword svc ctx user) (\<lambda>c. ret (LoginTwoFactor user c))
      else bnd (attempt (createAuditedLoginSession svc ctx user ip userAgent (Some typ))) (\<lambda>r. case r of
             Inl e \<Rightarrow> fail (login_error e)
           | Inr res \<Rightarrow> bnd now (\<lambda>t.
               bnd (attempt (UpdateLastLoginAt ctx (u_ID user) t)) (\<lambda>_. ret (LoggedIn user res)))))"

definition AdminLogin :: "auth_service \<Rightarrow> ctx \<Rightarrow> string \<Rightarrow> string \<Rightarrow> string \<Rightarrow> string \<Rightarrow> login_result action" where
  "AdminLogin svc ctx0 address password ip userAgent =
     (let ctx = select_scope ctx0 Admin;
          refuse = (\<lambda>e. bnd (attempt (publish (au_audit svc) ctx (anonymous_event ''admin.login.failed'' address))) (\<lambda>_. fail e)) in
      bnd (attempt (authenticate svc ctx address password)) (\<lambda>a. case a of
        Inl e \<Rightarrow> refuse e
      | Inr (user, requiresVerification) \<Rightarrow>
          if u_Role user \<noteq> ''admin'' then refuse ErrInvalidCredentials
          else if requiresVerification then ret (LoginVerify user)
          else complete_login svc ctx user ip userAgent ''admin.login.success''))"

definition Login :: "auth_service \<Rightarrow> ctx \<Rightarrow> string \<Rightarrow> string \<Rightarrow> string \<Rightarrow> string \<Rightarrow> login_result action" where
  "Login svc ctx address password ip userAgent =
     (if current_scope ctx = Admin then AdminLogin svc ctx address password ip userAgent
      else bnd (attempt (authenticate svc ctx address password)) (\<lambda>a. case a of
        Inl e \<Rightarrow> bnd (attempt (publish (au_audit svc) ctx (anonymous_event ''login.failed'' address))) (\<lambda>_. fail e)
      | Inr (user, requiresVerification) \<Rightarrow>
          if requiresVerification then ret (LoginVerify user)
          else complete_login svc ctx user ip userAgent ''login.success''))"

section \<open>Sessions of the service\<close>

definition isSessionValidationRejection :: "go_err \<Rightarrow> bool" where
  "isSessionValidationRejection e \<longleftrightarrow> errors_is e ErrSessionNotFound \<or> errors_is e ErrSessionExpired \<or>
     errors_is e ErrSessionRevoked \<or> errors_is e ErrMaxLifetimeExceeded"

definition ValidateSession :: "auth_service \<Rightarrow> ctx \<Rightarrow> string \<Rightarrow> (user \<times> session) action" where
  "ValidateSession svc ctx tokenRaw =
     bnd (attempt (Validate_token (au_sessions svc) ctx tokenRaw)) (\<lambda>r. case r of
       Inl e \<Rightarrow> fail (if isSessionValidationRejection e then ErrSessionExpired else Wrapf ''validate session'' [e])
     | Inr None \<Rightarrow> fail ErrSessionExpired
     | Inr (Some s) \<Rightarrow>
         bnd (wrap ''validate session: lookup'' (usr_GetByID ctx (s_UserID s))) (\<lambda>found. case found of
           None \<Rightarrow> fail ErrSessionExpired
         | Some user \<Rightarrow>
             if u_IsBanned user then fail ErrUserBanned
             else if cf_RequireEmailVerification (au_config svc) \<and> \<not> u_IsVerified user then fail ErrEmailNotVerified
             else ret (user, s)))"

definition Logout :: "auth_service \<Rightarrow> ctx \<Rightarrow> string \<Rightarrow> unit action" where
  "Logout svc ctx sessionID = internal (WithTx ctx (\<lambda>tx.
     seq (RevokeByID tx sessionID) (publish (au_audit svc) tx \<lparr>e_Type = ''logout'', e_Actor = '''', e_Ref = sessionID\<rparr>)))"

section \<open>What the parts do\<close>

text \<open>Changes of the token table alone, beside the audit tables.\<close>

definition token_change :: "tables \<Rightarrow> tables \<Rightarrow> bool" where
  "token_change d d' \<longleftrightarrow> (\<exists>ts. same_but_audit (put_tokens ts d) d')"

lemma put_tokens_same [simp]: "put_tokens (tokens d) d = d" "put_tokens ts (put_tokens us d) = put_tokens ts d"
  by (simp_all add: put_tokens_def)

lemma token_change_refl [simp]: "token_change d d"
  unfolding token_change_def by (rule exI [of _ "tokens d"]) simp

lemma token_change_put [simp]: "token_change d (put_tokens ts d)"
  unfolding token_change_def by (rule exI [of _ ts]) simp

lemma token_change_audit: "same_but_audit d d' \<Longrightarrow> token_change d d'"
  unfolding token_change_def by (rule exI [of _ "tokens d"]) simp

lemma token_change_trans: "token_change a b \<Longrightarrow> token_change b c \<Longrightarrow> token_change a c"
proof -
  assume "token_change a b" "token_change b c"
  then obtain ts us where "same_but_audit (put_tokens ts a) b" "same_but_audit (put_tokens us b) c"
    by (auto simp: token_change_def)
  from same_but_audit_trans [OF same_but_audit_put(2) [OF this(1)] this(2)] show ?thesis
    by (auto simp: token_change_def)
qed

lemma token_change_sel: "token_change d d' \<Longrightarrow> sessions d' = sessions d \<and> users d' = users d"
  by (auto simp: token_change_def same_but_audit_def put_tokens_def)

lemma wp_tok_Create_change:
  assumes "c_tx tx" and "\<And>r d'. token_change d d' \<Longrightarrow> Q r d'"
  shows "wp (tok_Create tx t) Q d"
  unfolding tok_Create_def using assms
  by (auto intro!: wp_bnd wp_now wp_ret wp_stmt split: if_splits)

lemma wp_prepareIssue:
  assumes "c_tx tx" and "\<And>r d'. token_change d d' \<Longrightarrow> Q r d'"
  shows "wp (prepareIssue svc tx user m) Q d"
proof -
  have draws: "wp (GenerateNumeric n) R d'" "wp generateID Q' d'" if "\<And>r. R r d'" "\<And>r. Q' r d'" for n R Q' d'
  proof -
    have "local_prog (otp_generate n a)" for n a by (induction n a rule: otp_generate.induct) (auto intro!: locals)
    then show "wp (GenerateNumeric n) R d'" unfolding GenerateNumeric_def by (intro wp_local that)
    show "wp generateID Q' d'" by (intro wp_local locals local_works that)
  qed
  show ?thesis
    unfolding prepareIssue_def Let_def
    by (auto intro!: wp_bnd wp_seq wp_fail wp_ret wp_now draws wp_tok_Create_change assms split: sum.split)
qed

lemma local_reusable [locals]: "local_prog (reusable cf ctx m t)"
  unfolding reusable_def by (auto intro!: locals split: option.split)

lemma rq_MarkUsedIfUnused: "(\<And>r d'. token_change d d' \<Longrightarrow> Q r d') \<Longrightarrow> rq (MarkUsedIfUnused ctx i) Q d"
  unfolding MarkUsedIfUnused_def affected_def by (auto intro!: rq_bnd rq_now rq_stmt)

lemma rq_tf_send: "(\<And>r. Q r d) \<Longrightarrow> rq (tf_send svc ctx user code) Q d"
  unfolding tf_send_def internal_def
  by (auto intro!: rq_bnd rq_fail rq_ret rq_attempt rq_mail rq_works split: sum.split)

text \<open>Issuing a challenge changes challenges only, whatever becomes of it.\<close>

lemma wp_challenge_tx:
  assumes "c_tx tx" and err: "\<And>e d'. Q (Inl e) d'" and ok: "\<And>a d'. token_change d d' \<Longrightarrow> Q (Inr a) d'"
  shows "wp (challenge_tx svc ctx tx i expected m) Q d"
proof -
  have lock: "wp (lock_challenged sq tx i expected) R d" if "\<And>r. R r d" for sq R
    using that assms(1) unfolding lock_challenged_def
    by (auto intro!: wp_bnd wp_lockPasswordIdentity wp_GetByIDForUpdate wp_ret split: option.split)
  have local: "wp (reusable cf ctx m t) R d" if "\<And>r. R r d" for cf t R by (intro wp_local locals that)

  show ?thesis
    unfolding challenge_tx_def Let_def GetLastTwoFactor_def DeleteUnusedTwoFactor_def tok_delete_def
    by (auto intro!: lock local wp_bnd wp_seq wp_fail wp_ret wp_query wp_exec
        wp_prepareIssue err ok assms(1) split: option.split sum.split) (erule token_change_trans [OF token_change_put])
qed

text \<open>Issuing a challenge changes challenges only, whatever becomes of it.\<close>

lemma rq_challenge:
  assumes "\<not> c_tx ctx" and ok: "\<And>r d'. token_change d d' \<Longrightarrow> Q r d'"
  shows "rq (challenge svc ctx i expected m) Q d"
proof -
  have scope: "\<not> c_tx (select_scope ctx s)" for s using assms(1) by (simp add: select_scope_def)
  have issue: "rq (attempt (WithTx (select_scope ctx s) (\<lambda>tx. challenge_tx svc c tx i expected m))) R d"
    if "\<And>r d'. token_change d d' \<Longrightarrow> R (Inr r) d'" for s c R
    using that scope by (auto intro!: rq_attempt rq_WithTx wp_challenge_tx)

  show ?thesis
    unfolding challenge_def Let_def
    by (rule rq_bnd, rule issue, auto intro!: rq_fail rq_ret rq_bnd rq_seq rq_attempt rq_tf_send rq_MarkUsedIfUnused rq_publish ok
        split: option.split sum.split) (blast intro: token_change_trans token_change_audit)+
qed

section \<open>Password logins\<close>

definition password_matches :: "auth_service \<Rightarrow> string \<Rightarrow> user \<Rightarrow> bool" where
  "password_matches svc password u \<longleftrightarrow> (\<exists>stored l. u_PasswordHash u = Some stored \<and>
     fst (comparePassword (au_hasher svc) l password stored (u_PepperVersion u)) = None)"

lemma rq_password_work:
  "(\<And>e. Q (Inl e) d) \<Longrightarrow> (\<And>l s a. f l s = Inr a \<Longrightarrow> Q (Inr a) d) \<Longrightarrow> rq (password_work f) Q d"
  unfolding password_work_def by (auto intro!: rq_bnd rq_attempt rq_draw rq_ret rq_fail split: sum.split)

lemma rq_compare_work:
  "(\<And>e. Q (Inl e) d) \<Longrightarrow> (\<And>l. fst (comparePassword sh l p h v) = None \<Longrightarrow> Q (Inr ()) d) \<Longrightarrow> rq (compare_work sh p h v) Q d"
  unfolding compare_work_def by (rule rq_password_work) (auto split: option.splits)

lemma rq_burn: "(\<And>e. Q (Inl e) d) \<Longrightarrow> rq (burnDummyPasswordVerification svc p) Q d"
  unfolding burnDummyPasswordVerification_def by (auto intro!: rq_bnd rq_attempt rq_password_work rq_fail)

text \<open>A user whose hash was upgraded during the login is the same for every decision taken later.\<close>

definition same_identity :: "user \<Rightarrow> user \<Rightarrow> bool" where
  "same_identity a b \<longleftrightarrow> u_ID b = u_ID a \<and> u_Role b = u_Role a \<and> u_IsVerified b = u_IsVerified a \<and>
     u_IsBanned b = u_IsBanned a \<and> u_TwoFactorEnabled b = u_TwoFactorEnabled a"

lemma same_identity_refl [simp]: "same_identity u u"
  by (simp add: same_identity_def)

lemma same_identity_hash [simp]: "same_identity u (set_hash h v t u)"
  by (simp add: same_identity_def set_hash_def)

definition hashes_changed :: "tables \<Rightarrow> tables \<Rightarrow> bool" where
  "hashes_changed d d' \<longleftrightarrow> (\<exists>P h v t. d' = put_users (update_where P (set_hash h v t) (users d)) d)"

lemma hashes_changed_refl [simp]: "hashes_changed d d"
  unfolding hashes_changed_def by (rule exI [of _ "\<lambda>_. False"]) (simp add: put_users_def update_where_def)

lemma rq_rehash:
  assumes "\<And>u' d'. same_identity u u' \<Longrightarrow> hashes_changed d d' \<Longrightarrow> Q (Inr u') d'"
  shows "rq (rehashIfNeeded svc ctx u p) Q d"
proof -
  have changed: "Q (Inr u') (put_users (update_where P (set_hash h v t) (users d)) d)" if "same_identity u u'" for u' P h v t
    using that by (intro assms) (auto simp: hashes_changed_def)
  have upd: "rq (guardedPasswordUpdate ctx u h v t) R d"
    if "\<And>e. R (Inl e) d" "\<And>P x. x = None \<or> x = Some (set_hash h v t u) \<Longrightarrow> R (Inr x) (put_users (update_where P (set_hash h v t) (users d)) d)"
    for h v t R
    using that unfolding guardedPasswordUpdate_def UpdatePasswordHash_def
    by (auto intro!: rq_bnd rq_wrap rq_stmt rq_fail rq_ret simp: Let_def split: option.split)
  show ?thesis
    unfolding rehashIfNeeded_def hash_work_def
    by (auto intro!: rq_bnd rq_attempt rq_password_work rq_ret rq_now upd assms changed split: sum.split option.split prod.split)
qed

definition authenticated :: "auth_service \<Rightarrow> string \<Rightarrow> string \<Rightarrow> user \<Rightarrow> tables \<Rightarrow> bool" where
  "authenticated svc address password u d \<longleftrightarrow> u \<in> set (users d) \<and> u_Email u = normalize_email svc address \<and>
     password_matches svc password u \<and> \<not> u_IsBanned u"

lemma rq_authenticate:
  assumes "\<And>e. Q (Inl e) d"
    and "\<And>u0 u d' v. authenticated svc address p u0 d \<Longrightarrow> same_identity u0 u \<Longrightarrow> hashes_changed d d' \<Longrightarrow>
      v \<longleftrightarrow> cf_RequireEmailVerification (au_config svc) \<and> \<not> u_IsVerified u0 \<Longrightarrow> Q (Inr (u, v)) d'"
  shows "rq (authenticate svc ctx address p) Q d"
proof -
  have row: "u \<in> set (users d) \<and> u_Email u = a" if "select1 (\<lambda>u. u_Email u = a) (users d) = Some u" for u a
    using select1_Some [OF that] by simp
  have ok: "Q (Inr (u, v)) d'" if "u0 \<in> set (users d)" "u_Email u0 = normalize_email svc address" "u_PasswordHash u0 = Some h"
    "fst (comparePassword (au_hasher svc) l p h (u_PepperVersion u0)) = None" "\<not> u_IsBanned u0" "same_identity u0 u"
    "hashes_changed d d'" "v \<longleftrightarrow> cf_RequireEmailVerification (au_config svc) \<and> \<not> u_IsVerified u0" for u0 u h l d' v
    using that by (intro assms(2) [of u0]) (auto simp: authenticated_def password_matches_def)
  show ?thesis
    unfolding authenticate_def GetByEmail_def
    by (auto intro!: rq_bnd rq_fail rq_ret rq_wrap rq_query rq_burn rq_attempt rq_compare_work rq_rehash assms(1)
        dest!: row split: option.split sum.split) (erule (3) ok, simp_all)+
qed

lemma rq_login_session:
  assumes "\<not> c_tx ctx" and "\<And>e. Q (Inl e) d"
    and "\<And>res d'. session_for (u_ID user) False res \<Longrightarrow> same_but_audit (put_sessions (sessions d @ [sr_Session res]) d) d' \<Longrightarrow> Q (Inr res) d'"
  shows "rq (createAuditedLoginSession svc ctx user ip ua ev) Q d"
proof -
  have fin: "wp (seq (case ev of None \<Rightarrow> ret () | Some typ \<Rightarrow> publish a tx (f typ)) (ret res)) R d1"
    if "c_tx tx" "\<And>e d2. R (Inl e) d2" "\<And>d2. same_but_audit d1 d2 \<Longrightarrow> R (Inr res) d2" for a f res R d1 tx
    using that by (auto intro!: wp_seq wp_ret wp_publish split: option.split sum.split)
  show ?thesis
    unfolding createAuditedLoginSession_def Create_def using assms(1,2)
    by (auto intro!: rq_WithTx wp_bnd wp_lockPasswordIdentity wp_create fin)
      (blast intro: assms(3) same_but_audit_trans)+
qed

definition session_granted :: "auth_service \<Rightarrow> string \<Rightarrow> string \<Rightarrow> bool \<Rightarrow> user \<Rightarrow> session_result \<Rightarrow> tables \<Rightarrow> tables \<Rightarrow> bool" where
  "session_granted svc address password admin u res d d' \<longleftrightarrow>
     (\<exists>u0. authenticated svc address password u0 d \<and> same_identity u0 u \<and> may_sign_in (au_config svc) u0 \<and>
        \<not> Enforce (au_config svc) (Some u0) \<and> (admin \<longrightarrow> u_Role u0 = ''admin'') \<and>
        session_for (u_ID u0) False res \<and> sessions d' = sessions d @ [sr_Session res])"

text \<open>What a login request may do to the sessions.\<close>

definition login_outcome :: "auth_service \<Rightarrow> string \<Rightarrow> string \<Rightarrow> bool \<Rightarrow> tables \<Rightarrow> go_err + login_result \<Rightarrow> tables \<Rightarrow> bool" where
  "login_outcome svc address password admin d r d' \<longleftrightarrow> (case r of
       Inr (LoggedIn u res) \<Rightarrow> session_granted svc address password admin u res d d'
     | _ \<Rightarrow> sessions d' = sessions d)"

lemma hashes_changed_sessions: "hashes_changed d d' \<Longrightarrow> sessions d' = sessions d"
  by (auto simp: hashes_changed_def put_users_def)

lemma Enforce_same: "same_identity u0 u \<Longrightarrow> Enforce cf (Some u) = Enforce cf (Some u0)"
  by (auto simp: Enforce_def same_identity_def)

lemma rq_complete_login:
  assumes "\<not> c_tx ctx" and u0: "authenticated svc address p u0 d" "same_identity u0 u" "may_sign_in (au_config svc) u0"
    "admin \<longrightarrow> u_Role u0 = ''admin''" and d1: "hashes_changed d d1"
  shows "rq (complete_login svc ctx u ip ua typ) (login_outcome svc address p admin d) d1"
proof -
  note s1 = hashes_changed_sessions [OF d1]
  have id: "u_ID u = u_ID u0" using u0(2) by (simp add: same_identity_def)
  have sess: "sessions d' = sessions d" if "token_change d1 d'" for d' using token_change_sel [OF that] s1 by simp
  have last: "rq (attempt (UpdateLastLoginAt ctx i t)) R d'" if "\<And>r us. R (Inr r) (put_users us d')" for R d' t i
  proof -
    have same: "put_users (users d') d' = d'" by (simp add: put_users_def)
    have "R (Inr r) d'" for r using that [of r "users d'"] same by simp
    then show ?thesis unfolding UpdateLastLoginAt_def using that by (auto intro!: rq_attempt rq_exec)
  qed
  have new: "sessions d' = sessions d @ [sr_Session res]"
    if "same_but_audit (put_sessions (sessions d @ [sr_Session res]) d1) d'" for d' res
    using same_but_audit_sel(3) [OF that] by (simp add: put_sessions_def)
  have granted: "session_granted svc address p admin u res d (put_users us d')"
    if "session_for (u_ID u0) False res" "sessions d' = sessions d @ [sr_Session res]" "\<not> Enforce (au_config svc) (Some u0)" for res us d'
    using u0 that unfolding session_granted_def by (intro exI [of _ u0]) simp
  show ?thesis
    unfolding complete_login_def challengeWithPassword_def
    by (auto intro!: rq_bnd rq_ret rq_fail rq_now rq_challenge rq_attempt [of "createAuditedLoginSession _ _ _ _ _ _"]
          rq_login_session last assms(1) granted sess new
        simp: login_outcome_def s1 id Enforce_same [OF u0(2)] split: sum.split)
qed

lemma rq_refuse:
  assumes "\<And>d'. sessions d' = sessions d1 \<Longrightarrow> Q (Inl e) d'"
  shows "rq (bnd (attempt (publish a ctx ev)) (\<lambda>_. fail e)) Q d1"
  using assms by (auto intro!: rq_bnd rq_attempt rq_publish rq_fail simp: same_but_audit_sel(3))

lemma rq_authenticated_login:
  assumes "\<not> c_tx ctx"
    and "\<And>e. rq (refuse e) (login_outcome svc address p admin d) d"
    and "\<And>u0 u d1 v. authenticated svc address p u0 d \<Longrightarrow> same_identity u0 u \<Longrightarrow> hashes_changed d d1 \<Longrightarrow>
      v \<longleftrightarrow> cf_RequireEmailVerification (au_config svc) \<and> \<not> u_IsVerified u0 \<Longrightarrow>
      rq (k (u, v)) (login_outcome svc address p admin d) d1"
  shows "rq (bnd (attempt (authenticate svc ctx address p)) (\<lambda>a. case a of Inl e \<Rightarrow> refuse e | Inr x \<Rightarrow> k x))
    (login_outcome svc address p admin d) d"
  by (rule rq_bnd, rule rq_attempt, rule rq_authenticate) (auto intro: assms(2,3))

lemma outcome_unchanged: "sessions d' = sessions d \<Longrightarrow> login_outcome svc address p admin d (Inl e) d'"
  "sessions d' = sessions d \<Longrightarrow> login_outcome svc address p admin d (Inr (LoginVerify u)) d'"
  by (simp_all add: login_outcome_def)

lemma may_sign_in_authenticated:
  "authenticated svc address p u0 d \<Longrightarrow> \<not> (cf_RequireEmailVerification (au_config svc) \<and> \<not> u_IsVerified u0) \<Longrightarrow> may_sign_in (au_config svc) u0"
  by (auto simp: authenticated_def may_sign_in_def)

lemma rq_AdminLogin:
  assumes "\<not> c_tx ctx"
  shows "rq (AdminLogin svc ctx address p ip ua) (login_outcome svc address p True d) d"
proof -
  have scope: "\<not> c_tx (select_scope ctx Admin)" using assms by (simp add: select_scope_def)
  show ?thesis
    unfolding AdminLogin_def Let_def
  proof (rule rq_authenticated_login [OF scope])
    fix u0 u d1 v
    assume u: "authenticated svc address p u0 d" "same_identity u0 u" "hashes_changed d d1"
      "v \<longleftrightarrow> cf_RequireEmailVerification (au_config svc) \<and> \<not> u_IsVerified u0"
    note same = hashes_changed_sessions [OF u(3)]
    have role: "u_Role u0 = u_Role u" using u(2) by (simp add: same_identity_def)
    show "rq (case (u, v) of (user, requiresVerification) \<Rightarrow>
        if u_Role user \<noteq> ''admin'' then bnd (attempt (publish (au_audit svc) (select_scope ctx Admin)
             (anonymous_event ''admin.login.failed'' address))) (\<lambda>_. fail ErrInvalidCredentials)
        else if requiresVerification then ret (LoginVerify user)
        else complete_login svc (select_scope ctx Admin) user ip ua ''admin.login.success'') (login_outcome svc address p True d) d1"
      using u(4) role same
      by (auto intro!: rq_refuse rq_ret outcome_unchanged rq_complete_login [OF scope u(1,2) _ _ u(3)]
          may_sign_in_authenticated [OF u(1)])
  qed (auto intro!: rq_refuse outcome_unchanged)
qed

lemma rq_Login:
  assumes "\<not> c_tx ctx"
  shows "rq (Login svc ctx address p ip ua) (login_outcome svc address p (current_scope ctx = Admin) d) d"
proof (cases "current_scope ctx = Admin")
  case True
  with rq_AdminLogin [OF assms] show ?thesis by (simp add: Login_def)
next
  case False
  have "rq (case (u, v) of (user, requiresVerification) \<Rightarrow> if requiresVerification then ret (LoginVerify user)
      else complete_login svc ctx user ip ua ''login.success'') (login_outcome svc address p False d) d1"
    if "authenticated svc address p u0 d" "same_identity u0 u" "hashes_changed d d1"
      "v \<longleftrightarrow> cf_RequireEmailVerification (au_config svc) \<and> \<not> u_IsVerified u0" for u0 u d1 v
    using hashes_changed_sessions [OF that(3)] that(4)
    by (auto intro!: rq_ret outcome_unchanged rq_complete_login [OF assms that(1,2) _ _ that(3)] may_sign_in_authenticated [OF that(1)])
  with False show ?thesis
    unfolding Login_def by (auto intro!: rq_authenticated_login [OF assms] rq_refuse outcome_unchanged)
qed

text \<open>C16: a password login yields a session only to someone whose password matched an account that is not
  banned, has its address verified when that is required, needs no second factor, and, in the
  administrators' browser context, has the administrator's role; the session is the only one added and
  belongs to that account. Every other ending, errors included, leaves the sessions alone.\<close>

theorem login_grants_sessions:
  assumes "\<not> c_tx ctx" and "faults_only w" and "Login svc ctx address password ip ua w = (r, w')"
  shows "login_outcome svc address password (current_scope ctx = Admin) (store w) r (store w')"
  using rqD [OF rq_Login [OF assms(1)] assms(2,3)] by simp

section \<open>Registration\<close>

text \<open>An account as anybody can open one: no role, not verified, not banned.\<close>

definition plain_account :: "auth_service \<Rightarrow> string \<Rightarrow> user \<Rightarrow> tables \<Rightarrow> bool" where
  "plain_account svc address u d \<longleftrightarrow> u_Role u = ''user'' \<and> \<not> u_IsVerified u \<and> \<not> u_IsBanned u \<and> u_OrgOwnerCount u = 0 \<and>
     u_Email u = normalize_email svc address \<and> au_emailOK svc (u_Email u) \<and> u_Name u \<noteq> '''' \<and>
     (\<forall>x \<in> set (users d). u_ID x \<noteq> u_ID u \<and> u_Email x \<noteq> u_Email u)"

definition register_outcome ::
  "auth_service \<Rightarrow> string \<Rightarrow> string \<Rightarrow> tables \<Rightarrow> go_err + register_result \<Rightarrow> tables \<Rightarrow> bool" where
  "register_outcome svc address password d r d' \<longleftrightarrow>
     (users d' = users d \<and> sessions d' = sessions d \<and> (\<exists>e. r = Inl e)) \<or>
     (\<exists>u. users d' = users d @ [u] \<and> plain_account svc address u d \<and>
        Validate (au_unicode svc) (au_policy svc) password = None \<and>
        (case r of
           Inr (Registered v res) \<Rightarrow> v = u \<and> sessions d' = sessions d @ [sr_Session res] \<and> session_for (u_ID u) False res \<and>
             \<not> cf_RequireEmailVerification (au_config svc) \<and> \<not> cf_RequireEmail2FA (au_config svc)
         | _ \<Rightarrow> sessions d' = sessions d))"

lemma rq_deliver_code:
  assumes "\<And>r d'. token_change d d' \<Longrightarrow> Q r d'"
  shows "rq (deliver_code ctx i m e) Q d"
  unfolding deliver_code_def discardUndeliveredToken_def DeleteUnusedByID_def tok_delete_def
  by (auto intro!: rq_bnd rq_attempt rq_works rq_mail rq_wrap rq_exec rq_ret rq_fail assms split: sum.split)

lemma local_otp_generate [locals]: "local_prog (otp_generate n a)"
  by (induction n a rule: otp_generate.induct) (auto intro!: locals)

lemma rq_tok_Create_change: "(\<And>r d'. token_change d d' \<Longrightarrow> Q r d') \<Longrightarrow> rq (tok_Create ctx t) Q d"
  unfolding tok_Create_def by (auto intro!: rq_bnd rq_now rq_ret rq_stmt split: if_splits)

lemma rq_mint_verification:
  assumes "\<And>r d'. token_change d d' \<Longrightarrow> Q r d'"
  shows "rq (mint_verification svc ctx u) Q d"
  unfolding mint_verification_def internal_def otp_Generate_def Let_def
  by (auto intro!: rq_bnd rq_seq rq_attempt rq_local [OF local_otp_generate] rq_works rq_now rq_fail rq_ret rq_publish
      rq_tok_Create_change rq_deliver_code assms split: sum.split)
    (blast intro: token_change_trans token_change_audit)+

lemma rq_sendVerification:
  assumes "\<And>r d'. token_change d d' \<Longrightarrow> Q r d'"
  shows "rq (sendVerification svc ctx u retry) Q d"
  unfolding sendVerification_def Let_def internal_def GetLastByUserAndType_def DeleteUnusedByUserAndType_def tok_delete_def
  by (auto intro!: rq_bnd rq_seq rq_attempt rq_query rq_exec rq_now rq_fail rq_ret rq_mint_verification assms split: sum.split option.split)
    (blast intro: token_change_trans token_change_put)+

lemma rq_createUser:
  assumes "\<not> c_tx ctx" and "\<And>e. Q (Inl e) d"
    and "\<And>d'. (\<forall>x \<in> set (users d). u_ID x \<noteq> u_ID u \<and> u_Email x \<noteq> u_Email u) \<Longrightarrow>
      same_but_audit (put_users (users d @ [u\<lparr>u_BannedAt := None, u_LastLoginAt := None\<rparr>]) d) d' \<Longrightarrow> Q (Inr ()) d'"
  shows "rq (WithTx ctx (\<lambda>tx. createUser svc tx u)) Q d"
proof -
  have "wp (usr_Create tx u) R d" if "c_tx tx" "\<And>e. R (Inl e) d"
    "\<forall>x \<in> set (users d). u_ID x \<noteq> u_ID u \<and> u_Email x \<noteq> u_Email u \<Longrightarrow>
       R (Inr ()) (put_users (users d @ [u\<lparr>u_BannedAt := None, u_LastLoginAt := None\<rparr>]) d)" for tx R
    using that unfolding usr_Create_def by (auto intro!: wp_stmt simp: list_ex_iff split: if_splits)
  note create = this
  show ?thesis
    unfolding createUser_def using assms(1,2)
    by (auto intro!: rq_WithTx wp_bnd wp_attempt create wp_fail wp_publish assms(3) split: sum.split)
qed

lemma rq_finish_register:
  assumes "\<not> c_tx ctx" and u: "plain_account svc address u d" "Validate (au_unicode svc) (au_policy svc) p = None"
    and d1: "users d1 = users d @ [u]" "sessions d1 = sessions d"
  shows "rq (finish_register svc ctx u ip ua) (register_outcome svc address p d) d1"
proof -
  have other: "register_outcome svc address p d (Inl e) d'" "register_outcome svc address p d (Inr (RegisteredVerify u)) d'"
    "register_outcome svc address p d (Inr (RegisteredTwoFactor u c)) d'" if "token_change d1 d'" for e c d'
    using u d1 token_change_sel [OF that] unfolding register_outcome_def by auto
  have signed: "register_outcome svc address p d (Inr (Registered u res)) d'"
    if "session_for (u_ID u) False res" "same_but_audit (put_sessions (sessions d1 @ [sr_Session res]) d1) d'"
      "\<not> cf_RequireEmailVerification (au_config svc)" "\<not> cf_RequireEmail2FA (au_config svc)" for res d'
    using u d1 same_but_audit_sel [OF that(2)] that unfolding register_outcome_def by (auto simp: put_sessions_def)
  show ?thesis
    unfolding finish_register_def Let_def SendVerification_def challengeWithPassword_def
    by (auto intro!: rq_bnd rq_ret rq_fail rq_attempt rq_sendVerification rq_challenge rq_login_session assms(1) signed other
        split: sum.split)
qed

lemma rq_Register:
  assumes "\<not> c_tx ctx"
  shows "rq (Register svc ctx address p name ip ua) (register_outcome svc address p d) d"
proof -
  have none: "register_outcome svc address p d (Inl e) d" for e by (auto simp: register_outcome_def)
  let ?u = "\<lambda>i h v b t. new_user i (normalize_email svc address) h v (au_trim svc name) b t"
  have fin: "rq (finish_register svc ctx (?u i h v b t) ip ua) (register_outcome svc address p d) d1"
    if "Validate (au_unicode svc) (au_policy svc) p = None" "au_emailOK svc (normalize_email svc address)" "au_trim svc name \<noteq> ''''"
      "\<forall>x \<in> set (users d). u_ID x \<noteq> u_ID (?u i h v b t) \<and> u_Email x \<noteq> u_Email (?u i h v b t)"
      "same_but_audit (put_users (users d @ [(?u i h v b t)\<lparr>u_BannedAt := None, u_LastLoginAt := None\<rparr>]) d) d1" for i h v b t d1
  proof (rule rq_finish_register [OF assms])
    have eta: "(?u i h v b t)\<lparr>u_BannedAt := None, u_LastLoginAt := None\<rparr> = ?u i h v b t" by (simp add: new_user_def)
    show "plain_account svc address (?u i h v b t) d" using that by (auto simp: plain_account_def new_user_def)
    show "users d1 = users d @ [?u i h v b t]" "sessions d1 = sessions d"
      using same_but_audit_sel [OF that(5)] by (simp_all add: eta put_users_def)
  qed (rule that(1))
  show ?thesis
    unfolding Register_def Let_def GetByEmail_def
    by (auto intro!: rq_bnd rq_seq rq_fail rq_wrap rq_query rq_attempt [of "hash_work _ _"] rq_works rq_now rq_policy_check none
        rq_createUser [OF assms] fin split: option.split sum.split)
qed

text \<open>C28: registration adds at most one account, with an address nobody has and a password the policy
  accepts; it is an ordinary account, unverified and never an administrator, and the request adds a
  session only when neither a verified address nor a second factor is required. A failure after the
  account was added leaves it without a session.\<close>

theorem registration_outcome:
  assumes "\<not> c_tx ctx" and "faults_only w" and "Register svc ctx address password name ip ua w = (r, w')"
  shows "register_outcome svc address password (store w) r (store w')"
  using rqD [OF rq_Register [OF assms(1)] assms(2,3)] by simp

section \<open>Witnesses\<close>

definition login_world_ex :: "tables world" where
  "login_world_ex = tf_world_ex\<lparr>entropy := [Some ''slot'', Some ''st'', Some ''rt'', Some ''s1'']\<rparr>"

lemmas login_run_simps = run_simps world_simps auth_ex_def config_ex_def normalize_email_def select1_def
  compare_work_def hash_work_def password_work_def comparePassword_def hashPassword_def hasher_ex_def current_scope_def Current_def Enforce_def
  lockPasswordIdentity_def GetByIDForUpdate_def user_id_is_def HasPassword_def Create_def create_def Generate_def sess_Create_def
  UpdateLastLoginAt_def put_users_def publish_def admin_service_ex_def GetByEmail_def

lemma login_run_ex: "\<exists>u res w'. Login auth_ex request_ctx ''a@b.c'' ''old-secret'' ''ip'' ''ua'' login_world_ex = (Inr (LoggedIn u res), w')"
  by (simp add: Login_def authenticate_def complete_login_def rehashIfNeeded_def createAuditedLoginSession_def
      login_world_ex_def tf_world_ex_def tf_user_ex_def tf_token_ex_def challenge_token_def login_run_simps)

theorem login_grants_sessions_witness:
  "\<exists>u res. session_granted auth_ex ''a@b.c'' ''old-secret'' False u res (store login_world_ex)
     (store (snd (Login auth_ex request_ctx ''a@b.c'' ''old-secret'' ''ip'' ''ua'' login_world_ex)))"
proof -
  obtain u res w' where run: "Login auth_ex request_ctx ''a@b.c'' ''old-secret'' ''ip'' ''ua'' login_world_ex = (Inr (LoggedIn u res), w')"
    using login_run_ex by blast
  have "faults_only login_world_ex" by (simp add: login_world_ex_def tf_world_ex_def quiet_world_def)
  with login_grants_sessions [OF _ _ run] run show ?thesis by (auto simp: login_outcome_def current_scope_def Current_def)
qed

definition register_service_ex :: auth_service where
  "register_service_ex = auth_ex\<lparr>au_config := config_ex\<lparr>cf_RequireEmailVerification := False\<rparr>\<rparr>"

definition register_world_ex :: "tables world" where
  "register_world_ex = (quiet_world (tables_of [] []))\<lparr>entropy := [Some ''salt'', Some ''u1'', Some ''st'', Some ''rt'', Some ''s1'']\<rparr>"

lemma register_run_ex:
  "\<exists>u res w'. Register register_service_ex request_ctx ''a@b.c'' ''passw0rd'' ''A'' ''ip'' ''ua'' register_world_ex = (Inr (Registered u res), w')"
proof -
  have ok: "Validate ascii_tables zero_policy ''passw0rd'' = None" by code_simp
  show ?thesis
    by (simp add: Register_def policy_check_def ok register_service_ex_def register_world_ex_def finish_register_def generateID_def
        createUser_def usr_Create_def new_user_def createAuditedLoginSession_def login_run_simps)
qed

theorem registration_outcome_witness:
  "\<exists>u. users (store (snd (Register register_service_ex request_ctx ''a@b.c'' ''passw0rd'' ''A'' ''ip'' ''ua'' register_world_ex))) = [u] \<and>
     plain_account register_service_ex ''a@b.c'' u (tables_of [] [])"
proof -
  obtain u res w' where run:
    "Register register_service_ex request_ctx ''a@b.c'' ''passw0rd'' ''A'' ''ip'' ''ua'' register_world_ex = (Inr (Registered u res), w')"
    using register_run_ex by blast
  have "faults_only register_world_ex" "store register_world_ex = tables_of [] []" "users (tables_of [] []) = []"
    by (simp_all add: register_world_ex_def quiet_world_def tables_of_def)
  with registration_outcome [OF _ _ run] run show ?thesis by (auto simp: register_outcome_def)
qed

end
