(* ===== verification/EmailFlow.thy ===== *)
theory EmailFlow
  imports Login
begin

text \<open>
  \<open>internal/service/email.go\<close>: changing the address of an account with a code from both mailboxes, and
  \<open>RecoveryWorker.ProcessOne\<close> of \<open>internal/service/recovery.go\<close>, which delivers what was queued.
  Delivery timeouts are not modelled. The HMAC that binds a pending change to the state of its account is
  taken over the JSON text of that state, as \<open>encoding/json\<close> writes it.
\<close>

section \<open>JSON\<close>

definition hex2 :: "nat \<Rightarrow> string" where
  "hex2 n = [hex_digit (n div 16), hex_digit (n mod 16)]"

definition json_ascii :: "nat \<Rightarrow> string" where
  "json_ascii a =
     (if a = 34 \<or> a = 92 then [CHR 0x5C, char_of a]
      else if a = 8 then CHR 0x5C # ''b'' else if a = 12 then CHR 0x5C # ''f''
      else if a = 10 then CHR 0x5C # ''n'' else if a = 13 then CHR 0x5C # ''r'' else if a = 9 then CHR 0x5C # ''t''
      else if a < 32 \<or> a = 60 \<or> a = 62 \<or> a = 38 then CHR 0x5C # ''u00'' @ hex2 a
      else [char_of a])"

text \<open>The number of bytes of the valid sequence a byte starts, 0 when it starts none.\<close>

definition rune_width :: "nat list \<Rightarrow> nat" where
  "rune_width bs = (if utf8_decode (take 2 bs) \<noteq> None \<and> 2 \<le> length bs \<and> 194 \<le> hd bs \<and> hd bs \<le> 223 then 2
     else if utf8_decode (take 3 bs) \<noteq> None \<and> 3 \<le> length bs \<and> 224 \<le> hd bs \<and> hd bs \<le> 239 then 3
     else if utf8_decode (take 4 bs) \<noteq> None \<and> 4 \<le> length bs \<and> 240 \<le> hd bs then 4 else 0)"

fun json_bytes :: "nat list \<Rightarrow> string" where
  "json_bytes [] = ''''"
| "json_bytes (a # bs) =
     (if a < 128 then json_ascii a @ json_bytes bs
      else let n = rune_width (a # bs) in
        if n = 0 then CHR 0x5C # ''ufffd'' @ json_bytes bs
        else (if take 3 (a # bs) = [226, 128, 168] then CHR 0x5C # ''u2028''
              else if take 3 (a # bs) = [226, 128, 169] then CHR 0x5C # ''u2029''
              else map char_of (take n (a # bs))) @ json_bytes (drop (n - 1) bs))"

definition json_string :: "string \<Rightarrow> string" where
  "json_string s = CHR 0x22 # json_bytes (bytes_of s) @ [CHR 0x22]"

definition json_bool :: "bool \<Rightarrow> string" where
  "json_bool b = (if b then ''true'' else ''false'')"

definition json_field :: "string \<Rightarrow> string \<Rightarrow> string" where
  "json_field name v = json_string name @ '':'' @ v"

definition identity_json :: "user \<Rightarrow> string" where
  "identity_json u = ''{'' @ join_with '','' [
     json_field ''Email'' (json_string (u_Email u)),
     json_field ''Password'' (case u_PasswordHash u of None \<Rightarrow> ''null'' | Some h \<Rightarrow> json_string h),
     json_field ''Pepper'' (case u_PepperVersion u of None \<Rightarrow> ''null'' | Some v \<Rightarrow> itoa_nat v),
     json_field ''Verified'' (json_bool (u_IsVerified u)), json_field ''TwoFactor'' (json_bool (u_TwoFactorEnabled u)),
     json_field ''Role'' (json_string (u_Role u)), json_field ''AppRole'' ''null'', json_field ''Revision'' ''0''] @ ''}''"

section \<open>The service\<close>

definition emailChangeTTL :: duration where "emailChangeTTL = 10 * minute"
definition emailChangeCooldown :: duration where "emailChangeCooldown = minute"
definition emailChangeAttempts :: int where "emailChangeAttempts = 5"
definition emailChangeResends :: int where "emailChangeResends = 3"
definition emailChangeStarts :: int where "emailChangeStarts = 3"

definition scope_name :: "scope \<Rightarrow> string" where
  "scope_name s = (case s of App \<Rightarrow> ''app'' | Admin \<Rightarrow> ''admin'')"

record email_actor =
  ea_UserID :: string
  ea_SessionID :: string

definition identity :: "auth_service \<Rightarrow> user \<Rightarrow> string" where
  "identity svc u = hashOTP (''email-change:identity:'' @ identity_json u) (cf_OTPPepper (au_config svc))"

definition emailCodeInput :: "string \<Rightarrow> string \<Rightarrow> string \<Rightarrow> string" where
  "emailCodeInput i destination code = ''email-change:'' @ i @ '':'' @ destination @ '':'' @ code"

definition code_hash :: "auth_service \<Rightarrow> string \<Rightarrow> string \<Rightarrow> string \<Rightarrow> string" where
  "code_hash svc i destination code = hashOTP (emailCodeInput i destination code) (cf_OTPPepper (au_config svc))"

definition actor :: "auth_service \<Rightarrow> ctx \<Rightarrow> email_actor \<Rightarrow> user action" where
  "actor svc tx a =
     (if ea_UserID a = '''' \<or> ea_SessionID a = '''' then fail ErrInvalidCredentials
      else bnd (GetByIDForUpdate (au_sqlite svc) tx (ea_UserID a)) (\<lambda>found.
        case checkUserAccess (au_sessions svc) found of Some e \<Rightarrow> fail e | None \<Rightarrow>
        bnd (LockByID tx (ea_SessionID a)) (\<lambda>so. case so of
          None \<Rightarrow> fail ErrInvalidCredentials
        | Some s \<Rightarrow> seq (checkSession (au_sessions svc) (Some s))
            (let u = the found in
             if s_UserID s \<noteq> u_ID u then fail ErrInvalidCredentials
             else if Enforce (au_config svc) (Some u) \<and> (case s_TwoFactorVerifiedAt s of None \<Rightarrow> True | Some t \<Rightarrow> is_zero_time t)
             then fail ErrTwoFactorRequired
             else ret u))))"

definition run :: "auth_service \<Rightarrow> ctx \<Rightarrow> (ctx \<Rightarrow> 'a action) \<Rightarrow> 'a action" where
  "run svc ctx fn =
     (if cf_OTPPepper (au_config svc) = '''' \<or> \<not> au_mailer svc \<or> \<not> au_recovery svc then fail ErrEmailNotConfigured
      else bnd (attempt (WithTx ctx fn)) (\<lambda>r. case r of
        Inl e \<Rightarrow> fail (if as_auth e \<noteq> None then e else Wrapf ''email change'' [ErrInternal, e])
      | Inr a \<Rightarrow> ret a))"

text \<open>At most sixteen candidates, so that a broken source of randomness fails instead of looping.\<close>

fun different_code :: "nat \<Rightarrow> (string \<Rightarrow> bool) \<Rightarrow> string action" where
  "different_code 0 reject = fail ErrInternal"
| "different_code (Suc n) reject =
     bnd (internal (otp_Generate 8)) (\<lambda>code. if \<not> reject code then ret code else different_code n reject)"

definition differentCode :: "(string \<Rightarrow> bool) \<Rightarrow> string action" where
  "differentCode reject = different_code 16 reject"

definition email_record :: "auth_service \<Rightarrow> ctx \<Rightarrow> string \<Rightarrow> email_actor \<Rightarrow> unit action" where
  "email_record svc tx kind a = publish (au_audit svc) tx \<lparr>e_Type = kind, e_Actor = ea_UserID a, e_Ref = ea_SessionID a\<rparr>"

definition deliver :: "ctx \<Rightarrow> email_change \<Rightarrow> string \<Rightarrow> string \<Rightarrow> unit action" where
  "deliver ctx v destination code =
     bnd now (\<lambda>_. bnd (Render (email (if destination = ''new'' then ec_NewEmail v else ec_CurrentEmail v) ''email_change'' code))
       (send_mail ctx))"

definition deliveryFailure :: "ctx \<Rightarrow> email_change \<Rightarrow> go_err \<Rightarrow> 'a action" where
  "deliveryFailure ctx v cause =
     bnd (attempt (DiscardVersion ctx v)) (\<lambda>r. case r of
       Inl e \<Rightarrow> fail (Wrapf ''email change delivery cleanup'' [ErrInternal, Wrapf '''' [cause, e]])
     | Inr _ \<Rightarrow> fail (Wrapf ''email change delivery'' [ErrEmailFailed, cause]))"

section \<open>Requesting a change\<close>

definition new_change :: "auth_service \<Rightarrow> scope \<Rightarrow> user \<Rightarrow> email_actor \<Rightarrow> string \<Rightarrow> string \<Rightarrow> string \<Rightarrow> string \<Rightarrow> time \<Rightarrow> time \<Rightarrow> int \<Rightarrow> email_change" where
  "new_change svc sc u a newEmail i currentCode newCode t budget starts =
     \<lparr>ec_UserID = u_ID u, ec_ID = i, ec_SessionID = ea_SessionID a, ec_Scope = scope_name sc, ec_CurrentEmail = u_Email u,
      ec_NewEmail = newEmail, ec_CurrentCodeHash = code_hash svc i ''current'' currentCode, ec_NewCodeHash = code_hash svc i ''new'' newCode,
      ec_IdentityHash = identity svc u, ec_Status = ''pending'', ec_CreatedAt = t, ec_ExpiresAt = t + emailChangeTTL,
      ec_BudgetStartedAt = budget, ec_CurrentSentAt = t, ec_NewSentAt = t, ec_Starts = starts, ec_Attempts = 0,
      ec_CurrentResends = 0, ec_NewResends = 0\<rparr>"

definition request_tx :: "auth_service \<Rightarrow> ctx \<Rightarrow> email_actor \<Rightarrow> string \<Rightarrow> user \<Rightarrow> string \<Rightarrow> string \<Rightarrow> email_change action" where
  "request_tx svc tx a newEmail expected currentCode newCode =
     bnd (actor svc tx a) (\<lambda>u.
     if identity svc u \<noteq> identity svc expected then fail ErrInvalidCredentials
     else if u_Email u = newEmail then fail ErrEmailChangeUnavailable
     else bnd (ec_Load tx (u_ID u)) (\<lambda>previous.
       bnd now (\<lambda>n.
       let t = micro n;
           (budget, starts) = (case previous of
              Some p \<Rightarrow> if t < ec_BudgetStartedAt p + hour then (ec_BudgetStartedAt p, ec_Starts p) else (t, 0)
            | None \<Rightarrow> (t, 0)) in
       if emailChangeStarts \<le> starts then fail ErrRateLimitExceeded
       else bnd generateID (\<lambda>i.
         let v = new_change svc (current_scope tx) u a newEmail i currentCode newCode t budget (starts + 1) in
         seq (ec_Save tx v) (seq (email_record svc tx ''email.change.requested'' a) (ret v))))))"

record email_result =
  er_RequestID :: string
  er_ExpiresAt :: time

definition RequestEmailChange :: "auth_service \<Rightarrow> ctx \<Rightarrow> email_actor \<Rightarrow> string \<Rightarrow> string \<Rightarrow> email_result action" where
  "RequestEmailChange svc ctx a newEmail0 password =
     (let newEmail = au_lower svc (au_trim svc newEmail0) in
      if 254 < length newEmail \<or> \<not> au_emailOK svc newEmail then fail ErrInvalidEmail
      else if ea_UserID a = '''' \<or> ea_SessionID a = '''' then fail ErrInvalidCredentials
      else bnd (attempt (usr_GetByID ctx (ea_UserID a))) (\<lambda>found. case found of
        Inl e \<Rightarrow> fail (Wrapf ''email change lookup'' [ErrInternal, e])
      | Inr None \<Rightarrow> fail ErrInvalidCredentials
      | Inr (Some expected) \<Rightarrow>
          seq (case u_PasswordHash expected of
                 Some stored \<Rightarrow>
                   if cf_PasswordAuthenticationDisabled (au_config svc) then ret ()
                   else bnd (attempt (compare_work (au_hasher svc) password stored (u_PepperVersion expected))) (\<lambda>c. case c of
                     Inl e \<Rightarrow> fail (passwordCompareError e ErrInvalidCredentials) | Inr _ \<Rightarrow> ret ())
               | None \<Rightarrow> ret ())
          (bnd (internal (otp_Generate 8)) (\<lambda>currentCode.
           bnd (internal (differentCode (\<lambda>c. c = currentCode))) (\<lambda>newCode.
           bnd (run svc ctx (\<lambda>tx. request_tx svc tx a newEmail expected currentCode newCode)) (\<lambda>request.
           bnd (attempt (deliver ctx request ''current'' currentCode)) (\<lambda>d1. case d1 of
             Inl e \<Rightarrow> deliveryFailure ctx request e
           | Inr _ \<Rightarrow> bnd (attempt (deliver ctx request ''new'' newCode)) (\<lambda>d2. case d2 of
               Inl e \<Rightarrow> deliveryFailure ctx request e
             | Inr _ \<Rightarrow> ret \<lparr>er_RequestID = ec_ID request, er_ExpiresAt = ec_ExpiresAt request\<rparr>))))))))"

section \<open>Confirming\<close>

definition pending :: "auth_service \<Rightarrow> ctx \<Rightarrow> email_actor \<Rightarrow> string \<Rightarrow> email_change action" where
  "pending svc tx a requestID =
     bnd (actor svc tx a) (\<lambda>u.
     bnd (ec_Load tx (u_ID u)) (\<lambda>loaded. case loaded of
       None \<Rightarrow> fail ErrEmailChangeInvalid
     | Some v \<Rightarrow>
         if ec_ID v \<noteq> requestID \<or> ec_Status v \<noteq> ''pending'' \<or> ec_SessionID v \<noteq> ea_SessionID a \<or>
            ec_Scope v \<noteq> scope_name (current_scope tx) \<or> ec_CurrentEmail v \<noteq> u_Email u \<or> ec_IdentityHash v \<noteq> identity svc u
         then fail ErrEmailChangeInvalid
         else bnd now (\<lambda>t.
           if \<not> t < ec_ExpiresAt v \<or> stalePepper (ec_CreatedAt v) (cf_SecretRotatedAt (au_config svc)) then fail ErrEmailChangeExpired
           else if emailChangeAttempts \<le> ec_Attempts v then fail ErrEmailChangeInvalid
           else ret v)))"

text \<open>A wrong pair of codes is counted, and the fifth destroys the proofs.\<close>

definition failed_guess :: "email_change \<Rightarrow> email_change" where
  "failed_guess v = (let v1 = v\<lparr>ec_Attempts := ec_Attempts v + 1\<rparr> in
     if emailChangeAttempts \<le> ec_Attempts v1 then v1\<lparr>ec_CurrentCodeHash := '''', ec_NewCodeHash := ''''\<rparr> else v1)"

definition used_change :: "email_change \<Rightarrow> email_change" where
  "used_change v = v\<lparr>ec_Status := ''used'', ec_CurrentCodeHash := '''', ec_NewCodeHash := ''''\<rparr>"

definition both_codes :: "auth_service \<Rightarrow> email_change \<Rightarrow> string \<Rightarrow> string \<Rightarrow> bool" where
  "both_codes svc v currentCode newCode \<longleftrightarrow>
     verifyOTP (emailCodeInput (ec_ID v) ''current'' currentCode) (ec_CurrentCodeHash v) (cf_OTPPepper (au_config svc)) \<and>
     verifyOTP (emailCodeInput (ec_ID v) ''new'' newCode) (ec_NewCodeHash v) (cf_OTPPepper (au_config svc))"

definition confirm_tx :: "auth_service \<Rightarrow> ctx \<Rightarrow> email_actor \<Rightarrow> string \<Rightarrow> string \<Rightarrow> string \<Rightarrow> go_err option action" where
  "confirm_tx svc tx a requestID currentCode newCode =
     bnd (pending svc tx a requestID) (\<lambda>v.
     if \<not> both_codes svc v currentCode newCode
     then seq (ec_Save tx (failed_guess v)) (ret (Some ErrEmailChangeInvalid))
     else bnd now (\<lambda>t.
       if \<not> t < ec_ExpiresAt v then fail ErrEmailChangeExpired
       else bnd (attempt (ChangeAddress tx (ec_UserID v) (ec_CurrentEmail v) (ec_NewEmail v) t)) (\<lambda>c. case c of
         Inl e \<Rightarrow> fail (if errors_is e ErrDuplicateKey then ErrEmailChangeUnavailable else e)
       | Inr changed \<Rightarrow>
           if \<not> changed then fail ErrEmailChangeInvalid
           else seq (ec_Save tx (used_change v))
             (seq (DeleteAllForUser tx (ec_UserID v))
             (seq (InvalidateCredentials tx (ec_UserID v))
             (seq (Enqueue tx RecoveryEmailChanged (ec_CurrentEmail v))
             (seq (Enqueue tx RecoveryEmailChanged (ec_NewEmail v))
             (seq (email_record svc tx ''email.changed'' a) (ret None)))))))))"

definition ConfirmEmailChange :: "auth_service \<Rightarrow> ctx \<Rightarrow> email_actor \<Rightarrow> string \<Rightarrow> string \<Rightarrow> string \<Rightarrow> unit action" where
  "ConfirmEmailChange svc ctx a requestID currentCode newCode =
     bnd (run svc ctx (\<lambda>tx. confirm_tx svc tx a requestID currentCode newCode)) (\<lambda>proofErr. case proofErr of
       Some e \<Rightarrow> fail e | None \<Rightarrow> ret ())"

section \<open>Resending and cancelling\<close>

definition resend_tx :: "auth_service \<Rightarrow> ctx \<Rightarrow> email_actor \<Rightarrow> string \<Rightarrow> string \<Rightarrow> string \<Rightarrow> (email_change \<times> string) action" where
  "resend_tx svc tx a requestID destination code0 =
     bnd (pending svc tx a requestID) (\<lambda>v.
     bnd now (\<lambda>t.
       let new = (destination = ''new'');
           sent = (if new then ec_NewSentAt v else ec_CurrentSentAt v);
           resends = (if new then ec_NewResends v else ec_CurrentResends v);
           hash = (if new then ec_NewCodeHash v else ec_CurrentCodeHash v);
           otherDestination = (if new then ''current'' else ''new'');
           otherHash = (if new then ec_CurrentCodeHash v else ec_NewCodeHash v);
           collides = (\<lambda>candidate. verifyOTP (emailCodeInput (ec_ID v) destination candidate) hash (cf_OTPPepper (au_config svc)) \<or>
             verifyOTP (emailCodeInput (ec_ID v) otherDestination candidate) otherHash (cf_OTPPepper (au_config svc))) in
       if emailChangeResends \<le> resends \<or> t < sent + emailChangeCooldown then fail ErrRateLimitExceeded
       else bnd (if collides code0 then differentCode collides else ret code0) (\<lambda>code.
         let h = code_hash svc (ec_ID v) destination code;
             v1 = (if new then v\<lparr>ec_NewSentAt := t, ec_NewResends := resends + 1, ec_NewCodeHash := h\<rparr>
                   else v\<lparr>ec_CurrentSentAt := t, ec_CurrentResends := resends + 1, ec_CurrentCodeHash := h\<rparr>) in
         seq (ec_Save tx v1) (ret (v1, code)))))"

definition ResendEmailChange :: "auth_service \<Rightarrow> ctx \<Rightarrow> email_actor \<Rightarrow> string \<Rightarrow> string \<Rightarrow> email_result action" where
  "ResendEmailChange svc ctx a requestID destination =
     (if destination \<noteq> ''current'' \<and> destination \<noteq> ''new'' then fail ErrEmailChangeInvalid
      else bnd (internal (otp_Generate 8)) (\<lambda>code0.
        bnd (run svc ctx (\<lambda>tx. resend_tx svc tx a requestID destination code0)) (\<lambda>(v, code).
        bnd (attempt (deliver ctx v destination code)) (\<lambda>d. case d of
          Inl e \<Rightarrow> deliveryFailure ctx v e
        | Inr _ \<Rightarrow> ret \<lparr>er_RequestID = ec_ID v, er_ExpiresAt = ec_ExpiresAt v\<rparr>))))"

definition CancelEmailChange :: "auth_service \<Rightarrow> ctx \<Rightarrow> email_actor \<Rightarrow> string \<Rightarrow> unit action" where
  "CancelEmailChange svc ctx a requestID = run svc ctx (\<lambda>tx.
     bnd (actor svc tx a) (\<lambda>_.
     bnd (ec_Load tx (ea_UserID a)) (\<lambda>loaded. case loaded of
       None \<Rightarrow> fail ErrEmailChangeInvalid
     | Some v \<Rightarrow>
         if ec_ID v \<noteq> requestID \<or> ec_SessionID v \<noteq> ea_SessionID a \<or> ec_Scope v \<noteq> scope_name (current_scope tx) \<or> ec_Status v \<noteq> ''pending''
         then fail ErrEmailChangeInvalid
         else ec_Save tx (cancel_change v))))"

section \<open>The delivery worker\<close>

definition sendEmailChangedNotice :: "ctx \<Rightarrow> string \<Rightarrow> unit action" where
  "sendEmailChangedNotice ctx address = bnd (Render (email address ''email_changed'' '''')) (send_mail ctx)"

text \<open>The result says whether a request was claimed; errors of the delivery and of the acknowledgement are
  returned after both were made.\<close>

definition ProcessOne :: "auth_service \<Rightarrow> ctx \<Rightarrow> (bool \<times> go_err list) action" where
  "ProcessOne svc ctx =
     bnd now (\<lambda>t.
     bnd (attempt (Claim ctx t (2 * minute))) (\<lambda>claimed. case claimed of
       Inl e \<Rightarrow> ret (False, [e])
     | Inr None \<Rightarrow> ret (False, [])
     | Inr (Some request) \<Rightarrow>
         bnd (attempt (if 5 < rq_Attempts request then fail (Sentinel ''recovery request attempt budget exhausted'')
              else case rq_Kind request of
                RecoveryPasswordReset \<Rightarrow> sendPasswordReset svc ctx (rq_Email request)
              | RecoveryEmailChanged \<Rightarrow> sendEmailChangedNotice ctx (rq_Email request)
              | RecoveryVerification \<Rightarrow> sendVerificationByEmail svc ctx (rq_Email request) (1 < rq_Attempts request))) (\<lambda>r.
         bnd now (\<lambda>t2.
         bnd (attempt (Complete ctx request (case r of Inl _ \<Rightarrow> False | Inr _ \<Rightarrow> True) t2)) (\<lambda>c.
         ret (True, (case r of Inl e \<Rightarrow> [e] | Inr _ \<Rightarrow> []) @ (case c of Inl e \<Rightarrow> [e] | Inr _ \<Rightarrow> [])))))))"

end
