(* ===== verification/EmailProps.thy ===== *)
theory EmailProps
  imports EmailFlow SessionProps
begin

text \<open>
  What confirming a change of address does to the tables: the changes of \<open>ConfirmEmailChange\<close> are one
  commit, and a wrong pair of codes is the only failure that leaves a trace.
\<close>

section \<open>The pending request\<close>

text \<open>The request the presented codes are checked against: it is pending, of this user, session, browser
  context and state of the account, and has guesses left.\<close>

definition change_pending :: "auth_service \<Rightarrow> scope \<Rightarrow> email_actor \<Rightarrow> string \<Rightarrow> user \<Rightarrow> email_change \<Rightarrow> tables \<Rightarrow> bool" where
  "change_pending svc sc a requestID u v d \<longleftrightarrow>
     u \<in> set (users d) \<and> u_ID u = ea_UserID a \<and> \<not> u_IsBanned u \<and>
     (\<exists>s \<in> set (sessions d). s_ID s = ea_SessionID a \<and> s_UserID s = u_ID u \<and>
        (Enforce (au_config svc) (Some u) \<longrightarrow> s_TwoFactorVerifiedAt s \<noteq> None)) \<and>
     v \<in> set (email_changes d) \<and> ec_UserID v = u_ID u \<and> ec_ID v = requestID \<and> ec_Status v = ''pending'' \<and>
     ec_SessionID v = ea_SessionID a \<and> ec_Scope v = scope_name sc \<and> ec_CurrentEmail v = u_Email u \<and>
     ec_IdentityHash v = identity svc u \<and> ec_Attempts v < emailChangeAttempts \<and>
     \<not> stalePepper (ec_CreatedAt v) (cf_SecretRotatedAt (au_config svc))"

definition save_change :: "email_change \<Rightarrow> tables \<Rightarrow> tables" where
  "save_change v d = put_email_changes (upsert_change (stored_change v) (email_changes d)) d"

lemma wp_ec_Save:
  "c_tx tx \<Longrightarrow> (\<And>e. Q (Inl e) d) \<Longrightarrow> Q (Inr ()) (save_change v d) \<Longrightarrow> wp (ec_Save tx v) Q d"
  unfolding ec_Save_def by (auto intro!: wp_stmt simp: InTx_def save_change_def split: if_splits)

lemma wp_actor:
  assumes "c_tx tx" and "\<And>e. Q (Inl e) d"
    and "\<And>u s. u \<in> set (users d) \<Longrightarrow> u_ID u = ea_UserID a \<Longrightarrow> \<not> u_IsBanned u \<Longrightarrow> s \<in> set (sessions d) \<Longrightarrow>
      s_ID s = ea_SessionID a \<Longrightarrow> s_UserID s = u_ID u \<Longrightarrow>
      (Enforce (au_config svc) (Some u) \<Longrightarrow> s_TwoFactorVerifiedAt s \<noteq> None) \<Longrightarrow> Q (Inr u) d"
  shows "wp (actor svc tx a) Q d"
proof -
  have chk: "wp (checkSession ss so) R d" if "\<And>r. R r d" for ss so R by (intro wp_local locals that)
  have row: "s \<in> set (sessions d) \<and> s_ID s = i" if "select1 (\<lambda>s. s_ID s = i) (sessions d) = Some s" for s i
    using select1_Some [OF that] by simp
  have access: "found = Some (the found) \<and> \<not> u_IsBanned (the found)" if "checkUserAccess ss found = None" for ss found
    using that by (cases found) (auto simp: checkUserAccess_def split: if_splits)
  have fin: "Q (Inr (the found)) d"
    if "checkUserAccess (au_sessions svc) found = None" "select1 (user_id_is (ea_UserID a)) (users d) = found"
      "select1 (\<lambda>s. s_ID s = ea_SessionID a) (sessions d) = Some s" "s_UserID s = u_ID (the found)"
      "Enforce (au_config svc) (Some (the found)) \<longrightarrow> s_TwoFactorVerifiedAt s \<noteq> None" for found s
    using access [OF that(1)] select_user [of "ea_UserID a" "users d" "the found"] row [OF that(3)] that
    by (intro assms(3) [of "the found" s]) auto
  show ?thesis
    unfolding actor_def LockByID_def Let_def
    by (auto intro!: wp_bnd wp_seq wp_fail wp_ret wp_query wp_GetByIDForUpdate chk assms(1,2) fin
        simp: InTx_def split: option.split sum.split) auto
qed

lemma wp_pending:
  assumes "c_tx tx" and "\<And>e. Q (Inl e) d"
    and "\<And>u v. change_pending svc (current_scope tx) a requestID u v d \<Longrightarrow> Q (Inr v) d"
  shows "wp (pending svc tx a requestID) Q d"
proof -
  have row: "v \<in> set (email_changes d) \<and> ec_UserID v = i"
    if "select1 (\<lambda>v. ec_UserID v = i) (email_changes d) = Some v" for v i
    using select1_Some [OF that] by simp
  have live: "Q (Inr v) d"
    if "v \<in> set (email_changes d)" "ec_UserID v = u_ID u" "ec_ID v = requestID" "ec_Status v = ''pending''"
      "ec_SessionID v = ea_SessionID a" "ec_Scope v = scope_name (current_scope tx)" "ec_CurrentEmail v = u_Email u"
      "ec_IdentityHash v = identity svc u" "\<not> stalePepper (ec_CreatedAt v) (cf_SecretRotatedAt (au_config svc))"
      "\<not> emailChangeAttempts \<le> ec_Attempts v"
      "u \<in> set (users d)" "u_ID u = ea_UserID a" "\<not> u_IsBanned u" "s \<in> set (sessions d)" "s_ID s = ea_SessionID a"
      "s_UserID s = u_ID u" "Enforce (au_config svc) (Some u) \<Longrightarrow> s_TwoFactorVerifiedAt s \<noteq> None" for u s v
    using that by (intro assms(3) [of u v]) (auto simp: change_pending_def)
  show ?thesis
    unfolding pending_def ec_Load_def
    apply (rule wp_bnd, rule wp_actor [OF assms(1)])
     apply (simp add: assms(2))
    apply (simp add: InTx_def assms(1))
    apply (rule wp_bnd, rule wp_query [OF assms(1)])
     apply (simp add: assms(2))
    apply (auto intro!: wp_bnd wp_fail wp_ret wp_now assms(2) dest!: row split: option.split)
    subgoal for u s v t by (rule live [of v u s]) simp_all
    done
qed

section \<open>Confirming\<close>

definition other_owner :: "string \<Rightarrow> string \<Rightarrow> tables \<Rightarrow> bool" where
  "other_owner i address d \<longleftrightarrow> list_ex (\<lambda>u. u_ID u \<noteq> i \<and> u_Email u = address) (users d)"

text \<open>The new address, proved, belongs to nobody else; the request is used up, every session and every token of
  the user is gone, and both addresses will be told.\<close>

definition address_changed :: "email_change \<Rightarrow> tables \<Rightarrow> tables \<Rightarrow> bool" where
  "address_changed v d d' \<longleftrightarrow>
     \<not> other_owner (ec_UserID v) (ec_NewEmail v) d \<and>
     (\<exists>t n1 n2. same_but_audit
       (put_recoveries (recoveries d @ [n1, n2])
       (put_tokens (delete_where (\<lambda>t. t_UserID t = Some (ec_UserID v)) (tokens d))
       (put_sessions (delete_where (\<lambda>s. s_UserID s = ec_UserID v) (sessions d))
       (save_change (used_change v)
       (put_users (update_where (\<lambda>u. u_ID u = ec_UserID v \<and> u_Email u = ec_CurrentEmail v) (set_address (ec_NewEmail v) t)
         (users d)) d))))) d' \<and> t < ec_ExpiresAt v \<and>
       rr_Kind n1 = RecoveryEmailChanged \<and> rr_Email n1 = ec_CurrentEmail v \<and>
       rr_Kind n2 = RecoveryEmailChanged \<and> rr_Email n2 = ec_NewEmail v)"

lemma wp_Enqueue:
  assumes "c_tx tx" and "\<And>e. Q (Inl e) d"
    and "\<And>i t. Q (Inr ()) (put_recoveries (recoveries d @ [enqueue_row i kind address t]) d)"
  shows "wp (Enqueue tx kind address) Q d"
  unfolding Enqueue_def generateID_def using assms by (auto intro!: wp_bnd wp_now wp_draw wp_stmt split: sum.split if_splits)

lemma wp_ChangeAddress:
  assumes "c_tx tx" and "\<And>e. Q (Inl e) d" and "\<And>d'. Q (Inr False) d'"
    and "\<not> other_owner i new d \<Longrightarrow>
      Q (Inr True) (put_users (update_where (\<lambda>u. u_ID u = i \<and> u_Email u = old) (set_address new t) (users d)) d)"
  shows "wp (ChangeAddress tx i old new t) Q d"
proof -
  have pos: "0 < count_where G us \<longleftrightarrow> list_ex G us" for G :: "user \<Rightarrow> bool" and us
    using count_where_0 [of G us] by (auto simp: list_ex_iff)
  show ?thesis
    unfolding ChangeAddress_def Let_def pos using assms
    by (cases "list_ex (\<lambda>u. u_ID u = i \<and> u_Email u = old) (users d)"; intro wp_stmt) (auto simp: other_owner_def split: if_splits)
qed

text \<open>The writes after the address.\<close>

lemma wp_change_tail:
  assumes "c_tx tx" and "\<And>e d'. Q (Inl e) d'"
    and "\<And>i1 i2 t1 t2 d'. same_but_audit (put_recoveries (recoveries d1 @ [enqueue_row i1 RecoveryEmailChanged old t1,
            enqueue_row i2 RecoveryEmailChanged new t2])
       (put_tokens (delete_where (\<lambda>t. t_UserID t = Some i) (tokens d1))
       (put_sessions (delete_where (\<lambda>s. s_UserID s = i) (sessions d1)) (save_change v d1)))) d' \<Longrightarrow> Q (Inr None) d'"
  shows "wp (seq (ec_Save tx v) (seq (DeleteAllForUser tx i) (seq (InvalidateCredentials tx i)
     (seq (Enqueue tx RecoveryEmailChanged old) (seq (Enqueue tx RecoveryEmailChanged new)
       (seq (publish a tx ev) (ret None))))))) Q d1"
proof -
  have eq: "put_recoveries ((recoveries d @ [x]) @ [y]) (put_recoveries zs d) = put_recoveries (recoveries d @ [x, y]) d" for d x y zs
    by (simp add: put_recoveries_def)
  have sel: "recoveries (save_change v d1) = recoveries d1" "sessions (save_change v d1) = sessions d1"
    "tokens (save_change v d1) = tokens d1"
    by (simp_all add: save_change_def put_email_changes_def)
  show ?thesis
    unfolding DeleteAllForUser_def InvalidateCredentials_def tok_delete_def
    by (auto intro!: wp_seq wp_ec_Save wp_exec wp_Enqueue wp_publish wp_ret assms(1,2) assms(3)
        simp: sel put_recoveries_def put_tokens_def put_sessions_def split: sum.split)
qed

lemma wp_confirm_tx:
  assumes "c_tx tx" and err: "\<And>e d'. Q (Inl e) d'"
    and bad: "\<And>u v. change_pending svc (current_scope tx) a requestID u v d \<Longrightarrow> \<not> both_codes svc v cc nc \<Longrightarrow>
      Q (Inr (Some ErrEmailChangeInvalid)) (save_change (failed_guess v) d)"
    and good: "\<And>u v d'. change_pending svc (current_scope tx) a requestID u v d \<Longrightarrow> both_codes svc v cc nc \<Longrightarrow>
      address_changed v d d' \<Longrightarrow> Q (Inr None) d'"
  shows "wp (confirm_tx svc tx a requestID cc nc) Q d"
proof -
  have moved: "address_changed v d d'"
    if "\<not> other_owner (ec_UserID v) (ec_NewEmail v) d" "t < ec_ExpiresAt v"
      "same_but_audit (put_recoveries (recoveries d @ [enqueue_row i1 RecoveryEmailChanged (ec_CurrentEmail v) t1,
            enqueue_row i2 RecoveryEmailChanged (ec_NewEmail v) t2])
       (put_tokens (delete_where (\<lambda>t. t_UserID t = Some (ec_UserID v)) (tokens d))
       (put_sessions (delete_where (\<lambda>s. s_UserID s = ec_UserID v) (sessions d)) (save_change (used_change v)
       (put_users (update_where (\<lambda>u. u_ID u = ec_UserID v \<and> u_Email u = ec_CurrentEmail v) (set_address (ec_NewEmail v) t) (users d)) d))))) d'"
    for v t d' i1 i2 t1 t2
    unfolding address_changed_def using that
    by (intro conjI exI [of _ t] exI [of _ "enqueue_row i1 RecoveryEmailChanged (ec_CurrentEmail v) t1"]
        exI [of _ "enqueue_row i2 RecoveryEmailChanged (ec_NewEmail v) t2"]) (simp_all add: enqueue_row_def)
  have sel: "recoveries (put_users us d) = recoveries d" "sessions (put_users us d) = sessions d" "tokens (put_users us d) = tokens d" for us
    by (simp_all add: put_users_def)
  show ?thesis
    unfolding confirm_tx_def email_record_def
    by (auto intro!: wp_bnd wp_seq [of "ec_Save tx (failed_guess _)"] wp_fail wp_ret wp_now wp_pending wp_ec_Save wp_attempt
        wp_ChangeAddress wp_change_tail bad err assms(1) simp: sel split: sum.split)
      (assumption, rule good, assumption, assumption, rule moved, assumption+)
qed

text \<open>What a confirmation does to the tables.\<close>

definition change_confirmed :: "auth_service \<Rightarrow> scope \<Rightarrow> email_actor \<Rightarrow> string \<Rightarrow> string \<Rightarrow> string \<Rightarrow> tables \<Rightarrow> tables \<Rightarrow> bool" where
  "change_confirmed svc sc a requestID cc nc d d' \<longleftrightarrow>
     (\<exists>u v. change_pending svc sc a requestID u v d \<and> both_codes svc v cc nc \<and> address_changed v d d')"

definition guess_charged :: "auth_service \<Rightarrow> scope \<Rightarrow> email_actor \<Rightarrow> string \<Rightarrow> string \<Rightarrow> string \<Rightarrow> tables \<Rightarrow> tables \<Rightarrow> bool" where
  "guess_charged svc sc a requestID cc nc d d' \<longleftrightarrow>
     (\<exists>u v. change_pending svc sc a requestID u v d \<and> \<not> both_codes svc v cc nc \<and> d' = save_change (failed_guess v) d)"

lemma rq_run:
  assumes "\<not> c_tx ctx" and "\<And>e. Q (Inl e) d"
    and "wp (fn (ctx\<lparr>c_tx := True\<rparr>)) (\<lambda>r d'. case r of Inl e \<Rightarrow> True | Inr a \<Rightarrow> Q (Inr a) d') d"
  shows "rq (run svc ctx fn) Q d"
  unfolding run_def using assms by (auto intro!: rq_bnd rq_attempt rq_WithTx rq_fail rq_ret elim!: wp_conseq split: sum.splits)

lemma rq_ConfirmEmailChange:
  assumes "\<not> c_tx ctx"
  shows "rq (ConfirmEmailChange svc ctx a requestID cc nc) (\<lambda>r d'. case r of
      Inl e \<Rightarrow> d' = d \<or> guess_charged svc (current_scope ctx) a requestID cc nc d d'
    | Inr _ \<Rightarrow> change_confirmed svc (current_scope ctx) a requestID cc nc d d') d"
proof -
  let ?tx = "ctx\<lparr>c_tx := True\<rparr>"
  have tx: "c_tx ?tx" and sc: "current_scope ?tx = current_scope ctx" by (simp_all add: current_scope_def)
  show ?thesis
    unfolding ConfirmEmailChange_def
    apply (rule rq_bnd, rule rq_run [OF assms])
     apply simp
    apply (rule wp_confirm_tx [OF tx])
    by (auto simp: sc intro!: rq_fail rq_ret) (auto simp: guess_charged_def change_confirmed_def; blast)+
qed


section \<open>Witness\<close>

definition email_change_ex :: email_change where
  "email_change_ex = \<lparr>ec_UserID = ''u1'', ec_ID = ''c1'', ec_SessionID = ''s1'', ec_Scope = ''app'', ec_CurrentEmail = ''a@b.c'',
     ec_NewEmail = ''n@b.c'', ec_CurrentCodeHash = code_hash auth_ex ''c1'' ''current'' ''AAAA'', ec_NewCodeHash = code_hash auth_ex ''c1'' ''new'' ''BBBB'',
     ec_IdentityHash = identity auth_ex user_ex, ec_Status = ''pending'', ec_CreatedAt = unix_epoch + 2, ec_ExpiresAt = unix_epoch + 20,
     ec_BudgetStartedAt = unix_epoch + 2, ec_CurrentSentAt = unix_epoch + 2, ec_NewSentAt = unix_epoch + 2, ec_Starts = 1,
     ec_Attempts = 4, ec_CurrentResends = 0, ec_NewResends = 0\<rparr>"

definition email_world_ex :: "tables world" where
  "email_world_ex = \<lparr>store = (tables_of [user_ex] [])\<lparr>sessions := [session_ex], email_changes := [email_change_ex]\<rparr>,
     sched = [], clock = unix_epoch + 5, ticks = [], entropy = [Some ''i1'', Some ''i2''], mailbox = []\<rparr>"

lemmas email_run_simps = ConfirmEmailChange_def run_def confirm_tx_def pending_def actor_def email_world_ex_def email_change_ex_def
  LockByID_def ec_Load_def ec_Save_def checkUserAccess_def checkSession_def session_ex_def scope_name_def emailChangeAttempts_def
  both_codes_def used_change_def code_hash_def verifyOTP_hashOTP stalePepper_def unix_epoch_def is_zero_time_def ChangeAddress_def count_where_def put_email_changes_def
  DeleteAllForUser_def InvalidateCredentials_def tok_delete_def Enqueue_def generateID_def put_sessions_def put_tokens_def
  put_recoveries_def enqueue_row_def email_record_def update_where_def set_address_def login_run_simps

lemma confirm_run_ex:
  "fst (ConfirmEmailChange auth_ex request_ctx \<lparr>ea_UserID = ''u1'', ea_SessionID = ''s1''\<rparr> ''c1'' ''AAAA'' ''BBBB'' email_world_ex) = Inr ()"
  by (simp add: email_run_simps)


end
