(* ===== verification/Invites.thy ===== *)
theory Invites
  imports Login
begin

text \<open>
  Account invitations: \<open>internal/sqlstore/invite_repo.go\<close> with \<open>invite_state.go\<close> and \<open>invite_queries.go\<close>, and
  \<open>internal/service/invite.go\<close>. Application roles are the fixed ones (\<open>config.AppPermissions\<close> is nil), the
  second-factor service is wired. A message is its recipient, its template and the link or code it carries.
\<close>

section \<open>The repository\<close>

text \<open>A row needs a fresh identifier, a fresh code and an existing creator.\<close>

definition inv_Create :: "ctx \<Rightarrow> invite \<Rightarrow> unit action" where
  "inv_Create ctx v = stmt ctx (\<lambda>d.
     if list_ex (\<lambda>r. i_ID r = i_ID v \<or> i_Code r = i_Code v) (invites d) then (Inl ErrDatabase, d)
     else if \<not> list_ex (user_id_is (i_CreatedBy v)) (users d) then (Inl ErrDatabase, d)
     else (Inr (), put_invites (invites d @ [v]) d))"

definition inv_GetByID :: "ctx \<Rightarrow> string \<Rightarrow> invite option action" where
  "inv_GetByID ctx i = query ctx (\<lambda>d. select1 (\<lambda>v. i_ID v = i) (invites d))"

definition GetByCode :: "ctx \<Rightarrow> string \<Rightarrow> invite option action" where
  "GetByCode ctx code = query ctx (\<lambda>d. select1 (\<lambda>v. i_Code v = code) (invites d))"

text \<open>\<open>ORDER BY created_at DESC LIMIT 1\<close>: a newest row, the first of them in the table's order.\<close>

fun newest_invite :: "invite list \<Rightarrow> invite option" where
  "newest_invite [] = None"
| "newest_invite (v # vs) = (case newest_invite vs of None \<Rightarrow> Some v
     | Some u \<Rightarrow> if i_CreatedAt v < i_CreatedAt u then Some u else Some v)"

definition inv_GetByEmail :: "ctx \<Rightarrow> string \<Rightarrow> invite option action" where
  "inv_GetByEmail ctx address = query ctx (\<lambda>d. newest_invite (filter (\<lambda>v. i_Email v = address) (invites d)))"

definition inv_Delete :: "ctx \<Rightarrow> string \<Rightarrow> unit action" where
  "inv_Delete ctx i = exec ctx (\<lambda>d. put_invites (delete_where (\<lambda>v. i_ID v = i) (invites d)) d)"

definition inv_Update :: "ctx \<Rightarrow> invite \<Rightarrow> unit action" where
  "inv_Update ctx v = stmt ctx (\<lambda>d.
     if list_ex (\<lambda>r. i_ID r = i_ID v) (invites d) \<and>
        (list_ex (\<lambda>r. i_ID r \<noteq> i_ID v \<and> i_Code r = i_Code v) (invites d) \<or> \<not> list_ex (user_id_is (i_CreatedBy v)) (users d))
     then (Inl ErrDatabase, d)
     else (Inr (), put_invites (update_where (\<lambda>r. i_ID r = i_ID v)
            (\<lambda>r. v\<lparr>i_ID := i_ID r, i_CreatedAt := i_CreatedAt r\<rparr>) (invites d)) d))"

text \<open>The guarded statements of an invitation's life.\<close>

definition resendable :: "invite \<Rightarrow> bool" where
  "resendable v \<longleftrightarrow> i_Status v = InvitePending \<or> i_Status v = InviteExpired"

definition invite_claim_guard :: "string \<Rightarrow> time \<Rightarrow> invite \<Rightarrow> bool" where
  "invite_claim_guard code t v \<longleftrightarrow> i_Code v = code \<and> i_Status v = InvitePending \<and> t < i_ExpiresAt v"

definition set_accepted :: "time \<Rightarrow> invite \<Rightarrow> invite" where
  "set_accepted t v = v\<lparr>i_Status := InviteAccepted, i_AcceptedAt := Some t\<rparr>"

definition inv_ClaimInvite :: "ctx \<Rightarrow> string \<Rightarrow> time \<Rightarrow> bool action" where
  "inv_ClaimInvite ctx code t = affected ctx invites put_invites (invite_claim_guard code t) (set_accepted t)"

definition inv_Revoke :: "ctx \<Rightarrow> string \<Rightarrow> bool action" where
  "inv_Revoke ctx i = affected ctx invites put_invites (\<lambda>v. i_ID v = i \<and> resendable v) (\<lambda>v. v\<lparr>i_Status := InviteRevoked\<rparr>)"

definition rotate_invite :: "string \<Rightarrow> time \<Rightarrow> invite \<Rightarrow> invite" where
  "rotate_invite newCode expiresAt v = v\<lparr>i_Code := newCode, i_ExpiresAt := expiresAt, i_Status := InvitePending\<rparr>"

text \<open>A new code that another row has violates the unique index.\<close>

definition RotateCode :: "ctx \<Rightarrow> string \<Rightarrow> string \<Rightarrow> string \<Rightarrow> time \<Rightarrow> bool action" where
  "RotateCode ctx i expectedCode newCode expiresAt = stmt ctx (\<lambda>d.
     let G = (\<lambda>v. i_ID v = i \<and> i_Code v = expectedCode \<and> resendable v) in
     if list_ex G (invites d) \<and> list_ex (\<lambda>v. i_ID v \<noteq> i \<and> i_Code v = newCode) (invites d) then (Inl ErrDatabase, d)
     else (Inr (0 < count_where G (invites d)), put_invites (update_where G (rotate_invite newCode expiresAt) (invites d)) d))"

section \<open>Lists\<close>

text \<open>\<open>InviteFilter\<close> without its page and order. \<open>likes\<close> is the pattern match of the database.\<close>

record invite_filter =
  if_Search :: "string option"
  if_Status :: "string option"

definition status_string :: "invite_status \<Rightarrow> string" where
  "status_string s = (case s of InvitePending \<Rightarrow> ''pending'' | InviteAccepted \<Rightarrow> ''accepted''
     | InviteRevoked \<Rightarrow> ''revoked'' | InviteExpired \<Rightarrow> ''expired'')"

text \<open>The rows the WHERE clause selects: \<open>expired\<close> is derived from the instant.\<close>

definition status_where :: "string \<Rightarrow> time \<Rightarrow> invite \<Rightarrow> bool" where
  "status_where s t v \<longleftrightarrow>
     (if s = ''expired'' then i_Status v = InviteExpired \<or> (i_Status v = InvitePending \<and> i_ExpiresAt v \<le> t)
      else if s = ''pending'' then i_Status v = InvitePending \<and> t < i_ExpiresAt v
      else status_string (i_Status v) = s)"

definition buildInviteWhere :: "(string \<Rightarrow> string \<Rightarrow> bool) \<Rightarrow> invite_filter \<Rightarrow> time \<Rightarrow> invite \<Rightarrow> bool" where
  "buildInviteWhere likes f t v \<longleftrightarrow>
     (case if_Search f of Some s \<Rightarrow> s = '''' \<or> likes s (i_Email v) | None \<Rightarrow> True) \<and>
     (case if_Status f of Some s \<Rightarrow> s = '''' \<or> status_where s t v | None \<Rightarrow> True)"

definition deriveInviteStatus :: "time \<Rightarrow> invite \<Rightarrow> invite" where
  "deriveInviteStatus t v = (if i_Status v = InvitePending \<and> i_ExpiresAt v < t then v\<lparr>i_Status := InviteExpired\<rparr> else v)"

definition inv_Count :: "(string \<Rightarrow> string \<Rightarrow> bool) \<Rightarrow> ctx \<Rightarrow> invite_filter \<Rightarrow> nat action" where
  "inv_Count likes ctx f = bnd now (\<lambda>t. query ctx (\<lambda>d. count_where (buildInviteWhere likes f t) (invites d)))"

section \<open>The service\<close>

text \<open>\<open>Config\<close> with the fields only this service reads.\<close>

record invite_service =
  iv_auth :: auth_service
  iv_InviteSignup :: bool
  iv_InviteTTL :: duration
  iv_BaseURL :: string

definition invite_requireOperation :: "ctx \<Rightarrow> string \<Rightarrow> unit action" where
  "invite_requireOperation ctx userID = requireAdminRole ctx userID"

definition invite_event :: "string \<Rightarrow> string \<Rightarrow> string \<Rightarrow> audit_event" where
  "invite_event typ actorID inviteID = \<lparr>e_Type = typ, e_Actor = actorID, e_Ref = inviteID\<rparr>"

definition GetInviteByToken :: "ctx \<Rightarrow> string \<Rightarrow> invite action" where
  "GetInviteByToken ctx rawToken =
     bnd (wrap ''get invite by token: lookup'' (GetByCode ctx (hashToken rawToken))) (\<lambda>found. case found of
       None \<Rightarrow> fail ErrInviteNotFound
     | Some v \<Rightarrow>
         if i_Status v \<noteq> InvitePending
         then (if i_Status v = InviteAccepted then fail ErrInviteAlreadyUsed
               else if i_Status v = InviteRevoked then fail ErrInviteRevoked
               else fail ErrInviteNotFound)
         else bnd now (\<lambda>t. if i_ExpiresAt v < t then fail ErrInviteExpired else ret v))"

text \<open>Rendering and sending the link, common to both senders.\<close>

definition send_invite :: "invite_service \<Rightarrow> ctx \<Rightarrow> string \<Rightarrow> string \<Rightarrow> unit action" where
  "send_invite svc ctx address raw =
     bnd (internal (Render (email address ''invite'' (iv_BaseURL svc @ ''/invite?token='' @ raw)))) (\<lambda>msg.
     bnd (attempt (send_mail ctx msg)) (\<lambda>s. case s of Inl e \<Rightarrow> fail ErrInviteEmailFailed | Inr _ \<Rightarrow> ret ()))"

definition new_invite :: "string \<Rightarrow> string \<Rightarrow> string \<Rightarrow> string \<Rightarrow> time \<Rightarrow> duration \<Rightarrow> invite" where
  "new_invite i address raw adminID t ttl =
     \<lparr>i_ID = i, i_Email = address, i_Code = hashToken raw, i_CreatedBy = adminID, i_Status = InvitePending,
      i_ExpiresAt = t + ttl, i_AcceptedAt = None, i_CreatedAt = t\<rparr>"

text \<open>A live invitation of the address.\<close>

definition live_invite :: "time \<Rightarrow> invite option \<Rightarrow> bool" where
  "live_invite t prev = (case prev of None \<Rightarrow> False | Some v \<Rightarrow> i_Status v = InvitePending \<and> t < i_ExpiresAt v)"

definition CreateInvite :: "invite_service \<Rightarrow> ctx \<Rightarrow> string \<Rightarrow> string \<Rightarrow> invite action" where
  "CreateInvite svc ctx adminID address0 =
     (let au = iv_auth svc; address = normalize_email au address0 in
      seq (invite_requireOperation ctx adminID)
      (if \<not> iv_InviteSignup svc then fail ErrMethodDisabled
       else if \<not> au_emailOK au address then fail ErrInvalidEmail
       else bnd (internal (GetByEmail ctx address)) (\<lambda>existing.
         if existing \<noteq> None then fail ErrEmailAlreadyExists
         else bnd (internal (inv_GetByEmail ctx address)) (\<lambda>prev. bnd now (\<lambda>t0.
           if live_invite t0 prev then fail ErrInviteAlreadyExists
           else if \<not> au_mailer au then fail ErrEmailNotConfigured
           else bnd (internal Generate) (\<lambda>raw. bnd now (\<lambda>t. bnd generateID (\<lambda>i.
             let v = new_invite i address raw adminID t (iv_InviteTTL svc) in
             bnd (attempt (inv_Create ctx v)) (\<lambda>r. case r of
               Inl e \<Rightarrow> fail (domain_error e)
             | Inr _ \<Rightarrow> seq (send_invite svc ctx address raw)
                 (seq (publish (au_audit au) ctx (invite_event ''admin.invite.created'' adminID i)) (ret v)))))))))))"

section \<open>Redeeming\<close>

definition invited_user :: "invite \<Rightarrow> string \<Rightarrow> string \<Rightarrow> nat option \<Rightarrow> string \<Rightarrow> bool \<Rightarrow> time \<Rightarrow> user" where
  "invited_user v i hash version name twoFactor t =
     (new_user i (i_Email v) hash version name twoFactor t)\<lparr>u_IsVerified := True\<rparr>"

definition createAccount :: "ctx \<Rightarrow> user \<Rightarrow> unit action" where
  "createAccount tx user = bnd (attempt (usr_Create tx user)) (\<lambda>r. case r of
     Inl e \<Rightarrow> fail (if errors_is e ErrDuplicateKey then ErrEmailAlreadyExists else e)
   | Inr _ \<Rightarrow> ret ())"

definition redeem_tx :: "auth_service \<Rightarrow> ctx \<Rightarrow> invite \<Rightarrow> user \<Rightarrow> unit action" where
  "redeem_tx svc tx v user =
     bnd now (\<lambda>t. bnd (inv_ClaimInvite tx (i_Code v) t) (\<lambda>claimed.
     if \<not> claimed then fail ErrInviteAlreadyUsed
     else seq (createAccount tx user)
              (publish (au_audit svc) tx (user_event ''user.registered'' (u_ID user)))))"

definition invite_session :: "auth_service \<Rightarrow> ctx \<Rightarrow> user \<Rightarrow> string \<Rightarrow> string \<Rightarrow> session_result action" where
  "invite_session svc ctx user ip userAgent = WithTx ctx (\<lambda>tx.
     bnd (lockPasswordIdentity (au_sqlite svc) tx user) (\<lambda>_. Create (au_sessions svc) tx (u_ID user) ip userAgent))"

text \<open>The end of \<open>CompleteInviteRegistration\<close>: a global second factor, else a session.\<close>

definition finish_invite :: "auth_service \<Rightarrow> ctx \<Rightarrow> user \<Rightarrow> string \<Rightarrow> string \<Rightarrow> register_result action" where
  "finish_invite svc ctx user ip userAgent =
     (if cf_RequireEmail2FA (au_config svc)
      then bnd (challengeWithPassword svc ctx user) (\<lambda>c. ret (RegisteredTwoFactor user c))
      else bnd (attempt (invite_session svc ctx user ip userAgent)) (\<lambda>r. case r of
             Inl e \<Rightarrow> fail (login_error e)
           | Inr res \<Rightarrow> ret (Registered user res)))"

definition CompleteInviteRegistration ::
  "invite_service \<Rightarrow> ctx \<Rightarrow> string \<Rightarrow> string \<Rightarrow> string \<Rightarrow> string \<Rightarrow> string \<Rightarrow> string \<Rightarrow> register_result action" where
  "CompleteInviteRegistration svc ctx code name0 password confirm ip userAgent =
     (let au = iv_auth svc; cf = au_config au; name = au_trim au name0 in
      if \<not> iv_InviteSignup svc \<or> \<not> cf_EmailPassword cf \<or> cf_PasswordAuthenticationDisabled cf then fail ErrMethodDisabled
      else bnd (wrap ''complete invite registration: lookup'' (GetByCode ctx (hashToken code))) (\<lambda>found. case found of
        None \<Rightarrow> fail ErrInviteNotFound
      | Some v \<Rightarrow>
          if i_Status v \<noteq> InvitePending then fail ErrInviteAlreadyUsed
          else bnd now (\<lambda>t0.
            if i_ExpiresAt v < t0 then fail ErrInviteExpired
            else if name = '''' then fail ErrNameRequired
            else if password \<noteq> confirm then fail (NewError ''password_mismatch'' ''Passwords do not match'')
            else seq (policy_check au password)
              (bnd (attempt (hash_work (au_hasher au) password)) (\<lambda>h. case h of
                Inl e \<Rightarrow> fail (passwordHashError e)
              | Inr (hash, version) \<Rightarrow>
                  bnd now (\<lambda>t. bnd generateID (\<lambda>i.
                  let user = invited_user v i hash version name (cf_DefaultTwoFactorEnabled cf) t in
                  bnd (attempt (WithTx ctx (\<lambda>tx. redeem_tx au tx v user))) (\<lambda>r. case r of
                    Inl e \<Rightarrow> fail (domain_error e)
                  | Inr _ \<Rightarrow> finish_invite au ctx user ip userAgent))))))))"

section \<open>Administration\<close>

definition HardDeleteInvite :: "invite_service \<Rightarrow> ctx \<Rightarrow> string \<Rightarrow> string \<Rightarrow> unit action" where
  "HardDeleteInvite svc ctx actorID inviteID =
     seq (invite_requireOperation ctx actorID)
     (bnd (wrap ''hard delete invite: lookup'' (inv_GetByID ctx inviteID)) (\<lambda>found. case found of
       None \<Rightarrow> fail ErrInviteNotFound
     | Some v \<Rightarrow> seq (internal (inv_Delete ctx inviteID))
         (publish (au_audit (iv_auth svc)) ctx (invite_event ''admin.invite.deleted'' actorID (i_ID v)))))"

definition RevokeInvite :: "invite_service \<Rightarrow> ctx \<Rightarrow> string \<Rightarrow> string \<Rightarrow> unit action" where
  "RevokeInvite svc ctx actorID inviteID =
     seq (invite_requireOperation ctx actorID)
     (bnd (wrap ''revoke invite: lookup'' (inv_GetByID ctx inviteID)) (\<lambda>found. case found of
       None \<Rightarrow> fail ErrInviteNotFound
     | Some v \<Rightarrow>
         if i_Status v = InviteRevoked then ret ()
         else bnd (attempt (WithTx ctx (\<lambda>tx.
           bnd (inv_Revoke tx inviteID) (\<lambda>changed.
           if \<not> changed then fail ErrInviteAlreadyUsed
           else publish (au_audit (iv_auth svc)) tx (invite_event ''admin.invite.revoked'' actorID (i_ID v)))))) (\<lambda>r. case r of
             Inl e \<Rightarrow> fail (domain_error e) | Inr _ \<Rightarrow> ret ())))"

definition ResendInviteEmail :: "invite_service \<Rightarrow> ctx \<Rightarrow> string \<Rightarrow> string \<Rightarrow> unit action" where
  "ResendInviteEmail svc ctx actorID inviteID =
     (let au = iv_auth svc in
      seq (invite_requireOperation ctx actorID)
      (bnd (wrap ''resend invite email: lookup'' (inv_GetByID ctx inviteID)) (\<lambda>found. case found of
        None \<Rightarrow> fail ErrInviteNotFound
      | Some v \<Rightarrow>
          if \<not> resendable v then fail ErrInviteAlreadyUsed
          else if \<not> au_mailer au then fail ErrEmailNotConfigured
          else bnd (internal Generate) (\<lambda>raw. bnd now (\<lambda>t.
            bnd (attempt (RotateCode ctx (i_ID v) (i_Code v) (hashToken raw) (t + iv_InviteTTL svc))) (\<lambda>r. case r of
              Inl e \<Rightarrow> fail (domain_error e)
            | Inr changed \<Rightarrow>
                if \<not> changed then fail ErrInviteAlreadyUsed
                else seq (send_invite svc ctx (i_Email v) raw)
                  (publish (au_audit au) ctx (invite_event ''admin.invite.resent'' actorID (i_ID v)))))))))"

section \<open>Bulk actions\<close>

record invite_failure =
  ivf_InviteID :: string
  ivf_Email :: string
  ivf_Code :: string
  ivf_Message :: string

record invite_result =
  ivr_Succeeded :: "string list"
  ivr_Failed :: "invite_failure list"

definition maxBulkInviteIDs :: nat where "maxBulkInviteIDs = 100"
definition maxBulkInviteEmails :: nat where "maxBulkInviteEmails = 25"

definition inviteFailure :: "string \<Rightarrow> string \<Rightarrow> go_err \<Rightarrow> invite_failure" where
  "inviteFailure i address e = (case as_auth e of
       Some ae \<Rightarrow> \<lparr>ivf_InviteID = i, ivf_Email = address, ivf_Code = err_code ae, ivf_Message = err_message ae\<rparr>
     | None \<Rightarrow> \<lparr>ivf_InviteID = i, ivf_Email = address, ivf_Code = ''internal_error'', ivf_Message = ''Something went wrong''\<rparr>)"

definition validateBulkIDs :: "string list \<Rightarrow> unit action" where
  "validateBulkIDs ids =
     (if ids = [] then fail ErrInviteIDsRequired
      else if maxBulkInviteIDs < length ids
      then fail (NewError ''invalid_input'' (''at most '' @ itoa_nat maxBulkInviteIDs @ '' inviteIds per bulk request''))
      else ret ())"

text \<open>The loop over the items, one after another; \<open>keyed\<close> says where a failure names its item.\<close>

fun invite_loop :: "(string \<Rightarrow> go_err \<Rightarrow> invite_failure) \<Rightarrow> (string \<Rightarrow> 'a action) \<Rightarrow> string list \<Rightarrow> invite_result \<Rightarrow> invite_result action" where
  "invite_loop keyed op [] res = ret res"
| "invite_loop keyed op (i # is) res = bnd (attempt (op i)) (\<lambda>r. case r of
     Inl e \<Rightarrow> invite_loop keyed op is (res\<lparr>ivr_Failed := ivr_Failed res @ [keyed i e]\<rparr>)
   | Inr _ \<Rightarrow> invite_loop keyed op is (res\<lparr>ivr_Succeeded := ivr_Succeeded res @ [i]\<rparr>))"

definition BulkRevokeInvites :: "invite_service \<Rightarrow> ctx \<Rightarrow> string \<Rightarrow> string list \<Rightarrow> invite_result action" where
  "BulkRevokeInvites svc ctx actorID ids =
     seq (invite_requireOperation ctx actorID) (seq (validateBulkIDs ids)
       (invite_loop (\<lambda>i. inviteFailure i '''') (RevokeInvite svc ctx actorID) ids \<lparr>ivr_Succeeded = [], ivr_Failed = []\<rparr>))"

definition BulkDeleteInvites :: "invite_service \<Rightarrow> ctx \<Rightarrow> string \<Rightarrow> string list \<Rightarrow> invite_result action" where
  "BulkDeleteInvites svc ctx actorID ids =
     seq (invite_requireOperation ctx actorID) (seq (validateBulkIDs ids)
       (invite_loop (\<lambda>i. inviteFailure i '''') (HardDeleteInvite svc ctx actorID) ids \<lparr>ivr_Succeeded = [], ivr_Failed = []\<rparr>))"

text \<open>The pool of workers collects the outcomes in the order of completion, which \<open>completion\<close> gives; what the
  other workers do in between are events of the schedule, and a send that runs out of time is a fault.\<close>

definition runBulkEmail ::
  "(string list \<Rightarrow> string list) \<Rightarrow> (string \<Rightarrow> go_err \<Rightarrow> invite_failure) \<Rightarrow> (string \<Rightarrow> 'a action) \<Rightarrow> string list \<Rightarrow> invite_result action" where
  "runBulkEmail completion keyed work items = invite_loop keyed work (completion items) \<lparr>ivr_Succeeded = [], ivr_Failed = []\<rparr>"

definition BulkSendInvites :: "invite_service \<Rightarrow> (string list \<Rightarrow> string list) \<Rightarrow> ctx \<Rightarrow> string \<Rightarrow> string list \<Rightarrow> invite_result action" where
  "BulkSendInvites svc completion ctx actorID addresses =
     seq (invite_requireOperation ctx actorID)
     (if addresses = [] then fail (NewError ''invalid_input'' ''emails must not be empty'')
      else if maxBulkInviteEmails < length addresses
      then fail (NewError ''invalid_input'' (''at most '' @ itoa_nat maxBulkInviteEmails @ '' emails per bulk request''))
      else runBulkEmail completion (inviteFailure '''') (CreateInvite svc ctx actorID) addresses)"

definition BulkResendInvites :: "invite_service \<Rightarrow> (string list \<Rightarrow> string list) \<Rightarrow> ctx \<Rightarrow> string \<Rightarrow> string list \<Rightarrow> invite_result action" where
  "BulkResendInvites svc completion ctx actorID ids =
     seq (invite_requireOperation ctx actorID)
     (if ids = [] then fail ErrInviteIDsRequired
      else if maxBulkInviteEmails < length ids
      then fail (NewError ''invalid_input'' (''at most '' @ itoa_nat maxBulkInviteEmails @ '' inviteIds per bulk resend''))
      else runBulkEmail completion (\<lambda>i. inviteFailure i '''') (ResendInviteEmail svc ctx actorID) ids)"

section \<open>What redeeming does\<close>

lemma invite_session_eq: "invite_session svc ctx u ip ua = createAuditedLoginSession svc ctx u ip ua None"
proof -
  have "bnd m (\<lambda>a. seq (ret ()) (ret a)) = m" for m :: "session_result action"
    by (rule ext) (simp add: effect_defs split: prod.split sum.split)
  then show ?thesis by (simp add: invite_session_def createAuditedLoginSession_def)
qed

text \<open>The invitation of the code was pending and unexpired and is used up; its code is good for nothing any more.\<close>

definition invite_used :: "string \<Rightarrow> tables \<Rightarrow> invite list \<Rightarrow> bool" where
  "invite_used h d vs \<longleftrightarrow> (\<exists>t. list_ex (invite_claim_guard h t) (invites d) \<and>
     vs = update_where (invite_claim_guard h t) (set_accepted t) (invites d)) \<and>
     (distinct (map i_Code (invites d)) \<longrightarrow> (\<forall>x \<in> set vs. i_Code x = h \<longrightarrow> i_Status x = InviteAccepted))"

text \<open>The account an invitation opens: that of the invited address, verified by the mailed code, without a role.\<close>

definition invited_account :: "invite \<Rightarrow> user \<Rightarrow> tables \<Rightarrow> bool" where
  "invited_account v u d \<longleftrightarrow> u_Email u = i_Email v \<and> u_Role u = ''user'' \<and> u_IsVerified u \<and> \<not> u_IsBanned u \<and> u_OrgOwnerCount u = 0 \<and>
     (\<forall>x \<in> set (users d). u_ID x \<noteq> u_ID u \<and> u_Email x \<noteq> u_Email u)"

definition invite_outcome :: "invite_service \<Rightarrow> string \<Rightarrow> string \<Rightarrow> tables \<Rightarrow> go_err + register_result \<Rightarrow> tables \<Rightarrow> bool" where
  "invite_outcome svc code password d r d' \<longleftrightarrow>
     (users d' = users d \<and> sessions d' = sessions d \<and> invites d' = invites d \<and> (\<exists>e. r = Inl e)) \<or>
     (\<exists>v \<in> set (invites d). \<exists>u. i_Code v = hashToken code \<and> invite_used (hashToken code) d (invites d') \<and>
        invited_account v u d \<and> users d' = users d @ [u] \<and>
        Validate (au_unicode (iv_auth svc)) (au_policy (iv_auth svc)) password = None \<and>
        (case r of
           Inr (Registered x res) \<Rightarrow> x = u \<and> sessions d' = sessions d @ [sr_Session res] \<and> session_for (u_ID u) False res \<and>
             \<not> cf_RequireEmail2FA (au_config (iv_auth svc))
         | _ \<Rightarrow> sessions d' = sessions d))"

lemma invite_usedI:
  assumes "list_ex (invite_claim_guard h t) (invites d)"
  shows "invite_used h d (update_where (invite_claim_guard h t) (set_accepted t) (invites d))"
proof -
  have "i_Status x = InviteAccepted"
    if dist: "distinct (map i_Code (invites d))" and x: "x \<in> set (update_where (invite_claim_guard h t) (set_accepted t) (invites d))" "i_Code x = h" for x
  proof -
    obtain r where r: "r \<in> set (invites d)" "invite_claim_guard h t r" using assms by (auto simp: list_ex_iff)
    obtain y where y: "y \<in> set (invites d)" "x = (if invite_claim_guard h t y then set_accepted t y else y)"
      using x(1) by (auto simp: set_update_where)
    with x(2) have "i_Code y = i_Code r" using r(2) by (auto simp: set_accepted_def invite_claim_guard_def split: if_splits)
    with dist y(1) r(1) have "y = r" by (metis distinct_map inj_onD)
    with r(2) y(2) show ?thesis by (simp add: set_accepted_def)
  qed
  with assms show ?thesis unfolding invite_used_def by blast
qed

lemma wp_inv_ClaimInvite:
  assumes "c_tx tx" and "\<And>e. Q (Inl e) d" and "Q (Inr False) d"
    and "list_ex (invite_claim_guard h t) (invites d) \<Longrightarrow>
      Q (Inr True) (put_invites (update_where (invite_claim_guard h t) (set_accepted t) (invites d)) d)"
  shows "wp (inv_ClaimInvite tx h t) Q d"
  unfolding inv_ClaimInvite_def
proof (rule wp_affected [OF assms(1)])
  have "\<not> list_ex (invite_claim_guard h t) (invites d) \<Longrightarrow>
      put_invites (update_where (invite_claim_guard h t) (set_accepted t) (invites d)) d = d"
    by (subst update_where_id) (auto simp: list_ex_iff put_invites_def)
  then show "Q (Inr (0 < count_where (invite_claim_guard h t) (invites d)))
      (put_invites (update_where (invite_claim_guard h t) (set_accepted t) (invites d)) d)"
    using assms(3,4) by (cases "list_ex (invite_claim_guard h t) (invites d)") (simp_all add: count_where_pos)
qed (rule assms(2))

lemma same_but_audit_invites: "same_but_audit a b \<Longrightarrow> invites b = invites a"
  and token_change_invites: "token_change a b \<Longrightarrow> invites b = invites a"
  by (auto simp: same_but_audit_def token_change_def put_tokens_def)

lemma wp_createAccount:
  assumes "c_tx tx" and "\<And>e. Q (Inl e) d"
    and "\<forall>x \<in> set (users d). u_ID x \<noteq> u_ID u \<and> u_Email x \<noteq> u_Email u \<Longrightarrow>
      Q (Inr ()) (put_users (users d @ [u\<lparr>u_BannedAt := None, u_LastLoginAt := None\<rparr>]) d)"
  shows "wp (createAccount tx u) Q d"
  unfolding createAccount_def usr_Create_def using assms
  by (auto intro!: wp_bnd wp_attempt wp_stmt wp_fail wp_ret simp: list_ex_iff split: if_splits sum.splits)

lemma rq_redeem:
  assumes "\<not> c_tx ctx" and "\<And>e. Q (Inl e) d"
    and "\<And>t d'. list_ex (invite_claim_guard (i_Code v) t) (invites d) \<Longrightarrow>
      \<forall>x \<in> set (users d). u_ID x \<noteq> u_ID u \<and> u_Email x \<noteq> u_Email u \<Longrightarrow>
      same_but_audit (put_users (users d @ [u\<lparr>u_BannedAt := None, u_LastLoginAt := None\<rparr>])
        (put_invites (update_where (invite_claim_guard (i_Code v) t) (set_accepted t) (invites d)) d)) d' \<Longrightarrow> Q (Inr ()) d'"
  shows "rq (WithTx ctx (\<lambda>tx. redeem_tx svc tx v u)) Q d"
  unfolding redeem_tx_def using assms(1,2)
  by (auto intro!: rq_WithTx wp_bnd wp_seq wp_now wp_inv_ClaimInvite wp_createAccount wp_fail wp_publish assms(3) split: sum.split)

lemma rq_finish_invite:
  assumes "\<not> c_tx ctx" and v: "v \<in> set (invites d)" "i_Code v = hashToken code"
    and u: "invited_account v u d" "Validate (au_unicode (iv_auth svc)) (au_policy (iv_auth svc)) p = None"
    and d1: "users d1 = users d @ [u]" "sessions d1 = sessions d" "invite_used (hashToken code) d (invites d1)"
  shows "rq (finish_invite (iv_auth svc) ctx u ip ua) (invite_outcome svc code p d) d1"
proof -
  have other: "invite_outcome svc code p d (Inl e) d'" "invite_outcome svc code p d (Inr (RegisteredTwoFactor u c)) d'"
    if "token_change d1 d'" for e c d'
    using v u d1 token_change_sel [OF that] token_change_invites [OF that] unfolding invite_outcome_def by auto
  have signed: "invite_outcome svc code p d (Inr (Registered u res)) d'"
    if "session_for (u_ID u) False res" "same_but_audit (put_sessions (sessions d1 @ [sr_Session res]) d1) d'"
      "\<not> cf_RequireEmail2FA (au_config (iv_auth svc))" for res d'
    using v u d1 same_but_audit_sel [OF that(2)] same_but_audit_invites [OF that(2)] that
    unfolding invite_outcome_def by (auto simp: put_sessions_def)
  show ?thesis
    unfolding finish_invite_def invite_session_eq challengeWithPassword_def
    by (auto intro!: rq_bnd rq_ret rq_fail rq_attempt rq_challenge rq_login_session assms(1) signed other split: sum.split)
qed

lemma rq_CompleteInviteRegistration:
  assumes "\<not> c_tx ctx"
  shows "rq (CompleteInviteRegistration svc ctx code name p cp ip ua) (invite_outcome svc code p d) d"
proof -
  have none: "invite_outcome svc code p d (Inl e) d" for e p by (auto simp: invite_outcome_def)
  have row: "v \<in> set (invites d) \<and> i_Code v = hashToken code" if "select1 (\<lambda>v. i_Code v = hashToken code) (invites d) = Some v" for v
    using select1_Some [OF that] by simp
  let ?u = "\<lambda>v i h n b t. invited_user v i h n (au_trim (iv_auth svc) name) b t"
  have fin: "rq (finish_invite (iv_auth svc) ctx (?u v i h n b t) ip ua) (invite_outcome svc code p d) d1"
    if "v \<in> set (invites d)" "i_Code v = hashToken code" "Validate (au_unicode (iv_auth svc)) (au_policy (iv_auth svc)) p = None"
      "list_ex (invite_claim_guard (hashToken code) t2) (invites d)"
      "\<forall>x \<in> set (users d). u_ID x \<noteq> u_ID (?u v i h n b t) \<and> u_Email x \<noteq> u_Email (?u v i h n b t)"
      "same_but_audit (put_users (users d @ [(?u v i h n b t)\<lparr>u_BannedAt := None, u_LastLoginAt := None\<rparr>])
        (put_invites (update_where (invite_claim_guard (hashToken code) t2) (set_accepted t2) (invites d)) d)) d1" for v i h n b t t2 d1 p
  proof (rule rq_finish_invite [OF assms that(1)])
    have eta: "(?u v i h n b t)\<lparr>u_BannedAt := None, u_LastLoginAt := None\<rparr> = ?u v i h n b t" by (simp add: invited_user_def new_user_def)
    show "invited_account v (?u v i h n b t) d" using that by (auto simp: invited_account_def invited_user_def new_user_def)
    show "users d1 = users d @ [?u v i h n b t]" "sessions d1 = sessions d" "invite_used (hashToken code) d (invites d1)"
      using same_but_audit_sel [OF that(6)] same_but_audit_invites [OF that(6)] invite_usedI [OF that(4)] that(2)
      by (simp_all add: eta put_users_def)
  qed (use that in simp_all)
  show ?thesis
    unfolding CompleteInviteRegistration_def Let_def GetByCode_def
    by (auto intro!: rq_bnd rq_seq rq_fail rq_wrap rq_query rq_attempt [of "hash_work _ _"] rq_works rq_now rq_policy_check none
        rq_attempt [of "WithTx _ _"] rq_redeem [OF assms] fin dest!: row split: option.split sum.split)
qed

text \<open>C24: an invitation opens one account. Redeeming one either fails and leaves accounts, sessions and
  invitations as they were, or the code was that of a pending, unexpired invitation, which is used up in the
  commit that adds the account of the invited address: verified, without a role, and the only one of that
  address; the request adds a session only where no second factor is required of everybody.\<close>

theorem invitation_opens_one_account:
  assumes "\<not> c_tx ctx" and "faults_only w" and "CompleteInviteRegistration svc ctx code name password confirm ip ua w = (r, w')"
  shows "invite_outcome svc code password (store w) r (store w')"
  using rqD [OF rq_CompleteInviteRegistration [OF assms(1)] assms(2,3)] by simp

section \<open>The status column and its filter\<close>

text \<open>The list shows the derived status, the filter and the counts use the clause: they agree except at the very
  instant an invitation expires, which the clause takes for expired and the list still shows as pending.\<close>

lemma status_filter_agrees:
  assumes "i_ExpiresAt v \<noteq> t"
  shows "status_where s t v \<longleftrightarrow> status_string (i_Status (deriveInviteStatus t v)) = s"
  using assms by (cases "i_Status v") (auto simp: status_where_def deriveInviteStatus_def status_string_def)

lemma status_filter_boundary:
  assumes "i_Status v = InvitePending"
  shows "status_where ''expired'' (i_ExpiresAt v) v \<and>
    status_string (i_Status (deriveInviteStatus (i_ExpiresAt v) v)) = ''pending''"
  using assms by (simp add: status_where_def deriveInviteStatus_def status_string_def)

section \<open>Witness\<close>

definition invite_service_ex :: invite_service where
  "invite_service_ex = \<lparr>iv_auth = auth_ex, iv_InviteSignup = True, iv_InviteTTL = hour, iv_BaseURL = ''https://x''\<rparr>"

definition invite_ex :: invite where
  "invite_ex = new_invite ''i1'' ''n@b.c'' ''raw'' ''u1'' 1 100"

definition invite_world_ex :: "tables world" where
  "invite_world_ex = \<lparr>store = (tables_of [admin_ex ''u1''] [])\<lparr>invites := [invite_ex]\<rparr>, sched = [], clock = 5, ticks = [],
     entropy = [Some ''salt'', Some ''u2'', Some ''st'', Some ''rt'', Some ''s1''], mailbox = []\<rparr>"

lemma invite_run_ex:
  "\<exists>u res w'. CompleteInviteRegistration invite_service_ex request_ctx ''raw'' ''N'' ''passw0rd'' ''passw0rd'' ''ip'' ''ua'' invite_world_ex =
     (Inr (Registered u res), w')"
proof -
  have ok: "Validate ascii_tables zero_policy ''passw0rd'' = None" by code_simp
  show ?thesis
    by (simp add: CompleteInviteRegistration_def invite_service_ex_def invite_world_ex_def invite_ex_def new_invite_def policy_check_def ok
        GetByCode_def redeem_tx_def inv_ClaimInvite_def affected_def invite_claim_guard_def set_accepted_def put_invites_def
        count_where_def update_where_def createAccount_def usr_Create_def invited_user_def new_user_def finish_invite_def
        invite_session_def generateID_def admin_ex_def login_run_simps)
qed

theorem invitation_opens_one_account_witness:
  "\<exists>u. users (store (snd (CompleteInviteRegistration invite_service_ex request_ctx ''raw'' ''N'' ''passw0rd'' ''passw0rd'' ''ip'' ''ua'' invite_world_ex)))
       = [admin_ex ''u1'', u] \<and> u_Email u = ''n@b.c'' \<and> u_IsVerified u"
proof -
  obtain u res w' where run: "CompleteInviteRegistration invite_service_ex request_ctx ''raw'' ''N'' ''passw0rd'' ''passw0rd'' ''ip'' ''ua''
      invite_world_ex = (Inr (Registered u res), w')" using invite_run_ex by blast
  have "faults_only invite_world_ex" "users (store invite_world_ex) = [admin_ex ''u1'']" "invites (store invite_world_ex) = [invite_ex]"
    by (simp_all add: invite_world_ex_def tables_of_def)
  with invitation_opens_one_account [OF _ _ run] run show ?thesis
    by (auto simp: invite_outcome_def invited_account_def invite_ex_def new_invite_def)
qed

end
