(* ===== verification/OrgInvites.thy ===== *)
theory OrgInvites
  imports Invites OrgProps
begin

text \<open>
  Organisation invitations in fixed-role mode: the repository at the end of \<open>internal/sqlstore/org_repo.go\<close>,
  \<open>internal/service/org_invite.go\<close> and \<open>org_invite_authorization.go\<close>. The granular permission variants
  (\<open>orgPermissions\<close> not nil) are not modelled; \<open>strings.EqualFold\<close> is the argument \<open>fold_eq\<close> of the service.
\<close>

section \<open>The repository\<close>

definition oi_Create :: "ctx \<Rightarrow> org_invite \<Rightarrow> unit action" where
  "oi_Create ctx v = stmt ctx (\<lambda>d.
     if list_ex (\<lambda>r. oi_ID r = oi_ID v \<or> oi_CodeHash r = oi_CodeHash v) (org_invites d) then (Inl ErrDatabase, d)
     else if \<not> list_ex (\<lambda>x. o_ID x = oi_OrgID v) (orgs d) \<or> \<not> list_ex (user_id_is (oi_InvitedBy v)) (users d) then (Inl ErrDatabase, d)
     else (Inr (), put_org_invites (org_invites d @ [v]) d))"

definition oi_GetByID :: "ctx \<Rightarrow> string \<Rightarrow> org_invite option action" where
  "oi_GetByID ctx i = query ctx (\<lambda>d. select1 (\<lambda>v. oi_ID v = i) (org_invites d))"

definition GetByCodeHash :: "ctx \<Rightarrow> string \<Rightarrow> org_invite option action" where
  "GetByCodeHash ctx h = query ctx (\<lambda>d. select1 (\<lambda>v. oi_CodeHash v = h) (org_invites d))"

definition oi_Update :: "ctx \<Rightarrow> org_invite \<Rightarrow> unit action" where
  "oi_Update ctx v = stmt ctx (\<lambda>d.
     if list_ex (\<lambda>r. oi_ID r = oi_ID v) (org_invites d) \<and> list_ex (\<lambda>r. oi_ID r \<noteq> oi_ID v \<and> oi_CodeHash r = oi_CodeHash v) (org_invites d)
     then (Inl ErrDatabase, d)
     else (Inr (), put_org_invites (update_where (\<lambda>r. oi_ID r = oi_ID v)
            (\<lambda>r. r\<lparr>oi_CodeHash := oi_CodeHash v, oi_ExpiresAt := oi_ExpiresAt v\<rparr>) (org_invites d)) d))"

definition oi_Delete :: "ctx \<Rightarrow> string \<Rightarrow> unit action" where
  "oi_Delete ctx i = exec ctx (\<lambda>d. put_org_invites (delete_where (\<lambda>v. oi_ID v = i) (org_invites d)) d)"

text \<open>Claiming an invitation deletes its row.\<close>

definition oi_claim_guard :: "string \<Rightarrow> string \<Rightarrow> time \<Rightarrow> org_invite \<Rightarrow> bool" where
  "oi_claim_guard i h t v \<longleftrightarrow> oi_ID v = i \<and> oi_CodeHash v = h \<and> t < oi_ExpiresAt v"

definition oi_ClaimInvite :: "ctx \<Rightarrow> string \<Rightarrow> string \<Rightarrow> bool action" where
  "oi_ClaimInvite ctx i h = bnd now (\<lambda>t. stmt ctx (\<lambda>d.
     (Inr (0 < count_where (oi_claim_guard i h t) (org_invites d)),
      put_org_invites (delete_where (oi_claim_guard i h t) (org_invites d)) d)))"

section \<open>The service\<close>

record org_invite_service =
  oi_orgs :: org_service
  oi_auth :: auth_service
  oi_inviteTTL :: duration
  oi_baseURL :: string
  oi_fold_eq :: "string \<Rightarrow> string \<Rightarrow> bool"

definition withFixedInviteMutation :: "org_invite_service \<Rightarrow> ctx \<Rightarrow> (ctx \<Rightarrow> 'a action) \<Rightarrow> 'a action" where
  "withFixedInviteMutation svc ctx fn = WithTx ctx (\<lambda>tx. WithAdminGuard (os_sqlite (oi_orgs svc)) tx fn)"

text \<open>The issuer of an invitation must still be entitled to it when it is written or redeemed.\<close>

definition requireFixedInviteAuthority :: "org_invite_service \<Rightarrow> ctx \<Rightarrow> string \<Rightarrow> string \<Rightarrow> org_role \<Rightarrow> unit action" where
  "requireFixedInviteAuthority svc tx orgID actorID role =
     (if actorID = '''' then fail ErrOrgForbidden
      else bnd (wrap ''loading fixed invitation issuer'' (GetByIDForUpdate (os_sqlite (oi_orgs svc)) tx actorID)) (\<lambda>u. case u of
        None \<Rightarrow> fail ErrOrgForbidden
      | Some user \<Rightarrow>
          if u_IsBanned user then fail ErrOrgForbidden
          else bnd (LockMembership (os_sqlite (oi_orgs svc)) tx orgID actorID) (\<lambda>m. case m of
            None \<Rightarrow> fail ErrOrgForbidden
          | Some mem \<Rightarrow> reject_if (Weight (m_Role mem) < Weight OrgAdmin \<or> (role = Owner \<and> m_Role mem \<noteq> Owner)) ErrOrgForbidden)))"

text \<open>A failed lookup of the organisation does not stop the message.\<close>

definition sendOrgInviteEmail :: "org_invite_service \<Rightarrow> ctx \<Rightarrow> org_invite \<Rightarrow> string \<Rightarrow> unit action" where
  "sendOrgInviteEmail svc ctx v raw =
     (if \<not> au_mailer (oi_auth svc) then ret ()
      else bnd (attempt (org_GetByID ctx (oi_OrgID v))) (\<lambda>_.
        bnd (wrap ''render org invite template''
              (Render (email (oi_Email v) ''org_invite'' (oi_baseURL svc @ ''/invite?token='' @ raw)))) (\<lambda>msg.
        send_mail ctx msg)))"

definition deliver_org_invite :: "org_invite_service \<Rightarrow> ctx \<Rightarrow> org_invite \<Rightarrow> string \<Rightarrow> unit action" where
  "deliver_org_invite svc ctx v raw = bnd (attempt (sendOrgInviteEmail svc ctx v raw)) (\<lambda>r. case r of
     Inl e \<Rightarrow> fail ErrInviteEmailFailed | Inr _ \<Rightarrow> ret ())"

definition new_org_invite :: "string \<Rightarrow> string \<Rightarrow> string \<Rightarrow> org_role \<Rightarrow> string \<Rightarrow> string \<Rightarrow> time \<Rightarrow> duration \<Rightarrow> org_invite" where
  "new_org_invite i orgID address role raw invitedBy t ttl =
     \<lparr>oi_ID = i, oi_OrgID = orgID, oi_Email = address, oi_Role = role, oi_CodeHash = hashToken raw, oi_InvitedBy = invitedBy,
      oi_ExpiresAt = t + ttl, oi_CreatedAt = t\<rparr>"

definition CreateOrgInvite :: "org_invite_service \<Rightarrow> ctx \<Rightarrow> string \<Rightarrow> string \<Rightarrow> string \<Rightarrow> string \<Rightarrow> org_invite action" where
  "CreateOrgInvite svc ctx orgID address role0 invitedBy =
     (case org_role_of role0 of
        None \<Rightarrow> fail ErrInvalidOrgRole
      | Some role \<Rightarrow>
          if oi_inviteTTL svc \<le> 0 then fail (NewError ''internal_error'' ''Organization invites are not configured'')
          else bnd (GetMembership ctx orgID invitedBy) (\<lambda>m. case m of
            None \<Rightarrow> fail ErrOrgForbidden
          | Some actor \<Rightarrow>
              if Weight (m_Role actor) < Weight OrgAdmin then fail ErrOrgForbidden
              else if role = Owner \<and> m_Role actor \<noteq> Owner then fail ErrOrgForbidden
              else if \<not> au_mailer (oi_auth svc) then fail ErrEmailNotConfigured
              else bnd (internal Generate) (\<lambda>raw. bnd now (\<lambda>t. bnd generateID (\<lambda>i.
                let v = new_org_invite i orgID (au_lower (oi_auth svc) (au_trim (oi_auth svc) address)) role raw invitedBy t (oi_inviteTTL svc) in
                seq (withFixedInviteMutation svc ctx (\<lambda>tx.
                       seq (requireFixedInviteAuthority svc tx orgID invitedBy role) (oi_Create tx v)))
                (seq (deliver_org_invite svc ctx v raw) (ret v)))))))"

section \<open>Accepting\<close>

definition join_invited :: "org_invite_service \<Rightarrow> ctx \<Rightarrow> string \<Rightarrow> org_invite \<Rightarrow> unit action" where
  "join_invited svc tx userID v =
     seq (run_if (oi_Role v = Owner)
            (seq (IncrementUserOrgOwnerCount tx userID (os_maxOrgs (oi_orgs svc))) (IncrementOrgOwnerCount tx (oi_OrgID v))))
     (seq (IncrementOrgMemberCount tx (oi_OrgID v) 10000)
     (bnd now (\<lambda>t.
      seq (repo_AddMember tx \<lparr>m_OrgID = oi_OrgID v, m_UserID = userID, m_Role = oi_Role v, m_JoinedAt = t\<rparr>)
          (publish (os_audit (oi_orgs svc)) tx (org_event ''organization.member.invited'' userID (oi_OrgID v))))))"

definition accept_tx :: "org_invite_service \<Rightarrow> ctx \<Rightarrow> string \<Rightarrow> org_invite \<Rightarrow> string \<Rightarrow> unit action" where
  "accept_tx svc tx userID v h =
     bnd (GetByIDForUpdate (os_sqlite (oi_orgs svc)) tx userID) (\<lambda>c. case c of
       None \<Rightarrow> fail ErrForbidden
     | Some cur \<Rightarrow>
         if u_IsBanned cur then fail ErrForbidden
         else if \<not> oi_fold_eq svc (u_Email cur) (oi_Email v) then fail ErrOrgInviteEmailMismatch
         else seq (requireFixedInviteAuthority svc tx (oi_OrgID v) (oi_InvitedBy v) (oi_Role v))
           (bnd (oi_ClaimInvite tx (oi_ID v) h) (\<lambda>claimed.
            if \<not> claimed then fail ErrOrgInviteExpired else join_invited svc tx userID v)))"

definition AcceptInvite :: "org_invite_service \<Rightarrow> ctx \<Rightarrow> string \<Rightarrow> string \<Rightarrow> unit action" where
  "AcceptInvite svc ctx userID rawCode =
     bnd (wrap ''accept invite: lookup'' (usr_GetByID ctx userID)) (\<lambda>u. case u of
       None \<Rightarrow> fail ErrForbidden
     | Some user \<Rightarrow>
         bnd (wrap ''accept invite: lookup'' (GetByCodeHash ctx (hashToken rawCode))) (\<lambda>found. case found of
           None \<Rightarrow> fail ErrOrgInviteExpired
         | Some v \<Rightarrow>
             if \<not> oi_fold_eq svc (u_Email user) (oi_Email v) then fail ErrOrgInviteEmailMismatch
             else withFixedInviteMutation svc ctx (\<lambda>tx. accept_tx svc tx userID v (hashToken rawCode))))"

section \<open>Deleting and resending\<close>

definition oi_requireRole :: "ctx \<Rightarrow> string \<Rightarrow> string \<Rightarrow> org_role \<Rightarrow> unit action" where
  "oi_requireRole ctx orgID actorID minimum =
     (if actorID = '''' then fail ErrForbidden
      else bnd (GetMembership ctx orgID actorID) (\<lambda>m. case m of
        None \<Rightarrow> fail ErrOrgMemberNotFound
      | Some mem \<Rightarrow> reject_if (Weight (m_Role mem) < Weight minimum) ErrOrgForbidden))"

definition DeleteOrgInvite :: "ctx \<Rightarrow> string \<Rightarrow> string \<Rightarrow> string \<Rightarrow> unit action" where
  "DeleteOrgInvite ctx orgID inviteID actorID =
     seq (oi_requireRole ctx orgID actorID OrgAdmin)
     (bnd (oi_GetByID ctx inviteID) (\<lambda>found. case found of
       None \<Rightarrow> fail ErrInviteNotFound
     | Some v \<Rightarrow> if oi_OrgID v \<noteq> orgID then fail ErrInviteNotFound else oi_Delete ctx inviteID))"

definition renew_tx :: "org_invite_service \<Rightarrow> ctx \<Rightarrow> string \<Rightarrow> string \<Rightarrow> string \<Rightarrow> string \<Rightarrow> org_invite action" where
  "renew_tx svc tx orgID inviteID actorID raw =
     bnd (oi_GetByID tx inviteID) (\<lambda>found. case found of
       None \<Rightarrow> fail ErrInviteNotFound
     | Some cur \<Rightarrow>
         if oi_OrgID cur \<noteq> orgID then fail ErrInviteNotFound
         else seq (requireFixedInviteAuthority svc tx orgID actorID (oi_Role cur))
           (seq (requireFixedInviteAuthority svc tx orgID (oi_InvitedBy cur) (oi_Role cur))
           (bnd now (\<lambda>t.
            let updated = cur\<lparr>oi_CodeHash := hashToken raw, oi_ExpiresAt := t + oi_inviteTTL svc\<rparr> in
            seq (oi_Update tx updated) (ret updated)))))"

definition ResendOrgInviteEmail :: "org_invite_service \<Rightarrow> ctx \<Rightarrow> string \<Rightarrow> string \<Rightarrow> string \<Rightarrow> unit action" where
  "ResendOrgInviteEmail svc ctx orgID inviteID actorID =
     seq (oi_requireRole ctx orgID actorID OrgAdmin)
     (bnd (oi_GetByID ctx inviteID) (\<lambda>found. case found of
       None \<Rightarrow> fail ErrInviteNotFound
     | Some v \<Rightarrow>
         if oi_OrgID v \<noteq> orgID then fail ErrInviteNotFound
         else if \<not> au_mailer (oi_auth svc) then fail ErrEmailNotConfigured
         else bnd (internal Generate) (\<lambda>raw.
           bnd (withFixedInviteMutation svc ctx (\<lambda>tx. renew_tx svc tx orgID inviteID actorID raw)) (\<lambda>updated.
           deliver_org_invite svc ctx updated raw))))"

section \<open>What accepting does\<close>

lemma wp_conj: "wp m P d \<Longrightarrow> wp m Q d \<Longrightarrow> wp m (\<lambda>r d'. P r d' \<and> Q r d') d"
  unfolding wp_def tx_hoare_def by blast

lemma spec_join:
  assumes tx: "c_tx tx" and err: "\<And>e d'. Q (Inl e) d'" and ok: "\<And>d'. added (oi_OrgID v) u (oi_Role v) d d' \<Longrightarrow> Q (Inr ()) d'"
  shows "wp (join_invited svc tx u v) Q d"
proof -
  have ok': "wp (publish a tx ev) Q (put_members (members d1 @ [\<lparr>m_OrgID = oi_OrgID v, m_UserID = u, m_Role = oi_Role v, m_JoinedAt = t\<rparr>]) d1)"
    if "counters_only d d1" "\<not> list_ex (is_member (oi_OrgID v) u) (members d1)" for d1 t a ev
    using that by (intro framed_cases [OF framed_publish [OF tx]] err ok) (auto simp: counters_only_def added_def)
  show ?thesis
    unfolding join_invited_def repo_AddMember_def guardAndIncrementOwnerCount_def [symmetric] using tx err
    by (intro wp_add_frame) (auto intro!: wp_bnd wp_seq wp_now wp_stmt ok' split: sum.split if_splits)
qed

lemma inv_join:
  assumes tx: "c_tx tx" and inv: "org_inv d"
  shows "wp (join_invited svc tx u v) org_post d"
proof -
  let ?b = "owner_bit (oi_Role v)" and ?i = "oi_OrgID v"
  have fresh: "org_inv (put_members (members d @ [\<lparr>m_OrgID = ?i, m_UserID = u, m_Role = oi_Role v, m_JoinedAt = t\<rparr>])
      (shift (pt ?i ?b) (pt ?i 1) (pt u ?b) d))"
    if "\<not> list_ex (is_member ?i u) (members d)" "\<exists>x \<in> set (orgs d). o_ID x = ?i" "\<exists>x \<in> set (users d). u_ID x = u" for t
    using org_inv_add [OF inv, of "\<lparr>m_OrgID = ?i, m_UserID = u, m_Role = oi_Role v, m_JoinedAt = t\<rparr>"] that by force
  have fin: "wp (bnd now (\<lambda>t. seq (repo_AddMember tx \<lparr>m_OrgID = ?i, m_UserID = u, m_Role = oi_Role v, m_JoinedAt = t\<rparr>) (publish a tx ev)))
      org_post (shift (pt ?i ?b) (pt ?i 1) (pt u ?b) d)" for a ev
    unfolding repo_AddMember_def using tx
    apply (auto intro!: wp_bnd wp_seq wp_now wp_stmt split: sum.split if_splits)
    subgoal for t
      using fresh [of t] by (intro wp_publish_org tx) (auto simp: list_ex_iff shift_def)
    done
  show ?thesis
    unfolding join_invited_def
    using tx fin org_inv_distinct [OF inv]
    by (cases "oi_Role v = Owner")
      (auto intro!: wp_seq wp_run_if wp_IncrementUserOwner wp_IncrementOrgOwner wp_IncrementOrgMember
        split: sum.split simp: owner_bit_def)
qed

lemma same_org_invites:
  assumes "c_tx tx"
  shows "wp (join_invited svc tx u v) (\<lambda>r d'. org_invites d' = org_invites d) d"
proof -
  have sel: "org_invites (put_users us d) = org_invites d" "org_invites (put_orgs os d) = org_invites d"
    "org_invites (put_members ms d) = org_invites d" for us os ms d
    by (simp_all add: put_users_def put_orgs_def put_members_def)
  have pub: "wp (publish a tx ev) (\<lambda>r d'. org_invites d' = org_invites d) d1" if "org_invites d1 = org_invites d" for a ev d1
    using assms that by (intro wp_publish_errs) (auto simp: same_but_audit_def)
  show ?thesis
    unfolding join_invited_def IncrementUserOrgOwnerCount_def IncrementOrgOwnerCount_def IncrementOrgMemberCount_def guarded_def
      affected_def repo_AddMember_def
    using assms by (auto intro!: wp_bnd wp_seq wp_run_if wp_stmt wp_exec wp_now wp_ret wp_fail pub simp: sel split: sum.split if_splits)
qed

text \<open>The issuer is a member who may still give that role.\<close>

definition may_invite :: "string \<Rightarrow> string \<Rightarrow> org_role \<Rightarrow> tables \<Rightarrow> bool" where
  "may_invite i actorID role d \<longleftrightarrow>
     (\<exists>x \<in> set (users d). u_ID x = actorID \<and> \<not> u_IsBanned x) \<and>
     (\<exists>m \<in> set (members d). m_OrgID m = i \<and> m_UserID m = actorID \<and> m_Role m \<noteq> Member \<and> (role = Owner \<longrightarrow> m_Role m = Owner))"

lemma wp_authority:
  assumes "c_tx tx" and "\<And>e. Q (Inl e) d" and "may_invite i actorID role d \<Longrightarrow> Q (Inr ()) d"
  shows "wp (requireFixedInviteAuthority svc tx i actorID role) Q d"
proof -
  have w: "Weight r < Weight OrgAdmin \<longleftrightarrow> r = Member" for r by (cases r) simp_all
  have ok: "Q (Inr ()) d" if "select1 (user_id_is actorID) (users d) = Some x" "\<not> u_IsBanned x"
    "select1 (is_member i actorID) (members d) = Some m" "m_Role m \<noteq> Member" "role = Owner \<longrightarrow> m_Role m = Owner" for x m
    using select_user [OF that(1)] select_member [OF that(3)] that by (intro assms(3)) (auto simp: may_invite_def)
  show ?thesis
    unfolding requireFixedInviteAuthority_def w
    by (auto intro!: ok assms(1,2) wp_bnd wp_wrap wp_GetByIDForUpdate wp_LockMembership wp_fail wp_reject_if split: option.split sum.split)
qed

text \<open>The invitation of the code is addressed to the user, unexpired, and gone afterwards; its issuer still had
  the authority; the user is a member with exactly the role it names, and was none before.\<close>

definition invite_joined :: "org_invite_service \<Rightarrow> string \<Rightarrow> org_invite \<Rightarrow> tables \<Rightarrow> tables \<Rightarrow> bool" where
  "invite_joined svc userID v d d' \<longleftrightarrow>
     (\<exists>u \<in> set (users d). u_ID u = userID \<and> \<not> u_IsBanned u \<and> oi_fold_eq svc (u_Email u) (oi_Email v)) \<and>
     may_invite (oi_OrgID v) (oi_InvitedBy v) (oi_Role v) d \<and> added (oi_OrgID v) userID (oi_Role v) d d' \<and>
     (\<exists>t. list_ex (oi_claim_guard (oi_ID v) (oi_CodeHash v) t) (org_invites d) \<and>
        org_invites d' = delete_where (oi_claim_guard (oi_ID v) (oi_CodeHash v) t) (org_invites d)) \<and>
     (org_inv d \<longrightarrow> org_inv d')"

lemma wp_join:
  assumes tx: "c_tx tx" and err: "\<And>e d'. Q (Inl e) d'"
    and ok: "\<And>d'. added (oi_OrgID v) u (oi_Role v) d d' \<Longrightarrow> org_invites d' = org_invites d \<Longrightarrow> (org_inv d \<longrightarrow> org_inv d') \<Longrightarrow> Q (Inr ()) d'"
  shows "wp (join_invited svc tx u v) Q d"
proof -
  have "wp (join_invited svc tx u v) (\<lambda>r d'. (case r of Inl e \<Rightarrow> True | Inr _ \<Rightarrow> added (oi_OrgID v) u (oi_Role v) d d') \<and>
      org_invites d' = org_invites d \<and> (case r of Inl e \<Rightarrow> True | Inr _ \<Rightarrow> org_inv d \<longrightarrow> org_inv d')) d"
  proof (intro wp_conj same_org_invites [OF tx])
    show "wp (join_invited svc tx u v) (\<lambda>r d'. case r of Inl e \<Rightarrow> True | Inr _ \<Rightarrow> added (oi_OrgID v) u (oi_Role v) d d') d"
      by (rule spec_join [OF tx]) auto
    show "wp (join_invited svc tx u v) (\<lambda>r d'. case r of Inl e \<Rightarrow> True | Inr _ \<Rightarrow> org_inv d \<longrightarrow> org_inv d') d"
    proof (cases "org_inv d")
      case True
      then show ?thesis by (rule wp_conseq [OF inv_join [OF tx]]) (auto split: sum.split)
    next
      case False
      then show ?thesis by (intro spec_join [OF tx]) auto
    qed
  qed
  then show ?thesis by (rule wp_conseq) (auto intro: err ok split: sum.splits)
qed

lemma wp_oi_ClaimInvite:
  assumes "c_tx tx" and "\<And>e. Q (Inl e) d" and "\<And>d'. Q (Inr False) d'"
    and "\<And>t. list_ex (oi_claim_guard i h t) (org_invites d) \<Longrightarrow>
      Q (Inr True) (put_org_invites (delete_where (oi_claim_guard i h t) (org_invites d)) d)"
  shows "wp (oi_ClaimInvite tx i h) Q d"
proof -
  have "Q (Inr (0 < count_where (oi_claim_guard i h t) (org_invites d))) (put_org_invites (delete_where (oi_claim_guard i h t) (org_invites d)) d)"
    for t using assms(3,4) by (cases "list_ex (oi_claim_guard i h t) (org_invites d)") (simp_all add: count_where_pos)
  with assms(1,2) show ?thesis unfolding oi_ClaimInvite_def by (auto intro!: wp_bnd wp_now wp_stmt)
qed

lemma wp_accept_tx:
  assumes tx: "c_tx tx" and err: "\<And>e d'. Q (Inl e) d'" and ok: "\<And>d'. invite_joined svc u v d d' \<Longrightarrow> Q (Inr ()) d'"
  shows "wp (accept_tx svc tx u v (oi_CodeHash v)) Q d"
proof -
  have fin: "wp (join_invited svc tx u v) Q (put_org_invites (delete_where (oi_claim_guard (oi_ID v) (oi_CodeHash v) t) (org_invites d)) d)"
    if "list_ex (oi_claim_guard (oi_ID v) (oi_CodeHash v) t) (org_invites d)" "may_invite (oi_OrgID v) (oi_InvitedBy v) (oi_Role v) d"
      "x \<in> set (users d)" "user_id_is u x" "\<not> u_IsBanned x" "oi_fold_eq svc (u_Email x) (oi_Email v)" for t x
    using that by (intro wp_join [OF tx] err ok) (auto simp: invite_joined_def added_def user_id_is_def)
  show ?thesis
    unfolding accept_tx_def
    by (auto intro!: wp_bnd wp_seq wp_fail wp_GetByIDForUpdate wp_authority wp_oi_ClaimInvite tx err dest!: select1_Some split: option.split)
      (rule fin; assumption)
qed

lemma rq_AcceptInvite:
  assumes "\<not> c_tx ctx" and "\<not> c_guard ctx" and err: "\<And>e. Q (Inl e) d"
    and ok: "\<And>v d'. v \<in> set (org_invites d) \<Longrightarrow> oi_CodeHash v = hashToken raw \<Longrightarrow> invite_joined svc u v d d' \<Longrightarrow> Q (Inr ()) d'"
  shows "rq (AcceptInvite svc ctx u raw) Q d"
proof -
  have row: "v \<in> set (org_invites d) \<and> oi_CodeHash v = hashToken raw"
    if "select1 (\<lambda>v. oi_CodeHash v = hashToken raw) (org_invites d) = Some v" for v
    using select1_Some [OF that] by simp
  have run: "rq (withFixedInviteMutation svc ctx (\<lambda>tx. accept_tx svc tx u v (hashToken raw))) Q d"
    if "v \<in> set (org_invites d)" "oi_CodeHash v = hashToken raw" for v
    unfolding withFixedInviteMutation_def that(2) [symmetric]
    using assms(1,2) err ok [OF that] by (intro rq_WithTx wp_WithAdminGuard wp_accept_tx) auto
  show ?thesis
    unfolding AcceptInvite_def GetByCodeHash_def usr_GetByID_def
    by (auto intro!: rq_bnd rq_wrap rq_query rq_fail run err dest!: row split: option.split sum.split)
qed

text \<open>C25: an invitation to an organisation makes one member. Accepting one either fails and changes nothing,
  or the code was that of an unexpired invitation to the accepting user's address, whose issuer is not banned
  and still holds the role that entitles to it; in one commit the invitation is gone and the user, who was no
  member, is one with the role it names, and the counters of the organisation stay exact.\<close>

theorem invitation_makes_one_member:
  assumes "\<not> c_tx ctx" and "\<not> c_guard ctx" and "faults_only w" and "AcceptInvite svc ctx userID raw w = (r, w')"
  shows "case r of Inl e \<Rightarrow> store w' = store w
    | Inr _ \<Rightarrow> \<exists>v \<in> set (org_invites (store w)). oi_CodeHash v = hashToken raw \<and> invite_joined svc userID v (store w) (store w')"
  by (rule conjunct1 [OF rqD [OF rq_AcceptInvite [OF assms(1,2)] assms(3,4)]]) auto

section \<open>Witness\<close>

definition oi_service_ex :: org_invite_service where
  "oi_service_ex = \<lparr>oi_orgs = NewOrgService 5 None False, oi_auth = auth_ex, oi_inviteTTL = hour, oi_baseURL = ''https://x'', oi_fold_eq = (=)\<rparr>"

definition oi_world_ex :: "tables world" where
  "oi_world_ex = \<lparr>store = (tables_of [user_ex\<lparr>u_ID := ''u1'', u_Email := ''o@b.c'', u_OrgOwnerCount := 1\<rparr>, user_ex\<lparr>u_ID := ''u2''\<rparr>] [])
       \<lparr>orgs := [\<lparr>o_ID = ''o1'', o_Name = ''O'', o_Slug = ''o'', o_CreatedBy = Some ''u1'', o_OwnerCount = 1, o_MemberCount = 1,
                 o_CreatedAt = 1, o_UpdatedAt = 1\<rparr>],
        members := [\<lparr>m_OrgID = ''o1'', m_UserID = ''u1'', m_Role = Owner, m_JoinedAt = 1\<rparr>],
        org_invites := [new_org_invite ''v1'' ''o1'' ''a@b.c'' Owner ''raw'' ''u1'' 1 100]\<rparr>,
     sched = [], clock = 5, ticks = [], entropy = [], mailbox = []\<rparr>"

lemma accept_run_ex:
  "\<exists>w'. AcceptInvite oi_service_ex request_ctx ''u2'' ''raw'' oi_world_ex = (Inr (), w') \<and>
     map (\<lambda>m. (m_UserID m, m_Role m)) (members (store w')) = [(''u1'', Owner), (''u2'', Owner)] \<and>
     map o_OwnerCount (orgs (store w')) = [2] \<and> org_invites (store w') = []"
  by (simp add: AcceptInvite_def oi_service_ex_def oi_world_ex_def NewOrgService_def resolveMaxOrgsPerUser_def GetByCodeHash_def usr_GetByID_def
      withFixedInviteMutation_def WithAdminGuard_def new_org_invite_def accept_tx_def requireFixedInviteAuthority_def
      LockMembership_def GetMembership_def oi_ClaimInvite_def oi_claim_guard_def delete_where_def put_org_invites_def join_invited_def
      IncrementUserOrgOwnerCount_def IncrementOrgOwnerCount_def IncrementOrgMemberCount_def guarded_def affected_def count_where_def
      update_where_def add_owned_def add_owners_def add_members_def put_users_def put_orgs_def put_members_def repo_AddMember_def
      is_member_def login_run_simps)

theorem invitation_makes_one_member_witness:
  "\<exists>v \<in> set (org_invites (store oi_world_ex)). invite_joined oi_service_ex ''u2'' v (store oi_world_ex)
     (store (snd (AcceptInvite oi_service_ex request_ctx ''u2'' ''raw'' oi_world_ex)))"
proof -
  obtain w' where run: "AcceptInvite oi_service_ex request_ctx ''u2'' ''raw'' oi_world_ex = (Inr (), w')" using accept_run_ex by blast
  have "faults_only oi_world_ex" by (simp add: oi_world_ex_def)
  with invitation_makes_one_member [OF _ _ _ run] run show ?thesis by auto
qed

end
