(* ===== verification/Rebind.thy ===== *)
theory Rebind
  imports Main "HOL-Library.While_Combinator"
begin

text \<open>
  \<open>rebindQuery\<close> of \<open>internal/sqlstore/db.go\<close>: the scan that turns the numbered placeholders of a statement
  into \<open>?\<close> for MySQL and SQLite, outside quoted text. The loop is the \<open>while_option\<close> of its body over the
  position, the quoting state and the builder, so that its termination is a theorem.
\<close>

abbreviation quote_char :: char where
  "quote_char \<equiv> CHR 0x27"

definition is_digit :: "char \<Rightarrow> bool" where
  "is_digit c \<longleftrightarrow> c \<in> set ''0123456789''"

definition digit_1_9 :: "char \<Rightarrow> bool" where
  "digit_1_9 c \<longleftrightarrow> c \<in> set ''123456789''"

text \<open>The inner loop: past the digits.\<close>

definition skip_digits :: "string \<Rightarrow> nat \<Rightarrow> nat" where
  "skip_digits q i = i + length (takeWhile is_digit (drop i q))"

definition rebind_body :: "string \<Rightarrow> nat \<times> bool \<times> string \<Rightarrow> nat \<times> bool \<times> string" where
  "rebind_body q = (\<lambda>(i, inQuote, b).
     let c = q ! i; follows = (\<lambda>P. i + 1 < length q \<and> P (q ! (i + 1))) in
     if inQuote
     then (if c = quote_char \<and> follows (\<lambda>x. x = quote_char) then (i + 2, True, b @ [c, quote_char])
           else (i + 1, c \<noteq> quote_char, b @ [c]))
     else if c = quote_char then (i + 1, True, b @ [quote_char])
     else if c = CHR ''$'' \<and> follows digit_1_9 then (skip_digits q (i + 1), False, b @ ''?'')
     else (i + 1, False, b @ [c]))"

definition rebind_loop :: "string \<Rightarrow> nat \<times> bool \<times> string \<Rightarrow> (nat \<times> bool \<times> string) option" where
  "rebind_loop q = while_option (\<lambda>(i, inQuote, b). i < length q) (rebind_body q)"

definition rebindQuery :: "string \<Rightarrow> string option" where
  "rebindQuery q = map_option (\<lambda>(i, inQuote, b). b) (rebind_loop q (0, False, []))"

definition positionalParamDrivers :: "string \<Rightarrow> bool" where
  "positionalParamDrivers driver \<longleftrightarrow> driver \<in> {''mysql'', ''sqlite3'', ''sqlite''}"

section \<open>The reference\<close>

text \<open>What the scan means: quoted text is copied with its doubled quotes, outside it a placeholder becomes one \<open>?\<close>.\<close>

function placeholders :: "bool \<Rightarrow> string \<Rightarrow> string" where
  "placeholders quoted [] = []"
| "placeholders True (c # cs) =
     (if c = quote_char \<and> cs \<noteq> [] \<and> hd cs = quote_char then c # quote_char # placeholders True (tl cs)
      else c # placeholders (c \<noteq> quote_char) cs)"
| "placeholders False (c # cs) =
     (if c = quote_char then c # placeholders True cs
      else if c = CHR ''$'' \<and> cs \<noteq> [] \<and> digit_1_9 (hd cs) then CHR ''?'' # placeholders False (dropWhile is_digit cs)
      else c # placeholders False cs)"
  by pat_completeness auto
termination
  by (relation "measure (\<lambda>(b, cs). length cs)") (auto intro: le_imp_less_Suc length_dropWhile_le order_trans)

lemma rebind_step:
  assumes "i < length q" and "rebind_body q (i, quoted, b) = (i', quoted', b')"
  shows "i < i' \<and> i' \<le> length q \<and> b' @ placeholders quoted' (drop i' q) = b @ placeholders quoted (drop i q)"
proof -
  have d: "drop i q = q ! i # drop (Suc i) q" using assms(1) by (simp add: Cons_nth_drop_Suc)
  have h: "drop (Suc i) q \<noteq> [] \<longleftrightarrow> Suc i < length q" "Suc i < length q \<Longrightarrow> hd (drop (Suc i) q) = q ! Suc i"
    by (auto simp: hd_drop_conv_nth)
  have skip: "skip_digits q (Suc i) \<le> length q" "drop (skip_digits q (Suc i)) q = dropWhile is_digit (drop (Suc i) q)"
    if "Suc i < length q"
  proof -
    have "length (takeWhile is_digit (drop (Suc i) q)) \<le> length q - Suc i" by (metis length_drop length_takeWhile_le)
    then show "skip_digits q (Suc i) \<le> length q" using that by (simp add: skip_digits_def)
    show "drop (skip_digits q (Suc i)) q = dropWhile is_digit (drop (Suc i) q)"
      by (simp add: skip_digits_def dropWhile_eq_drop add.commute)
  qed
  have "Suc i \<le> skip_digits q (Suc i)" by (simp add: skip_digits_def)
  with assms d h skip show ?thesis
    by (cases quoted) (auto simp: rebind_body_def Let_def drop_Suc tl_drop split: if_splits)
qed

lemma rebind_loop_ref:
  "i \<le> length q \<Longrightarrow> \<exists>quoted'. rebind_loop q (i, quoted, b) = Some (length q, quoted', b @ placeholders quoted (drop i q))"
proof (induction "length q - i" arbitrary: i quoted b rule: less_induct)
  case less
  show ?case
  proof (cases "i < length q")
    case True
    obtain i' quoted' b' where s: "rebind_body q (i, quoted, b) = (i', quoted', b')" by (cases "rebind_body q (i, quoted, b)")
    note st = rebind_step [OF True s]
    then obtain q2 where "rebind_loop q (i', quoted', b') = Some (length q, q2, b' @ placeholders quoted' (drop i' q))"
      using less.hyps [of i'] True by fastforce
    with st s True show ?thesis
      unfolding rebind_loop_def by (subst while_option_unfold) simp
  next
    case False
    with less.prems show ?thesis unfolding rebind_loop_def by (subst while_option_unfold) simp
  qed
qed

lemma rebindQuery_ref: "rebindQuery q = Some (placeholders False q)"
  using rebind_loop_ref [of 0 q False "[]"] by (auto simp: rebindQuery_def)
lemma hd_placeholders: "hd (placeholders False cs) = hd cs \<or> hd (placeholders False cs) = CHR ''?''"
  by (cases cs) simp_all

lemma placeholders_Nil: "placeholders quoted cs = [] \<longleftrightarrow> cs = []"
  by (cases quoted; cases cs) simp_all

lemma placeholders_idem: "placeholders quoted (placeholders quoted cs) = placeholders quoted cs"
proof (induction quoted cs rule: placeholders.induct)
  case (2 c cs)
  have "hd (placeholders False cs) \<noteq> quote_char" if "cs \<noteq> []" "hd cs \<noteq> quote_char"
    using hd_placeholders [of cs] that by auto
  then have "\<not> (placeholders False cs \<noteq> [] \<and> hd (placeholders False cs) = quote_char)" if "\<not> (cs \<noteq> [] \<and> hd cs = quote_char)"
    using that by (cases "cs = []") (auto simp: placeholders_Nil)
  with 2 show ?case
    by (cases "cs \<noteq> [] \<and> hd cs = quote_char"; cases "c = quote_char") auto
next
  case (3 c cs)
  have "\<not> digit_1_9 (hd (placeholders False cs))" if "cs \<noteq> []" "\<not> digit_1_9 (hd cs)"
    using hd_placeholders [of cs] that by (auto simp: digit_1_9_def)
  with 3 show ?case by (auto simp: placeholders_Nil)
qed simp

text \<open>Outside quotes no placeholder is left, which is why a statement may be rebound twice, as the list
  queries are: once by the repository and once by \<open>QueryContext\<close>.\<close>

definition Rebind :: "string \<Rightarrow> string \<Rightarrow> string option" where
  "Rebind driver q = (if positionalParamDrivers driver then rebindQuery q else Some q)"

definition UsesPositionalParams :: "string \<Rightarrow> bool" where
  "UsesPositionalParams driver = positionalParamDrivers driver"

text \<open>C38: the scan ends on every statement, with the quoted text as it was and each placeholder outside it
  turned into one question mark; for every driver rebinding a second time changes nothing.\<close>

theorem rebind_terminates:
  "\<exists>r. Rebind driver q = Some r \<and> r = (if UsesPositionalParams driver then placeholders False q else q) \<and> Rebind driver r = Some r"
  by (simp add: Rebind_def UsesPositionalParams_def rebindQuery_ref placeholders_idem)

lemma rebind_ex:
  "rebindQuery ''a = $1 AND b = '$2' AND c = $10'' = Some ''a = ? AND b = '$2' AND c = ?''"
  by (simp add: rebindQuery_ref) code_simp

end
