(* ===== verification/Outbox.thy ===== *)
theory Outbox
  imports Store "HOL-Library.List_Lexorder" "HOL-Library.Char_ord"
begin

text \<open>
  The durable delivery queue of audit events: \<open>internal/sqlstore/audit_outbox_repo.go\<close> with the outbox
  statements of \<open>audit_queries.go\<close>, \<open>audit/outbox.go\<close>, the dispatcher and the janitor of
  \<open>audit/dispatcher.go\<close>, and the configuration checks of \<open>audit/service.go\<close>. An external sink is a
  program of its own, an argument. Timestamps are compared as instants. Left out: the columns of
  the record other than the ones below, the log, and the goroutines that call \<open>dispatchOnce\<close>,
  \<open>janitorOnce\<close> and \<open>PurgeOrphans\<close> on their tickers.
\<close>

section \<open>Rows\<close>

record outbox_row =
  ob_ID :: string
  ob_OrgID :: "string option"
  ob_Priority :: int
  ob_Attempts :: int
  ob_NextAttemptAt :: time
  ob_ClaimedAt :: "time option"
  ob_ClaimOwner :: string
  ob_LastError :: string
  ob_DeadLetteredAt :: "time option"
  ob_CreatedAt :: time

record log_row =
  lg_ID :: string
  lg_Type :: string
  lg_CreatedAt :: time

record outbox_db =
  outbox :: "outbox_row list"
  records :: "log_row list"

type_synonym 'a outbox_action = "(outbox_db, 'a) prog"

definition put_outbox :: "outbox_row list \<Rightarrow> outbox_db \<Rightarrow> outbox_db" where
  "put_outbox rows d = d\<lparr>outbox := rows\<rparr>"

lemma put_outbox_simps [simp]:
  "outbox (put_outbox rs d) = rs" "records (put_outbox rs d) = records d" "put_outbox rs (put_outbox qs d) = put_outbox rs d"
  "put_outbox (outbox d) d = d"
  by (simp_all add: put_outbox_def)

text \<open>What the dispatcher gets for a claimed row.\<close>

record claimed_row =
  cr_EventID :: string
  cr_Attempts :: int
  cr_Stolen :: bool
  cr_Event :: log_row

section \<open>Delivery priority\<close>

definition PriorityCritical :: int where "PriorityCritical = 0"
definition PriorityBestEffort :: int where "PriorityBestEffort = 1"

definition bestEffortTypes :: "string list" where
  "bestEffortTypes = [''login.failed'', ''admin.login.failed'', ''2fa.failed'', ''2fa.suspicious'']"

definition PriorityFor :: "string \<Rightarrow> int" where
  "PriorityFor t = (if t \<in> set bestEffortTypes then PriorityBestEffort else PriorityCritical)"

section \<open>The repository\<close>

definition ob_Insert :: "ctx \<Rightarrow> string \<Rightarrow> string option \<Rightarrow> int \<Rightarrow> time \<Rightarrow> unit outbox_action" where
  "ob_Insert ctx eventID orgID priority t = wrap ''outbox insert'' (stmt ctx (\<lambda>d.
     if list_ex (\<lambda>r. ob_ID r = eventID) (outbox d) then (Inl ErrDatabase, d)
     else (Inr (), put_outbox (outbox d @ [\<lparr>ob_ID = eventID, ob_OrgID = orgID, ob_Priority = priority, ob_Attempts = 0,
        ob_NextAttemptAt = t, ob_ClaimedAt = None, ob_ClaimOwner = '''', ob_LastError = '''', ob_DeadLetteredAt = None,
        ob_CreatedAt = t\<rparr>]) d)))"

text \<open>A row is free when nobody claimed it or the claim is older than the lease.\<close>

definition lease_free :: "time \<Rightarrow> outbox_row \<Rightarrow> bool" where
  "lease_free cutoff r = (case ob_ClaimedAt r of None \<Rightarrow> True | Some t \<Rightarrow> t < cutoff)"

definition deliverable :: "time \<Rightarrow> time \<Rightarrow> outbox_row \<Rightarrow> bool" where
  "deliverable t cutoff r \<longleftrightarrow> ob_DeadLetteredAt r = None \<and> ob_NextAttemptAt r \<le> t \<and> lease_free cutoff r"

definition outboxCandidates :: "time \<Rightarrow> time \<Rightarrow> nat \<Rightarrow> outbox_row list \<Rightarrow> (string \<times> bool) list" where
  "outboxCandidates t cutoff limit rs = map (\<lambda>r. (ob_ID r, ob_ClaimedAt r \<noteq> None))
     (take limit (sort_key ob_Priority (sort_key ob_NextAttemptAt (filter (deliverable t cutoff) rs))))"

definition cas_guard :: "string \<Rightarrow> time \<Rightarrow> time \<Rightarrow> outbox_row \<Rightarrow> bool" where
  "cas_guard i t cutoff r \<longleftrightarrow> ob_ID r = i \<and> deliverable t cutoff r"

definition set_claimed :: "time \<Rightarrow> string \<Rightarrow> outbox_row \<Rightarrow> outbox_row" where
  "set_claimed t token r = r\<lparr>ob_ClaimedAt := Some t, ob_ClaimOwner := token, ob_Attempts := ob_Attempts r + 1\<rparr>"

definition outboxClaimCAS :: "ctx \<Rightarrow> time \<Rightarrow> string \<Rightarrow> string \<Rightarrow> time \<Rightarrow> bool outbox_action" where
  "outboxClaimCAS ctx t token i cutoff = stmt ctx (\<lambda>d.
     (Inr (0 < count_where (cas_guard i t cutoff) (outbox d)),
      put_outbox (update_where (cas_guard i t cutoff) (set_claimed t token) (outbox d)) d))"

fun claim_loop :: "ctx \<Rightarrow> time \<Rightarrow> string \<Rightarrow> time \<Rightarrow> (string \<times> bool) list \<Rightarrow> (string \<times> bool) list outbox_action" where
  "claim_loop ctx t token cutoff [] = ret []"
| "claim_loop ctx t token cutoff (c # cs) =
     bnd (wrap ''outbox claim'' (outboxClaimCAS ctx t token (fst c) cutoff)) (\<lambda>n.
     bnd (claim_loop ctx t token cutoff cs) (\<lambda>won. ret (if n then c # won else won)))"

text \<open>The claimed rows joined with their records, and the steals noted when the candidates were read.\<close>

definition outboxClaimed :: "string \<Rightarrow> outbox_db \<Rightarrow> (outbox_row \<times> log_row) list" where
  "outboxClaimed token d = [(o', a). o' \<leftarrow> outbox d, a \<leftarrow> records d, lg_ID a = ob_ID o' \<and> ob_ClaimOwner o' = token]"

definition scanClaimedRow :: "(string \<times> bool) list \<Rightarrow> outbox_row \<times> log_row \<Rightarrow> claimed_row" where
  "scanClaimedRow won ra = \<lparr>cr_EventID = ob_ID (fst ra), cr_Attempts = ob_Attempts (fst ra),
     cr_Stolen = (case map_of (rev won) (ob_ID (fst ra)) of Some b \<Rightarrow> b | None \<Rightarrow> False), cr_Event = snd ra\<rparr>"

definition ClaimBatch :: "ctx \<Rightarrow> string \<Rightarrow> nat \<Rightarrow> duration \<Rightarrow> claimed_row list outbox_action" where
  "ClaimBatch ctx owner batchSize lease =
     bnd now (\<lambda>t0. let leaseCutoff = t0 - lease in
     bnd (wrap ''outbox candidates'' (query ctx (\<lambda>d. outboxCandidates t0 leaseCutoff batchSize (outbox d)))) (\<lambda>cs.
     bnd now (\<lambda>claimTime.
     bnd draw (\<lambda>i. let claimToken = owner @ '':'' @ i in
     bnd (claim_loop ctx claimTime claimToken leaseCutoff cs) (\<lambda>won.
     if won = [] then ret []
     else bnd (wrap ''outbox claimed rows'' (query ctx (outboxClaimed claimToken))) (\<lambda>rows.
            ret (map (scanClaimedRow won) rows)))))))"

definition with_id :: "string \<Rightarrow> outbox_row \<Rightarrow> bool" where
  "with_id i r \<longleftrightarrow> ob_ID r = i"

definition MarkSuccess :: "ctx \<Rightarrow> string \<Rightarrow> unit outbox_action" where
  "MarkSuccess ctx i = wrap ''outbox success'' (exec ctx (\<lambda>d. put_outbox (delete_where (with_id i) (outbox d)) d))"

text \<open>\<open>truncateErr\<close> cuts at a rune boundary; \<open>rune_start\<close> is \<open>utf8.RuneStart\<close>, a byte other than a continuation.\<close>

definition rune_start :: "char \<Rightarrow> bool" where
  "rune_start c \<longleftrightarrow> \<not> (128 \<le> (of_char c :: nat) \<and> (of_char c :: nat) < 192)"

fun cut_back :: "string \<Rightarrow> nat \<Rightarrow> nat" where
  "cut_back msg 0 = 0"
| "cut_back msg (Suc n) = (if rune_start (msg ! Suc n) then Suc n else cut_back msg n)"

definition truncateErr :: "string \<Rightarrow> string" where
  "truncateErr msg = (if length msg \<le> 512 then msg else take (cut_back msg (512 - 3)) msg @ ''...'')"

definition set_retry :: "time \<Rightarrow> string \<Rightarrow> outbox_row \<Rightarrow> outbox_row" where
  "set_retry t msg r = r\<lparr>ob_NextAttemptAt := t, ob_LastError := msg, ob_ClaimedAt := None, ob_ClaimOwner := ''''\<rparr>"

definition MarkFailure :: "ctx \<Rightarrow> string \<Rightarrow> time \<Rightarrow> string \<Rightarrow> unit outbox_action" where
  "MarkFailure ctx i nextAttemptAt lastErr = wrap ''outbox retry'' (exec ctx (\<lambda>d.
     put_outbox (update_where (with_id i) (set_retry nextAttemptAt (truncateErr lastErr)) (outbox d)) d))"

definition set_dead :: "time \<Rightarrow> string \<Rightarrow> outbox_row \<Rightarrow> outbox_row" where
  "set_dead t msg r = r\<lparr>ob_DeadLetteredAt := Some t, ob_LastError := msg, ob_ClaimedAt := None, ob_ClaimOwner := ''''\<rparr>"

definition MarkDeadLetter :: "ctx \<Rightarrow> string \<Rightarrow> time \<Rightarrow> string \<Rightarrow> unit outbox_action" where
  "MarkDeadLetter ctx i deadLetteredAt lastErr = wrap ''outbox dead-letter'' (exec ctx (\<lambda>d.
     put_outbox (update_where (with_id i) (set_dead deadLetteredAt (truncateErr lastErr)) (outbox d)) d))"

definition ReleaseClaim :: "ctx \<Rightarrow> string \<Rightarrow> unit outbox_action" where
  "ReleaseClaim ctx i = exec ctx (\<lambda>d.
     put_outbox (update_where (with_id i) (\<lambda>r. r\<lparr>ob_ClaimedAt := None, ob_ClaimOwner := ''''\<rparr>) (outbox d)) d)"

text \<open>\<open>PurgeOrphans\<close>: obligations without a record. A count comes with an error when a deletion fails.\<close>

definition orphan_ids :: "nat \<Rightarrow> outbox_db \<Rightarrow> string list" where
  "orphan_ids limit d = take limit (map ob_ID (filter (\<lambda>r. \<not> list_ex (\<lambda>a. lg_ID a = ob_ID r) (records d)) (outbox d)))"

fun purge_loop :: "ctx \<Rightarrow> string list \<Rightarrow> nat \<Rightarrow> (nat \<times> go_err option) outbox_action" where
  "purge_loop ctx [] purged = ret (purged, None)"
| "purge_loop ctx (i # ids) purged =
     bnd (attempt (exec ctx (\<lambda>d. put_outbox (delete_where (with_id i) (outbox d)) d))) (\<lambda>r. case r of
        Inl e \<Rightarrow> ret (purged, Some e)
      | Inr _ \<Rightarrow> purge_loop ctx ids (Suc purged))"

definition PurgeOrphans :: "ctx \<Rightarrow> nat \<Rightarrow> (nat \<times> go_err option) outbox_action" where
  "PurgeOrphans ctx limit = bnd (attempt (query ctx (orphan_ids limit))) (\<lambda>r. case r of
      Inl e \<Rightarrow> ret (0, Some e)
    | Inr ids \<Rightarrow> purge_loop ctx ids 0)"

definition CountPending :: "ctx \<Rightarrow> nat outbox_action" where
  "CountPending ctx = query ctx (\<lambda>d. count_where (\<lambda>r. ob_DeadLetteredAt r = None) (outbox d))"

definition OldestPendingAge :: "ctx \<Rightarrow> time \<Rightarrow> duration option outbox_action" where
  "OldestPendingAge ctx t =
     bnd (query ctx (\<lambda>d. map ob_CreatedAt (filter (\<lambda>r. ob_DeadLetteredAt r = None) (outbox d)))) (\<lambda>ts.
       ret (case ts of [] \<Rightarrow> None | x # xs \<Rightarrow> Some (max 0 (t - fold min xs x))))"

text \<open>The two clocks. \<open>cutoffStr\<close> formats with whole seconds.\<close>

definition cutoffStr :: "time \<Rightarrow> time" where
  "cutoffStr t = t div second * second"

definition stale_pending :: "time \<Rightarrow> outbox_row \<Rightarrow> bool" where
  "stale_pending cutoff r \<longleftrightarrow> ob_DeadLetteredAt r = None \<and> ob_CreatedAt r < cutoff"

definition stale_dead :: "time \<Rightarrow> outbox_row \<Rightarrow> bool" where
  "stale_dead cutoff r = (case ob_DeadLetteredAt r of None \<Rightarrow> False | Some t \<Rightarrow> t < cutoff)"

definition outboxSingleClockCondition :: "duration \<Rightarrow> duration \<Rightarrow> time \<Rightarrow> outbox_row \<Rightarrow> bool" where
  "outboxSingleClockCondition maxAge deadTTL t =
     (if 0 < maxAge then stale_pending (cutoffStr (t - maxAge)) else stale_dead (cutoffStr (t - deadTTL)))"

definition SweepExpired :: "ctx \<Rightarrow> time \<Rightarrow> duration \<Rightarrow> duration \<Rightarrow> (nat \<times> nat) outbox_action" where
  "SweepExpired ctx t maxAge deadTTL =
     (if maxAge \<le> 0 \<and> deadTTL \<le> 0 then ret (0, 0)
      else let P = stale_pending (cutoffStr (t - maxAge)); D = stale_dead (cutoffStr (t - deadTTL));
               both = 0 < deadTTL \<and> 0 < maxAge; cond = outboxSingleClockCondition maxAge deadTTL t in
      bnd (if both then query ctx (\<lambda>d. (count_where P (outbox d), count_where D (outbox d)))
           else bnd (query ctx (\<lambda>d. count_where cond (outbox d))) (\<lambda>n.
                  ret (if 0 < maxAge then (n, 0) else (0, n)))) (\<lambda>(pending, dead).
      if pending + dead = 0 then ret (0, 0)
      else seq (exec ctx (\<lambda>d. put_outbox (delete_where (if both then \<lambda>r. P r \<or> D r else cond) (outbox d)) d))
               (ret (pending, dead))))"

text \<open>\<open>EvictOverCap\<close>: dead letters first, then the oldest pending rows.\<close>

definition evict_dead_candidates :: "nat \<Rightarrow> outbox_row list \<Rightarrow> string list" where
  "evict_dead_candidates limit rs = take limit (map ob_ID (sort_key (\<lambda>r. the (ob_DeadLetteredAt r)) (sort_key ob_ID
     (filter (\<lambda>r. ob_DeadLetteredAt r \<noteq> None) rs))))"

definition evict_candidates :: "nat \<Rightarrow> outbox_row list \<Rightarrow> string list" where
  "evict_candidates limit rs = take limit (map ob_ID (sort_key ob_CreatedAt (sort_key ob_ID rs)))"

fun deleteIDs :: "ctx \<Rightarrow> string list \<Rightarrow> nat \<Rightarrow> (nat \<times> go_err option) outbox_action" where
  "deleteIDs ctx [] deleted = ret (deleted, None)"
| "deleteIDs ctx (i # ids) deleted =
     bnd (attempt (stmt ctx (\<lambda>d.
       (Inr (0 < count_where (with_id i) (outbox d)), put_outbox (delete_where (with_id i) (outbox d)) d)))) (\<lambda>r. case r of
        Inl e \<Rightarrow> ret (deleted, Some e)
      | Inr hit \<Rightarrow> deleteIDs ctx ids (if hit then Suc deleted else deleted))"

definition EvictOverCap :: "ctx \<Rightarrow> nat \<Rightarrow> (nat \<times> nat \<times> go_err option) outbox_action" where
  "EvictOverCap ctx maxRows =
     bnd (attempt (query ctx (\<lambda>d. length (outbox d)))) (\<lambda>r0. case r0 of Inl e \<Rightarrow> ret (0, 0, Some e) | Inr rowCount \<Rightarrow>
     if rowCount \<le> maxRows then ret (0, 0, None)
     else let overflow = rowCount - maxRows in
       bnd (attempt (query ctx (\<lambda>d. evict_dead_candidates overflow (outbox d)))) (\<lambda>r1. case r1 of
         Inl e \<Rightarrow> ret (0, 0, Some e)
       | Inr deadIDs \<Rightarrow>
         bnd (deleteIDs ctx deadIDs 0) (\<lambda>(deadN, e1). if e1 \<noteq> None then ret (deadN, 0, e1) else
         let remaining = overflow - deadN in
         if 0 < remaining
         then bnd (attempt (query ctx (\<lambda>d. evict_candidates remaining (outbox d)))) (\<lambda>r2. case r2 of
                Inl e \<Rightarrow> ret (deadN, 0, Some e)
              | Inr pendIDs \<Rightarrow> bnd (deleteIDs ctx pendIDs 0) (\<lambda>(pendN, e2).
                  if e2 \<noteq> None then ret (deadN, pendN, e2) else ret (deadN + pendN, pendN, None)))
         else ret (deadN, 0, None))))"

section \<open>Records\<close>

definition rec_Insert :: "ctx \<Rightarrow> log_row \<Rightarrow> unit outbox_action" where
  "rec_Insert ctx e = wrap ''audit record insert'' (stmt ctx (\<lambda>d.
     if list_ex (\<lambda>a. lg_ID a = lg_ID e) (records d) then (Inl ErrDatabase, d)
     else (Inr (), d\<lparr>records := records d @ [e]\<rparr>)))"

definition Cleanup :: "ctx \<Rightarrow> int \<Rightarrow> nat outbox_action" where
  "Cleanup ctx retentionDays =
     (if retentionDays \<le> 0 then ret 0
      else bnd now (\<lambda>t. let cutoff = t - retentionDays * (24 * hour) in
        stmt ctx (\<lambda>d. (Inr (count_where (\<lambda>a. lg_CreatedAt a < cutoff) (records d)),
                       d\<lparr>records := delete_where (\<lambda>a. lg_CreatedAt a < cutoff) (records d)\<rparr>))))"

section \<open>Retry delays\<close>

definition retryBaseBackoff :: duration where "retryBaseBackoff = 10 * second"
definition retryMaxBackoff :: duration where "retryMaxBackoff = hour"
definition orphanScanLimit :: nat where "orphanScanLimit = 1000"
definition defaultClaimLease :: duration where "defaultClaimLease = 10 * minute"
definition minClaimLease :: duration where "minClaimLease = minute"

fun backoff_loop :: "nat \<Rightarrow> duration \<Rightarrow> duration" where
  "backoff_loop 0 d = d"
| "backoff_loop (Suc n) d = (if d < retryMaxBackoff then backoff_loop n (d * 2) else d)"

definition nextBackoff :: "int \<Rightarrow> duration" where
  "nextBackoff attempts = (let d = backoff_loop (nat attempts) retryBaseBackoff in if retryMaxBackoff < d then retryMaxBackoff else d)"

text \<open>Sums and products of durations wrap at 64 bits.\<close>

definition wrap64 :: "int \<Rightarrow> int" where
  "wrap64 x = signed_take_bit 63 x"

fun retryWindowFor :: "nat \<Rightarrow> duration" where
  "retryWindowFor 0 = 0"
| "retryWindowFor (Suc n) = wrap64 (retryWindowFor n + nextBackoff (int n))"

section \<open>Configuration\<close>

record service_config =
  sc_Workers :: int
  sc_BatchSize :: int
  sc_FlushInterval :: duration
  sc_RetentionDays :: int
  sc_MaxAttempts :: int
  sc_ClaimLease :: duration
  sc_OutboxMaxAge :: duration
  sc_DeadLetterTTL :: duration
  sc_OutboxMaxRows :: int

definition defaultConfig :: "service_config \<Rightarrow> service_config" where
  "defaultConfig cfg = cfg\<lparr>
     sc_Workers := (if sc_Workers cfg \<le> 0 then 3 else sc_Workers cfg),
     sc_BatchSize := (if sc_BatchSize cfg \<le> 0 then 50 else sc_BatchSize cfg),
     sc_FlushInterval := (if sc_FlushInterval cfg \<le> 0 then 100 * 1000000 else sc_FlushInterval cfg),
     sc_RetentionDays := (if sc_RetentionDays cfg < 0 then 0 else sc_RetentionDays cfg),
     sc_MaxAttempts := (if sc_MaxAttempts cfg \<le> 0 then 10 else sc_MaxAttempts cfg),
     sc_ClaimLease := (if sc_ClaimLease cfg \<le> 0 then defaultClaimLease else sc_ClaimLease cfg),
     sc_OutboxMaxAge := (if sc_OutboxMaxAge cfg = 0 then 7 * 24 * hour else sc_OutboxMaxAge cfg),
     sc_DeadLetterTTL := (if sc_DeadLetterTTL cfg = 0 then 7 * 24 * hour else sc_DeadLetterTTL cfg),
     sc_OutboxMaxRows := (if sc_OutboxMaxRows cfg = 0 then 100000 else sc_OutboxMaxRows cfg)\<rparr>"

text \<open>A sink is checked by the bound it declares for one batch; \<open>None\<close>: it declares none.\<close>

type_synonym sink_bound = "(int \<Rightarrow> duration \<times> bool) option"

definition sink_error :: "service_config \<Rightarrow> sink_bound \<Rightarrow> go_err option" where
  "sink_error cfg s = (case s of
     None \<Rightarrow> Some (Sentinel ''audit: external sink does not declare a finite batch delivery bound'')
   | Some bounder \<Rightarrow> (case bounder (sc_BatchSize cfg) of (maxDelivery, bounded) \<Rightarrow>
       if \<not> bounded \<or> maxDelivery \<le> 0 then Some (Sentinel ''audit: external sink has no finite batch delivery bound'')
       else if sc_ClaimLease cfg \<le> maxDelivery
       then Some (Sentinel ''audit: ClaimLease must be greater than the worst-case batch delivery time of the sink'')
       else None))"

fun first_error :: "('a \<Rightarrow> go_err option) \<Rightarrow> 'a list \<Rightarrow> go_err option" where
  "first_error f [] = None"
| "first_error f (x # xs) = (case f x of Some e \<Rightarrow> Some e | None \<Rightarrow> first_error f xs)"

definition audit_ValidateConfig :: "service_config \<Rightarrow> sink_bound list \<Rightarrow> go_err option" where
  "audit_ValidateConfig cfg0 sinks =
     (let cfg = defaultConfig cfg0;
          retryWindow = retryWindowFor (nat (sc_MaxAttempts cfg));
          alt = wrap64 (retryWindow + sc_DeadLetterTTL cfg);
          worst = (if sc_OutboxMaxAge cfg < alt then alt else sc_OutboxMaxAge cfg);
          retention = wrap64 (sc_RetentionDays cfg * (24 * hour)) in
      if sc_ClaimLease cfg < minClaimLease then Some (Sentinel ''audit: ClaimLease is below the floor'')
      else case first_error (sink_error cfg) sinks of Some e \<Rightarrow> Some e
      | None \<Rightarrow>
        if 0 < sc_RetentionDays cfg \<and> (sc_OutboxMaxAge cfg < 0 \<or> sc_DeadLetterTTL cfg < 0)
        then Some (Sentinel ''audit: finite RetentionDays requires finite outbox clocks'')
        else if 0 < sc_RetentionDays cfg \<and> retention \<le> worst
        then Some (Sentinel ''audit: RetentionDays is not greater than the worst-case outbox row lifetime'')
        else if sc_OutboxMaxRows cfg = 0 then Some (Sentinel ''audit: OutboxMaxRows must be non-zero'')
        else None)"

section \<open>The dispatcher\<close>

record pipeline =
  p_failureClosed :: bool
  p_batchSize :: nat
  p_maxAttempts :: int
  p_claimLease :: duration
  p_outboxMaxAge :: duration
  p_deadLetterTTL :: duration
  p_outboxMaxRows :: int

definition NewService :: "bool \<Rightarrow> service_config \<Rightarrow> pipeline" where
  "NewService failureClosed cfg0 = (let cfg = defaultConfig cfg0 in
     \<lparr>p_failureClosed = failureClosed, p_batchSize = nat (sc_BatchSize cfg), p_maxAttempts = sc_MaxAttempts cfg,
      p_claimLease = sc_ClaimLease cfg, p_outboxMaxAge = sc_OutboxMaxAge cfg, p_deadLetterTTL = sc_DeadLetterTTL cfg,
      p_outboxMaxRows = sc_OutboxMaxRows cfg\<rparr>)"

record counters =
  deadLettered :: nat
  deliveryDropped :: nat
  pendingDropped :: nat
  deliveryOrphaned :: nat
  deliveryDuplicated :: nat

type_synonym sink = "log_row list \<Rightarrow> unit outbox_action"

text \<open>The text of an error, \<open>err.Error()\<close>.\<close>

fun err_text :: "go_err \<Rightarrow> string" where
  "err_text (AuthError c m) = c @ '': '' @ m"
| "err_text (RefreshTokenReused u s) = ''port: refresh token reused past grace window (session '' @ s @ '' revoked)''"
| "err_text (Sentinel n) = n"
| "err_text (Wrapf msg es) = msg @ '': '' @ concat (map err_text es)"

fun fan_out :: "bool \<Rightarrow> sink list \<Rightarrow> log_row list \<Rightarrow> go_err option \<Rightarrow> go_err option outbox_action" where
  "fan_out closed [] events sinkErr = ret sinkErr"
| "fan_out closed (s # ss) events sinkErr =
     bnd (attempt (s events)) (\<lambda>r. case r of
        Inr _ \<Rightarrow> fan_out closed ss events sinkErr
      | Inl e \<Rightarrow> if closed then ret (Some e) else fan_out closed ss events (Some e))"

fun settleBatch :: "pipeline \<Rightarrow> ctx \<Rightarrow> claimed_row list \<Rightarrow> go_err option \<Rightarrow> counters \<Rightarrow> counters outbox_action" where
  "settleBatch p ctx [] sinkErr c = ret c"
| "settleBatch p ctx (row # rows) sinkErr c =
     (case sinkErr of
        None \<Rightarrow> seq (attempt (MarkSuccess ctx (cr_EventID row))) (settleBatch p ctx rows sinkErr c)
      | Some e \<Rightarrow>
          if p_maxAttempts p \<le> cr_Attempts row
          then bnd now (\<lambda>t. bnd (attempt (MarkDeadLetter ctx (cr_EventID row) t (err_text e))) (\<lambda>r. case r of
                 Inl _ \<Rightarrow> settleBatch p ctx rows sinkErr c
               | Inr _ \<Rightarrow> settleBatch p ctx rows sinkErr (c\<lparr>deadLettered := deadLettered c + 1\<rparr>)))
          else bnd now (\<lambda>t. seq (attempt (MarkFailure ctx (cr_EventID row) (t + nextBackoff (cr_Attempts row)) (err_text e)))
                 (settleBatch p ctx rows sinkErr c)))"

definition dispatchOnce :: "pipeline \<Rightarrow> sink list \<Rightarrow> ctx \<Rightarrow> string \<Rightarrow> counters \<Rightarrow> counters outbox_action" where
  "dispatchOnce p sinks ctx owner c =
     bnd (attempt (ClaimBatch ctx owner (p_batchSize p) (p_claimLease p))) (\<lambda>r. case r of
        Inl _ \<Rightarrow> ret c
      | Inr rows \<Rightarrow>
          if rows = [] then ret c
          else let c1 = (if list_ex cr_Stolen rows then c\<lparr>deliveryDuplicated := deliveryDuplicated c + 1\<rparr> else c) in
            bnd (fan_out (p_failureClosed p) sinks (map cr_Event rows) None) (\<lambda>sinkErr.
            settleBatch p ctx rows sinkErr c1))"

definition janitorOnce :: "pipeline \<Rightarrow> ctx \<Rightarrow> counters \<Rightarrow> counters outbox_action" where
  "janitorOnce p ctx c =
     bnd now (\<lambda>t.
     bnd (attempt (SweepExpired ctx t (p_outboxMaxAge p) (p_deadLetterTTL p))) (\<lambda>r.
     let (pendingEvicted, deadPurged) = (case r of Inl _ \<Rightarrow> (0, 0) | Inr n \<Rightarrow> n);
         c1 = c\<lparr>deliveryDropped := deliveryDropped c + deadPurged + pendingEvicted, pendingDropped := pendingDropped c + pendingEvicted\<rparr> in
     if 0 < p_outboxMaxRows p
     then bnd (EvictOverCap ctx (nat (p_outboxMaxRows p))) (\<lambda>(evicted, pendingEvicted2, _).
            ret (c1\<lparr>deliveryDropped := deliveryDropped c1 + evicted, pendingDropped := pendingDropped c1 + pendingEvicted2\<rparr>))
     else ret c1))"

text \<open>The hourly branch of \<open>janitorLoop\<close>.\<close>

definition orphan_scan :: "ctx \<Rightarrow> counters \<Rightarrow> counters outbox_action" where
  "orphan_scan ctx c = bnd (PurgeOrphans ctx orphanScanLimit) (\<lambda>(n, e).
     if e \<noteq> None then ret c else ret (c\<lparr>deliveryOrphaned := deliveryOrphaned c + n\<rparr>))"

section \<open>A pass of the dispatcher over a quiet database\<close>

text \<open>The ticks of \<open>dispatchLoop\<close>.\<close>

fun dispatchLoop :: "nat \<Rightarrow> pipeline \<Rightarrow> sink list \<Rightarrow> ctx \<Rightarrow> string \<Rightarrow> counters \<Rightarrow> counters outbox_action" where
  "dispatchLoop 0 p sinks ctx owner c = ret c"
| "dispatchLoop (Suc n) p sinks ctx owner c =
     bnd (dispatchOnce p sinks ctx owner c) (\<lambda>c'. dispatchLoop n p sinks ctx owner c')"

text \<open>A sink that takes its time and accepts; what it received is noted in the outgoing messages.\<close>

definition receipt :: "log_row \<Rightarrow> mail" where
  "receipt a = \<lparr>mail_to = '''', mail_kind = lg_Type a, mail_code = lg_ID a\<rparr>"

definition accepts :: "sink \<Rightarrow> bool" where
  "accepts s \<longleftrightarrow> (\<forall>ev w. \<exists>n. s ev w = (Inr (), w\<lparr>clock := clock w + int n, mailbox := mailbox w @ map receipt ev\<rparr>))"

definition delivered :: "'db world \<Rightarrow> string \<Rightarrow> bool" where
  "delivered w i \<longleftrightarrow> (\<exists>m \<in> set (mailbox w). mail_code m = i)"

lemma update_where_twice:
  "(\<And>r. P r \<Longrightarrow> Q (f r) = Q r) \<Longrightarrow> (\<And>r. r \<in> set rows \<Longrightarrow> \<not> (P r \<and> Q r)) \<Longrightarrow>
   update_where Q f (update_where P f rows) = update_where (\<lambda>r. P r \<or> Q r) f rows"
  by (auto simp: update_where_def)

lemma update_where_cong: "(\<And>r. r \<in> set rows \<Longrightarrow> P r = Q r) \<Longrightarrow> update_where P f rows = update_where Q f rows"
  by (auto simp: update_where_def)

lemma set_claimed_id [simp]: "ob_ID (set_claimed t token r) = ob_ID r"
  by (simp add: set_claimed_def)

lemma claim_loop_quiet:
  assumes "sched w = []" and "distinct (map fst cs)" and "distinct (map ob_ID (outbox (store w)))"
    and "\<And>i. i \<in> fst ` set cs \<Longrightarrow> \<exists>r \<in> set (outbox (store w)). ob_ID r = i \<and> deliverable t cutoff r"
  shows "claim_loop ctx t token cutoff cs w =
    (Inr cs, w\<lparr>store := put_outbox (update_where (\<lambda>r. ob_ID r \<in> fst ` set cs) (set_claimed t token) (outbox (store w))) (store w)\<rparr>)"
  using assms
proof (induction cs arbitrary: w)
  case Nil
  then show ?case by (simp add: ret_def update_where_id)
next
  case (Cons c cs)
  let ?rs = "outbox (store w)"
  have only: "cas_guard (fst c) t cutoff r = (ob_ID r = fst c)" if "r \<in> set ?rs" for r
  proof -
    obtain r0 where r0: "r0 \<in> set ?rs" "ob_ID r0 = fst c" "deliverable t cutoff r0"
      using Cons.prems(4) [of "fst c"] by auto
    show ?thesis
    proof (cases "ob_ID r = fst c")
      case True
      with keyed_unique [OF Cons.prems(3) that r0(1)] r0 show ?thesis by (simp add: cas_guard_def)
    qed (simp add: cas_guard_def)
  qed
  have hit: "0 < count_where (cas_guard (fst c) t cutoff) ?rs"
  proof -
    obtain r0 where "r0 \<in> set ?rs" "ob_ID r0 = fst c" using Cons.prems(4) [of "fst c"] by auto
    then have "count_where (cas_guard (fst c) t cutoff) ?rs \<noteq> 0" unfolding count_where_0 using only by blast
    then show ?thesis by simp
  qed
  let ?w = "w\<lparr>store := put_outbox (update_where (cas_guard (fst c) t cutoff) (set_claimed t token) ?rs) (store w)\<rparr>"
  have rest: "\<exists>r \<in> set (outbox (store ?w)). ob_ID r = i \<and> deliverable t cutoff r" if "i \<in> fst ` set cs" for i
  proof -
    have "i \<in> fst ` set (c # cs)" using that by simp
    from Cons.prems(4) [OF this] obtain r where "r \<in> set ?rs" "ob_ID r = i" "deliverable t cutoff r" by blast
    moreover have "i \<noteq> fst c"
    proof
      assume "i = fst c"
      with that have "fst c \<in> fst ` set cs" by simp
      moreover have "fst c \<notin> fst ` set cs" using Cons.prems(2) by simp
      ultimately show False by blast
    qed
    moreover from calculation have "r \<in> set (update_where (cas_guard (fst c) t cutoff) (set_claimed t token) ?rs)"
      unfolding set_update_where by (intro image_eqI [of _ _ r]) (simp_all add: cas_guard_def)
    ultimately show ?thesis by auto
  qed
  have "claim_loop ctx t token cutoff cs ?w = (Inr cs, ?w\<lparr>store := put_outbox
      (update_where (\<lambda>r. ob_ID r \<in> fst ` set cs) (set_claimed t token) (outbox (store ?w))) (store ?w)\<rparr>)"
  proof (rule Cons.IH)
    show "sched ?w = []" using Cons.prems(1) by simp
    show "distinct (map fst cs)" using Cons.prems(2) by simp
    show "distinct (map ob_ID (outbox (store ?w)))" using Cons.prems(3) by (simp add: map_update_where)
  qed (rule rest)
  moreover have "update_where (\<lambda>r. ob_ID r \<in> fst ` set cs) (set_claimed t token)
      (update_where (cas_guard (fst c) t cutoff) (set_claimed t token) ?rs)
      = update_where (\<lambda>r. ob_ID r \<in> fst ` set (c # cs)) (set_claimed t token) ?rs"
  proof (subst update_where_twice)
    show "cas_guard (fst c) t cutoff r \<Longrightarrow> (ob_ID (set_claimed t token r) \<in> fst ` set cs) = (ob_ID r \<in> fst ` set cs)" for r
      by simp
    show "\<not> (cas_guard (fst c) t cutoff r \<and> ob_ID r \<in> fst ` set cs)" for r
      using Cons.prems(2) by (auto simp: cas_guard_def)
    show "update_where (\<lambda>r. cas_guard (fst c) t cutoff r \<or> ob_ID r \<in> fst ` set cs) (set_claimed t token) ?rs
        = update_where (\<lambda>r. ob_ID r \<in> fst ` set (c # cs)) (set_claimed t token) ?rs"
      by (rule update_where_cong) (use only in simp)
  qed
  ultimately show ?case
    using Cons.prems(1) hit by (simp add: outboxClaimCAS_def bnd_def wrap_def ret_def stmt_quiet)
qed

lemma settle_accepted:
  assumes "sched w = []"
  shows "settleBatch p ctx rows None c w =
    (Inr c, w\<lparr>store := put_outbox (filter (\<lambda>r. ob_ID r \<notin> cr_EventID ` set rows) (outbox (store w))) (store w)\<rparr>)"
  using assms
  by (induction rows arbitrary: w)
     (simp_all add: ret_def seq_def bnd_def attempt_def MarkSuccess_def wrap_def exec_quiet delete_where_def with_id_def
       conj_commute)

lemma fan_out_accepted:
  assumes "\<And>s. s \<in> set sinks \<Longrightarrow> accepts s"
  shows "\<exists>n ms. fan_out closed sinks ev None w = (Inr None, w\<lparr>clock := clock w + int n, mailbox := mailbox w @ ms\<rparr>) \<and>
    (sinks \<noteq> [] \<longrightarrow> receipt ` set ev \<subseteq> set ms)"
  using assms
proof (induction sinks arbitrary: w)
  case Nil
  then show ?case by (auto simp: ret_def intro!: exI [of _ 0] exI [of _ "[]"])
next
  case (Cons s ss)
  let ?w = "\<lambda>n. w\<lparr>clock := clock w + int n, mailbox := mailbox w @ map receipt ev\<rparr>"
  from Cons.prems [of s] obtain n where n: "s ev w = (Inr (), ?w n)"
    unfolding accepts_def by fastforce
  obtain m ms where "fan_out closed ss ev None (?w n)
      = (Inr None, w\<lparr>clock := clock w + int n + int m, mailbox := (mailbox w @ map receipt ev) @ ms\<rparr>)"
    using Cons.IH [of "?w n"] Cons.prems by auto
  with n show ?case by (auto simp: bnd_def attempt_def intro!: exI [of _ "n + m"] exI [of _ "map receipt ev @ ms"])
qed

text \<open>The rows a pass takes: at most a batch, and all deliverable rows if they fit.\<close>

definition taken :: "time \<Rightarrow> time \<Rightarrow> nat \<Rightarrow> outbox_row list \<Rightarrow> string set" where
  "taken t cutoff n rs = fst ` set (outboxCandidates t cutoff n rs)"

lemma taken_rows:
  "i \<in> taken t cutoff n rs \<Longrightarrow> \<exists>r \<in> set rs. ob_ID r = i \<and> deliverable t cutoff r"
  by (auto simp: taken_def outboxCandidates_def dest!: in_set_takeD)

lemma map_fst_candidates:
  "map fst (outboxCandidates t cutoff n rs)
    = take n (map ob_ID (sort_key ob_Priority (sort_key ob_NextAttemptAt (filter (deliverable t cutoff) rs))))"
  by (simp add: outboxCandidates_def take_map comp_def)

lemma distinct_candidates:
  assumes "distinct (map ob_ID rs)"
  shows "distinct (map fst (outboxCandidates t cutoff n rs))"
proof -
  have "distinct (map ob_ID (filter (deliverable t cutoff) rs))" using assms by (rule distinct_map_filter)
  then have "distinct (map ob_ID (sort_key ob_Priority (sort_key ob_NextAttemptAt (filter (deliverable t cutoff) rs))))"
    by (simp add: distinct_map)
  then show ?thesis unfolding map_fst_candidates by (rule distinct_take)
qed

lemma taken_full:
  assumes "distinct (map ob_ID rs)" and "r \<in> set rs" and "deliverable t cutoff r" and "ob_ID r \<notin> taken t cutoff n rs"
  shows "card (taken t cutoff n rs) = n"
proof -
  let ?cs = "outboxCandidates t cutoff n rs"
  let ?all = "map ob_ID (sort_key ob_Priority (sort_key ob_NextAttemptAt (filter (deliverable t cutoff) rs)))"
  have "length (map fst ?cs) = n"
  proof (rule ccontr)
    assume "length (map fst ?cs) \<noteq> n"
    then have "take n ?all = ?all" unfolding map_fst_candidates by simp
    then have "map fst ?cs = ?all" unfolding map_fst_candidates .
    then have "set (map fst ?cs) = set ?all" by (rule arg_cong)
    with assms(2,3,4) show False by (auto simp: taken_def)
  qed
  then show ?thesis
    using distinct_card [OF distinct_candidates [OF assms(1), of t cutoff n]] by (simp add: taken_def)
qed

lemma length_without_ids:
  assumes "distinct (map ob_ID rs)" and "V \<subseteq> ob_ID ` set rs"
  shows "length (filter (\<lambda>r. ob_ID r \<notin> V) rs) + card V = length rs"
proof -
  have "card V = length (filter (\<lambda>r. ob_ID r \<in> V) rs)"
  proof -
    have "V = set (map ob_ID (filter (\<lambda>r. ob_ID r \<in> V) rs))" using assms(2) by auto
    then have "card V = card (set (map ob_ID (filter (\<lambda>r. ob_ID r \<in> V) rs)))" by simp
    also have "\<dots> = length (filter (\<lambda>r. ob_ID r \<in> V) rs)"
      using distinct_card [OF distinct_map_filter [OF assms(1)]] by simp
    finally show ?thesis .
  qed
  then show ?thesis using sum_length_filter_compl [of "\<lambda>r. ob_ID r \<in> V" rs] by simp
qed

text \<open>What a claim returns and leaves.\<close>

lemma ClaimBatch_quiet:
  assumes "sched w = []" and "entropy w = Some i # es" and "distinct (map ob_ID (outbox (store w)))"
    and "\<And>r. r \<in> set (outbox (store w)) \<Longrightarrow> \<exists>a \<in> set (records (store w)). lg_ID a = ob_ID r"
    and "\<And>r. r \<in> set (outbox (store w)) \<Longrightarrow> ob_ClaimOwner r \<noteq> owner @ '':'' @ i"
  obtains t0 t1 rows w' where "clock w \<le> t0" "t0 \<le> t1" "ClaimBatch ctx owner n lease w = (Inr rows, w')"
    "cr_EventID ` set rows = taken t0 (t0 - lease) n (outbox (store w))"
    "store w' = put_outbox (update_where (\<lambda>r. ob_ID r \<in> taken t0 (t0 - lease) n (outbox (store w)))
        (set_claimed t1 (owner @ '':'' @ i)) (outbox (store w))) (store w)"
    "sched w' = []" "entropy w' = es" "clock w' = t1" "mailbox w' = mailbox w"
    "\<And>r. r \<in> set rows \<Longrightarrow> lg_ID (cr_Event r) = cr_EventID r"
proof -
  let ?rs = "outbox (store w)" and ?token = "owner @ '':'' @ i"
  obtain t0 w0 where n0: "now w = (Inr t0, w0)" "clock w \<le> t0" "clock w0 = t0" "store w0 = store w" "sched w0 = []"
    "mailbox w0 = mailbox w" "entropy w0 = Some i # es" using assms(1,2) by (simp add: now_def Let_def)
  obtain t1 w1 where n1: "now w0 = (Inr t1, w1)" "t0 \<le> t1" "clock w1 = t1" "store w1 = store w" "sched w1 = []"
    "mailbox w1 = mailbox w" "entropy w1 = Some i # es" using n0(3-7) by (simp add: now_def Let_def)
  let ?V = "taken t0 (t0 - lease) n ?rs" and ?cs = "outboxCandidates t0 (t0 - lease) n ?rs"
  let ?f = "set_claimed t1 ?token"
  let ?d = "put_outbox (update_where (\<lambda>r. ob_ID r \<in> ?V) ?f ?rs) (store w)"
  let ?w2 = "w1\<lparr>entropy := es\<rparr>"
  have later: "\<exists>r \<in> set ?rs. ob_ID r = j \<and> deliverable t1 (t0 - lease) r" if "j \<in> fst ` set ?cs" for j
    using taken_rows [of j t0 "t0 - lease" n ?rs] that n1(2) by (auto simp: taken_def deliverable_def intro: order_trans)
  have loop: "claim_loop ctx t1 ?token (t0 - lease) ?cs ?w2 = (Inr ?cs, ?w2\<lparr>store := ?d\<rparr>)"
    using claim_loop_quiet [of ?w2 ?cs t1 "t0 - lease" ctx ?token] distinct_candidates [OF assms(3)] later assms(3) n1
    by (simp add: taken_def)
  have claimed: "(\<lambda>ra. ob_ID (fst ra)) ` set (outboxClaimed ?token ?d) = ?V"
  proof -
    have "ob_ClaimOwner x = ?token \<longleftrightarrow> ob_ID x \<in> ?V" if "x \<in> set (outbox ?d)" for x
      using that assms(5) by (auto simp: set_update_where set_claimed_def)
    moreover have "ob_ID ` set (outbox ?d) = ob_ID ` set ?rs"
      using arg_cong [OF map_update_where [of "\<lambda>r. ob_ID r \<in> ?V" ob_ID ?f ?rs], of set] by simp
    ultimately show ?thesis
      using taken_rows [of _ t0 "t0 - lease" n ?rs] assms(4)
      by (fastforce simp: outboxClaimed_def image_iff)
  qed
  have joined: "lg_ID (snd ra) = ob_ID (fst ra)" if "ra \<in> set (outboxClaimed ?token ?d)" for ra
    using that by (auto simp: outboxClaimed_def)
  show thesis
  proof (cases "?cs = []")
    case True
    then have "?V = {}" by (simp add: taken_def)
    with True n0 n1 loop assms show thesis
      by (intro that [of t0 t1 "[]" ?w2])
         (simp_all add: ClaimBatch_def bnd_def Let_def query_quiet wrap_def draw_def ret_def update_where_id)
  next
    case False
    with n0 n1 loop assms claimed joined show thesis
      by (intro that [of t0 t1 "map (scanClaimedRow ?cs) (outboxClaimed ?token ?d)" "?w2\<lparr>store := ?d\<rparr>"])
         (auto simp: ClaimBatch_def bnd_def Let_def query_quiet wrap_def draw_def ret_def scanClaimedRow_def image_image)
  qed
qed

text \<open>The condition of a store whose obligations all have their record, and of a fresh claim token.\<close>

definition outbox_ok :: "outbox_db \<Rightarrow> bool" where
  "outbox_ok d \<longleftrightarrow> distinct (map ob_ID (outbox d)) \<and> (\<forall>r \<in> set (outbox d). \<exists>a \<in> set (records d). lg_ID a = ob_ID r)"

definition fresh_token :: "string \<Rightarrow> string \<Rightarrow> outbox_db \<Rightarrow> bool" where
  "fresh_token owner i d \<longleftrightarrow> (\<forall>r \<in> set (outbox d). ob_ClaimOwner r \<noteq> owner @ '':'' @ i)"

lemma outbox_ok_filter: "outbox_ok d \<Longrightarrow> outbox_ok (put_outbox (filter P (outbox d)) d)"
  by (auto simp: outbox_ok_def distinct_map_filter)

lemma filter_update_where: "(\<And>r. P r \<Longrightarrow> \<not> Q (f r)) \<Longrightarrow> (\<And>r. \<not> P r \<Longrightarrow> Q r) \<Longrightarrow>
  filter Q (update_where P f rows) = filter (\<lambda>r. \<not> P r) rows"
  by (induction rows) (auto simp: update_where_def)

lemma deliverable_later: "deliverable t (t - l) r \<Longrightarrow> t \<le> t' \<Longrightarrow> deliverable t' (t' - l) r"
  by (auto simp: deliverable_def lease_free_def split: option.splits)

lemma dispatch_pass:
  assumes w: "sched w = []" "entropy w = Some i # es" "outbox_ok (store w)" "fresh_token owner i (store w)"
    and s: "\<And>s. s \<in> set sinks \<Longrightarrow> accepts s"
  obtains c' w' V where "dispatchOnce p sinks ctx owner c w = (Inr c', w')"
    "store w' = put_outbox (filter (\<lambda>r. ob_ID r \<notin> V) (outbox (store w))) (store w)"
    "sched w' = []" "entropy w' = es" "clock w \<le> clock w'"
    "\<And>r. r \<in> set (outbox (store w)) \<Longrightarrow> deliverable (clock w) (clock w - p_claimLease p) r \<Longrightarrow> ob_ID r \<notin> V \<Longrightarrow>
       length (filter (\<lambda>r. ob_ID r \<notin> V) (outbox (store w))) + p_batchSize p = length (outbox (store w))"
    "set (mailbox w) \<subseteq> set (mailbox w')" "\<And>i. i \<in> V \<Longrightarrow> sinks \<noteq> [] \<Longrightarrow> delivered w' i"
proof -
  let ?rs = "outbox (store w)"
  obtain t0 t1 rows w1 where cl: "clock w \<le> t0" "t0 \<le> t1"
    "ClaimBatch ctx owner (p_batchSize p) (p_claimLease p) w = (Inr rows, w1)"
    "cr_EventID ` set rows = taken t0 (t0 - p_claimLease p) (p_batchSize p) ?rs"
    "store w1 = put_outbox (update_where (\<lambda>r. ob_ID r \<in> taken t0 (t0 - p_claimLease p) (p_batchSize p) ?rs)
        (set_claimed t1 (owner @ '':'' @ i)) ?rs) (store w)"
    "sched w1 = []" "entropy w1 = es" "clock w1 = t1" "mailbox w1 = mailbox w"
    "\<And>r. r \<in> set rows \<Longrightarrow> lg_ID (cr_Event r) = cr_EventID r"
    by (rule ClaimBatch_quiet [OF w(1,2), of owner ctx "p_batchSize p" "p_claimLease p"])
       (use w(3,4) in \<open>auto simp: outbox_ok_def fresh_token_def\<close>)
  let ?V = "cr_EventID ` set rows"
  have full: "length (filter (\<lambda>r. ob_ID r \<notin> ?V) ?rs) + p_batchSize p = length ?rs"
    if r: "r \<in> set ?rs" "deliverable (clock w) (clock w - p_claimLease p) r" "ob_ID r \<notin> ?V" for r
  proof -
    have "card ?V = p_batchSize p"
      using taken_full [of ?rs r t0 "t0 - p_claimLease p" "p_batchSize p"] r w(3) deliverable_later [OF r(2) cl(1)]
      by (simp add: cl(4) outbox_ok_def)
    moreover have "?V \<subseteq> ob_ID ` set ?rs" unfolding cl(4) using taken_rows by (blast intro: rev_image_eqI)
    ultimately show ?thesis using length_without_ids [of ?rs ?V] w(3) by (simp add: outbox_ok_def)
  qed
  show thesis
  proof (cases "rows = []")
    case True
    then have "store w1 = store w" using cl(4,5) by (simp add: update_where_id)
    with True cl full show thesis
      by (intro that [of c w1 ?V]) (auto simp: dispatchOnce_def bnd_def attempt_def ret_def)
  next
    case False
    let ?c = "if list_ex cr_Stolen rows then c\<lparr>deliveryDuplicated := deliveryDuplicated c + 1\<rparr> else c"
    obtain m ms where m: "fan_out (p_failureClosed p) sinks (map cr_Event rows) None w1
        = (Inr None, w1\<lparr>clock := clock w1 + int m, mailbox := mailbox w1 @ ms\<rparr>)"
      "sinks \<noteq> [] \<longrightarrow> receipt ` set (map cr_Event rows) \<subseteq> set ms" using fan_out_accepted [OF s] by blast
    let ?w2 = "w1\<lparr>clock := clock w1 + int m, mailbox := mailbox w1 @ ms\<rparr>"
    have got: "\<exists>x \<in> set ms. mail_code x = j" if j: "j \<in> ?V" "sinks \<noteq> []" for j
    proof -
      from j(1) obtain r where r: "r \<in> set rows" "j = cr_EventID r" by auto
      with m(2) j(2) have "receipt (cr_Event r) \<in> set ms" by auto
      then show ?thesis by (rule bexI [rotated]) (use cl(10) r in \<open>simp add: receipt_def\<close>)
    qed
    have left: "filter (\<lambda>r. ob_ID r \<notin> ?V) (outbox (store w1)) = filter (\<lambda>r. ob_ID r \<notin> ?V) ?rs"
      unfolding cl(5) by (simp add: cl(4)) (rule filter_update_where; simp)
    have "dispatchOnce p sinks ctx owner c w = settleBatch p ctx rows None ?c ?w2"
      using False cl(3) m(1) by (simp add: dispatchOnce_def bnd_def attempt_def Let_def)
    also have "\<dots> = (Inr ?c, ?w2\<lparr>store := put_outbox (filter (\<lambda>r. ob_ID r \<notin> ?V) (outbox (store w1))) (store w1)\<rparr>)"
      by (subst settle_accepted) (use cl(6) in simp_all)
    finally show thesis
      using cl(1,2,5-9) full left got
      by (intro that [of ?c "?w2\<lparr>store := put_outbox (filter (\<lambda>r. ob_ID r \<notin> ?V) ?rs) (store w)\<rparr>" ?V])
         (auto simp: delivered_def)
  qed
qed

lemma dispatch_passes:
  assumes "sched w = []" "entropy w = map Some toks @ es" "length toks = n" "outbox_ok (store w)"
    "\<And>i. i \<in> set toks \<Longrightarrow> fresh_token owner i (store w)" and s: "\<And>s. s \<in> set sinks \<Longrightarrow> accepts s"
  shows "\<exists>c' w'. dispatchLoop n p sinks ctx owner c w = (Inr c', w') \<and> records (store w') = records (store w) \<and>
    set (outbox (store w')) \<subseteq> set (outbox (store w)) \<and>
    (\<forall>r \<in> set (outbox (store w')). deliverable (clock w) (clock w - p_claimLease p) r \<longrightarrow>
       length (outbox (store w')) + n * p_batchSize p \<le> length (outbox (store w))) \<and> set (mailbox w) \<subseteq> set (mailbox w') \<and>
    (sinks \<noteq> [] \<longrightarrow> (\<forall>r \<in> set (outbox (store w)). r \<in> set (outbox (store w')) \<or> delivered w' (ob_ID r)))"
  using assms(1-5)
proof (induction n arbitrary: toks c w)
  case 0
  then show ?case by (simp add: ret_def)
next
  case (Suc n)
  then obtain i toks' where toks: "toks = i # toks'" "length toks' = n" by (cases toks) auto
  obtain c1 w1 V where d: "dispatchOnce p sinks ctx owner c w = (Inr c1, w1)"
    "store w1 = put_outbox (filter (\<lambda>r. ob_ID r \<notin> V) (outbox (store w))) (store w)"
    "sched w1 = []" "entropy w1 = map Some toks' @ es" "clock w \<le> clock w1"
    "\<And>r. r \<in> set (outbox (store w)) \<Longrightarrow> deliverable (clock w) (clock w - p_claimLease p) r \<Longrightarrow> ob_ID r \<notin> V \<Longrightarrow>
       length (filter (\<lambda>r. ob_ID r \<notin> V) (outbox (store w))) + p_batchSize p = length (outbox (store w))"
    "set (mailbox w) \<subseteq> set (mailbox w1)" "\<And>i. i \<in> V \<Longrightarrow> sinks \<noteq> [] \<Longrightarrow> delivered w1 i"
    by (rule dispatch_pass [of w i "map Some toks' @ es" owner sinks p ctx c])
       (use Suc.prems toks s in auto)
  have fr: "fresh_token owner j (store w1)" if "j \<in> set toks'" for j
    using Suc.prems(5) [of j] that toks by (auto simp: fresh_token_def d(2))
  obtain c' w' where r: "dispatchLoop n p sinks ctx owner c1 w1 = (Inr c', w')" "records (store w') = records (store w1)"
    "set (outbox (store w')) \<subseteq> set (outbox (store w1))"
    "\<And>r. r \<in> set (outbox (store w')) \<Longrightarrow> deliverable (clock w1) (clock w1 - p_claimLease p) r \<Longrightarrow>
       length (outbox (store w')) + n * p_batchSize p \<le> length (outbox (store w1))"
    "set (mailbox w1) \<subseteq> set (mailbox w')"
    "\<And>r. sinks \<noteq> [] \<Longrightarrow> r \<in> set (outbox (store w1)) \<Longrightarrow> r \<in> set (outbox (store w')) \<or> delivered w' (ob_ID r)"
    using Suc.IH [of w1 toks' c1] d(3,4) toks(2) outbox_ok_filter [OF Suc.prems(4)] fr unfolding d(2) by auto
  have "length (outbox (store w')) + Suc n * p_batchSize p \<le> length (outbox (store w))"
    if "r \<in> set (outbox (store w'))" "deliverable (clock w) (clock w - p_claimLease p) r" for r
    using r(4) [OF that(1) deliverable_later [OF that(2) d(5)]] d(6) [of r] that r(3) by (auto simp: d(2))
  moreover have "set (mailbox w) \<subseteq> set (mailbox w')" using d(7) r(5) by (rule subset_trans)
  moreover have "r \<in> set (outbox (store w')) \<or> delivered w' (ob_ID r)" if "sinks \<noteq> []" "r \<in> set (outbox (store w))" for r
  proof (cases "ob_ID r \<in> V")
    case True
    from d(8) [OF this that(1)] r(5) show ?thesis by (auto simp: delivered_def)
  next
    case False
    with that(2) have "r \<in> set (outbox (store w1))" by (simp add: d(2))
    from r(6) [OF that(1) this] show ?thesis .
  qed
  moreover have "records (store w') = records (store w)" "set (outbox (store w')) \<subseteq> set (outbox (store w))"
    using r(2,3) by (auto simp: d(2))
  moreover have "dispatchLoop (Suc n) p sinks ctx owner c w = (Inr c', w')" using d(1) r(1) by (simp add: bnd_def)
  ultimately show ?case by blast
qed

text \<open>C39: while the database answers and the sinks accept, every obligation that is due when the dispatcher
  starts has been handed to a sink and is gone after as many ticks as batches the queue fills, whatever
  else becomes due in between; no obligation goes undelivered, and the audit records stay.\<close>

theorem deliveries_drain:
  assumes "sched w = []" and "entropy w = map Some toks @ es" and "length toks = n"
    and "outbox_ok (store w)" and "\<And>i. i \<in> set toks \<Longrightarrow> fresh_token owner i (store w)"
    and "\<And>s. s \<in> set sinks \<Longrightarrow> accepts s"
    and "sinks \<noteq> []" and "length (outbox (store w)) \<le> n * p_batchSize p"
  shows "\<exists>c' w'. dispatchLoop n p sinks ctx owner c w = (Inr c', w') \<and> records (store w') = records (store w) \<and>
    set (outbox (store w')) \<subseteq> set (outbox (store w)) \<and>
    (\<forall>r \<in> set (outbox (store w)). r \<in> set (outbox (store w')) \<or> delivered w' (ob_ID r)) \<and>
    (\<forall>r \<in> set (outbox (store w')). \<not> deliverable (clock w) (clock w - p_claimLease p) r)"
proof -
  obtain c' w' where r: "dispatchLoop n p sinks ctx owner c w = (Inr c', w')" "records (store w') = records (store w)"
    "set (outbox (store w')) \<subseteq> set (outbox (store w))"
    "\<And>r. r \<in> set (outbox (store w')) \<Longrightarrow> deliverable (clock w) (clock w - p_claimLease p) r \<Longrightarrow>
       length (outbox (store w')) + n * p_batchSize p \<le> length (outbox (store w))"
    "\<And>r. r \<in> set (outbox (store w)) \<Longrightarrow> r \<in> set (outbox (store w')) \<or> delivered w' (ob_ID r)"
    using dispatch_passes [OF assms(1-4), of owner sinks p ctx c] assms(5-7) by blast
  have "\<not> deliverable (clock w) (clock w - p_claimLease p) r" if "r \<in> set (outbox (store w'))" for r
  proof
    assume "deliverable (clock w) (clock w - p_claimLease p) r"
    from r(4) [OF that this] assms(8) have "length (outbox (store w')) = 0" by linarith
    with that show False by simp
  qed
  with r show ?thesis by blast
qed

text \<open>Three due rows and one that is not, batches of two, a sink that takes a second.\<close>

definition outbox_row_ex :: "string \<Rightarrow> int \<Rightarrow> time \<Rightarrow> outbox_row" where
  "outbox_row_ex i priority t = \<lparr>ob_ID = i, ob_OrgID = None, ob_Priority = priority, ob_Attempts = 0, ob_NextAttemptAt = t,
     ob_ClaimedAt = None, ob_ClaimOwner = '''', ob_LastError = '''', ob_DeadLetteredAt = None, ob_CreatedAt = 0\<rparr>"

definition log_row_ex :: "string \<Rightarrow> log_row" where
  "log_row_ex i = \<lparr>lg_ID = i, lg_Type = ''login.failed'', lg_CreatedAt = 0\<rparr>"

definition outbox_db_ex :: outbox_db where
  "outbox_db_ex = \<lparr>outbox = [outbox_row_ex ''a'' 1 0, outbox_row_ex ''b'' 0 5, outbox_row_ex ''c'' 0 900, outbox_row_ex ''d'' 0 3],
     records = [log_row_ex ''a'', log_row_ex ''b'', log_row_ex ''c'', log_row_ex ''d'']\<rparr>"

definition outbox_world_ex :: "outbox_db world" where
  "outbox_world_ex = \<lparr>store = outbox_db_ex, sched = [], clock = 10, ticks = [], entropy = [Some ''t1'', Some ''t2''], mailbox = []\<rparr>"

definition slow_sink :: sink where
  "slow_sink ev = (\<lambda>w. (Inr (), w\<lparr>clock := clock w + int 1, mailbox := mailbox w @ map receipt ev\<rparr>))"

definition pipeline_ex :: pipeline where
  "pipeline_ex = \<lparr>p_failureClosed = False, p_batchSize = 2, p_maxAttempts = 1, p_claimLease = 600 * second,
     p_outboxMaxAge = 7 * 24 * hour, p_deadLetterTTL = 7 * 24 * hour, p_outboxMaxRows = 100000\<rparr>"

definition counters_ex :: counters where
  "counters_ex = \<lparr>deadLettered = 0, deliveryDropped = 0, pendingDropped = 0, deliveryOrphaned = 0, deliveryDuplicated = 0\<rparr>"

theorem deliveries_drain_witness:
  "\<exists>c' w'. dispatchLoop 2 pipeline_ex [slow_sink] request_ctx ''h'' counters_ex outbox_world_ex = (Inr c', w') \<and>
     delivered w' ''a'' \<and> delivered w' ''b'' \<and> delivered w' ''d''"
proof -
  let ?w = outbox_world_ex
  have acc: "accepts s" if "s \<in> set [slow_sink]" for s
    using that by (auto simp: accepts_def slow_sink_def intro: exI [of _ 1])
  have due: "deliverable 10 (10 - 600 * second) r"
    if "r \<in> {outbox_row_ex ''a'' 1 0, outbox_row_ex ''b'' 0 5, outbox_row_ex ''d'' 0 3}" for r
    using that by (auto simp: deliverable_def lease_free_def outbox_row_ex_def)
  have ok: "outbox_ok (store ?w)"
    by (simp add: outbox_world_ex_def outbox_db_ex_def outbox_ok_def outbox_row_ex_def log_row_ex_def)
  have fr: "fresh_token ''h'' i (store ?w)" for i
    by (simp add: outbox_world_ex_def outbox_db_ex_def fresh_token_def outbox_row_ex_def)
  have w: "sched ?w = []" "entropy ?w = map Some [''t1'', ''t2''] @ []" "length [''t1'', ''t2''] = 2" "[slow_sink] \<noteq> []"
    "length (outbox (store ?w)) \<le> 2 * p_batchSize pipeline_ex" "clock ?w = 10" "p_claimLease pipeline_ex = 600 * second"
    by (simp_all add: outbox_world_ex_def outbox_db_ex_def pipeline_ex_def)
  from deliveries_drain [OF w(1-3) ok fr acc w(4,5), of request_ctx counters_ex, unfolded w(6,7)]
  obtain c' w' where w': "dispatchLoop 2 pipeline_ex [slow_sink] request_ctx ''h'' counters_ex ?w = (Inr c', w')"
    "\<And>r. r \<in> set (outbox (store ?w)) \<Longrightarrow> r \<in> set (outbox (store w')) \<or> delivered w' (ob_ID r)"
    "\<And>r. r \<in> set (outbox (store w')) \<Longrightarrow> \<not> deliverable 10 (10 - 600 * second) r"
    by blast
  have "delivered w' (ob_ID r)" if "r \<in> {outbox_row_ex ''a'' 1 0, outbox_row_ex ''b'' 0 5, outbox_row_ex ''d'' 0 3}" for r
  proof -
    have "r \<in> set (outbox (store ?w))" using that by (auto simp: outbox_world_ex_def outbox_db_ex_def)
    with w'(2,3) due [OF that] show ?thesis by blast
  qed
  from this [of "outbox_row_ex ''a'' 1 0"] this [of "outbox_row_ex ''b'' 0 5"] this [of "outbox_row_ex ''d'' 0 3"]
  have "delivered w' ''a''" "delivered w' ''b''" "delivered w' ''d''" by (simp_all add: outbox_row_ex_def)
  with w'(1) show ?thesis by blast
qed

section \<open>The emergency valve\<close>

lemma deleteIDs_quiet:
  assumes "sched w = []" and "distinct ids" and "set ids \<subseteq> ob_ID ` set (outbox (store w))"
  shows "deleteIDs ctx ids n w = (Inr (n + length ids, None),
    w\<lparr>store := put_outbox (filter (\<lambda>r. ob_ID r \<notin> set ids) (outbox (store w))) (store w)\<rparr>)"
  using assms
proof (induction ids arbitrary: n w)
  case Nil
  then show ?case by (simp add: ret_def)
next
  case (Cons i ids)
  let ?rs = "outbox (store w)"
  have "count_where (with_id i) ?rs \<noteq> 0" unfolding count_where_0 using Cons.prems(3) by (auto simp: with_id_def)
  moreover have "set ids \<subseteq> ob_ID ` set (delete_where (with_id i) ?rs)"
    using Cons.prems(2,3) by (force simp: set_delete_where with_id_def)
  ultimately show ?case
    using Cons.prems(1,2) Cons.IH [of "w\<lparr>store := put_outbox (delete_where (with_id i) ?rs) (store w)\<rparr>" "Suc n"]
    by (simp add: bnd_def attempt_def stmt_quiet delete_where_def with_id_def conj_commute)
qed

lemma sorted_take_le:
  assumes "sorted (map f xs)" and "x \<in> set (take k xs)" and "y \<in> set (drop k xs)"
  shows "f x \<le> f y"
proof -
  have "sorted (map f (take k xs) @ map f (drop k xs))" using assms(1) by (simp flip: map_append)
  with assms(2,3) show ?thesis by (auto simp: sorted_append)
qed

abbreviation is_dead :: "outbox_row \<Rightarrow> bool" where
  "is_dead r \<equiv> ob_DeadLetteredAt r \<noteq> None"

lemma dead_candidates:
  assumes "distinct (map ob_ID rs)"
  shows "distinct (evict_dead_candidates k rs)" "set (evict_dead_candidates k rs) \<subseteq> ob_ID ` set (filter is_dead rs)"
    "length (evict_dead_candidates k rs) = min k (length (filter is_dead rs))"
proof -
  let ?l = "sort_key (\<lambda>r. the (ob_DeadLetteredAt r)) (sort_key ob_ID (filter is_dead rs))"
  have "distinct (map ob_ID ?l)" using distinct_map_filter [OF assms, of is_dead] by (simp add: distinct_map)
  then show "distinct (evict_dead_candidates k rs)" unfolding evict_dead_candidates_def by (rule distinct_take)
  show "set (evict_dead_candidates k rs) \<subseteq> ob_ID ` set (filter is_dead rs)"
    unfolding evict_dead_candidates_def by (rule subset_trans [OF set_take_subset]) simp
  show "length (evict_dead_candidates k rs) = min k (length (filter is_dead rs))"
    by (simp add: evict_dead_candidates_def)
qed

lemma old_candidates:
  assumes "distinct (map ob_ID rs)"
  shows "distinct (evict_candidates k rs)" "set (evict_candidates k rs) \<subseteq> ob_ID ` set rs"
    "length (evict_candidates k rs) = min k (length rs)"
    "\<And>r q. r \<in> set rs \<Longrightarrow> q \<in> set rs \<Longrightarrow> ob_ID r \<in> set (evict_candidates k rs) \<Longrightarrow> ob_ID q \<notin> set (evict_candidates k rs) \<Longrightarrow>
       ob_CreatedAt r \<le> ob_CreatedAt q"
proof -
  let ?l = "sort_key ob_CreatedAt (sort_key ob_ID rs)"
  have d: "distinct (map ob_ID ?l)" using assms by (simp add: distinct_map)
  then show "distinct (evict_candidates k rs)" unfolding evict_candidates_def by (rule distinct_take)
  show "set (evict_candidates k rs) \<subseteq> ob_ID ` set rs"
    unfolding evict_candidates_def by (rule subset_trans [OF set_take_subset]) simp
  show "length (evict_candidates k rs) = min k (length rs)" by (simp add: evict_candidates_def)
  fix r q assume r: "r \<in> set rs" "ob_ID r \<in> set (evict_candidates k rs)" and q: "q \<in> set rs" "ob_ID q \<notin> set (evict_candidates k rs)"
  have "r \<in> set (take k ?l)"
  proof -
    obtain x where x: "x \<in> set (take k ?l)" "ob_ID x = ob_ID r" using r(2) by (auto simp: evict_candidates_def take_map)
    then have "x \<in> set rs" by (auto dest: in_set_takeD)
    from keyed_unique [OF assms this r(1) x(2)] x(1) show ?thesis by simp
  qed
  moreover have "q \<in> set (drop k ?l)"
  proof -
    have "q \<in> set (take k ?l @ drop k ?l)" using q(1) by simp
    with q(2) show ?thesis unfolding set_append by (auto simp: evict_candidates_def take_map)
  qed
  ultimately show "ob_CreatedAt r \<le> ob_CreatedAt q" by (intro sorted_take_le [of ob_CreatedAt ?l]) simp_all
qed

text \<open>The emergency valve brings the outbox down to its cap exactly: it counts what it removes, sheds no
  pending obligation while a dead-lettered one is left, sheds the oldest pending ones first, and never
  touches a record.\<close>

theorem evict_over_cap:
  assumes "sched w = []" and "distinct (map ob_ID (outbox (store w)))"
  shows "\<exists>evicted pend w'. EvictOverCap ctx m w = (Inr (evicted, pend, None), w') \<and> records (store w') = records (store w) \<and>
    set (outbox (store w')) \<subseteq> set (outbox (store w)) \<and>
    length (outbox (store w')) = min m (length (outbox (store w))) \<and>
    length (outbox (store w)) = length (outbox (store w')) + evicted \<and>
    length (filter (\<lambda>r. \<not> is_dead r) (outbox (store w))) = length (filter (\<lambda>r. \<not> is_dead r) (outbox (store w'))) + pend \<and>
    (0 < pend \<longrightarrow> (\<forall>q \<in> set (outbox (store w')). \<not> is_dead q \<and>
       (\<forall>r \<in> set (outbox (store w)) - set (outbox (store w')). \<not> is_dead r \<longrightarrow> ob_CreatedAt r \<le> ob_CreatedAt q)))"
proof -
  let ?rs = "outbox (store w)"
  let ?k = "length ?rs - m"
  let ?dead = "filter is_dead ?rs" and ?live = "filter (\<lambda>r. \<not> is_dead r) ?rs"
  let ?ids = "evict_dead_candidates ?k ?rs"
  let ?rs1 = "filter (\<lambda>r. ob_ID r \<notin> set ?ids) ?rs"
  let ?w1 = "w\<lparr>store := put_outbox ?rs1 (store w)\<rparr>"
  note dc = dead_candidates [OF assms(2), of ?k]
  have split: "length ?dead + length ?live = length ?rs" by (rule sum_length_filter_compl)
  have sub: "set ?ids \<subseteq> ob_ID ` set ?rs" using dc(2) by auto
  have del: "deleteIDs ctx ?ids 0 w = (Inr (length ?ids, None), ?w1)"
    using deleteIDs_quiet [OF assms(1) dc(1) sub, of ctx 0] by simp
  have len1: "length ?rs1 + length ?ids = length ?rs"
    using length_without_ids [OF assms(2) sub] distinct_card [OF dc(1)] by simp
  have only_dead: "is_dead r" if r: "ob_ID r \<in> set ?ids" "r \<in> set ?rs" for r
  proof -
    from r(1) dc(2) obtain q where "q \<in> set ?rs" "is_dead q" "ob_ID r = ob_ID q" by auto
    with keyed_unique [OF assms(2) r(2)] show ?thesis by blast
  qed
  have live1: "filter (\<lambda>r. \<not> is_dead r) ?rs1 = ?live"
    unfolding filter_filter by (rule filter_cong) (use only_dead in blast)+
  consider "length ?rs \<le> m" | "m < length ?rs" "?k \<le> length ?dead" | "m < length ?rs" "length ?dead < ?k" by linarith
  then show ?thesis
  proof cases
    case 1
    then show ?thesis using assms(1)
      by (intro exI [of _ 0] exI [of _ w])
         (simp add: EvictOverCap_def bnd_def attempt_def query_quiet ret_def)
  next
    case 2
    then have n: "length ?ids = ?k" using dc(3) by simp
    have "EvictOverCap ctx m w = (Inr (?k, 0, None), ?w1)"
      using assms(1) 2(1) del n by (simp add: EvictOverCap_def bnd_def attempt_def query_quiet ret_def Let_def)
    with 2 len1 live1 n show ?thesis by (intro exI [of _ ?k] exI [of _ 0] exI [of _ ?w1]) auto
  next
    case 3
    then have n: "length ?ids = length ?dead" using dc(3) by simp
    have all_dead: "set ?ids = ob_ID ` set ?dead"
      by (rule card_subset_eq [OF _ dc(2)])
         (use n distinct_card [OF dc(1)] distinct_card [OF distinct_map_filter [OF assms(2), of is_dead]] in simp_all)
    have rs1: "?rs1 = ?live"
    proof (rule filter_cong [OF refl])
      fix r assume r: "r \<in> set ?rs"
      show "(ob_ID r \<notin> set ?ids) = (\<not> is_dead r)"
        using only_dead [OF _ r] r unfolding all_dead by auto
    qed
    let ?j = "?k - length ?dead"
    let ?old = "evict_candidates ?j ?rs1"
    have d1: "distinct (map ob_ID ?rs1)" using assms(2) by (rule distinct_map_filter)
    note oc = old_candidates [OF d1, where k = ?j]
    let ?rs2 = "filter (\<lambda>r. ob_ID r \<notin> set ?old) ?rs1"
    let ?w2 = "w\<lparr>store := put_outbox ?rs2 (store w)\<rparr>"
    have jle: "?j \<le> length ?rs1" using 3 rs1 split by simp
    then have n2: "length ?old = ?j" using oc(3) by simp
    have del2: "deleteIDs ctx ?old 0 ?w1 = (Inr (?j, None), ?w2)"
      using deleteIDs_quiet [of ?w1 ?old ctx 0] assms(1) oc(1,2) n2 by simp
    have len2: "length ?rs2 + ?j = length ?rs1"
      using length_without_ids [OF d1 oc(2)] distinct_card [OF oc(1)] n2 by simp
    have run: "EvictOverCap ctx m w = (Inr (length ?dead + ?j, ?j, None), ?w2)"
      using assms(1) 3 del del2 n by (simp add: EvictOverCap_def bnd_def attempt_def query_quiet ret_def Let_def)
    have live2: "filter (\<lambda>r. \<not> is_dead r) ?rs2 = ?rs2" unfolding rs1 by (rule filter_True) auto
    have order: "ob_CreatedAt r \<le> ob_CreatedAt q"
      if "q \<in> set ?rs2" "r \<in> set ?rs" "r \<notin> set ?rs2" "\<not> is_dead r" for q r
    proof -
      have "r \<in> set ?rs1" using that(2,4) rs1 by simp
      with that(1,3) oc(4) [of r q] show ?thesis by simp
    qed
    have none_dead: "\<not> is_dead q" if "q \<in> set ?rs2" for q using that unfolding rs1 by auto
    have counts: "length ?rs2 = min m (length ?rs)" "length ?rs = length ?rs2 + (length ?dead + ?j)"
      "length ?live = length ?rs2 + ?j" using len2 split 3 rs1 by auto
    have sub2: "set ?rs2 \<subseteq> set ?rs" by auto
    have st: "outbox (store ?w2) = ?rs2" "records (store ?w2) = records (store w)" by simp_all
    show ?thesis
    proof (intro exI conjI impI ballI)
      show "EvictOverCap ctx m w = (Inr (length ?dead + ?j, ?j, None), ?w2)" by (rule run)
      show "records (store ?w2) = records (store w)" by (rule st)
      show "set (outbox (store ?w2)) \<subseteq> set ?rs" unfolding st by (rule sub2)
      show "length (outbox (store ?w2)) = min m (length ?rs)" unfolding st by (rule counts)
      show "length ?rs = length (outbox (store ?w2)) + (length ?dead + ?j)" unfolding st by (rule counts)
      show "length ?live = length (filter (\<lambda>r. \<not> is_dead r) (outbox (store ?w2))) + ?j"
        unfolding st live2 by (rule counts)
      show "\<not> is_dead q" if "q \<in> set (outbox (store ?w2))" for q using that unfolding st by (rule none_dead)
      show "ob_CreatedAt r \<le> ob_CreatedAt q" if "q \<in> set (outbox (store ?w2))" "r \<in> set ?rs - set (outbox (store ?w2))"
        "\<not> is_dead r" for q r
        using that unfolding st by (intro order) simp_all
    qed
  qed
qed

theorem evict_over_cap_witness:
  "\<exists>w'. EvictOverCap request_ctx 2 (outbox_world_ex\<lparr>store := outbox_db_ex\<lparr>outbox := (outbox (store outbox_world_ex))[0 := (outbox_row_ex ''a'' 1 0)\<lparr>ob_DeadLetteredAt := Some 4\<rparr>]\<rparr>\<rparr>)
     = (Inr (2, 1, None), w') \<and> length (outbox (store w')) = 2"
proof -
  let ?d = "outbox_db_ex\<lparr>outbox := (outbox (store outbox_world_ex))[0 := (outbox_row_ex ''a'' 1 0)\<lparr>ob_DeadLetteredAt := Some 4\<rparr>]\<rparr>"
  let ?w = "outbox_world_ex\<lparr>store := ?d\<rparr>"
  have s: "sched ?w = []" by (simp add: outbox_world_ex_def)
  have d: "distinct (map ob_ID (outbox (store ?w)))" by (simp add: outbox_world_ex_def outbox_db_ex_def outbox_row_ex_def)
  have n: "length (outbox (store ?w)) = 4" "length (filter (\<lambda>r. \<not> is_dead r) (outbox (store ?w))) = 3"
    by (simp_all add: outbox_world_ex_def outbox_db_ex_def outbox_row_ex_def)
  obtain ev pend w' where r: "EvictOverCap request_ctx 2 ?w = (Inr (ev, pend, None), w')"
    "length (outbox (store w')) = 2" "4 = length (outbox (store w')) + ev"
    "3 = length (filter (\<lambda>r. \<not> is_dead r) (outbox (store w'))) + pend"
    "0 < pend \<longrightarrow> (\<forall>q \<in> set (outbox (store w')). \<not> is_dead q)"
    using evict_over_cap [OF s d, of request_ctx 2] unfolding n by auto
  have le: "length (filter (\<lambda>r. \<not> is_dead r) (outbox (store w'))) \<le> 2" using r(2) length_filter_le by metis
  with r(4) have "0 < pend" by linarith
  with r(5) have "filter (\<lambda>r. \<not> is_dead r) (outbox (store w')) = outbox (store w')" by (intro filter_True) auto
  with r(2,3,4) have "ev = 2" "pend = 1" by auto
  with r(1,2) show ?thesis by blast
qed

section \<open>Retention and obligations\<close>

lemma wrap64_le: "- (2 ^ 63) \<le> x \<Longrightarrow> wrap64 x \<le> x"
  by (simp add: wrap64_def signed_take_bit_int_less_eq_self_iff)

lemma cutoff_after: "c + second \<le> t \<Longrightarrow> c < cutoffStr t"
proof -
  assume h: "c + second \<le> t"
  have "t - t mod second = cutoffStr t" by (simp add: cutoffStr_def minus_mod_eq_div_mult)
  moreover have "t mod second < second" by simp
  ultimately show ?thesis using h by linarith
qed

text \<open>What a validated configuration gives: a record may be deleted only after every obligation for it that
  is still pending, or was dead-lettered within the retry window of its creation, is due for the sweep.\<close>

lemma validated_clocks:
  assumes "audit_ValidateConfig cfg sinks = None" and "0 < sc_RetentionDays (defaultConfig cfg)"
  shows "sc_OutboxMaxAge (defaultConfig cfg) < sc_RetentionDays (defaultConfig cfg) * (24 * hour)"
    "wrap64 (retryWindowFor (nat (sc_MaxAttempts (defaultConfig cfg))) + sc_DeadLetterTTL (defaultConfig cfg))
       < sc_RetentionDays (defaultConfig cfg) * (24 * hour)"
proof -
  have pos: "0 \<le> sc_RetentionDays (defaultConfig cfg) * (24 * hour)"
    using assms(2) by (intro mult_nonneg_nonneg) (simp_all add: less_imp_le)
  have "wrap64 (sc_RetentionDays (defaultConfig cfg) * (24 * hour)) \<le> sc_RetentionDays (defaultConfig cfg) * (24 * hour)"
    by (rule wrap64_le, rule order_trans [OF _ pos]) simp
  with assms show "sc_OutboxMaxAge (defaultConfig cfg) < sc_RetentionDays (defaultConfig cfg) * (24 * hour)"
    "wrap64 (retryWindowFor (nat (sc_MaxAttempts (defaultConfig cfg))) + sc_DeadLetterTTL (defaultConfig cfg))
       < sc_RetentionDays (defaultConfig cfg) * (24 * hour)"
    by (auto simp: audit_ValidateConfig_def Let_def split: if_splits option.splits)
qed

text \<open>A validated configuration keeps obligations shorter than records, as long as deliveries are given up
  within the retry window: one second after a record may be deleted, its obligation falls to the sweep.\<close>

theorem retention_outlives_obligations:
  assumes "audit_ValidateConfig cfg sinks = None" and "cfg' = defaultConfig cfg" and "0 < sc_RetentionDays cfg'"
    and "retryWindowFor (nat (sc_MaxAttempts cfg')) + sc_DeadLetterTTL cfg' < 2 ^ 63"
    and "0 \<le> retryWindowFor (nat (sc_MaxAttempts cfg'))"
    and "case ob_DeadLetteredAt r of None \<Rightarrow> True
         | Some t \<Rightarrow> t \<le> ob_CreatedAt r + retryWindowFor (nat (sc_MaxAttempts cfg'))"
    and "ob_CreatedAt r + sc_RetentionDays cfg' * (24 * hour) + second \<le> t"
  shows "stale_pending (cutoffStr (t - sc_OutboxMaxAge cfg')) r \<or> stale_dead (cutoffStr (t - sc_DeadLetterTTL cfg')) r"
proof -
  note v = validated_clocks [OF assms(1), folded assms(2), OF assms(3)]
  have ttl: "0 \<le> sc_DeadLetterTTL cfg'"
    using assms(1-3) by (auto simp: audit_ValidateConfig_def Let_def split: if_splits option.splits)
  then have "wrap64 (retryWindowFor (nat (sc_MaxAttempts cfg')) + sc_DeadLetterTTL cfg')
      = retryWindowFor (nat (sc_MaxAttempts cfg')) + sc_DeadLetterTTL cfg'"
    using assms(4,5) by (simp add: wrap64_def signed_take_bit_int_eq_self)
  with v(2) have w: "retryWindowFor (nat (sc_MaxAttempts cfg')) + sc_DeadLetterTTL cfg' < sc_RetentionDays cfg' * (24 * hour)"
    by simp
  show ?thesis
  proof (cases "ob_DeadLetteredAt r")
    case None
    with v(1) assms(7) show ?thesis by (auto simp: stale_pending_def intro!: cutoff_after)
  next
    case (Some u)
    with w assms(6,7) show ?thesis by (auto simp: stale_dead_def intro!: cutoff_after)
  qed
qed

definition retention_config_ex :: service_config where
  "retention_config_ex = \<lparr>sc_Workers = 0, sc_BatchSize = 0, sc_FlushInterval = 0, sc_RetentionDays = 8, sc_MaxAttempts = 1,
     sc_ClaimLease = 0, sc_OutboxMaxAge = 0, sc_DeadLetterTTL = 0, sc_OutboxMaxRows = 0\<rparr>"

lemma wrap64_small: "- (2 ^ 63) \<le> x \<Longrightarrow> x < 2 ^ 63 \<Longrightarrow> wrap64 x = x"
  by (simp add: wrap64_def signed_take_bit_int_eq_self)

lemma retention_config_valid: "audit_ValidateConfig retention_config_ex [] = None"
  by (simp add: audit_ValidateConfig_def retention_config_ex_def defaultConfig_def Let_def wrap64_small nextBackoff_def
      retryBaseBackoff_def retryMaxBackoff_def defaultClaimLease_def minClaimLease_def hour_def minute_def second_def)

lemma retention_config_defaults:
  "sc_MaxAttempts (defaultConfig retention_config_ex) = 1" "sc_RetentionDays (defaultConfig retention_config_ex) = 8"
  "sc_DeadLetterTTL (defaultConfig retention_config_ex) = 7 * 24 * hour"
  "sc_OutboxMaxAge (defaultConfig retention_config_ex) = 7 * 24 * hour"
  by (simp_all add: retention_config_ex_def defaultConfig_def)

theorem retention_outlives_obligations_witness:
  "stale_pending (cutoffStr (8 * (24 * hour) + second - 7 * 24 * hour)) (outbox_row_ex ''a'' 0 0) \<or>
   stale_dead (cutoffStr (8 * (24 * hour) + second - 7 * 24 * hour)) (outbox_row_ex ''a'' 0 0)"
  using retention_outlives_obligations [OF retention_config_valid refl, of "outbox_row_ex ''a'' 0 0" "8 * (24 * hour) + second"]
  by (simp add: retention_config_defaults wrap64_small nextBackoff_def retryBaseBackoff_def retryMaxBackoff_def
      hour_def minute_def second_def outbox_row_ex_def)

text \<open>The retry window counts only the delays between attempts, so a dispatcher that was down for six days
  gives up on the seventh. The record is deleted after eight days, the dead letter is kept until the
  fourteenth, and the orphan scan reports it as a broken invariant.\<close>

definition broken_sink :: sink where
  "broken_sink ev = fail (Sentinel ''connection refused'')"

definition late_outage :: "pipeline \<Rightarrow> counters outbox_action" where
  "late_outage p =
     bnd (dispatchOnce p [broken_sink] request_ctx ''h'' counters_ex) (\<lambda>c1.
     bnd (Cleanup request_ctx 8) (\<lambda>n.
     bnd (janitorOnce p request_ctx c1) (\<lambda>c2. orphan_scan request_ctx c2)))"

definition six_days_late :: "outbox_db world" where
  "six_days_late = \<lparr>store = \<lparr>outbox = [outbox_row_ex ''a'' 0 0], records = [log_row_ex ''a'']\<rparr>, sched = [],
     clock = 6 * 24 * hour, ticks = [0, 0, 0, nat (2 * 24 * hour + second), 0], entropy = [Some ''t1''], mailbox = []\<rparr>"


end
