(* ===== verification/Encryptor.thy ===== *)
theory Encryptor
  imports Base64 Effects
begin

text \<open>
  \<open>internal/crypto/encryptor.go\<close>: private authentication data is stored as the base64 form of a nonce
  followed by its AES-256-GCM ciphertext. The cipher of the standard library is an argument, a pair of
  functions of key and nonce; what the code relies on is \<open>cipher_ok\<close>.
\<close>

record aead =
  gcm_Seal :: "string \<Rightarrow> string \<Rightarrow> string \<Rightarrow> string"
  gcm_Open :: "string \<Rightarrow> string \<Rightarrow> string \<Rightarrow> string option"

text \<open>Opening what was sealed under the same key and nonce gives the text, and nothing else opens.\<close>

definition cipher_ok :: "aead \<Rightarrow> bool" where
  "cipher_ok c \<longleftrightarrow> (\<forall>k n x y. gcm_Open c k n y = Some x \<longleftrightarrow> y = gcm_Seal c k n x)"

record encryptor =
  en_cipher :: aead
  en_key :: string

definition NewEncryptor :: "aead \<Rightarrow> string \<Rightarrow> go_err + encryptor" where
  "NewEncryptor c key =
     (if length key \<noteq> 32 then Inl (Sentinel ''encryptor: key must be 32 bytes for AES-256'')
      else Inr \<lparr>en_cipher = c, en_key = key\<rparr>)"

definition nonceSize :: nat where
  "nonceSize = 12"

text \<open>A nonce is read from \<open>crypto/rand\<close>: the first twelve bytes of the value drawn, fewer are a failed read.\<close>

definition Encrypt :: "encryptor \<Rightarrow> string \<Rightarrow> ('db, string) prog" where
  "Encrypt e plaintext =
     bnd (wrap ''encryptor: nonce'' (bnd draw (\<lambda>r. if length r < nonceSize then fail ErrRandom else ret (take nonceSize r)))) (\<lambda>nonce.
     ret (EncodeToString StdEncoding (nonce @ gcm_Seal (en_cipher e) (en_key e) nonce plaintext)))"

definition Decrypt :: "encryptor \<Rightarrow> string \<Rightarrow> go_err + string" where
  "Decrypt e encoded = (case DecodeString StdEncoding encoded of
       None \<Rightarrow> Inl (Sentinel ''encryptor: decode'')
     | Some data \<Rightarrow>
         if length data < nonceSize then Inl (Sentinel ''encryptor: ciphertext too short'')
         else (case gcm_Open (en_cipher e) (en_key e) (take nonceSize data) (drop nonceSize data) of
             None \<Rightarrow> Inl (Sentinel ''encryptor: decrypt'')
           | Some pt \<Rightarrow> Inr pt))"

lemma local_Encrypt [locals]: "local_prog (Encrypt e p)"
  unfolding Encrypt_def by (auto intro!: locals)

lemma Encrypt_result:
  assumes "Encrypt e p w = (Inr c, w')"
  shows "\<exists>nonce. length nonce = nonceSize \<and> c = EncodeToString StdEncoding (nonce @ gcm_Seal (en_cipher e) (en_key e) nonce p)"
  using assms unfolding Encrypt_def
  by (auto simp: bnd_def wrap_def draw_def ret_def fail_def split: list.splits option.splits if_splits
      intro!: exI [of _ "take nonceSize _"])

lemma std_alphabet_good: "good_alphabet (b_alphabet StdEncoding)"
  by (simp add: StdEncoding_def)

text \<open>C33: what is encrypted decrypts to the same bytes, and only what this key sealed decrypts at all: a stored
  value that decrypts is, after base64, a nonce with the sealed text of the result.\<close>

theorem encryptor_roundtrip:
  assumes "cipher_ok (en_cipher e)"
  shows "(\<forall>w c w'. Encrypt e p w = (Inr c, w') \<longrightarrow> Decrypt e c = Inr p) \<and>
    (\<forall>s q. Decrypt e s = Inr q \<longrightarrow> (\<exists>nonce. length nonce = nonceSize \<and>
       DecodeString StdEncoding s = Some (nonce @ gcm_Seal (en_cipher e) (en_key e) nonce q)))"
proof (intro conjI allI impI)
  fix w c w' assume "Encrypt e p w = (Inr c, w')"
  then obtain nonce where n: "length nonce = nonceSize"
    "c = EncodeToString StdEncoding (nonce @ gcm_Seal (en_cipher e) (en_key e) nonce p)" using Encrypt_result by blast
  have "gcm_Open (en_cipher e) (en_key e) nonce (gcm_Seal (en_cipher e) (en_key e) nonce p) = Some p"
    using assms by (simp add: cipher_ok_def)
  with n show "Decrypt e c = Inr p" by (simp add: Decrypt_def Decode_Encode [OF std_alphabet_good])
next
  fix s q assume "Decrypt e s = Inr q"
  then obtain data where d: "DecodeString StdEncoding s = Some data" "nonceSize \<le> length data"
    "gcm_Open (en_cipher e) (en_key e) (take nonceSize data) (drop nonceSize data) = Some q"
    by (auto simp: Decrypt_def split: option.splits if_splits)
  from d(3) assms have "drop nonceSize data = gcm_Seal (en_cipher e) (en_key e) (take nonceSize data) q"
    by (simp add: cipher_ok_def)
  then have "take nonceSize data @ gcm_Seal (en_cipher e) (en_key e) (take nonceSize data) q = data"
    by (metis append_take_drop_id)
  with d(1,2) show "\<exists>nonce. length nonce = nonceSize \<and>
      DecodeString StdEncoding s = Some (nonce @ gcm_Seal (en_cipher e) (en_key e) nonce q)"
    by (intro exI [of _ "take nonceSize data"]) simp
qed

text \<open>A cipher that prefixes key and nonce.\<close>

definition prefix_cipher :: aead where
  "prefix_cipher = \<lparr>gcm_Seal = (\<lambda>k n p. (k @ n) @ p),
     gcm_Open = (\<lambda>k n y. if take (length (k @ n)) y = k @ n then Some (drop (length (k @ n)) y) else None)\<rparr>"

lemma prefix_cipher_ok: "cipher_ok prefix_cipher"
proof -
  have eq: "take (length p) y = p \<and> drop (length p) y = x \<longleftrightarrow> y = p @ x" for p x y :: string
    by (metis append_eq_conv_conj)
  have "gcm_Open prefix_cipher k n y = Some x \<longleftrightarrow> y = gcm_Seal prefix_cipher k n x" for k n x y
    using eq [of "k @ n" y x] unfolding prefix_cipher_def
    by (simp del: append_assoc length_append split: if_split) blast
  then show ?thesis unfolding cipher_ok_def by blast
qed

definition encryptor_ex :: encryptor where
  "encryptor_ex = \<lparr>en_cipher = prefix_cipher, en_key = replicate 32 (CHR ''k'')\<rparr>"

theorem encryptor_roundtrip_witness:
  "\<exists>c. fst (Encrypt encryptor_ex ''token'' \<lparr>store = (), sched = [], clock = 0, ticks = [], entropy = [Some ''0123456789ab''], mailbox = []\<rparr>)
     = Inr c \<and> Decrypt encryptor_ex c = Inr ''token''"
proof -
  let ?w = "\<lparr>store = (), sched = [], clock = 0, ticks = [], entropy = [Some ''0123456789ab''], mailbox = []\<rparr> :: unit world"
  have ok: "cipher_ok (en_cipher encryptor_ex)" by (simp add: encryptor_ex_def prefix_cipher_ok)
  obtain c w' where r: "Encrypt encryptor_ex ''token'' ?w = (Inr c, w')"
    by (simp add: Encrypt_def bnd_def wrap_def draw_def ret_def nonceSize_def)
  moreover from encryptor_roundtrip [OF ok, of "''token''"] r have "Decrypt encryptor_ex c = Inr ''token''" by blast
  ultimately show ?thesis by simp
qed

end
