(* ===== verification/OAuth.thy ===== *)
theory OAuth
  imports Invites Encryptor
begin

text \<open>
  \<open>internal/service/oauth.go\<close>, \<open>oauth_link.go\<close> and \<open>oauth_invite.go\<close>: signing in with, linking and
  unlinking identities of external providers, over \<open>internal/sqlstore/provider_account_repo.go\<close>. A provider
  is an argument: the address it sends browsers to, and what it makes of the reply of its token endpoint.
  The JSON form of a profile and \<open>strings.EqualFold\<close> are arguments too. Application roles are the fixed
  ones and the second-factor service is wired.
\<close>

section \<open>Provider accounts\<close>

definition nullIfEmpty :: "string \<Rightarrow> string option" where
  "nullIfEmpty s = (if s = '''' then None else Some s)"

definition prov_Create :: "ctx \<Rightarrow> provider_account \<Rightarrow> unit action" where
  "prov_Create ctx pa = stmt ctx (\<lambda>d.
     if list_ex (\<lambda>x. pa_ID x = pa_ID pa \<or> (pa_Provider x = pa_Provider pa \<and> pa_ProviderUserID x = pa_ProviderUserID pa)) (providers d)
     then (Inl ErrDuplicateKey, d)
     else if \<not> list_ex (user_id_is (pa_UserID pa)) (users d) then (Inl ErrDatabase, d)
     else (Inr (), put_providers (providers d @ [pa]) d))"

definition identity_is :: "string \<Rightarrow> string \<Rightarrow> provider_account \<Rightarrow> bool" where
  "identity_is provider i pa \<longleftrightarrow> pa_Provider pa = provider \<and> pa_ProviderUserID pa = i"

text \<open>A stored credential that does not decrypt is returned as it is.\<close>

definition decrypt_stored :: "encryptor option \<Rightarrow> string \<Rightarrow> string" where
  "decrypt_stored dec s = (case dec of
       None \<Rightarrow> s
     | Some e \<Rightarrow> if s = '''' then s else (case Decrypt e s of Inl _ \<Rightarrow> s | Inr t \<Rightarrow> t))"

definition decrypt_account :: "encryptor option \<Rightarrow> provider_account \<Rightarrow> provider_account" where
  "decrypt_account dec pa = pa\<lparr>pa_AccessToken := map_option (decrypt_stored dec) (pa_AccessToken pa),
     pa_RefreshToken := map_option (decrypt_stored dec) (pa_RefreshToken pa)\<rparr>"

definition GetByProvider :: "encryptor option \<Rightarrow> ctx \<Rightarrow> string \<Rightarrow> string \<Rightarrow> provider_account option action" where
  "GetByProvider dec ctx provider providerUserID =
     query ctx (\<lambda>d. map_option (decrypt_account dec) (select1 (identity_is provider providerUserID) (providers d)))"

definition prov_ListByUserID :: "encryptor option \<Rightarrow> ctx \<Rightarrow> string \<Rightarrow> provider_account list action" where
  "prov_ListByUserID dec ctx userID =
     query ctx (\<lambda>d. map (decrypt_account dec) (sort_key pa_CreatedAt (filter (\<lambda>p. pa_UserID p = userID) (providers d))))"

definition prov_Delete :: "ctx \<Rightarrow> string \<Rightarrow> string \<Rightarrow> unit action" where
  "prov_Delete ctx userID provider =
     exec ctx (\<lambda>d. put_providers (delete_where (\<lambda>p. pa_UserID p = userID \<and> pa_Provider p = provider) (providers d)) d)"

text \<open>A self-assigning update: it takes the write locks of the rows.\<close>

definition LockByUserID :: "ctx \<Rightarrow> string \<Rightarrow> unit action" where
  "LockByUserID ctx userID = exec ctx (\<lambda>d. put_providers (update_where (\<lambda>p. pa_UserID p = userID) (\<lambda>p. p) (providers d)) d)"

section \<open>The service\<close>

record oauth_profile =
  op_Provider :: string
  op_ProviderUserID :: string
  op_Email :: string
  op_EmailVerified :: bool
  op_Name :: string
  op_AvatarURL :: string
  op_AccessToken :: string
  op_RefreshToken :: string
  op_TokenExpiresAt :: "time option"

text \<open>\<open>AuthURL\<close> from state and challenge; \<open>Exchange\<close> from code, verifier and the reply of the network.\<close>

record oauth_provider =
  pv_AuthURL :: "string \<Rightarrow> string \<Rightarrow> string"
  pv_Exchange :: "string \<Rightarrow> string \<Rightarrow> string \<Rightarrow> go_err + oauth_profile option"

record oauth_service =
  oa_auth :: auth_service
  oa_providers :: "(string \<times> oauth_provider) list"
  oa_OAuth :: bool
  oa_InviteSignup :: bool
  oa_invites :: bool
  oa_encryptor :: "encryptor option"
  oa_marshal :: "oauth_profile \<Rightarrow> go_err + string"
  oa_unmarshal :: "string \<Rightarrow> go_err + oauth_profile"
  oa_fold_eq :: "string \<Rightarrow> string \<Rightarrow> bool"

record oauth_initiation =
  oi_URL :: string
  oi_State :: string

record callback_input =
  ci_Provider :: string
  ci_Code :: string
  ci_State :: string
  ci_BrowserState :: string
  ci_SessionToken :: string
  ci_IP :: string
  ci_UserAgent :: string

text \<open>The results; the flags say whether the account is new.\<close>

datatype oauth_result =
    OLinked
  | OVerify bool string
  | OTwoFactor bool challenge_result
  | OSession bool session_result
  | OInviteVerify string time string

definition oauth_event :: "string \<Rightarrow> string \<Rightarrow> string \<Rightarrow> audit_event" where
  "oauth_event typ userID provider = \<lparr>e_Type = typ, e_Actor = userID, e_Ref = provider\<rparr>"

abbreviation invalid_state :: go_err where
  "invalid_state \<equiv> NewError ''invalid_state'' ''Invalid or expired OAuth state''"

abbreviation state_expired :: go_err where
  "state_expired \<equiv> NewError ''state_expired'' ''OAuth state token has expired''"

abbreviation unauthorized :: go_err where
  "unauthorized \<equiv> NewError ''unauthorized'' ''Authentication required''"

abbreviation provider_error :: go_err where
  "provider_error \<equiv> NewError ''provider_error'' ''Failed to authenticate with provider''"

definition generateStateToken :: "string action" where
  "generateStateToken = draw"

definition generateCodeVerifier :: "string action" where
  "generateCodeVerifier = bnd draw (\<lambda>b. ret (EncodeToString RawURLEncoding b))"

definition codeChallengeS256 :: "string \<Rightarrow> string" where
  "codeChallengeS256 verifier = EncodeToString RawURLEncoding (sha256 verifier)"

definition getProvider :: "oauth_service \<Rightarrow> string \<Rightarrow> oauth_provider action" where
  "getProvider svc name = (case map_of (oa_providers svc) name of None \<Rightarrow> fail ErrProviderNotFound | Some p \<Rightarrow> ret p)"

definition state_token :: "string \<Rightarrow> string option \<Rightarrow> string \<Rightarrow> string \<Rightarrow> string \<Rightarrow> string \<Rightarrow> time \<Rightarrow> token" where
  "state_token i userID address provider stateRaw verifier t =
     \<lparr>t_ID = i, t_UserID = userID, t_Email = address, t_TokenHash = hashToken stateRaw, t_Type = TokenOAuthState,
      t_ExpiresAt = t + 10 * minute, t_UsedAt = None, t_CreatedAt = 0, t_CodeVerifier = Some verifier, t_Attempts = 0,
      t_ResendCount = 0, t_ContextHash = hashToken provider, t_EncryptedPayload = ''''\<rparr>"

definition seal_invite :: "oauth_service \<Rightarrow> string \<Rightarrow> string action" where
  "seal_invite svc inviteHash = (if inviteHash = '''' then ret ''''
     else case oa_encryptor svc of None \<Rightarrow> fail ErrInternal | Some e \<Rightarrow> Encrypt e inviteHash)"

definition initiate :: "oauth_service \<Rightarrow> ctx \<Rightarrow> string \<Rightarrow> string \<Rightarrow> oauth_initiation action" where
  "initiate svc ctx providerName inviteHash =
     (if cf_OAuthAuthenticationDisabled (au_config (oa_auth svc)) then fail ErrMethodDisabled
      else bnd (getProvider svc providerName) (\<lambda>p.
        bnd generateStateToken (\<lambda>st. let stateRaw = Bind (current_scope ctx) st in
        bnd now (\<lambda>t.
        bnd (internal generateCodeVerifier) (\<lambda>verifier.
        bnd generateID (\<lambda>i.
        bnd (seal_invite svc inviteHash) (\<lambda>payload.
        seq (internal (tok_Create ctx ((state_token i None '''' providerName stateRaw verifier t)\<lparr>t_EncryptedPayload := payload\<rparr>)))
            (ret \<lparr>oi_URL = pv_AuthURL p stateRaw (codeChallengeS256 verifier), oi_State = stateRaw\<rparr>))))))))"

definition Initiate :: "oauth_service \<Rightarrow> ctx \<Rightarrow> string \<Rightarrow> oauth_initiation action" where
  "Initiate svc ctx providerName = initiate svc ctx providerName ''''"

definition InitiateLink :: "oauth_service \<Rightarrow> ctx \<Rightarrow> string \<Rightarrow> string \<Rightarrow> string \<Rightarrow> oauth_initiation action" where
  "InitiateLink svc ctx provider userID sessionTokenHash =
     (if cf_OAuthAuthenticationDisabled (au_config (oa_auth svc)) then fail ErrMethodDisabled
      else bnd (getProvider svc provider) (\<lambda>p.
        if userID = '''' \<or> sessionTokenHash = '''' then fail unauthorized
        else bnd generateStateToken (\<lambda>st. let stateRaw = Bind (current_scope ctx) st in
        bnd now (\<lambda>t.
        bnd (internal generateCodeVerifier) (\<lambda>verifier.
        bnd generateID (\<lambda>i.
        seq (internal (tok_Create ctx (state_token i (Some userID) sessionTokenHash provider stateRaw verifier t)))
            (ret \<lparr>oi_URL = pv_AuthURL p stateRaw (codeChallengeS256 verifier), oi_State = stateRaw\<rparr>)))))))"

section \<open>Creating accounts and links\<close>

definition sealed :: "oauth_service \<Rightarrow> string \<Rightarrow> string action" where
  "sealed svc s = (case oa_encryptor svc of
       None \<Rightarrow> ret s
     | Some e \<Rightarrow> if s = '''' then ret s else internal (Encrypt e s))"

definition new_account :: "string \<Rightarrow> string \<Rightarrow> oauth_profile \<Rightarrow> string \<Rightarrow> string \<Rightarrow> time \<Rightarrow> provider_account" where
  "new_account i userID info accessToken refreshToken t =
     \<lparr>pa_ID = i, pa_UserID = userID, pa_Provider = op_Provider info, pa_ProviderUserID = op_ProviderUserID info,
      pa_ProviderEmail = op_Email info, pa_ProviderName = op_Name info, pa_AvatarURL = op_AvatarURL info,
      pa_AccessToken = nullIfEmpty accessToken, pa_RefreshToken = nullIfEmpty refreshToken,
      pa_TokenExpiresAt = op_TokenExpiresAt info, pa_CreatedAt = t, pa_UpdatedAt = t\<rparr>"

definition createProviderAccount :: "oauth_service \<Rightarrow> ctx \<Rightarrow> string \<Rightarrow> oauth_profile \<Rightarrow> provider_account action" where
  "createProviderAccount svc ctx userID info =
     bnd (sealed svc (op_AccessToken info)) (\<lambda>accessToken.
     bnd (sealed svc (op_RefreshToken info)) (\<lambda>refreshToken.
     bnd now (\<lambda>t. bnd generateID (\<lambda>i.
       let pa = new_account i userID info accessToken refreshToken t in
       bnd (attempt (prov_Create ctx pa)) (\<lambda>r. case r of
         Inl e \<Rightarrow> fail (if errors_is e ErrDuplicateKey then ErrProviderAccountExists else ErrInternal)
       | Inr _ \<Rightarrow> ret pa)))))"

definition oauth_user :: "string \<Rightarrow> oauth_profile \<Rightarrow> bool \<Rightarrow> time \<Rightarrow> user" where
  "oauth_user i info twoFactor t =
     \<lparr>u_ID = i, u_Email = op_Email info, u_PasswordHash = None, u_PepperVersion = None, u_Name = op_Name info,
      u_Role = ''user'', u_IsVerified = op_EmailVerified info,
      u_VerifiedAt = (if op_EmailVerified info then Some t else None), u_IsBanned = False, u_BannedAt = None,
      u_TwoFactorEnabled = twoFactor, u_LastLoginAt = None, u_OrgOwnerCount = 0, u_CreatedAt = t, u_UpdatedAt = t\<rparr>"

definition oauth_account_tx :: "oauth_service \<Rightarrow> ctx \<Rightarrow> user \<Rightarrow> oauth_profile \<Rightarrow> invite option \<Rightarrow> unit action" where
  "oauth_account_tx svc tx newUser info invitation =
     bnd (attempt (usr_Create tx newUser)) (\<lambda>r. case r of
       Inl e \<Rightarrow> fail (if errors_is e ErrDuplicateKey then ErrEmailAlreadyExists else ErrInternal)
     | Inr _ \<Rightarrow>
         seq (case invitation of
                None \<Rightarrow> ret ()
              | Some v \<Rightarrow> bnd now (\<lambda>t. bnd (inv_ClaimInvite tx (i_Code v) t) (\<lambda>claimed. reject_if (\<not> claimed) ErrInviteAlreadyUsed)))
         (bnd (createProviderAccount svc tx (u_ID newUser) info) (\<lambda>_.
            publish (au_audit (oa_auth svc)) tx (user_event ''user.registered'' (u_ID newUser)))))"

definition createOAuthAccount :: "oauth_service \<Rightarrow> ctx \<Rightarrow> oauth_profile \<Rightarrow> invite option \<Rightarrow> user action" where
  "createOAuthAccount svc ctx info invitation =
     (if \<not> au_emailOK (oa_auth svc) (op_Email info) then fail provider_error
      else bnd (wrap ''oauth callback: look up email'' (GetByEmail ctx (op_Email info))) (\<lambda>existing. case existing of
        Some _ \<Rightarrow> fail ErrEmailAlreadyExists
      | None \<Rightarrow>
          bnd now (\<lambda>t. bnd generateID (\<lambda>i.
          let newUser = oauth_user i info (cf_DefaultTwoFactorEnabled (au_config (oa_auth svc))) t in
          seq (WithTx ctx (\<lambda>tx. oauth_account_tx svc tx newUser info invitation)) (ret newUser)))))"

section \<open>Completing a login\<close>

text \<open>The callers set \<open>IsNewUser\<close> of the result exactly when they pass \<open>newAccount\<close>.\<close>

datatype login_step = NeedsVerification | NeedsTwoFactor | Created session_result

definition oauth_login_tx :: "oauth_service \<Rightarrow> ctx \<Rightarrow> ctx \<Rightarrow> string \<Rightarrow> string \<Rightarrow> string \<Rightarrow> string \<Rightarrow> bool \<Rightarrow> (user \<times> login_step) action" where
  "oauth_login_tx svc ctx tx userID provider ip userAgent newAccount =
     (let au = oa_auth svc; cf = au_config au in
      bnd (GetByIDForUpdate (au_sqlite au) tx userID) (\<lambda>found. case found of
        None \<Rightarrow> fail ErrUserNotFound
      | Some cur \<Rightarrow>
          if u_IsBanned cur then fail ErrUserBanned
          else if current_scope ctx = Admin \<and> u_Role cur \<noteq> ''admin'' then fail ErrInvalidCredentials
          else if cf_RequireEmailVerification cf \<and> \<not> u_IsVerified cur then ret (cur, NeedsVerification)
          else if Enforce cf (Some cur) \<and> \<not> (newAccount \<and> \<not> cf_RequireEmail2FA cf) then ret (cur, NeedsTwoFactor)
          else bnd (Create (au_sessions au) tx (u_ID cur) ip userAgent) (\<lambda>res.
            seq (publish (au_audit au) tx (oauth_event ''oauth.login'' (u_ID cur) provider)) (ret (cur, Created res)))))"

definition completeOAuthLogin ::
  "oauth_service \<Rightarrow> ctx \<Rightarrow> string \<Rightarrow> string \<Rightarrow> string \<Rightarrow> string \<Rightarrow> bool \<Rightarrow> oauth_result action" where
  "completeOAuthLogin svc ctx userID provider ip userAgent newAccount =
     bnd (WithTx ctx (\<lambda>tx. oauth_login_tx svc ctx tx userID provider ip userAgent newAccount)) (\<lambda>(cur, step). case step of
       NeedsVerification \<Rightarrow> bnd (SendVerification (oa_auth svc) ctx cur) (\<lambda>_. ret (OVerify newAccount (u_Email cur)))
     | NeedsTwoFactor \<Rightarrow> bnd (challengeWithOAuth (oa_auth svc) ctx (u_ID cur)) (\<lambda>c. ret (OTwoFactor newAccount c))
     | Created res \<Rightarrow> ret (OSession newAccount res))"

definition registerOAuth :: "oauth_service \<Rightarrow> ctx \<Rightarrow> callback_input \<Rightarrow> oauth_profile \<Rightarrow> invite option \<Rightarrow> oauth_result action" where
  "registerOAuth svc ctx inp info invitation =
     bnd (createOAuthAccount svc ctx info invitation) (\<lambda>newUser.
       if cf_RequireEmailVerification (au_config (oa_auth svc)) \<and> \<not> u_IsVerified newUser
       then bnd (SendVerification (oa_auth svc) ctx newUser) (\<lambda>_. ret (OVerify True (u_Email newUser)))
       else completeOAuthLogin svc ctx (u_ID newUser) (ci_Provider inp) (ci_IP inp) (ci_UserAgent inp) True)"

section \<open>The callback\<close>

text \<open>Everything before the exchange: the state belongs to this browser and provider, is unused and
  unexpired, and a state that links belongs to the user of the very session that presents it. The result is
  the state and the session that links.\<close>

definition link_session :: "oauth_service \<Rightarrow> ctx \<Rightarrow> callback_input \<Rightarrow> token \<Rightarrow> string option action" where
  "link_session svc ctx inp tok = (case t_UserID tok of
       None \<Rightarrow> ret None
     | Some userID \<Rightarrow>
         if ci_SessionToken inp = '''' \<or> t_Email tok = '''' \<or> hashToken (ci_SessionToken inp) \<noteq> t_Email tok then fail unauthorized
         else bnd (attempt (ValidateWithUser (au_sessions (oa_auth svc)) ctx (ci_SessionToken inp))) (\<lambda>r. case r of
           Inl e \<Rightarrow> fail (if isSessionValidationRejection e then unauthorized
                          else Wrapf ''oauth callback: validate linking session'' [e])
         | Inr None \<Rightarrow> fail unauthorized
         | Inr (Some (s, user)) \<Rightarrow>
             if u_ID user \<noteq> userID then fail unauthorized
             else if u_IsBanned user then fail ErrUserBanned
             else if cf_RequireEmailVerification (au_config (oa_auth svc)) \<and> \<not> u_IsVerified user then fail ErrEmailNotVerified
             else ret (Some (s_ID s))))"

definition callback_state :: "oauth_service \<Rightarrow> ctx \<Rightarrow> callback_input \<Rightarrow> token action" where
  "callback_state svc ctx0 inp =
     (if ci_State inp = '''' \<or> ci_State inp \<noteq> ci_BrowserState inp then fail invalid_state
      else bnd (wrap ''oauth callback: look up state'' (GetByHash ctx0 (hashToken (ci_State inp)))) (\<lambda>found. case found of
        None \<Rightarrow> fail invalid_state
      | Some tok \<Rightarrow>
          if t_Type tok \<noteq> TokenOAuthState then fail invalid_state
          else if t_ContextHash tok \<noteq> '''' \<and> t_ContextHash tok \<noteq> hashToken (ci_Provider inp) then fail ErrInvalidCredentials
          else if t_UsedAt tok \<noteq> None then fail ErrOAuthStateUsed
          else bnd now (\<lambda>t. if t_ExpiresAt tok < t then fail state_expired else ret tok)))"

definition claim_state :: "ctx \<Rightarrow> token \<Rightarrow> unit action" where
  "claim_state ctx tok = bnd (internal (MarkUsedIfUnused ctx (t_ID tok))) (\<lambda>claimed. reject_if (\<not> claimed) ErrOAuthStateUsed)"

definition exchange :: "oauth_service \<Rightarrow> oauth_provider \<Rightarrow> callback_input \<Rightarrow> token \<Rightarrow> oauth_profile action" where
  "exchange svc p inp tok =
     bnd (attempt draw) (\<lambda>reply. case reply of Inl e \<Rightarrow> fail provider_error | Inr net \<Rightarrow>
       (case pv_Exchange p (ci_Code inp) (case t_CodeVerifier tok of None \<Rightarrow> '''' | Some v \<Rightarrow> v) net of
          Inl e \<Rightarrow> fail provider_error
        | Inr None \<Rightarrow> fail provider_error
        | Inr (Some info) \<Rightarrow>
            if op_Provider info \<noteq> ci_Provider inp \<or> au_trim (oa_auth svc) (op_ProviderUserID info) = '''' then fail provider_error
            else ret (info\<lparr>op_Email := au_lower (oa_auth svc) (au_trim (oa_auth svc) (op_Email info))\<rparr>)))"

definition pendingInvite :: "oauth_service \<Rightarrow> ctx \<Rightarrow> string \<Rightarrow> invite action" where
  "pendingInvite svc ctx codeHash =
     (if \<not> oa_InviteSignup svc \<or> \<not> oa_OAuth svc \<or> cf_OAuthAuthenticationDisabled (au_config (oa_auth svc)) then fail ErrMethodDisabled
      else if \<not> oa_invites svc then fail ErrInternal
      else bnd (wrap ''oauth invitation: lookup'' (GetByCode ctx codeHash)) (\<lambda>found. case found of
        None \<Rightarrow> fail ErrInviteNotFound
      | Some v \<Rightarrow>
          if i_Status v \<noteq> InvitePending then fail ErrInviteAlreadyUsed
          else bnd now (\<lambda>t. if \<not> t < i_ExpiresAt v then fail ErrInviteExpired else ret v)))"

definition callback_invite :: "oauth_service \<Rightarrow> ctx \<Rightarrow> token \<Rightarrow> oauth_profile \<Rightarrow> invite option action" where
  "callback_invite svc ctx tok info =
     (if t_EncryptedPayload tok = '''' then ret None
      else if current_scope ctx = Admin then fail ErrInvalidCredentials
      else case oa_encryptor svc of None \<Rightarrow> fail ErrInvalidCredentials | Some e \<Rightarrow>
        (case Decrypt e (t_EncryptedPayload tok) of
           Inl _ \<Rightarrow> fail ErrInvalidCredentials
         | Inr inviteHash \<Rightarrow>
             bnd (pendingInvite svc ctx inviteHash) (\<lambda>v.
               if \<not> oa_fold_eq svc (au_trim (oa_auth svc) (op_Email info)) (i_Email v) then fail ErrInvalidEmail else ret (Some v))))"

text \<open>Locking user, session and state again, and adding the identity, in one transaction.\<close>

definition link_tx :: "oauth_service \<Rightarrow> callback_input \<Rightarrow> token \<Rightarrow> string \<Rightarrow> string \<Rightarrow> oauth_profile \<Rightarrow> ctx \<Rightarrow> unit action" where
  "link_tx svc inp tok userID sessionID profile tx =
     (let au = oa_auth svc; tokenHash = hashToken (ci_SessionToken inp) in
      bnd (wrap ''oauth link: lock user'' (GetByIDForUpdate (au_sqlite au) tx userID)) (\<lambda>found. case found of
        None \<Rightarrow> fail unauthorized
      | Some user \<Rightarrow>
          if u_IsBanned user then fail ErrUserBanned
          else if cf_RequireEmailVerification (au_config au) \<and> \<not> u_IsVerified user then fail ErrEmailNotVerified
          else bnd (wrap ''oauth link: lock session'' (LockByID tx sessionID)) (\<lambda>so. case so of
            None \<Rightarrow> fail unauthorized
          | Some s \<Rightarrow>
              if s_UserID s \<noteq> u_ID user \<or> \<not> Matches (c_scope tx) (ci_SessionToken inp) \<or> s_TokenHash s \<noteq> tokenHash then fail unauthorized
              else bnd (attempt (checkSession (au_sessions au) (Some s))) (\<lambda>ok. case ok of
                Inl e \<Rightarrow> fail unauthorized
              | Inr _ \<Rightarrow>
                  bnd (wrap ''oauth link: reload state'' (tok_GetByID tx (t_ID tok))) (\<lambda>again. case again of
                    None \<Rightarrow> fail invalid_state
                  | Some c \<Rightarrow>
                      if t_Type c \<noteq> TokenOAuthState \<or> t_UserID c \<noteq> Some (u_ID user) \<or> t_UsedAt c = None \<or>
                         t_TokenHash c \<noteq> t_TokenHash tok \<or> t_Email c \<noteq> tokenHash \<or>
                         (t_ContextHash c \<noteq> '''' \<and> t_ContextHash c \<noteq> hashToken (ci_Provider inp)) then fail invalid_state
                      else bnd now (\<lambda>t. if \<not> t < t_ExpiresAt c then fail state_expired
                        else bnd (createProviderAccount svc tx (u_ID user) profile) (\<lambda>_. ret ())))))))"

definition finalizeLink :: "oauth_service \<Rightarrow> ctx \<Rightarrow> callback_input \<Rightarrow> token \<Rightarrow> string \<Rightarrow> string \<Rightarrow> oauth_profile \<Rightarrow> unit action" where
  "finalizeLink svc ctx inp tok userID sessionID profile = WithTx ctx (link_tx svc inp tok userID sessionID profile)"

definition callback_link ::
  "oauth_service \<Rightarrow> ctx \<Rightarrow> callback_input \<Rightarrow> token \<Rightarrow> string \<Rightarrow> string \<Rightarrow> oauth_profile \<Rightarrow> provider_account option \<Rightarrow> oauth_result action" where
  "callback_link svc ctx inp tok userID sessionID info existing = (case existing of
       Some pa \<Rightarrow> fail (if pa_UserID pa = userID
                        then NewError ''already_linked'' ''This provider is already linked to your account'' else ErrProviderAccountExists)
     | None \<Rightarrow>
         seq (finalizeLink svc ctx inp tok userID sessionID info)
         (bnd (attempt (publish (au_audit (oa_auth svc)) ctx (oauth_event ''oauth.linked'' userID (ci_Provider inp)))) (\<lambda>_. ret OLinked)))"

text \<open>The address is marked verified when the provider vouches for the address of the account.\<close>

definition provider_verified :: "ctx \<Rightarrow> user \<Rightarrow> oauth_profile \<Rightarrow> user action" where
  "provider_verified ctx user info =
     (if op_EmailVerified info \<and> op_Email info = u_Email user \<and> \<not> u_IsVerified user
      then bnd now (\<lambda>t. bnd (attempt (verifyUserEmail ctx user (op_Email info) t)) (\<lambda>r. case r of
             Inr True \<Rightarrow> ret (user\<lparr>u_IsVerified := True, u_VerifiedAt := Some t, u_UpdatedAt := t\<rparr>)
           | _ \<Rightarrow> fail ErrInternal))
      else ret user)"

definition callback_login :: "oauth_service \<Rightarrow> ctx \<Rightarrow> callback_input \<Rightarrow> oauth_profile \<Rightarrow> provider_account \<Rightarrow> oauth_result action" where
  "callback_login svc ctx inp info pa =
     bnd (attempt (usr_GetByID ctx (pa_UserID pa))) (\<lambda>found. case found of
       Inr (Some user) \<Rightarrow>
         if u_IsBanned user then fail ErrUserBanned
         else if current_scope ctx = Admin \<and> u_Role user \<noteq> ''admin'' then fail ErrInvalidCredentials
         else bnd (provider_verified ctx user info) (\<lambda>user'.
           if cf_RequireEmailVerification (au_config (oa_auth svc)) \<and> \<not> u_IsVerified user'
           then bnd (SendVerification (oa_auth svc) ctx user') (\<lambda>_. ret (OVerify False (u_Email user')))
           else completeOAuthLogin svc ctx (u_ID user') (ci_Provider inp) (ci_IP inp) (ci_UserAgent inp) False)
     | _ \<Rightarrow> fail ErrInternal)"

definition twoFactor_ttl :: "config \<Rightarrow> duration" where
  "twoFactor_ttl cf = (if cf_VerificationCodeTTL cf \<le> 0 then 15 * minute else cf_VerificationCodeTTL cf)"

definition invite_proof :: "string \<Rightarrow> invite \<Rightarrow> string \<Rightarrow> string \<Rightarrow> time \<Rightarrow> time \<Rightarrow> token" where
  "invite_proof i v h payload t expires =
     \<lparr>t_ID = i, t_UserID = None, t_Email = i_Email v, t_TokenHash = h, t_Type = TokenInviteVerify, t_ExpiresAt = expires,
      t_UsedAt = None, t_CreatedAt = t, t_CodeVerifier = None, t_Attempts = 0, t_ResendCount = 0, t_ContextHash = i_Code v,
      t_EncryptedPayload = payload\<rparr>"

definition sendInviteVerification :: "oauth_service \<Rightarrow> ctx \<Rightarrow> string \<Rightarrow> string \<Rightarrow> unit action" where
  "sendInviteVerification svc ctx address code =
     (if \<not> au_mailer (oa_auth svc) then fail ErrEmailNotConfigured
      else bnd (Render (email address ''verification'' code)) (\<lambda>m. send_mail ctx m))"

definition prepareInviteVerification :: "oauth_service \<Rightarrow> ctx \<Rightarrow> oauth_profile \<Rightarrow> invite \<Rightarrow> oauth_result action" where
  "prepareInviteVerification svc ctx info v =
     (let cf = au_config (oa_auth svc) in
      case oa_encryptor svc of None \<Rightarrow> fail ErrInternal | Some e \<Rightarrow>
      if cf_OTPPepper cf = '''' then fail ErrInternal
      else (case oa_marshal svc info of Inl err \<Rightarrow> fail err | Inr data \<Rightarrow>
        bnd (Encrypt e data) (\<lambda>payload.
        bnd (GenerateNumeric twoFactorCodeLength) (\<lambda>raw.
        bnd now (\<lambda>t.
        let expires = (if i_ExpiresAt v < t + twoFactor_ttl cf then i_ExpiresAt v else t + twoFactor_ttl cf) in
        bnd generateID (\<lambda>i.
        let tok = invite_proof i v (hashOTP raw (cf_OTPPepper cf)) payload t expires in
        seq (tok_Create ctx tok)
        (bnd (attempt (sendInviteVerification svc ctx (i_Email v) raw)) (\<lambda>s. case s of
           Inl err \<Rightarrow> bnd (attempt (discardUndeliveredToken ctx i)) (\<lambda>c. case c of
               Inl cleanup \<Rightarrow> fail (Wrapf ''oauth invite delivery cleanup'' [cleanup])
             | Inr _ \<Rightarrow> fail err)
         | Inr _ \<Rightarrow> ret (OInviteVerify i expires (bindingToken cf (''oauth-invite.'' @ i)))))))))))"

text \<open>The end of \<open>Callback\<close>: the identity signs in where it is linked, else it registers.\<close>

definition callback_identity ::
  "oauth_service \<Rightarrow> ctx \<Rightarrow> callback_input \<Rightarrow> oauth_profile \<Rightarrow> invite option \<Rightarrow> provider_account option \<Rightarrow> oauth_result action" where
  "callback_identity svc ctx inp info invitation existing = (case existing of
       Some pa \<Rightarrow> callback_login svc ctx inp info pa
     | None \<Rightarrow>
         if current_scope ctx = Admin then fail ErrInvalidCredentials
         else if \<not> oa_OAuth svc then fail ErrMethodDisabled
         else (case invitation of
             Some v \<Rightarrow> if \<not> op_EmailVerified info then prepareInviteVerification svc ctx info v
                       else registerOAuth svc ctx inp info invitation
           | None \<Rightarrow> if cf_InviteOnly (au_config (oa_auth svc)) then fail ErrForbidden else registerOAuth svc ctx inp info None))"

definition callback_exchanged ::
  "oauth_service \<Rightarrow> ctx \<Rightarrow> callback_input \<Rightarrow> token \<Rightarrow> string option \<Rightarrow> oauth_profile \<Rightarrow> oauth_result action" where
  "callback_exchanged svc ctx inp tok linking info =
     bnd (callback_invite svc ctx tok info) (\<lambda>invitation.
     bnd (internal (GetByProvider (oa_encryptor svc) ctx (ci_Provider inp) (op_ProviderUserID info))) (\<lambda>existing.
     case (t_UserID tok, linking) of
       (Some userID, Some sessionID) \<Rightarrow> callback_link svc ctx inp tok userID sessionID info existing
     | _ \<Rightarrow> callback_identity svc ctx inp info invitation existing))"

definition Callback :: "oauth_service \<Rightarrow> ctx \<Rightarrow> callback_input \<Rightarrow> oauth_result action" where
  "Callback svc ctx0 inp =
     (if cf_OAuthAuthenticationDisabled (au_config (oa_auth svc)) then fail ErrMethodDisabled
      else bnd (getProvider svc (ci_Provider inp)) (\<lambda>p.
        bnd (callback_state svc ctx0 inp) (\<lambda>tok. let ctx = select_scope ctx0 (Of (ci_State inp)) in
        bnd (link_session svc ctx inp tok) (\<lambda>linking.
        seq (claim_state ctx tok)
        (bnd (exchange svc p inp tok) (\<lambda>info. callback_exchanged svc ctx inp tok linking info))))))"

section \<open>Invited sign-ups and unlinking\<close>

definition InitiateInvite :: "oauth_service \<Rightarrow> ctx \<Rightarrow> string \<Rightarrow> string \<Rightarrow> oauth_initiation action" where
  "InitiateInvite svc ctx provider inviteToken =
     (if current_scope ctx = Admin then fail ErrInvalidSessionContext
      else if inviteToken = '''' then fail ErrInviteNotFound
      else bnd (pendingInvite svc ctx (hashToken inviteToken)) (\<lambda>v. initiate svc ctx provider (i_Code v)))"

definition proof_input :: "token \<Rightarrow> time \<Rightarrow> consume_input" where
  "proof_input tok t = \<lparr>c_ID = t_ID tok, c_TokenHash = t_TokenHash tok, c_UserID = '''', c_Type = t_Type tok, c_UsedAt = t\<rparr>"

definition invite_account_tx :: "oauth_service \<Rightarrow> token \<Rightarrow> oauth_profile \<Rightarrow> invite \<Rightarrow> ctx \<Rightarrow> user action" where
  "invite_account_tx svc tok info v tx =
     bnd now (\<lambda>t. bnd (ConsumeIfValidUnderCap tx (proof_input tok t) maxAttemptsPerChallenge) (\<lambda>claimed.
       if \<not> claimed then fail ErrVerificationCodeInvalid else createOAuthAccount svc tx info (Some v)))"

definition proof_live :: "config \<Rightarrow> token \<Rightarrow> time \<Rightarrow> bool" where
  "proof_live cf tok t \<longleftrightarrow> t_Type tok = TokenInviteVerify \<and> t_UserID tok = None \<and> t_UsedAt tok = None \<and> t < t_ExpiresAt tok \<and>
     \<not> stalePepper (t_CreatedAt tok) (cf_SecretRotatedAt cf)"

definition VerifyInviteEmail :: "oauth_service \<Rightarrow> ctx \<Rightarrow> string \<Rightarrow> string \<Rightarrow> string \<Rightarrow> string \<Rightarrow> string \<Rightarrow> oauth_result action" where
  "VerifyInviteEmail svc ctx challengeID binding code ip userAgent =
     (let cf = au_config (oa_auth svc) in
      if current_scope ctx = Admin then fail ErrInvalidSessionContext
      else if cf_OAuthAuthenticationDisabled cf \<or> \<not> oa_OAuth svc \<or> \<not> oa_InviteSignup svc then fail ErrMethodDisabled
      else case oa_encryptor svc of None \<Rightarrow> fail ErrInternal | Some e \<Rightarrow>
      if \<not> checkBinding cf (''oauth-invite.'' @ challengeID) binding then fail ErrVerificationCodeInvalid
      else bnd (tok_GetByID ctx challengeID) (\<lambda>found. case found of
        None \<Rightarrow> fail ErrVerificationCodeInvalid
      | Some tok \<Rightarrow> bnd now (\<lambda>t.
          if \<not> proof_live cf tok t then fail ErrVerificationCodeInvalid
          else if \<not> verifyOTP code (t_TokenHash tok) (cf_OTPPepper cf)
          then bnd (IncrementAttempts ctx (t_ID tok) maxAttemptsPerChallenge) (\<lambda>_. fail ErrVerificationCodeInvalid)
          else bnd (pendingInvite svc ctx (t_ContextHash tok)) (\<lambda>v.
            case Decrypt e (t_EncryptedPayload tok) of Inl _ \<Rightarrow> fail ErrVerificationCodeInvalid | Inr data \<Rightarrow>
            (case oa_unmarshal svc data of Inl _ \<Rightarrow> fail ErrVerificationCodeInvalid | Inr info0 \<Rightarrow>
             if op_Email info0 \<noteq> t_Email tok \<or> t_Email tok \<noteq> i_Email v then fail ErrVerificationCodeInvalid
             else bnd (getProvider svc (op_Provider info0)) (\<lambda>_. let info = info0\<lparr>op_EmailVerified := True\<rparr> in
               bnd (WithTx ctx (invite_account_tx svc tok info v)) (\<lambda>user.
               completeOAuthLogin svc ctx (u_ID user) (op_Provider info) ip userAgent True)))))))"

definition remaining_method :: "oauth_service \<Rightarrow> user \<Rightarrow> string \<Rightarrow> provider_account list \<Rightarrow> bool" where
  "remaining_method svc user provider accounts \<longleftrightarrow>
     HasPassword user \<and> \<not> cf_PasswordAuthenticationDisabled (au_config (oa_auth svc)) \<or>
     list_ex (\<lambda>pa. pa_Provider pa \<noteq> provider \<and> map_of (oa_providers svc) (pa_Provider pa) \<noteq> None \<and>
       \<not> cf_OAuthAuthenticationDisabled (au_config (oa_auth svc))) accounts"

definition unlink_tx :: "oauth_service \<Rightarrow> string \<Rightarrow> string \<Rightarrow> ctx \<Rightarrow> unit action" where
  "unlink_tx svc userID provider tx =
     seq (internal (LockByUserID tx userID))
     (bnd (attempt (usr_GetByID tx userID)) (\<lambda>found. case found of
        Inr (Some user) \<Rightarrow>
          bnd (internal (prov_ListByUserID (oa_encryptor svc) tx userID)) (\<lambda>accounts.
            if \<not> remaining_method svc user provider accounts then fail ErrCannotUnlinkLastProvider
            else seq (internal (prov_Delete tx userID provider))
              (publish (au_audit (oa_auth svc)) tx (oauth_event ''oauth.unlinked'' userID provider)))
      | _ \<Rightarrow> fail ErrUserNotFound))"

definition Unlink :: "oauth_service \<Rightarrow> ctx \<Rightarrow> string \<Rightarrow> string \<Rightarrow> unit action" where
  "Unlink svc ctx userID provider = WithTx ctx (unlink_tx svc userID provider)"

definition ListConnected :: "oauth_service \<Rightarrow> ctx \<Rightarrow> string \<Rightarrow> provider_account list action" where
  "ListConnected svc ctx userID = internal (prov_ListByUserID (oa_encryptor svc) ctx userID)"

end
