(* ===== verification/OAuthProps.thy ===== *)
theory OAuthProps
  imports OAuth
begin

text \<open>
  What the OAuth service does to accounts, sessions and identities: a callback adds at most one
  identity, one account or one session, each only for a state this browser holds and an identity its provider
  vouched for; unlinking leaves a usable way to sign in.
\<close>

section \<open>What a callback may do\<close>

text \<open>The state a callback presents: unused, of this browser and of this provider.\<close>

definition state_of :: "callback_input \<Rightarrow> tables \<Rightarrow> token \<Rightarrow> bool" where
  "state_of inp d tok \<longleftrightarrow> tok \<in> set (tokens d) \<and> t_TokenHash tok = hashToken (ci_State inp) \<and> t_Type tok = TokenOAuthState \<and>
     t_UsedAt tok = None \<and> ci_State inp \<noteq> '''' \<and> ci_State inp = ci_BrowserState inp \<and>
     (t_ContextHash tok = '''' \<or> t_ContextHash tok = hashToken (ci_Provider inp))"

text \<open>The identity a configured provider returned for the code and the verifier of the state.\<close>

definition vouched :: "oauth_service \<Rightarrow> callback_input \<Rightarrow> token \<Rightarrow> oauth_profile \<Rightarrow> bool" where
  "vouched svc inp tok info \<longleftrightarrow> op_Provider info = ci_Provider inp \<and>
     (\<exists>p net info0. map_of (oa_providers svc) (ci_Provider inp) = Some p \<and>
        pv_Exchange p (ci_Code inp) (case t_CodeVerifier tok of None \<Rightarrow> '''' | Some v \<Rightarrow> v) net = Inr (Some info0) \<and>
        info = info0\<lparr>op_Email := au_lower (oa_auth svc) (au_trim (oa_auth svc) (op_Email info0))\<rparr>)"

definition identity_free :: "oauth_profile \<Rightarrow> tables \<Rightarrow> bool" where
  "identity_free info d \<longleftrightarrow> (\<forall>x \<in> set (providers d). \<not> identity_is (op_Provider info) (op_ProviderUserID info) x)"

text \<open>The identity is added for this user.\<close>

definition identity_added :: "oauth_profile \<Rightarrow> string \<Rightarrow> tables \<Rightarrow> tables \<Rightarrow> bool" where
  "identity_added info i d d' \<longleftrightarrow> identity_free info d \<and>
     (\<exists>pa. pa_UserID pa = i \<and> identity_is (op_Provider info) (op_ProviderUserID info) pa \<and> providers d' = providers d @ [pa])"

text \<open>Linking: the state is of the user whose live session presents it.\<close>

definition linked :: "oauth_service \<Rightarrow> callback_input \<Rightarrow> token \<Rightarrow> oauth_profile \<Rightarrow> tables \<Rightarrow> tables \<Rightarrow> bool" where
  "linked svc inp tok info d d' \<longleftrightarrow> users d' = users d \<and> sessions d' = sessions d \<and> invites d' = invites d \<and>
     (\<exists>u \<in> set (users d). \<exists>s \<in> set (sessions d). t_UserID tok = Some (u_ID u) \<and> s_UserID s = u_ID u \<and> \<not> u_IsBanned u \<and>
        (cf_RequireEmailVerification (au_config (oa_auth svc)) \<longrightarrow> u_IsVerified u) \<and> \<not> s_IsRevoked s \<and>
        s_TokenHash s = hashToken (ci_SessionToken inp) \<and> identity_added info (u_ID u) d d')"

text \<open>A session is added exactly when the result carries one, for a user no step is pending for.\<close>

definition admitted :: "config \<Rightarrow> bool \<Rightarrow> bool \<Rightarrow> user \<Rightarrow> bool" where
  "admitted cf admin isNew u \<longleftrightarrow> \<not> u_IsBanned u \<and> (admin \<longrightarrow> u_Role u = ''admin'') \<and>
     (cf_RequireEmailVerification cf \<longrightarrow> u_IsVerified u) \<and> (Enforce cf (Some u) \<longrightarrow> isNew \<and> \<not> cf_RequireEmail2FA cf)"

definition session_step :: "oauth_service \<Rightarrow> bool \<Rightarrow> bool \<Rightarrow> string \<Rightarrow> tables \<Rightarrow> go_err + oauth_result \<Rightarrow> tables \<Rightarrow> bool" where
  "session_step svc admin isNew i d r d' \<longleftrightarrow> (case r of
       Inr (OSession n res) \<Rightarrow> n = isNew \<and> sessions d' = sessions d @ [sr_Session res] \<and> session_for i False res \<and>
         (\<exists>u \<in> set (users d'). u_ID u = i \<and> admitted (au_config (oa_auth svc)) admin isNew u)
     | Inr OLinked \<Rightarrow> False
     | _ \<Rightarrow> sessions d' = sessions d)"

definition set_verified :: "time \<Rightarrow> user \<Rightarrow> user" where
  "set_verified t u = u\<lparr>u_IsVerified := True, u_VerifiedAt := Some t, u_UpdatedAt := t\<rparr>"

definition verified_only :: "oauth_profile \<Rightarrow> string \<Rightarrow> tables \<Rightarrow> tables \<Rightarrow> bool" where
  "verified_only info i d d' \<longleftrightarrow> users d' = users d \<or> op_EmailVerified info \<and>
     (\<exists>t. users d' = update_where (\<lambda>u. u_ID u = i \<and> u_Email u = op_Email info) (set_verified t) (users d))"

text \<open>Signing in: the identity is already linked; the address is marked verified only when the provider says so.\<close>

definition signed_in :: "oauth_service \<Rightarrow> bool \<Rightarrow> oauth_profile \<Rightarrow> tables \<Rightarrow> go_err + oauth_result \<Rightarrow> tables \<Rightarrow> bool" where
  "signed_in svc admin info d r d' \<longleftrightarrow> providers d' = providers d \<and> invites d' = invites d \<and>
     (\<exists>pa \<in> set (providers d). identity_is (op_Provider info) (op_ProviderUserID info) pa \<and>
        verified_only info (pa_UserID pa) d d' \<and>
        session_step svc admin False (pa_UserID pa) d r d')"

text \<open>Registering: a plain account of a free address with a free identity, by invitation where that is the rule.\<close>

definition oauth_account :: "oauth_service \<Rightarrow> oauth_profile \<Rightarrow> user \<Rightarrow> tables \<Rightarrow> bool" where
  "oauth_account svc info u d \<longleftrightarrow> u_Role u = ''user'' \<and> \<not> u_IsBanned u \<and> u_PasswordHash u = None \<and> u_OrgOwnerCount u = 0 \<and>
     u_Email u = op_Email info \<and> au_emailOK (oa_auth svc) (op_Email info) \<and> (u_IsVerified u \<longleftrightarrow> op_EmailVerified info) \<and>
     (\<forall>x \<in> set (users d). u_ID x \<noteq> u_ID u \<and> u_Email x \<noteq> u_Email u)"

definition registered :: "oauth_service \<Rightarrow> token \<Rightarrow> oauth_profile \<Rightarrow> tables \<Rightarrow> go_err + oauth_result \<Rightarrow> tables \<Rightarrow> bool" where
  "registered svc tok info d r d' \<longleftrightarrow> oa_OAuth svc \<and>
     (\<exists>u. users d' = users d @ [u] \<and> oauth_account svc info u d \<and> identity_added info (u_ID u) d d' \<and>
        session_step svc False True (u_ID u) d r d') \<and>
     (if t_EncryptedPayload tok = '''' then invites d' = invites d \<and> \<not> cf_InviteOnly (au_config (oa_auth svc))
      else \<exists>v \<in> set (invites d). oa_fold_eq svc (au_trim (oa_auth svc) (op_Email info)) (i_Email v) \<and> op_EmailVerified info \<and>
             invite_used (i_Code v) d (invites d'))"

definition same_accounts :: "tables \<Rightarrow> tables \<Rightarrow> bool" where
  "same_accounts d d' \<longleftrightarrow> users d' = users d \<and> sessions d' = sessions d \<and> providers d' = providers d \<and> invites d' = invites d"

definition grants :: "go_err + oauth_result \<Rightarrow> bool" where
  "grants r \<longleftrightarrow> (case r of Inr OLinked \<Rightarrow> True | Inr (OSession n res) \<Rightarrow> True | _ \<Rightarrow> False)"

definition callback_outcome :: "oauth_service \<Rightarrow> callback_input \<Rightarrow> tables \<Rightarrow> go_err + oauth_result \<Rightarrow> tables \<Rightarrow> bool" where
  "callback_outcome svc inp d r d' \<longleftrightarrow>
     same_accounts d d' \<and> \<not> grants r \<or>
     (\<exists>tok info. state_of inp d tok \<and> vouched svc inp tok info \<and>
        (case t_UserID tok of
           Some i \<Rightarrow> r = Inr OLinked \<and> linked svc inp tok info d d'
         | None \<Rightarrow> signed_in svc (Of (ci_State inp) = Admin) info d r d' \<or>
             Of (ci_State inp) \<noteq> Admin \<and> registered svc tok info d r d'))"

section \<open>The steps of a callback\<close>

lemma token_change_same: "token_change d d' \<Longrightarrow> same_accounts d d'"
  by (auto simp: token_change_def same_but_audit_def put_tokens_def same_accounts_def)

lemma same_but_audit_accounts: "same_but_audit d d' \<Longrightarrow> same_accounts d d'"
  by (auto simp: same_but_audit_def same_accounts_def)

lemma same_accounts_refl [simp]: "same_accounts d d"
  by (simp add: same_accounts_def)

lemma same_accounts_trans: "same_accounts a b \<Longrightarrow> same_accounts b c \<Longrightarrow> same_accounts a c"
  by (simp add: same_accounts_def)

lemma rq_internal:
  assumes "rq m (\<lambda>r d'. case r of Inl e \<Rightarrow> Q (Inl ErrInternal) d' | Inr a \<Rightarrow> Q (Inr a) d') d"
  shows "rq (internal m) Q d"
  unfolding internal_def
  by (rule rq_bnd, rule rq_attempt, rule rq_conseq [OF assms]) (auto intro!: rq_fail rq_ret split: sum.splits)

lemma wp_internal:
  assumes "wp m (\<lambda>r d'. case r of Inl e \<Rightarrow> Q (Inl ErrInternal) d' | Inr a \<Rightarrow> Q (Inr a) d') d"
  shows "wp (internal m) Q d"
  unfolding internal_def
  by (rule wp_bnd, rule wp_attempt, rule wp_conseq [OF assms]) (auto intro!: wp_fail wp_ret split: sum.splits)

lemma rq_callback_state:
  assumes "\<And>e. Q (Inl e) d" and "\<And>tok. state_of inp d tok \<Longrightarrow> Q (Inr tok) d"
  shows "rq (callback_state svc ctx inp) Q d"
  unfolding callback_state_def GetByHash_def
  by (auto intro!: rq_bnd rq_wrap rq_query rq_fail rq_ret rq_now assms dest!: select1_Some simp: state_of_def split: option.split sum.split)

lemma rq_checked:
  assumes "\<And>e. Q (Inl e) d" and "\<And>so. Q (Inr so) d"
  shows "rq (ValidateWithUser svc ctx t) Q d"
  unfolding ValidateWithUser_def GetByTokenHashWithUser_def using assms
  by (auto intro!: rq_bnd rq_seq rq_wrap rq_query rq_fail rq_ret rq_local [OF local_checkSession] split: sum.split)

lemma rq_link_session:
  assumes "\<And>e. Q (Inl e) d" and "t_UserID tok = None \<Longrightarrow> Q (Inr None) d" and "\<And>i. t_UserID tok \<noteq> None \<Longrightarrow> Q (Inr (Some i)) d"
  shows "rq (link_session svc ctx inp tok) Q d"
  unfolding link_session_def using assms
  by (auto intro!: rq_bnd rq_attempt rq_checked rq_fail rq_ret split: option.split sum.split)

lemma rq_claim_state:
  assumes "\<And>r d'. token_change d d' \<Longrightarrow> Q r d'"
  shows "rq (claim_state ctx tok) Q d"
  unfolding claim_state_def
  by (auto intro!: rq_bnd rq_internal rq_MarkUsedIfUnused rq_reject_if rq_fail rq_ret assms split: sum.split)

lemma rq_exchange:
  assumes "\<And>e. Q (Inl e) d" and "map_of (oa_providers svc) (ci_Provider inp) = Some p"
    and "\<And>info. vouched svc inp tok info \<Longrightarrow> Q (Inr info) d"
  shows "rq (exchange svc p inp tok) Q d"
proof -
  have "Q (Inr (i\<lparr>op_Email := au_lower (oa_auth svc) (au_trim (oa_auth svc) (op_Email i))\<rparr>)) d"
    if "pv_Exchange p (ci_Code inp) (case t_CodeVerifier tok of None \<Rightarrow> '''' | Some v \<Rightarrow> v) net = Inr (Some i)" "op_Provider i = ci_Provider inp" for net i
    using that assms(2) by (intro assms(3)) (auto simp: vouched_def)
  then show ?thesis
    unfolding exchange_def
    by (intro rq_bnd rq_attempt rq_draw) (auto intro!: rq_fail rq_ret assms(1) split: sum.split option.split)
qed

lemma rq_pendingInvite:
  assumes "\<And>e. Q (Inl e) d" and "\<And>v. v \<in> set (invites d) \<Longrightarrow> i_Code v = h \<Longrightarrow> Q (Inr v) d"
  shows "rq (pendingInvite svc ctx h) Q d"
  unfolding pendingInvite_def GetByCode_def
  by (auto intro!: rq_bnd rq_wrap rq_query rq_fail rq_ret rq_now assms dest!: select1_Some split: option.split sum.split)

lemma rq_callback_invite:
  assumes "\<And>e. Q (Inl e) d" and "t_EncryptedPayload tok = '''' \<Longrightarrow> Q (Inr None) d"
    and "\<And>v. v \<in> set (invites d) \<Longrightarrow> t_EncryptedPayload tok \<noteq> '''' \<Longrightarrow>
      oa_fold_eq svc (au_trim (oa_auth svc) (op_Email info)) (i_Email v) \<Longrightarrow> Q (Inr (Some v)) d"
  shows "rq (callback_invite svc ctx tok info) Q d"
  unfolding callback_invite_def using assms
  by (auto intro!: rq_bnd rq_pendingInvite rq_fail rq_ret split: option.split sum.split)

section \<open>Linking\<close>

lemma local_attempt: "local_prog m \<Longrightarrow> local_prog (attempt m)"
  unfolding local_prog_def attempt_def by (auto split: prod.splits) (metis snd_conv)+

lemma local_sealed [locals]: "local_prog (sealed svc s)"
  unfolding sealed_def internal_def by (auto intro!: locals local_attempt split: option.split sum.split)

lemma wp_createProviderAccount:
  assumes "c_tx tx" and "\<And>e. Q (Inl e) d"
    and "\<And>pa d'. identity_added info i d d' \<Longrightarrow> d' = put_providers (providers d @ [pa]) d \<Longrightarrow> Q (Inr pa) d'"
  shows "wp (createProviderAccount svc tx i info) Q d"
proof -
  have made: "Q (Inr (new_account k i info a b t)) (put_providers (providers d @ [new_account k i info a b t]) d)"
    if "\<not> list_ex (\<lambda>x. pa_ID x = pa_ID (new_account k i info a b t) \<or> (pa_Provider x = pa_Provider (new_account k i info a b t) \<and>
       pa_ProviderUserID x = pa_ProviderUserID (new_account k i info a b t))) (providers d)" for k a b t
    using that by (intro assms(3)) (auto simp: identity_added_def identity_free_def identity_is_def new_account_def list_ex_iff)
  have create: "wp (bnd (attempt (prov_Create tx (new_account k i info a b t))) (\<lambda>r. case r of
         Inl e \<Rightarrow> fail (if errors_is e ErrDuplicateKey then ErrProviderAccountExists else ErrInternal)
       | Inr _ \<Rightarrow> ret (new_account k i info a b t))) Q d" for k a b t
    unfolding prov_Create_def using assms(1,2)
    by (auto intro!: wp_bnd wp_attempt wp_stmt wp_fail wp_ret made split: if_splits sum.splits)
  show ?thesis
    unfolding createProviderAccount_def Let_def generateID_def
    by (intro wp_bnd wp_local [OF local_sealed] wp_now wp_draw) (auto intro!: wp_bnd wp_local [OF local_sealed] wp_now wp_draw create assms(2) split: sum.split)
qed

lemma wp_checkSession:
  assumes "\<And>e. Q (Inl e) d" and "\<not> s_IsRevoked s \<Longrightarrow> Q (Inr ()) d"
  shows "wp (checkSession ss (Some s)) Q d"
  unfolding checkSession_def using assms by (auto intro!: wp_bnd wp_now wp_fail wp_ret)

text \<open>The tables the transaction starts from differ from those of the request in challenges only.\<close>

lemma linked_same: "linked svc inp tok info d1 d' \<Longrightarrow> same_accounts d d1 \<Longrightarrow> linked svc inp tok info d d'"
  by (auto simp: linked_def same_accounts_def identity_added_def identity_free_def)

lemma wp_link_tx:
  assumes tx: "c_tx tx" and err: "\<And>e d'. Q (Inl e) d'" and tok: "t_UserID tok = Some i"
    and ok: "\<And>d'. linked svc inp tok info d d' \<Longrightarrow> Q (Inr ()) d'"
  shows "wp (link_tx svc inp tok i sid info tx) Q d"
proof -
  have row: "u \<in> set (users d) \<and> u_ID u = i" if "select1 (user_id_is i) (users d) = Some u" for u
    using select1_Some [OF that] by (simp add: user_id_is_def)
  have srow: "s \<in> set (sessions d)" if "select1 (\<lambda>s. s_ID s = sid) (sessions d) = Some s" for s
    using select1_Some [OF that] by simp
  have fin: "Q (Inr ()) d'" if "identity_added info (u_ID u) d d'" "d' = put_providers (providers d @ [pa]) d"
    "u \<in> set (users d)" "u_ID u = i" "s \<in> set (sessions d)" "s_UserID s = u_ID u" "\<not> u_IsBanned u"
    "cf_RequireEmailVerification (au_config (oa_auth svc)) \<longrightarrow> u_IsVerified u" "\<not> s_IsRevoked s"
    "s_TokenHash s = hashToken (ci_SessionToken inp)" for d' pa u s
    using that tok by (intro ok) (auto simp: linked_def)
  have create: "wp (bnd (createProviderAccount svc tx (u_ID u) info) (\<lambda>_. ret ())) Q d" if
    "u \<in> set (users d)" "u_ID u = i" "s \<in> set (sessions d)" "s_UserID s = u_ID u" "\<not> u_IsBanned u"
    "cf_RequireEmailVerification (au_config (oa_auth svc)) \<longrightarrow> u_IsVerified u" "\<not> s_IsRevoked s"
    "s_TokenHash s = hashToken (ci_SessionToken inp)" for u s
    by (intro wp_bnd wp_createProviderAccount) (auto intro!: wp_ret tx err fin [OF _ _ that])
  show ?thesis
    unfolding link_tx_def Let_def LockByID_def InTx_def tok_GetByID_def
    by (auto intro!: wp_bnd [of "wrap _ _"] wp_wrap wp_GetByIDForUpdate wp_query wp_fail wp_bnd [of "attempt _"] wp_attempt wp_checkSession
        wp_bnd [of now] wp_now create tx err dest!: row srow split: option.split sum.split)+
qed

lemma rq_callback_link:
  assumes "\<not> c_tx ctx" and tok: "state_of inp d tok" "vouched svc inp tok info" "t_UserID tok = Some i" and same: "same_accounts d d1"
  shows "rq (callback_link svc ctx inp tok i sid info existing) (callback_outcome svc inp d) d1"
proof -
  have none: "callback_outcome svc inp d (Inl e) d1" for e using same by (auto simp: callback_outcome_def grants_def)
  have made: "callback_outcome svc inp d (Inr OLinked) d3" if "linked svc inp tok info d1 d2" "same_but_audit d2 d3" for d2 d3
  proof -
    have "linked svc inp tok info d d2" using linked_same [OF that(1) same] .
    then have "linked svc inp tok info d d3" using same_but_audit_accounts [OF that(2)]
      by (auto simp: linked_def same_accounts_def identity_added_def)
    then show ?thesis unfolding callback_outcome_def using tok by (intro disjI2 exI [of _ tok] exI [of _ info]) simp
  qed
  have tx: "wp (link_tx svc inp tok i sid info (ctx\<lparr>c_tx := True\<rparr>)) (\<lambda>r d'. case r of Inl e \<Rightarrow> True | Inr a \<Rightarrow> R (Inr a) d') d1"
    if "\<And>d'. linked svc inp tok info d1 d' \<Longrightarrow> R (Inr ()) d'" for R
    using that by (intro wp_link_tx tok) simp_all
  show ?thesis
    unfolding callback_link_def finalizeLink_def
    by (auto intro!: rq_seq rq_fail rq_WithTx assms(1) none tx rq_bnd rq_attempt rq_publish rq_ret made split: option.split sum.split)
qed

section \<open>Signing in\<close>

lemma session_step_quiet:
  "sessions d' = sessions d \<Longrightarrow> \<not> grants r \<Longrightarrow> session_step svc admin isNew i d r d'"
  by (auto simp: session_step_def grants_def split: sum.splits oauth_result.splits)

lemma wp_oauth_login_tx:
  assumes "c_tx tx" and "\<And>e d'. Q (Inl e) d'"
    and "\<And>u st. u \<in> set (users d) \<Longrightarrow> u_ID u = i \<Longrightarrow> (\<And>res. st \<noteq> Created res) \<Longrightarrow> Q (Inr (u, st)) d"
    and "\<And>u res d'. u \<in> set (users d) \<Longrightarrow> u_ID u = i \<Longrightarrow> admitted (au_config (oa_auth svc)) (current_scope ctx = Admin) isNew u \<Longrightarrow>
      session_for i False res \<Longrightarrow> same_but_audit (put_sessions (sessions d @ [sr_Session res]) d) d' \<Longrightarrow> Q (Inr (u, Created res)) d'"
  shows "wp (oauth_login_tx svc ctx tx i provider ip ua isNew) Q d"
proof -
  have row: "u \<in> set (users d) \<and> u_ID u = i" if "select1 (user_id_is i) (users d) = Some u" for u
    using select1_Some [OF that] by (simp add: user_id_is_def)
  have sess: "wp (bnd (Create ss tx (u_ID u) ip ua) (\<lambda>res. seq (publish a tx ev) (ret (u, Created res)))) Q d"
    if u: "u \<in> set (users d)" "u_ID u = i" "admitted (au_config (oa_auth svc)) (current_scope ctx = Admin) isNew u" for u a ev ss
  proof -
    have fin: "Q (Inr (u, Created res)) d2" if "session_for i False res" "same_but_audit (put_sessions (sessions d @ [sr_Session res]) d) d1"
      "same_but_audit d1 d2" for res d1 d2
      using assms(4) [OF u that(1) same_but_audit_trans [OF that(2,3)]] .
    show ?thesis
      unfolding Create_def u(2)
      by (intro wp_bnd wp_create assms(1)) (auto intro!: wp_seq wp_publish wp_ret assms(1,2) intro: fin split: sum.split)
  qed
  show ?thesis
    unfolding oauth_login_tx_def Let_def
    by (intro wp_bnd [of "GetByIDForUpdate _ _ _"] wp_GetByIDForUpdate assms(1))
      (auto intro!: wp_fail wp_ret sess assms(2,3) dest!: row simp: admitted_def split: option.split)
qed

lemma rq_completeOAuthLogin:
  assumes "\<not> c_tx ctx"
    and ok: "\<And>r d'. same_accounts (d\<lparr>sessions := sessions d'\<rparr>) d' \<Longrightarrow> session_step svc (current_scope ctx = Admin) isNew i d r d' \<Longrightarrow> Q r d'"
  shows "rq (completeOAuthLogin svc ctx i provider ip ua isNew) Q d"
proof -
  have none: "Q r d'" if "token_change d d'" "\<not> grants r" for r d'
    using token_change_same [OF that(1)] that(2) by (intro ok session_step_quiet) (auto simp: same_accounts_def)
  have signed: "Q (Inr (OSession isNew res)) d'"
    if "u \<in> set (users d)" "u_ID u = i" "admitted (au_config (oa_auth svc)) (current_scope ctx = Admin) isNew u"
      "session_for i False res" "same_but_audit (put_sessions (sessions d @ [sr_Session res]) d) d'" for u res d'
  proof (rule ok)
    have s: "users d' = users d" "sessions d' = sessions d @ [sr_Session res]" "providers d' = providers d" "invites d' = invites d"
      using that(5) by (auto simp: same_but_audit_def put_sessions_def)
    show "same_accounts (d\<lparr>sessions := sessions d'\<rparr>) d'" using s by (simp add: same_accounts_def)
    show "session_step svc (current_scope ctx = Admin) isNew i d (Inr (OSession isNew res)) d'"
      using that s by (auto simp: session_step_def)
  qed
  have err: "Q (Inl e) d" for e by (rule none) (simp_all add: grants_def)
  have pending: "rq (bnd (SendVerification (oa_auth svc) ctx u) (\<lambda>_. ret (OVerify isNew (u_Email u)))) Q d"
    "rq (bnd (challengeWithOAuth (oa_auth svc) ctx (u_ID u)) (\<lambda>c. ret (OTwoFactor isNew c))) Q d" for u
    unfolding SendVerification_def challengeWithOAuth_def
    by (auto intro!: rq_bnd rq_sendVerification rq_challenge rq_fail rq_ret none assms(1) simp: grants_def split: sum.split)
  let ?P = "\<lambda>(u, st) d'. case st of Created res \<Rightarrow> Q (Inr (OSession isNew res)) d' | _ \<Rightarrow> d' = d"
  have tx: "rq (WithTx ctx (\<lambda>tx. oauth_login_tx svc ctx tx i provider ip ua isNew))
      (\<lambda>r d'. case r of Inl e \<Rightarrow> d' = d | Inr p \<Rightarrow> ?P p d') d"
    by (rule rq_WithTx) (auto intro!: assms(1) wp_oauth_login_tx signed split: login_step.split)
  show ?thesis
    unfolding completeOAuthLogin_def
    by (rule rq_bnd, rule rq_conseq [OF tx]) (auto intro!: pending err intro: rq_ret split: sum.splits login_step.splits)
qed

lemma rq_provider_verified:
  assumes "\<And>r d'. verified_only info (u_ID u) d d' \<Longrightarrow> same_accounts (d\<lparr>users := users d'\<rparr>) d' \<Longrightarrow>
      (case r of Inl _ \<Rightarrow> True | Inr v \<Rightarrow> u_ID v = u_ID u) \<Longrightarrow> Q r d'"
  shows "rq (provider_verified ctx u info) Q d"
proof -
  let ?kept = "\<lambda>r. case r of Inl _ \<Rightarrow> True | Inr v \<Rightarrow> u_ID v = u_ID u"
  have same: "Q r d" if "?kept r" for r
    using that by (intro assms) (auto simp: verified_only_def)
  have ver: "Q r (put_users (update_where (\<lambda>x. u_ID x = u_ID u \<and> u_Email x = op_Email info)
       (\<lambda>x. x\<lparr>u_IsVerified := True, u_VerifiedAt := Some t, u_UpdatedAt := t\<rparr>) (users d)) d)"
    if "op_EmailVerified info" "?kept r" for r t
  proof -
    have upd: "(\<lambda>x. x\<lparr>u_IsVerified := True, u_VerifiedAt := Some t, u_UpdatedAt := t\<rparr>) = set_verified t"
      by (rule ext) (simp add: set_verified_def)
    show ?thesis unfolding upd using that by (intro assms) (auto simp: verified_only_def same_accounts_def put_users_def)
  qed
  have step: "rq (bnd (attempt (verifyUserEmail ctx u (op_Email info) t)) (\<lambda>r. case r of
      Inr True \<Rightarrow> ret (u\<lparr>u_IsVerified := True, u_VerifiedAt := Some t, u_UpdatedAt := t\<rparr>) | _ \<Rightarrow> fail ErrInternal)) Q d"
    if "op_EmailVerified info" for t
    unfolding verifyUserEmail_def VerifyEmailIfMatches_def
    by (intro rq_bnd rq_attempt) (auto intro!: rq_affected rq_fail rq_ret same ver that split: sum.split bool.split)
  show ?thesis
    unfolding provider_verified_def using step
    by (auto intro!: rq_bnd [of now] rq_now rq_ret same)
qed

lemma session_step_from:
  assumes "session_step svc admin isNew i d2 r d'" and "sessions d2 = sessions d"
  shows "session_step svc admin isNew i d r d'"
  using assms by (auto simp: session_step_def split: sum.splits oauth_result.splits)

lemma signed_in_outcome:
  assumes tok: "state_of inp d tok" "vouched svc inp tok info" "t_UserID tok = None"
    and pa: "pa \<in> set (providers d)" "identity_is (op_Provider info) (op_ProviderUserID info) pa"
    and d2: "verified_only info (pa_UserID pa) d d2" "sessions d2 = sessions d" "providers d2 = providers d" "invites d2 = invites d"
    and d3: "same_accounts (d2\<lparr>sessions := sessions d3\<rparr>) d3" "session_step svc (Of (ci_State inp) = Admin) False (pa_UserID pa) d2 r d3"
  shows "callback_outcome svc inp d r d3"
proof -
  have "verified_only info (pa_UserID pa) d d3" using d2(1) d3(1) by (auto simp: verified_only_def same_accounts_def)
  then have "signed_in svc (Of (ci_State inp) = Admin) info d r d3"
    using pa d2 d3(1) session_step_from [OF d3(2) d2(2)] by (auto simp: signed_in_def same_accounts_def)
  then show ?thesis using tok unfolding callback_outcome_def by (intro disjI2 exI [of _ tok] exI [of _ info]) simp
qed

lemma rq_callback_login:
  assumes "\<not> c_tx ctx" and scope: "current_scope ctx = Of (ci_State inp)"
    and tok: "state_of inp d tok" "vouched svc inp tok info" "t_UserID tok = None" and same: "same_accounts d d1"
    and pa0: "pa \<in> set (providers d)" "identity_is (op_Provider info) (op_ProviderUserID info) pa"
  shows "rq (callback_login svc ctx inp info (decrypt_account e pa)) (callback_outcome svc inp d) d1"
proof -
  note out = signed_in_outcome [OF tok pa0]
  have id: "pa_UserID (decrypt_account e pa) = pa_UserID pa" by (simp add: decrypt_account_def)
  have none: "callback_outcome svc inp d (Inl x) d1" for x using same by (auto simp: callback_outcome_def grants_def)
  have quiet: "callback_outcome svc inp d r d3" if "verified_only info (pa_UserID pa) d1 d2" "same_accounts (d1\<lparr>users := users d2\<rparr>) d2"
    "token_change d2 d3" "\<not> grants r" for r d2 d3
  proof (rule out)
    show "verified_only info (pa_UserID pa) d d2" "sessions d2 = sessions d" "providers d2 = providers d" "invites d2 = invites d"
      using that(1,2) same by (auto simp: verified_only_def same_accounts_def)
    show "same_accounts (d2\<lparr>sessions := sessions d3\<rparr>) d3" "session_step svc (Of (ci_State inp) = Admin) False (pa_UserID pa) d2 r d3"
      using token_change_same [OF that(3)] that(4) by (auto intro!: session_step_quiet simp: same_accounts_def)
  qed
  have complete: "rq (completeOAuthLogin svc ctx (pa_UserID pa) p ip ua False) (callback_outcome svc inp d) d2"
    if "verified_only info (pa_UserID pa) d1 d2" "same_accounts (d1\<lparr>users := users d2\<rparr>) d2" for d2 p ip ua
  proof (rule rq_completeOAuthLogin [OF assms(1)])
    fix r d3 assume d3: "same_accounts (d2\<lparr>sessions := sessions d3\<rparr>) d3" "session_step svc (current_scope ctx = Admin) False (pa_UserID pa) d2 r d3"
    show "callback_outcome svc inp d r d3"
    proof (rule out)
      show "verified_only info (pa_UserID pa) d d2" "sessions d2 = sessions d" "providers d2 = providers d" "invites d2 = invites d"
        using that same by (auto simp: verified_only_def same_accounts_def)
    qed (use d3 scope in simp_all)
  qed
  have send: "rq (bnd (SendVerification (oa_auth svc) ctx u) (\<lambda>_. ret (OVerify False (u_Email u)))) (callback_outcome svc inp d) d2"
    if "verified_only info (pa_UserID pa) d1 d2" "same_accounts (d1\<lparr>users := users d2\<rparr>) d2" for u d2
    using that unfolding SendVerification_def
    by (auto intro!: rq_bnd rq_sendVerification rq_fail rq_ret quiet [OF that] simp: grants_def split: sum.split)
  have row: "u_ID u = pa_UserID pa" if "select1 (user_id_is (pa_UserID pa)) (users d1) = Some u" for u
    using select1_Some [OF that] by (simp add: user_id_is_def)
  have step: "rq (bnd (provider_verified ctx u info) (\<lambda>u'.
           if cf_RequireEmailVerification (au_config (oa_auth svc)) \<and> \<not> u_IsVerified u'
           then bnd (SendVerification (oa_auth svc) ctx u') (\<lambda>_. ret (OVerify False (u_Email u')))
           else completeOAuthLogin svc ctx (u_ID u') (ci_Provider inp) (ci_IP inp) (ci_UserAgent inp) False)) (callback_outcome svc inp d) d1"
    if "u_ID u = pa_UserID pa" for u
  proof (rule rq_bnd, rule rq_provider_verified)
    fix r :: "go_err + user" and d' assume v: "verified_only info (u_ID u) d1 d'" "same_accounts (d1\<lparr>users := users d'\<rparr>) d'"
      "case r of Inl _ \<Rightarrow> True | Inr v \<Rightarrow> u_ID v = u_ID u"
    have e: "callback_outcome svc inp d (Inl x) d'" for x
      using quiet [of d' d' "Inl x"] v that by (simp add: grants_def)
    show "case r of Inl x \<Rightarrow> callback_outcome svc inp d (Inl x) d'
      | Inr a \<Rightarrow> rq (if cf_RequireEmailVerification (au_config (oa_auth svc)) \<and> \<not> u_IsVerified a
           then bnd (SendVerification (oa_auth svc) ctx a) (\<lambda>_. ret (OVerify False (u_Email a)))
           else completeOAuthLogin svc ctx (u_ID a) (ci_Provider inp) (ci_IP inp) (ci_UserAgent inp) False) (callback_outcome svc inp d) d'"
      using v that send [of d'] complete [of d'] e by (auto split: sum.split)
  qed
  show ?thesis
    unfolding callback_login_def id usr_GetByID_def
    by (intro rq_bnd rq_attempt rq_query) (auto intro!: rq_fail none step dest!: row split: option.split)
qed

section \<open>Registering\<close>

lemma wp_usr_Create:
  assumes "c_tx tx" and "\<And>e. Q (Inl e) d"
    and "\<forall>x \<in> set (users d). u_ID x \<noteq> u_ID u \<and> u_Email x \<noteq> u_Email u \<Longrightarrow>
      Q (Inr ()) (put_users (users d @ [u\<lparr>u_BannedAt := None, u_LastLoginAt := None\<rparr>]) d)"
  shows "wp (usr_Create tx u) Q d"
  unfolding usr_Create_def using assms by (auto intro!: wp_stmt simp: list_ex_iff split: if_splits)

text \<open>What the account transaction commits.\<close>

definition account_committed :: "oauth_service \<Rightarrow> oauth_profile \<Rightarrow> invite option \<Rightarrow> user \<Rightarrow> tables \<Rightarrow> tables \<Rightarrow> bool" where
  "account_committed svc info invitation u d d' \<longleftrightarrow> oauth_account svc info u d \<and> identity_added info (u_ID u) d d' \<and>
     users d' = users d @ [u] \<and> sessions d' = sessions d \<and>
     (case invitation of None \<Rightarrow> invites d' = invites d | Some v \<Rightarrow> invite_used (i_Code v) d (invites d'))"

lemma wp_oauth_account_tx:
  assumes "c_tx tx" and err: "\<And>e d'. Q (Inl e) d'" and new: "u = oauth_user i info b t" "au_emailOK (oa_auth svc) (op_Email info)"
    and ok: "\<And>d'. account_committed svc info invitation u d d' \<Longrightarrow> Q (Inr ()) d'"
  shows "wp (oauth_account_tx svc tx u info invitation) Q d"
proof -
  have eta: "u\<lparr>u_BannedAt := None, u_LastLoginAt := None\<rparr> = u" by (simp add: new oauth_user_def)
  let ?d1 = "put_users (users d @ [u]) d"
  have fin: "wp (bnd (createProviderAccount svc tx (u_ID u) info) (\<lambda>_. publish a tx ev)) Q d2"
    if "\<forall>x \<in> set (users d). u_ID x \<noteq> u_ID u \<and> u_Email x \<noteq> u_Email u" "users d2 = users d @ [u]" "sessions d2 = sessions d"
      "providers d2 = providers d" "case invitation of None \<Rightarrow> invites d2 = invites d | Some v \<Rightarrow> invite_used (i_Code v) d (invites d2)" for d2 a ev
  proof (intro wp_bnd wp_createProviderAccount assms(1))
    fix pa d3 assume d3: "identity_added info (u_ID u) d2 d3" "d3 = put_providers (providers d2 @ [pa]) d2"
    have "account_committed svc info invitation u d d4" if "same_but_audit d3 d4" for d4
      using that d3 \<open>\<forall>x \<in> set (users d). _ x\<close> \<open>users d2 = _\<close> \<open>sessions d2 = _\<close> \<open>providers d2 = _\<close> \<open>case invitation of None \<Rightarrow> _ | Some v \<Rightarrow> _ v\<close> new
      by (auto simp: account_committed_def oauth_account_def oauth_user_def identity_added_def identity_free_def same_but_audit_def
          put_providers_def split: option.splits)
    then show "case Inr pa of Inl e \<Rightarrow> Q (Inl e) d3 | Inr pa \<Rightarrow> wp (publish a tx ev) Q d3"
      by (auto intro!: wp_publish assms(1)) (metis err ok old.unit.exhaust sum.exhaust)
  qed (simp add: err)
  show ?thesis
    unfolding oauth_account_tx_def reject_if_def
    by (intro wp_bnd [of "attempt _"] wp_attempt wp_usr_Create assms(1))
      (auto intro!: wp_fail err wp_seq wp_ret wp_bnd [of now] wp_now wp_bnd [of "inv_ClaimInvite _ _ _"] wp_inv_ClaimInvite assms(1) fin
        simp: eta put_users_def put_invites_def invite_usedI split: option.split)
qed

lemma rq_createOAuthAccount:
  assumes "\<not> c_tx ctx" and "\<And>e. Q (Inl e) d" and ok: "\<And>u d'. account_committed svc info invitation u d d' \<Longrightarrow> Q (Inr u) d'"
  shows "rq (createOAuthAccount svc ctx info invitation) Q d"
proof -
  have tx: "rq (WithTx ctx (\<lambda>tx. oauth_account_tx svc tx (oauth_user i info b t) info invitation))
      (\<lambda>r d'. case r of Inl e \<Rightarrow> d' = d | Inr _ \<Rightarrow> account_committed svc info invitation (oauth_user i info b t) d d') d"
    if "au_emailOK (oa_auth svc) (op_Email info)" for i b t
    by (rule rq_WithTx) (auto intro!: assms(1) wp_oauth_account_tx that)
  have commit: "rq (seq (WithTx ctx (\<lambda>tx. oauth_account_tx svc tx (oauth_user i info b t) info invitation)) (ret (oauth_user i info b t))) Q d"
    if "au_emailOK (oa_auth svc) (op_Email info)" for i b t
    by (rule rq_seq, rule rq_conseq [OF tx [OF that]]) (auto intro!: rq_ret assms(2) ok split: sum.splits)
  show ?thesis
    unfolding createOAuthAccount_def Let_def generateID_def GetByEmail_def
    by (auto intro!: rq_fail assms(2) rq_bnd [of "wrap _ _"] rq_wrap rq_query rq_bnd [of now] rq_now rq_bnd [of draw] rq_draw commit
        split: option.split sum.split)
qed

lemma rq_registerOAuth:
  assumes "\<not> c_tx ctx" and scope: "current_scope ctx = Of (ci_State inp)" "Of (ci_State inp) \<noteq> Admin"
    and tok: "state_of inp d tok" "vouched svc inp tok info" "t_UserID tok = None" and same: "same_accounts d d1" and svc: "oa_OAuth svc"
    and inv: "case invitation of None \<Rightarrow> t_EncryptedPayload tok = '''' \<and> \<not> cf_InviteOnly (au_config (oa_auth svc))
      | Some v \<Rightarrow> t_EncryptedPayload tok \<noteq> '''' \<and> v \<in> set (invites d) \<and> op_EmailVerified info \<and>
          oa_fold_eq svc (au_trim (oa_auth svc) (op_Email info)) (i_Email v)"
  shows "rq (registerOAuth svc ctx inp info invitation) (callback_outcome svc inp d) d1"
proof -
  have none: "callback_outcome svc inp d (Inl x) d1" for x using same by (auto simp: callback_outcome_def grants_def)
  have out: "callback_outcome svc inp d r d3" if c: "account_committed svc info invitation u d1 d2"
    and d3: "same_accounts (d2\<lparr>sessions := sessions d3\<rparr>) d3" "session_step svc False True (u_ID u) d2 r d3" for u r d2 d3
  proof -
    have "session_step svc False True (u_ID u) d r d3"
      using session_step_from [OF d3(2)] c same by (simp add: account_committed_def same_accounts_def)
    then have "registered svc tok info d r d3"
      using c d3(1) same svc inv
      by (auto simp: registered_def account_committed_def oauth_account_def identity_added_def identity_free_def same_accounts_def invite_used_def
          split: option.splits)
    then show ?thesis using tok scope(2) unfolding callback_outcome_def by (intro disjI2 exI [of _ tok] exI [of _ info]) simp
  qed
  have quiet: "callback_outcome svc inp d r d3" if "account_committed svc info invitation u d1 d2" "token_change d2 d3" "\<not> grants r" for u r d2 d3
    using token_change_same [OF that(2)] that(3) by (intro out [OF that(1)] session_step_quiet) (auto simp: same_accounts_def)
  have send: "rq (bnd (SendVerification (oa_auth svc) ctx u) (\<lambda>_. ret (OVerify True (u_Email u)))) (callback_outcome svc inp d) d2"
    if "account_committed svc info invitation u d1 d2" for u d2
    unfolding SendVerification_def
    by (auto intro!: rq_bnd rq_sendVerification rq_fail rq_ret quiet [OF that] simp: grants_def split: sum.split)
  have complete: "rq (completeOAuthLogin svc ctx (u_ID u) p ip ua True) (callback_outcome svc inp d) d2"
    if "account_committed svc info invitation u d1 d2" for u d2 p ip ua
    by (rule rq_completeOAuthLogin [OF assms(1)], rule out [OF that]) (use scope in simp_all)
  show ?thesis
    unfolding registerOAuth_def
    by (auto intro!: rq_bnd [of "createOAuthAccount _ _ _ _"] rq_createOAuthAccount assms(1) none send complete)
qed

lemma rq_prepareInviteVerification:
  assumes "\<And>r d'. token_change d d' \<Longrightarrow> \<not> grants r \<Longrightarrow> Q r d'"
  shows "rq (prepareInviteVerification svc ctx info v) Q d"
proof -
  have num: "rq (GenerateNumeric n) R d'" if "\<And>r. R r d'" for n R d'
    unfolding GenerateNumeric_def by (intro rq_local local_otp_generate that)
  have send: "rq (sendInviteVerification svc ctx a c) R d'" if "\<And>r. R r d'" for a c R d'
    using that unfolding sendInviteVerification_def by (auto intro!: rq_fail rq_bnd rq_works rq_mail split: sum.split)
  have discard: "rq (discardUndeliveredToken ctx i) R d'" if "token_change d d'" "\<And>r d2. token_change d d2 \<Longrightarrow> R r d2" for i R d'
  proof -
    have "R r (put_tokens ts d')" "R r d'" for r ts
      using that token_change_trans [OF that(1) token_change_put] by blast+
    then show ?thesis
      unfolding discardUndeliveredToken_def DeleteUnusedByID_def tok_delete_def by (auto intro!: rq_wrap rq_exec)
  qed
  have end_: "Q (Inl e) d'" "Q (Inr (OInviteVerify i t b)) d'" if "token_change d d'" for e i t b d'
    using that by (auto intro!: assms simp: grants_def)
  have here: "Q (Inl e) d" for e by (rule end_) simp
  have deliver: "rq (bnd (attempt (sendInviteVerification svc ctx a c)) (\<lambda>s. case s of
           Inl err \<Rightarrow> bnd (attempt (discardUndeliveredToken ctx i)) (\<lambda>c. case c of
               Inl cleanup \<Rightarrow> fail (Wrapf ''oauth invite delivery cleanup'' [cleanup])
             | Inr _ \<Rightarrow> fail err)
         | Inr _ \<Rightarrow> ret (OInviteVerify i t b))) Q d'" if "token_change d d'" for a c i t b d'
  proof -
    have "rq (bnd (attempt (discardUndeliveredToken ctx i)) (\<lambda>c. case c of
        Inl cleanup \<Rightarrow> fail (Wrapf ''oauth invite delivery cleanup'' [cleanup]) | Inr _ \<Rightarrow> fail err)) Q d'" for err
      by (rule rq_bnd, rule rq_attempt, rule discard [OF that]) (auto intro!: rq_fail end_ split: sum.split)
    then show ?thesis
      by (intro rq_bnd rq_attempt send) (auto intro!: rq_ret end_ that split: sum.split)
  qed
  show ?thesis
    unfolding prepareInviteVerification_def Let_def
    by (auto intro!: rq_fail here rq_bnd [of "Encrypt _ _"] rq_local [OF local_Encrypt] rq_bnd [of "GenerateNumeric _"] num rq_bnd [of now] rq_now
        rq_bnd [of generateID] rq_works rq_seq rq_tok_Create_change end_ deliver split: option.split sum.split)
qed

section \<open>The callback\<close>

lemma rq_callback_identity:
  assumes ctx: "\<not> c_tx ctx" "current_scope ctx = Of (ci_State inp)"
    and tok: "state_of inp d tok" "vouched svc inp tok info" "t_UserID tok = None" and same: "same_accounts d d1"
    and pa: "\<And>pa. existing = Some pa \<Longrightarrow> \<exists>x e. pa = decrypt_account e x \<and> x \<in> set (providers d) \<and>
      identity_is (op_Provider info) (op_ProviderUserID info) x"
    and inv: "case invitation of None \<Rightarrow> t_EncryptedPayload tok = ''''
      | Some v \<Rightarrow> t_EncryptedPayload tok \<noteq> '''' \<and> v \<in> set (invites d) \<and> oa_fold_eq svc (au_trim (oa_auth svc) (op_Email info)) (i_Email v)"
  shows "rq (callback_identity svc ctx inp info invitation existing) (callback_outcome svc inp d) d1"
proof (cases existing)
  case (Some pa)
  with pa obtain x e where "pa = decrypt_account e x" "x \<in> set (providers d)" "identity_is (op_Provider info) (op_ProviderUserID info) x" by blast
  with rq_callback_login [OF ctx tok same] Some show ?thesis by (simp add: callback_identity_def)
next
  case None
  have err: "callback_outcome svc inp d (Inl e) d1" for e using same by (simp add: callback_outcome_def grants_def)
  have prep: "rq (prepareInviteVerification svc ctx info v) (callback_outcome svc inp d) d1" for v
  proof (rule rq_prepareInviteVerification)
    fix r d' assume "token_change d1 d'" "\<not> grants r"
    then show "callback_outcome svc inp d r d'"
      using same_accounts_trans [OF same token_change_same] by (simp add: callback_outcome_def)
  qed
  show ?thesis
    using None inv ctx(2) unfolding callback_identity_def
    by (auto intro!: rq_fail err prep rq_registerOAuth ctx tok same split: option.splits)
qed

lemma rq_callback_exchanged:
  assumes ctx: "\<not> c_tx ctx" "current_scope ctx = Of (ci_State inp)"
    and tok: "state_of inp d tok" and v: "vouched svc inp tok info" and same: "same_accounts d d1"
    and linking: "t_UserID tok = None \<longleftrightarrow> linking = None"
  shows "rq (callback_exchanged svc ctx inp tok linking info) (callback_outcome svc inp d) d1"
proof -
  have err: "callback_outcome svc inp d (Inl e) d1" for e using same by (simp add: callback_outcome_def grants_def)
  let ?inv = "\<lambda>iv. case iv of None \<Rightarrow> t_EncryptedPayload tok = ''''
      | Some v \<Rightarrow> t_EncryptedPayload tok \<noteq> '''' \<and> v \<in> set (invites d) \<and> oa_fold_eq svc (au_trim (oa_auth svc) (op_Email info)) (i_Email v)"
  have found: "\<exists>x e. pa = decrypt_account e x \<and> x \<in> set (providers d) \<and> identity_is (op_Provider info) (op_ProviderUserID info) x"
    if "map_option (decrypt_account e) (select1 (identity_is (ci_Provider inp) (op_ProviderUserID info)) (providers d1)) = Some pa" for pa e
    using that select1_Some [of _ "providers d1"] same v by (auto simp: same_accounts_def vouched_def)
  have choose: "rq (bnd (internal (GetByProvider e ctx (ci_Provider inp) (op_ProviderUserID info))) (\<lambda>existing.
         case (t_UserID tok, linking) of
           (Some userID, Some sessionID) \<Rightarrow> callback_link svc ctx inp tok userID sessionID info existing
         | _ \<Rightarrow> callback_identity svc ctx inp info iv existing)) (callback_outcome svc inp d) d1" if inv: "?inv iv" for iv e
  proof -
    let ?e = "map_option (decrypt_account e) (select1 (identity_is (ci_Provider inp) (op_ProviderUserID info)) (providers d1))"
    have "rq (case (t_UserID tok, linking) of
           (Some userID, Some sessionID) \<Rightarrow> callback_link svc ctx inp tok userID sessionID info ?e
         | _ \<Rightarrow> callback_identity svc ctx inp info iv ?e) (callback_outcome svc inp d) d1"
    proof (cases "t_UserID tok")
      case None
      have "rq (callback_identity svc ctx inp info iv ?e) (callback_outcome svc inp d) d1"
        by (rule rq_callback_identity [OF ctx tok v None same _ inv]) (erule found)
      with None show ?thesis by simp
    next
      case (Some i)
      with linking obtain sid where "linking = Some sid" by auto
      with Some rq_callback_link [OF ctx(1) tok v Some same] show ?thesis by simp
    qed
    then show ?thesis
      unfolding GetByProvider_def by (intro rq_bnd rq_internal rq_query) (simp_all add: err)
  qed
  show ?thesis
    unfolding callback_exchanged_def
    by (rule rq_bnd, rule rq_callback_invite) (use same choose in \<open>auto simp: err same_accounts_def\<close>)
qed

lemma rq_Callback:
  assumes "\<not> c_tx ctx"
  shows "rq (Callback svc ctx inp) (callback_outcome svc inp d) d"
proof -
  have err: "callback_outcome svc inp d (Inl e) d1" if "same_accounts d d1" for e d1 using that by (simp add: callback_outcome_def grants_def)
  let ?ctx = "select_scope ctx (Of (ci_State inp))"
  have ctx: "\<not> c_tx ?ctx" "current_scope ?ctx = Of (ci_State inp)"
    using assms by (simp_all add: select_scope_def current_scope_def)
  have claimed: "rq (seq (claim_state ?ctx tok) (bnd (exchange svc p inp tok) (\<lambda>info. callback_exchanged svc ?ctx inp tok linking info)))
      (callback_outcome svc inp d) d"
    if "state_of inp d tok" "map_of (oa_providers svc) (ci_Provider inp) = Some p" "t_UserID tok = None \<longleftrightarrow> linking = None" for tok p linking
  proof (rule rq_seq, rule rq_claim_state)
    fix r :: "go_err + unit" and d1 assume "token_change d d1"
    note same = token_change_same [OF this]
    have "rq (bnd (exchange svc p inp tok) (\<lambda>info. callback_exchanged svc ?ctx inp tok linking info)) (callback_outcome svc inp d) d1"
      by (rule rq_bnd, rule rq_exchange [OF _ that(2)]) (use that same in \<open>auto intro!: rq_callback_exchanged ctx err\<close>)
    then show "case r of Inl e \<Rightarrow> callback_outcome svc inp d (Inl e) d1 | Inr a \<Rightarrow> rq (bnd (exchange svc p inp tok)
        (\<lambda>info. callback_exchanged svc ?ctx inp tok linking info)) (callback_outcome svc inp d) d1"
      by (simp add: err same split: sum.split)
  qed
  have state: "rq (bnd (link_session svc ?ctx inp tok) (\<lambda>linking.
        seq (claim_state ?ctx tok) (bnd (exchange svc p inp tok) (\<lambda>info. callback_exchanged svc ?ctx inp tok linking info))))
      (callback_outcome svc inp d) d"
    if "state_of inp d tok" "map_of (oa_providers svc) (ci_Provider inp) = Some p" for tok p
    by (rule rq_bnd, rule rq_link_session) (use that in \<open>auto intro!: claimed simp: err\<close>)
  show ?thesis
    unfolding Callback_def Let_def getProvider_def
    by (auto intro!: rq_bnd [of "callback_state _ _ _"] rq_callback_state rq_fail rq_ret rq_bnd [of "ret _"] rq_bnd [of "fail _"] state
        simp: err split: option.split)
qed


section \<open>Unlinking\<close>

text \<open>A way to sign in that the configuration has switched on.\<close>

definition can_sign_in :: "oauth_service \<Rightarrow> user \<Rightarrow> tables \<Rightarrow> bool" where
  "can_sign_in svc u d \<longleftrightarrow>
     HasPassword u \<and> \<not> cf_PasswordAuthenticationDisabled (au_config (oa_auth svc)) \<or>
     \<not> cf_OAuthAuthenticationDisabled (au_config (oa_auth svc)) \<and>
     (\<exists>pa \<in> set (providers d). pa_UserID pa = u_ID u \<and> map_of (oa_providers svc) (pa_Provider pa) \<noteq> None)"

definition unlink_outcome :: "oauth_service \<Rightarrow> string \<Rightarrow> string \<Rightarrow> tables \<Rightarrow> go_err + unit \<Rightarrow> tables \<Rightarrow> bool" where
  "unlink_outcome svc userID provider d r d' \<longleftrightarrow>
     (case r of
        Inl e \<Rightarrow> d' = d
      | Inr _ \<Rightarrow> same_but_audit (put_providers (delete_where (\<lambda>p. pa_UserID p = userID \<and> pa_Provider p = provider) (providers d)) d) d' \<and>
          (\<exists>u \<in> set (users d). u_ID u = userID \<and> can_sign_in svc u d'))"

lemma wp_unlink_tx:
  assumes "c_tx tx"
  shows "wp (unlink_tx svc i provider tx) (\<lambda>r d'. case r of Inl e \<Rightarrow> True | Inr a \<Rightarrow> unlink_outcome svc i provider d (Inr a) d') d"
proof -
  have lock: "put_providers (update_where P (\<lambda>p. p) (providers d)) d = d" for P by (simp add: update_where_same put_providers_def)
  have row: "u \<in> set (users d) \<and> u_ID u = i" if "select1 (user_id_is i) (users d) = Some u" for u
    using select1_Some [OF that] by (simp add: user_id_is_def)
  have left: "can_sign_in svc u d'"
    if "remaining_method svc u provider (map (decrypt_account e) (sort_key pa_CreatedAt (filter (\<lambda>p. pa_UserID p = i) (providers d))))"
      "u_ID u = i" "same_but_audit (put_providers (delete_where (\<lambda>p. pa_UserID p = i \<and> pa_Provider p = provider) (providers d)) d) d'" for u e d' i
    using that by (auto simp: remaining_method_def can_sign_in_def list_ex_iff decrypt_account_def delete_where_def same_but_audit_def put_providers_def)
  then have fin: "unlink_outcome svc i provider d (Inr a) d'"
    if "u \<in> set (users d)" "u_ID u = i"
      "remaining_method svc u provider (map (decrypt_account e) (sort_key pa_CreatedAt (filter (\<lambda>p. pa_UserID p = i) (providers d))))"
      "same_but_audit (put_providers (delete_where (\<lambda>p. pa_UserID p = i \<and> pa_Provider p = provider) (providers d)) d) d'" for u e d' a i
    using that by (auto simp: unlink_outcome_def)
  have publish: "wp (publish a tx ev) (\<lambda>r d'. r = Inr () \<longrightarrow> unlink_outcome svc (u_ID u) provider d (Inr ()) d')
      (put_providers (delete_where (\<lambda>p. pa_UserID p = u_ID u \<and> pa_Provider p = provider) (providers d)) d)"
    if "u \<in> set (users d)" 
      "remaining_method svc u provider (map (decrypt_account e) (sort_key pa_CreatedAt (filter (\<lambda>p. pa_UserID p = u_ID u) (providers d))))" for u e a ev
    by (rule wp_publish [OF assms]) (use fin [OF that(1) refl that(2)] in \<open>auto split: sum.split\<close>)
  show ?thesis
    unfolding unlink_tx_def LockByUserID_def usr_GetByID_def prov_ListByUserID_def prov_Delete_def
    by (auto intro!: wp_seq wp_internal wp_exec wp_query wp_bnd wp_attempt wp_fail publish assms dest!: row
        simp: lock split: option.split sum.split)
qed

lemma rq_Unlink:
  assumes "\<not> c_tx ctx"
  shows "rq (Unlink svc ctx i provider) (unlink_outcome svc i provider d) d"
  unfolding Unlink_def by (rule rq_WithTx) (simp_all add: assms unlink_outcome_def [of _ _ _ _ "Inl _"] wp_unlink_tx)

text \<open>C27: unlinking removes the identity of that provider from that user and nothing else, and only while the user
  keeps a way to sign in that is switched on: a password, or the identity of another configured provider.\<close>

theorem unlink_keeps_a_method:
  assumes "\<not> c_tx ctx" and "faults_only w" and "Unlink svc ctx userID provider w = (r, w')"
  shows "unlink_outcome svc userID provider (store w) r (store w')"
  using rqD [OF rq_Unlink [OF assms(1)] assms(2,3)] by simp

section \<open>Witnesses\<close>

definition profile_ex :: oauth_profile where
  "profile_ex = \<lparr>op_Provider = ''google'', op_ProviderUserID = ''g1'', op_Email = ''o@b.c'', op_EmailVerified = True, op_Name = ''O'',
     op_AvatarURL = '''', op_AccessToken = ''at'', op_RefreshToken = '''', op_TokenExpiresAt = None\<rparr>"

definition provider_ex :: oauth_provider where
  "provider_ex = \<lparr>pv_AuthURL = (\<lambda>s c. s), pv_Exchange = (\<lambda>code v net. if code = ''code'' \<and> v = ''ver'' then Inr (Some profile_ex) else Inl ErrInternal)\<rparr>"

definition oauth_service_ex :: oauth_service where
  "oauth_service_ex = \<lparr>oa_auth = register_service_ex, oa_providers = [(''google'', provider_ex)], oa_OAuth = True, oa_InviteSignup = False,
     oa_invites = False, oa_encryptor = None, oa_marshal = (\<lambda>_. Inl ErrInternal), oa_unmarshal = (\<lambda>_. Inl ErrInternal), oa_fold_eq = (=)\<rparr>"

definition callback_ex :: callback_input where
  "callback_ex = \<lparr>ci_Provider = ''google'', ci_Code = ''code'', ci_State = ''state'', ci_BrowserState = ''state'', ci_SessionToken = '''',
     ci_IP = ''ip'', ci_UserAgent = ''ua''\<rparr>"

definition callback_world_ex :: "tables world" where
  "callback_world_ex = \<lparr>store = tables_of [] [state_token ''t1'' None '''' ''google'' ''state'' ''ver'' 1], sched = [], clock = 5, ticks = [],
     entropy = [Some ''net'', Some ''u2'', Some ''p1'', Some ''st'', Some ''rt'', Some ''s1''], mailbox = []\<rparr>"

lemma Of_state [simp]: "Of ''state'' = App"
  by code_simp

lemma callback_run_ex:
  "\<exists>res w'. Callback oauth_service_ex request_ctx callback_ex callback_world_ex = (Inr (OSession True res), w')"
  by (simp add: Callback_def getProvider_def callback_state_def GetByHash_def link_session_def claim_state_def internal_def MarkUsedIfUnused_def
      affected_def exchange_def callback_exchanged_def callback_invite_def GetByProvider_def callback_identity_def registerOAuth_def
      createOAuthAccount_def oauth_account_tx_def usr_Create_def createProviderAccount_def sealed_def prov_Create_def completeOAuthLogin_def
      oauth_login_tx_def oauth_user_def new_account_def generateID_def oauth_service_ex_def provider_ex_def profile_ex_def callback_ex_def
      callback_world_ex_def state_token_def register_service_ex_def select_scope_def put_tokens_def put_providers_def count_where_def update_where_def
      unused_id_def set_used_def With_def minute_def second_def login_run_simps)


definition unlink_world_ex :: "tables world" where
  "unlink_world_ex = quiet_world ((tables_of [user_ex] [])\<lparr>providers :=
     [new_account ''p1'' ''u1'' (profile_ex\<lparr>op_Provider := ''github''\<rparr>) '''' '''' 1, new_account ''p2'' ''u1'' profile_ex '''' '''' 2]\<rparr>)"

lemma unlink_run_ex: "fst (Unlink oauth_service_ex request_ctx ''u1'' ''github'' unlink_world_ex) = Inr ()"
  by (simp add: Unlink_def unlink_tx_def LockByUserID_def internal_def usr_GetByID_def prov_ListByUserID_def prov_Delete_def remaining_method_def
      unlink_world_ex_def new_account_def profile_ex_def oauth_service_ex_def register_service_ex_def decrypt_account_def put_providers_def
      update_where_def delete_where_def login_run_simps)

theorem unlink_keeps_a_method_witness:
  "length (providers (store (snd (Unlink oauth_service_ex request_ctx ''u1'' ''github'' unlink_world_ex)))) = 1"
proof -
  obtain w' where run: "Unlink oauth_service_ex request_ctx ''u1'' ''github'' unlink_world_ex = (Inr (), w')"
    using unlink_run_ex by (metis prod.collapse)
  have "faults_only unlink_world_ex" by (simp add: unlink_world_ex_def)
  with unlink_keeps_a_method [OF _ _ run] run show ?thesis
    by (auto simp: unlink_outcome_def same_but_audit_def unlink_world_ex_def new_account_def profile_ex_def delete_where_def)
qed

end
