(* ===== verification/Csrf.thy ===== *)
theory Csrf
  imports Login
begin

text \<open>
  \<open>middleware/csrf_token.go\<close> and \<open>middleware/browser_session.go\<close>: the signed double-submit token of every
  browser mutation, bound to the session or to an anonymous browser. A request is its method, the headers and
  cookies read here, and what earlier middleware put into its context; a handler answers with a status and an
  error code, or passes the request on, and writes cookies (\<open>None\<close> clears one). Cookie attributes and the
  other headers of an answer are not modelled.
\<close>

section \<open>Signed tokens\<close>

text \<open>A nonce is read from \<open>crypto/rand\<close>: the first bytes of the value drawn, fewer are a failed read.\<close>

definition csrf_message :: "string \<Rightarrow> string \<Rightarrow> string" where
  "csrf_message binding nonce = ''goauth-csrf-v2:'' @ itoa_nat (length binding) @ '':'' @ binding @ '':'' @ nonce"

definition csrfSignature :: "string \<Rightarrow> string \<Rightarrow> string \<Rightarrow> string" where
  "csrfSignature secret binding nonce = EncodeToString RawURLEncoding (hmac_sha256 secret (csrf_message binding nonce))"

definition generateCSRFToken :: "nat \<Rightarrow> string \<Rightarrow> string \<Rightarrow> string action" where
  "generateCSRFToken n secret binding =
     (if secret = '''' then fail (Sentinel ''csrf: signing secret is empty'')
      else if n < 1 then fail (Sentinel (''csrf: token length must be positive, got '' @ itoa_nat n))
      else bnd draw (\<lambda>r. if length r < n then fail ErrRandom else
        let encoded = EncodeToString RawURLEncoding (take n r) in ret (encoded @ ''.'' @ csrfSignature secret binding encoded)))"

definition verifyCSRFToken :: "string \<Rightarrow> string \<Rightarrow> string \<Rightarrow> bool" where
  "verifyCSRFToken token secret binding \<longleftrightarrow>
     secret \<noteq> '''' \<and> length token \<le> 8192 \<and>
     (case split_on (CHR ''.'') token of
        [nonce, sig] \<Rightarrow> nonce \<noteq> '''' \<and> sig \<noteq> '''' \<and>
          (case DecodeString RawURLEncoding nonce of None \<Rightarrow> False | Some bs \<Rightarrow> bs \<noteq> '''') \<and>
          (case DecodeString RawURLEncoding sig of None \<Rightarrow> False | Some bs \<Rightarrow> length bs = 32) \<and>
          sig = csrfSignature secret binding nonce
      | _ \<Rightarrow> False)"

lemma length_hmac [simp]: "length (hmac_sha256 k m) = 32"
  by (simp add: hmac_sha256_def Let_def)

lemma raw_url_good: "good_alphabet (b_alphabet RawURLEncoding)"
  by (simp add: RawURLEncoding_def)

lemma raw_url_length: "length (EncodeToString RawURLEncoding s) = (length s * 4 + 2) div 3"
  by (simp add: EncodeToString_def RawURLEncoding_def length_b64_digits bytes_of_def)

lemma raw_url_chars: "x \<in> set (EncodeToString RawURLEncoding s) \<Longrightarrow> x \<in> set url_alphabet"
proof -
  assume "x \<in> set (EncodeToString RawURLEncoding s)"
  then obtain n where n: "n \<in> set (b64_digits (bytes_of s))" "x = url_alphabet ! n"
    by (auto simp: EncodeToString_def RawURLEncoding_def)
  have "n < 64" using b64_digits_lt bytes_lt n(1) by blast
  moreover have "length url_alphabet = 64" using good_alphabets(2) by (simp add: good_alphabet_def)
  ultimately show ?thesis using n(2) by simp
qed

lemma no_dot: "CHR ''.'' \<notin> set (EncodeToString RawURLEncoding s)"
proof -
  have "CHR ''.'' \<notin> set url_alphabet" by code_simp
  then show ?thesis using raw_url_chars by blast
qed

text \<open>A token that verifies is a nonce and its signature.\<close>

lemma verify_shape:
  assumes "verifyCSRFToken t secret binding"
  shows "\<exists>nonce. CHR ''.'' \<notin> set nonce \<and> nonce \<noteq> '''' \<and> t = nonce @ ''.'' @ csrfSignature secret binding nonce"
proof -
  obtain nonce sig where s: "split_on (CHR ''.'') t = [nonce, sig]" and v: "nonce \<noteq> ''''" "sig = csrfSignature secret binding nonce"
    using assms by (auto simp: verifyCSRFToken_def split: list.splits)
  have "t = nonce @ ''.'' @ sig" using join_split [of "CHR ''.''" t] s by simp
  moreover have "CHR ''.'' \<notin> set nonce" using split_on_parts [of nonce "CHR ''.''" t] s by simp
  ultimately show ?thesis using v by blast
qed

lemma verify_generated:
  assumes "secret \<noteq> ''''" and "raw \<noteq> ''''" and "length raw \<le> 4096"
  shows "verifyCSRFToken (EncodeToString RawURLEncoding raw @ ''.'' @ csrfSignature secret binding (EncodeToString RawURLEncoding raw)) secret binding"
proof -
  let ?e = "EncodeToString RawURLEncoding raw" and ?s = "csrfSignature secret binding (EncodeToString RawURLEncoding raw)"
  have parts: "split_on (CHR ''.'') (?e @ ''.'' @ ?s) = [?e, ?s]"
    using split_on_append_sep [OF no_dot, of raw ?s] split_on_no_sep [of "CHR ''.''" ?s] no_dot by (simp add: csrfSignature_def)
  have "?e \<noteq> ''''" using raw_url_length [of raw] assms(2) by (cases raw) auto
  moreover have "?s \<noteq> ''''" using raw_url_length [of "hmac_sha256 secret (csrf_message binding ?e)"] by (auto simp: csrfSignature_def)
  moreover have "length (?e @ ''.'' @ ?s) \<le> 8192" using assms(3) by (simp add: raw_url_length csrfSignature_def)
  ultimately show ?thesis
    using assms parts by (simp add: verifyCSRFToken_def Decode_Encode [OF raw_url_good] csrfSignature_def)
qed

lemma sep_inj: "a @ c # x = a' @ c # x' \<Longrightarrow> c \<notin> set a \<Longrightarrow> c \<notin> set a' \<Longrightarrow> a = a' \<and> x = x'"
  by (induction a arbitrary: a') (auto simp: Cons_eq_append_conv)

lemma generated_result:
  assumes "generateCSRFToken n secret b w = (Inr t, w')"
  shows "\<exists>raw. secret \<noteq> '''' \<and> raw \<noteq> '''' \<and> length raw = n \<and>
    t = EncodeToString RawURLEncoding raw @ ''.'' @ csrfSignature secret b (EncodeToString RawURLEncoding raw) \<and> store w' = store w \<and> sched w' = sched w"
proof -
  have c: "secret \<noteq> ''''" "1 \<le> n" using assms by (auto simp: generateCSRFToken_def fail_def split: if_splits)
  obtain e w1 where d: "draw w = (e, w1)" by fastforce
  with assms c obtain r where e: "e = Inr r" by (cases e) (auto simp: generateCSRFToken_def bnd_def)
  have r: "n \<le> length r" "w' = w1"
    "t = EncodeToString RawURLEncoding (take n r) @ ''.'' @ csrfSignature secret b (EncodeToString RawURLEncoding (take n r))"
    using assms c d e by (auto simp: generateCSRFToken_def bnd_def ret_def fail_def Let_def split: if_splits)
  have "store w' = store w" "sched w' = sched w" using r(2) local_progD [OF local_draw d] by simp_all
  with c r show ?thesis by (intro exI [of _ "take n r"]) auto
qed

lemma csrf_generated_verifies: "generateCSRFToken n s b w = (Inr t, w') \<Longrightarrow> n \<le> 4096 \<Longrightarrow> verifyCSRFToken t s b"
  using generated_result [of n s b w t w'] verify_generated by fastforce

text \<open>The length prefix separates the binding from the nonce.\<close>

lemma csrf_message_inj:
  assumes "csrf_message b n = csrf_message b' n'"
  shows "b = b' \<and> n = n'"
proof -
  have "itoa_nat (length b) @ CHR '':'' # b @ '':'' @ n = itoa_nat (length b') @ CHR '':'' # b' @ '':'' @ n'"
    using assms by (simp add: csrf_message_def)
  from sep_inj [OF this itoa_nat_no_colon itoa_nat_no_colon] show ?thesis by (auto simp: itoa_nat_inj)
qed

lemma csrf_collision:
  assumes v: "verifyCSRFToken t secret b" "verifyCSRFToken t secret b'" and ne: "b \<noteq> b'"
  shows "\<exists>nonce. prefix (nonce @ ''.'') t \<and> csrf_message b nonce \<noteq> csrf_message b' nonce \<and>
    hmac_sha256 secret (csrf_message b nonce) = hmac_sha256 secret (csrf_message b' nonce)"
proof -
  from verify_shape [OF v(1)] obtain n where n: "CHR ''.'' \<notin> set n" "t = n @ ''.'' @ csrfSignature secret b n" by blast
  from verify_shape [OF v(2)] obtain n' where n': "CHR ''.'' \<notin> set n'" "t = n' @ ''.'' @ csrfSignature secret b' n'" by blast
  have "n @ CHR ''.'' # csrfSignature secret b n = n' @ CHR ''.'' # csrfSignature secret b' n'" using n(2) n'(2) by simp
  then have "n = n'" "csrfSignature secret b n = csrfSignature secret b' n'" using sep_inj [OF _ n(1) n'(1)] by auto
  then have "hmac_sha256 secret (csrf_message b n) = hmac_sha256 secret (csrf_message b' n)"
    using Decode_Encode [OF raw_url_good] unfolding csrfSignature_def by (metis option.inject)
  moreover have "csrf_message b n \<noteq> csrf_message b' n" using csrf_message_inj ne by blast
  moreover have "prefix (n @ ''.'') t" using n(2) by simp
  ultimately show ?thesis by blast
qed

text \<open>C34: a token that was issued verifies under the secret and the binding it was issued for. Every token that
  verifies is a nonce with its signature for the binding, and one that verifies for two bindings is an HMAC collision
  of the two signed texts of its nonce: the length prefix keeps the texts of different bindings apart.\<close>

theorem csrf_tokens_separate:
  "(\<forall>w t w'. n \<le> 4096 \<longrightarrow> generateCSRFToken n secret b w = (Inr t, w') \<longrightarrow> verifyCSRFToken t secret b) \<and>
   (\<forall>t. verifyCSRFToken t secret b \<longrightarrow> (\<exists>nonce. CHR ''.'' \<notin> set nonce \<and> t = nonce @ ''.'' @ csrfSignature secret b nonce)) \<and>
   (\<forall>t b'. verifyCSRFToken t secret b \<longrightarrow> verifyCSRFToken t secret b' \<longrightarrow> b = b' \<or>
      (\<exists>nonce. prefix (nonce @ ''.'') t \<and> csrf_message b nonce \<noteq> csrf_message b' nonce \<and>
         hmac_sha256 secret (csrf_message b nonce) = hmac_sha256 secret (csrf_message b' nonce)))"
proof (intro conjI allI impI)
  fix w t w' assume "n \<le> 4096" and "generateCSRFToken n secret b w = (Inr t, w')"
  then show "verifyCSRFToken t secret b" by (rule csrf_generated_verifies [rotated])
next
  fix t assume "verifyCSRFToken t secret b"
  then show "\<exists>nonce. CHR ''.'' \<notin> set nonce \<and> t = nonce @ ''.'' @ csrfSignature secret b nonce" using verify_shape by blast
next
  fix t b' assume "verifyCSRFToken t secret b" "verifyCSRFToken t secret b'"
  then show "b = b' \<or> (\<exists>nonce. prefix (nonce @ ''.'') t \<and> csrf_message b nonce \<noteq> csrf_message b' nonce \<and>
         hmac_sha256 secret (csrf_message b nonce) = hmac_sha256 secret (csrf_message b' nonce))"
    using csrf_collision by blast
qed

text \<open>A world with two random values of 32 bytes.\<close>

definition random_world :: "tables \<Rightarrow> tables world" where
  "random_world d = (quiet_world d)\<lparr>entropy := [Some (replicate 32 CHR ''x''), Some (replicate 32 CHR ''y'')]\<rparr>"

lemma generates: "secret \<noteq> '''' \<Longrightarrow> entropy w = Some (replicate 32 x) # es \<Longrightarrow>
  \<exists>t. generateCSRFToken 32 secret b w = (Inr t, w\<lparr>entropy := es\<rparr>) \<and> verifyCSRFToken t secret b"
  using csrf_generated_verifies [of 32 secret b w _ "w\<lparr>entropy := es\<rparr>"]
  by (auto simp: generateCSRFToken_def draw_def effect_defs Let_def)

theorem csrf_tokens_separate_witness:
  "\<exists>t nonce. fst (generateCSRFToken 32 ''k'' ''session:1'' (random_world (tables_of [] []))) = Inr t \<and> verifyCSRFToken t ''k'' ''session:1'' \<and>
     t = nonce @ ''.'' @ csrfSignature ''k'' ''session:1'' nonce"
proof -
  obtain t w' where run: "generateCSRFToken 32 ''k'' ''session:1'' (random_world (tables_of [] [])) = (Inr t, w')"
    using generates [of "''k''" "random_world (tables_of [] [])" "CHR ''x''" "[Some (replicate 32 CHR ''y'')]" "''session:1''"]
    by (auto simp: random_world_def)
  from csrf_tokens_separate [of 32 "''k''" "''session:1''"] run have v: "verifyCSRFToken t ''k'' ''session:1''" by auto
  with csrf_tokens_separate [of 32 "''k''" "''session:1''"] obtain nonce where "t = nonce @ ''.'' @ csrfSignature ''k'' ''session:1'' nonce" by blast
  with run v show ?thesis by auto
qed

section \<open>Requests\<close>

text \<open>What \<open>csrfBinding\<close> leaves for the authentication: cookie, session with its owner, and the failed check.\<close>

record session_snapshot =
  sn_token :: string
  sn_found :: "(session \<times> user) option"
  sn_err :: "go_err option"

text \<open>\<open>hr_Selector\<close> holds the values of the header that selects a browser context, \<open>hr_Token\<close> that of the CSRF
  header (empty when absent). The rest is context: the session and its owner, the snapshot, the CSRF token with
  its binding, and the mark \<open>AuthMiddleware\<close> leaves.\<close>

record http_request =
  hr_Method :: string
  hr_Selector :: "string list"
  hr_Token :: string
  hr_Cookies :: "(string \<times> string) list"
  hr_ctx :: ctx
  hr_Session :: "session option"
  hr_User :: "user option"
  hr_Snapshot :: "session_snapshot option"
  hr_Csrf :: "(string \<times> string) option"
  hr_Authenticated :: "(scope \<times> string \<times> session option \<times> user option) option"

datatype answer = Reject nat string | Pass http_request

type_synonym cookies = "(string \<times> string option) list"

abbreviation Cookie :: "http_request \<Rightarrow> string \<Rightarrow> string option" where
  "Cookie r name \<equiv> map_of (hr_Cookies r) name"

text \<open>The first value of a header, empty when there is none.\<close>

definition header_get :: "string list \<Rightarrow> string" where
  "header_get vs = (case vs of [] \<Rightarrow> '''' | v # _ \<Rightarrow> v)"

definition resolveBrowserSession :: "http_request \<Rightarrow> bool \<Rightarrow> go_err + http_request" where
  "resolveBrowserSession r adminLogin =
     (let value = header_get (hr_Selector r) in
      if 1 < length (hr_Selector r) \<or> (value \<noteq> '''' \<and> value \<noteq> ''app'' \<and> value \<noteq> ''admin'') \<or> (adminLogin \<and> value = ''app'')
      then Inl ErrInvalidSessionContext
      else if adminLogin then Inr (r\<lparr>hr_ctx := select_scope (hr_ctx r) Admin\<rparr>)
      else if Explicit (c_scope (hr_ctx r)) then Inr r
      else Inr (r\<lparr>hr_ctx := select_scope (hr_ctx r) (if value = ''admin'' then Admin else App)\<rparr>))"

definition BrowserSession :: "bool \<Rightarrow> http_request \<Rightarrow> answer" where
  "BrowserSession adminLogin r = (case resolveBrowserSession r adminLogin of
       Inl _ \<Rightarrow> Reject 400 ''invalid_session_context'' | Inr r' \<Rightarrow> Pass r')"

section \<open>The middleware\<close>

text \<open>\<open>Sessions\<close> is the session repository or nil; \<open>ValidateSession\<close> is that of a session service, or nil.\<close>

record csrf_config =
  cs_CookieSecure :: bool
  cs_Secret :: string
  cs_SessionCookie :: string
  cs_RefreshCookie :: string
  cs_AdminSessionCookie :: string
  cs_AdminRefreshCookie :: string
  cs_scope :: scope
  cs_Sessions :: bool
  cs_ValidateSession :: "session_service option"

definition or_default :: "string \<Rightarrow> string \<Rightarrow> string" where
  "or_default s d = (if s = '''' then d else s)"

definition forRequest :: "csrf_config \<Rightarrow> http_request \<Rightarrow> csrf_config" where
  "forRequest c r =
     (let resolved = c\<lparr>cs_scope := current_scope (hr_ctx r)\<rparr> in
      if current_scope (hr_ctx r) = Admin
      then resolved\<lparr>cs_SessionCookie := or_default (cs_AdminSessionCookie c) ''goauth_admin_session'',
             cs_RefreshCookie := or_default (cs_AdminRefreshCookie c) ''goauth_admin_refresh''\<rparr>
      else resolved)"

definition cookieName :: "csrf_config \<Rightarrow> string" where
  "cookieName c = (if cs_scope c = Admin then ''_goauth_admin_csrf'' else ''_csrf'')"

definition bindingPurpose :: "csrf_config \<Rightarrow> string" where
  "bindingPurpose c = (if cs_scope c = Admin then ''admin:browser-cookie'' else ''browser-cookie'')"

definition sessionBinding :: "csrf_config \<Rightarrow> string \<Rightarrow> string" where
  "sessionBinding c i = (if cs_scope c = Admin then ''admin:session:'' @ i else ''session:'' @ i)"

definition browserCookieName :: "csrf_config \<Rightarrow> string" where
  "browserCookieName c =
     (if cs_scope c = Admin then (if cs_CookieSecure c then ''__Host-goauth_admin_browser'' else ''_goauth_admin_browser'')
      else if cs_CookieSecure c then ''__Host-goauth_browser'' else ''_goauth_browser'')"

definition csrfHash :: "string \<Rightarrow> string" where
  "csrfHash raw = hex_encode (sha256 raw)"

definition usable_cookie :: "http_request \<Rightarrow> string \<Rightarrow> string option" where
  "usable_cookie r name = (case Cookie r name of
       None \<Rightarrow> None
     | Some v \<Rightarrow> if v \<noteq> '''' \<and> Matches (c_scope (hr_ctx r)) v then Some v else None)"

text \<open>The last step of \<open>csrfBinding\<close>: an anonymous browser is identified by a token of its own.\<close>

definition browser_binding :: "http_request \<Rightarrow> csrf_config \<Rightarrow> string" where
  "browser_binding r c = (case Cookie r (browserCookieName c) of
       Some v \<Rightarrow> if verifyCSRFToken v (cs_Secret c) (bindingPurpose c) then ''browser:'' @ v else ''''
     | None \<Rightarrow> '''')"

definition refresh_binding :: "http_request \<Rightarrow> csrf_config \<Rightarrow> string action" where
  "refresh_binding r c = (case usable_cookie r (cs_RefreshCookie c) of
       None \<Rightarrow> ret (browser_binding r c)
     | Some v \<Rightarrow>
         bnd (GetByRefreshHash (hr_ctx r) (csrfHash v)) (\<lambda>s1.
         bnd (if s1 = None then GetByPreviousRefreshHash (hr_ctx r) (csrfHash v) else ret s1) (\<lambda>s2.
           ret (case s2 of Some s \<Rightarrow> if \<not> s_IsRevoked s then sessionBinding c (s_ID s) else browser_binding r c
                | None \<Rightarrow> browser_binding r c))))"

text \<open>The check of the session the cookie names, whose result goes into the snapshot.\<close>

definition snapshot_check :: "csrf_config \<Rightarrow> (session \<times> user) option \<Rightarrow> go_err option action" where
  "snapshot_check c found = (case found of
       None \<Rightarrow> ret (Some ErrSessionNotFound)
     | Some (s, u) \<Rightarrow> (case cs_ValidateSession c of
           None \<Rightarrow> ret None
         | Some svc \<Rightarrow> bnd (attempt (ValidateBrowserSnapshot svc (Some s))) (\<lambda>v. ret (case v of Inl e \<Rightarrow> Some e | Inr _ \<Rightarrow> None))))"

definition csrfBinding :: "http_request \<Rightarrow> csrf_config \<Rightarrow> (http_request \<times> string) action" where
  "csrfBinding r c = (case hr_Session r of
       Some s \<Rightarrow> ret (r, sessionBinding c (s_ID s))
     | None \<Rightarrow>
         if \<not> cs_Sessions c then ret (r, browser_binding r c)
         else (case usable_cookie r (cs_SessionCookie c) of
             None \<Rightarrow> bnd (refresh_binding r c) (\<lambda>b. ret (r, b))
           | Some v \<Rightarrow>
               bnd (GetByTokenHashWithUser (hr_ctx r) (csrfHash v)) (\<lambda>found.
               bnd (snapshot_check c found) (\<lambda>validation.
               let r' = (if cs_ValidateSession c \<noteq> None then r\<lparr>hr_Snapshot := Some \<lparr>sn_token = v, sn_found = found, sn_err = validation\<rparr>\<rparr> else r) in
               case found of
                 Some (s, u) \<Rightarrow> if \<not> s_IsRevoked s then ret (r', sessionBinding c (s_ID s)) else bnd (refresh_binding r' c) (\<lambda>b. ret (r', b))
               | None \<Rightarrow> bnd (refresh_binding r' c) (\<lambda>b. ret (r', b))))))"

definition newBrowserBinding :: "csrf_config \<Rightarrow> (string \<times> cookies) action" where
  "newBrowserBinding c =
     bnd (generateCSRFToken 32 (cs_Secret c) (bindingPurpose c)) (\<lambda>value. ret (''browser:'' @ value, [(browserCookieName c, Some value)]))"

definition safe_method :: "string \<Rightarrow> bool" where
  "safe_method m \<longleftrightarrow> m = ''GET'' \<or> m = ''HEAD'' \<or> m = ''OPTIONS''"

abbreviation csrf_failed :: "cookies \<Rightarrow> (answer \<times> cookies) action" where
  "csrf_failed ws \<equiv> ret (Reject 500 ''internal_error'', ws)"

text \<open>The active token, and passing the request on with it.\<close>

definition active_token :: "http_request \<Rightarrow> csrf_config \<Rightarrow> string" where
  "active_token r c = (case Cookie r (cookieName c) of None \<Rightarrow> '''' | Some v \<Rightarrow> v)"

definition with_csrf :: "http_request \<Rightarrow> string \<Rightarrow> string \<Rightarrow> answer" where
  "with_csrf r token binding = Pass (r\<lparr>hr_Csrf := Some (token, binding)\<rparr>)"

definition csrf_unsafe :: "csrf_config \<Rightarrow> http_request \<Rightarrow> string \<Rightarrow> (answer \<times> cookies) action" where
  "csrf_unsafe cfg r binding =
     (if binding = '''' \<or> \<not> verifyCSRFToken (active_token r cfg) (cs_Secret cfg) binding
      then ret (Reject 403 ''csrf_token_invalid'', []) else ret (with_csrf r (active_token r cfg) binding, []))"

definition csrf_safe :: "csrf_config \<Rightarrow> http_request \<Rightarrow> string \<Rightarrow> (answer \<times> cookies) action" where
  "csrf_safe cfg r found =
     bnd (attempt (if found = '''' then newBrowserBinding cfg else ret (found, []))) (\<lambda>n. case n of
       Inl e \<Rightarrow> csrf_failed []
     | Inr (binding, ws) \<Rightarrow>
         if verifyCSRFToken (active_token r cfg) (cs_Secret cfg) binding then ret (with_csrf r (active_token r cfg) binding, ws)
         else bnd (attempt (generateCSRFToken 32 (cs_Secret cfg) binding)) (\<lambda>g. case g of
           Inl e \<Rightarrow> csrf_failed ws
         | Inr token \<Rightarrow> ret (with_csrf r token binding, ws @ [(cookieName cfg, Some token)])))"

definition CSRFToken :: "csrf_config option \<Rightarrow> http_request \<Rightarrow> (answer \<times> cookies) action" where
  "CSRFToken config r0 = (case resolveBrowserSession r0 False of
       Inl e \<Rightarrow> ret (Reject 400 ''invalid_session_context'', [])
     | Inr r \<Rightarrow> (case config of None \<Rightarrow> csrf_failed [] | Some c \<Rightarrow>
         let cfg = forRequest c r; safe = safe_method (hr_Method r) in
         if cs_Secret cfg = '''' then csrf_failed []
         else if \<not> safe \<and> (active_token r cfg = '''' \<or> hr_Token r = '''') then ret (Reject 403 ''csrf_token_missing'', [])
         else if \<not> safe \<and> active_token r cfg \<noteq> hr_Token r then ret (Reject 403 ''csrf_token_mismatch'', [])
         else bnd (attempt (csrfBinding r cfg)) (\<lambda>b. case b of
           Inl e \<Rightarrow> csrf_failed []
         | Inr (r', binding) \<Rightarrow> if safe then csrf_safe cfg r' binding else csrf_unsafe cfg r' binding)))"

text \<open>\<open>sessionID\<close> is the optional argument: a session, the empty string for none, or absent.\<close>

definition RotateCSRFToken :: "csrf_config option \<Rightarrow> http_request \<Rightarrow> string option \<Rightarrow> cookies action" where
  "RotateCSRFToken config r0 sessionID = (case config of
       None \<Rightarrow> fail (Sentinel ''missing CSRF signing configuration'')
     | Some c \<Rightarrow>
         if cs_Secret c = '''' then fail (Sentinel ''missing CSRF signing configuration'')
         else (case resolveBrowserSession r0 False of
             Inl e \<Rightarrow> fail e
           | Inr r \<Rightarrow> let cfg = forRequest c r in
               bnd (case sessionID of
                      Some i \<Rightarrow> ret (if i = '''' then '''' else sessionBinding cfg i)
                    | None \<Rightarrow> bnd (csrfBinding r cfg) (\<lambda>(r', b). ret b)) (\<lambda>b0.
               bnd (if b0 = '''' then newBrowserBinding cfg else ret (b0, [])) (\<lambda>(binding, ws).
               bnd (generateCSRFToken 32 (cs_Secret cfg) binding) (\<lambda>token. ret (ws @ [(cookieName cfg, Some token)]))))))"

section \<open>Credential cookies\<close>

record cookie_settings =
  ck_Name :: string
  ck_RefreshName :: string
  ck_ChallengeName :: string
  ck_AdminName :: string
  ck_AdminRefreshName :: string
  ck_AdminChallengeName :: string

definition ForRequest :: "cookie_settings \<Rightarrow> http_request \<Rightarrow> cookie_settings" where
  "ForRequest c r0 =
     (let r = (case resolveBrowserSession r0 False of Inl _ \<Rightarrow> r0 | Inr r \<Rightarrow> r) in
      if current_scope (hr_ctx r) = Admin
      then c\<lparr>ck_Name := or_default (ck_AdminName c) ''goauth_admin_session'',
             ck_RefreshName := or_default (ck_AdminRefreshName c) ''goauth_admin_refresh'',
             ck_ChallengeName := or_default (ck_AdminChallengeName c) ''_goauth_admin_2fa_challenge''\<rparr>
      else c)"

definition SetSessionCookie :: "cookie_settings \<Rightarrow> string \<Rightarrow> cookies" where
  "SetSessionCookie c token = (if token = '''' then [] else [(ck_Name c, Some token)])"

definition SetRefreshCookie :: "cookie_settings \<Rightarrow> string \<Rightarrow> cookies" where
  "SetRefreshCookie c token = (if token = '''' then [] else [(ck_RefreshName c, Some token)])"

definition ClearSessionCookie :: "cookie_settings \<Rightarrow> cookies" where
  "ClearSessionCookie c = [(ck_Name c, None)]"

definition ClearRefreshCookie :: "cookie_settings \<Rightarrow> cookies" where
  "ClearRefreshCookie c = [(ck_RefreshName c, None)]"

definition SetAuthenticationCookies ::
  "http_request \<Rightarrow> cookie_settings \<Rightarrow> csrf_config option \<Rightarrow> string \<Rightarrow> string \<Rightarrow> string \<Rightarrow> cookies action" where
  "SetAuthenticationCookies r0 cookies0 config sessionID sessionToken refreshToken = (case resolveBrowserSession r0 False of
       Inl e \<Rightarrow> fail e
     | Inr r \<Rightarrow> let cookies = ForRequest cookies0 r; scope = current_scope (hr_ctx r) in
         if Of sessionToken \<noteq> scope \<or> (refreshToken \<noteq> '''' \<and> Of refreshToken \<noteq> scope) then fail ErrInvalidSessionContext
         else if sessionID = '''' \<or> sessionToken = '''' then fail (Sentinel ''session identity and token are required'')
         else bnd (RotateCSRFToken config r (Some sessionID)) (\<lambda>ws.
           ret (ws @ SetSessionCookie cookies sessionToken @ SetRefreshCookie cookies refreshToken)))"

definition ClearAuthenticationCookies :: "http_request \<Rightarrow> cookie_settings \<Rightarrow> csrf_config option \<Rightarrow> cookies action" where
  "ClearAuthenticationCookies r cookies0 config =
     (let cookies = ForRequest cookies0 r in
      bnd (RotateCSRFToken config r (Some '''')) (\<lambda>ws. ret (ws @ ClearSessionCookie cookies @ ClearRefreshCookie cookies)))"

end
