(* ===== verification/AuthMw.thy ===== *)
theory AuthMw
  imports Csrf Orgs
begin

text \<open>
  \<open>middleware/auth.go\<close>, \<open>verification.go\<close> and \<open>org.go\<close>, with the status table of \<open>internal/httperr/httperr.go\<close>:
  which requests reach a handler, and as whom. The body of a rejection is its code; the log is not modelled.
  The middleware is installed once, so that its private context key is one field of the request. The identities it
  remembers are compared by value, where the code compares pointers: a copy with equal contents authenticates again there.
\<close>

section \<open>Status codes\<close>

definition byCode :: "(string \<times> nat) list" where
  "byCode = map (\<lambda>c. (c, 503)) [''password_work_busy'', ''org_permissions_disabled'', ''org_permissions_not_initialized'',
       ''app_permissions_disabled'', ''app_permissions_not_initialized'', ''organizations_disabled''] @
     map (\<lambda>c. (c, 409)) [''email_change_unavailable'', ''org_permissions_already_initialized'', ''org_permission_exists'',
       ''org_permission_in_use'', ''org_role_exists'', ''org_role_in_use'', ''org_authorization_conflict'', ''org_invite_role_changed'',
       ''app_permissions_already_initialized'', ''permission_exists'', ''permission_in_use'', ''role_exists'', ''role_in_use'',
       ''authorization_conflict'', ''email_already_exists'', ''invite_already_exists'', ''account_already_exists'',
       ''token_already_rotated'', ''provider_already_linked'', ''password_update_conflict'', ''org_slug_exists'',
       ''org_member_exists'', ''org_member_conflict'', ''two_factor_already_enforced'', ''already_linked''] @
     map (\<lambda>c. (c, 400)) [''email_change_invalid'', ''invalid_session_context'', ''invalid_permission_key'', ''unknown_library_permission'',
       ''weak_password'', ''invalid_email'', ''reset_token_invalid'', ''invalid_json'', ''cannot_unlink_last_provider'',
       ''delete_code_invalid'', ''password_required'', ''org_slug_reserved'', ''cannot_remove_last_owner'', ''org_limit_reached'',
       ''org_member_limit_reached'', ''no_active_org'', ''org_invite_expired'', ''org_invite_email_mismatch'', ''org_metadata_too_large'',
       ''two_factor_code_invalid'', ''two_factor_password_required'', ''already_banned'', ''last_admin'', ''not_banned'', ''invalid_role'',
       ''name_required'', ''validation_error'', ''wrong_password'', ''password_account'', ''invalid_slug'', ''invalid_name'',
       ''invalid_state'', ''state_used'', ''state_expired'', ''already_set'', ''invalid_code'', ''code_used'', ''no_password'',
       ''password_mismatch'', ''invalid_input'', ''missing_token'', ''code_invalid'', ''already_verified''] @
     map (\<lambda>c. (c, 410)) [''email_change_expired'', ''reset_token_expired'', ''reset_token_already_used'', ''invite_expired'',
       ''invite_already_used'', ''delete_code_expired'', ''delete_code_already_used'', ''two_factor_code_expired'',
       ''two_factor_code_already_used'', ''code_already_used'', ''code_expired''] @
     map (\<lambda>c. (c, 403)) [''email_change_disabled'', ''protected_org_permission'', ''protected_org_role'', ''protected_role'',
       ''protected_permission'', ''user_banned'', ''email_not_verified'', ''forbidden'', ''invite_revoked'', ''csrf_headers_missing'',
       ''csrf_origin_denied'', ''csrf_token_missing'', ''csrf_token_invalid'', ''csrf_token_mismatch'', ''org_forbidden'',
       ''two_factor_required''] @
     map (\<lambda>c. (c, 404)) [''org_permission_not_found'', ''org_role_not_found'', ''permission_not_found'', ''role_not_found'',
       ''user_not_found'', ''invite_not_found'', ''session_not_found'', ''provider_not_found'', ''provider_not_linked'',
       ''org_not_found'', ''org_member_not_found''] @
     map (\<lambda>c. (c, 401)) [''invalid_credentials'', ''session_expired'', ''session_revoked'', ''invalid_refresh_token'', ''refresh_expired'',
       ''max_lifetime_exceeded'', ''invalid_refresh'', ''unauthorized''] @
     map (\<lambda>c. (c, 429)) [''rate_limit_exceeded'', ''rate_limit_error''] @
     map (\<lambda>c. (c, 500)) [''internal_error'', ''email_not_configured'', ''email_failed''] @
     [(''method_disabled'', 405), (''provider_error'', 502), (''email_not_found'', 200), (''challenge_not_found'', 200)]"

definition StatusFor :: "string \<Rightarrow> nat" where
  "StatusFor c = (case map_of byCode c of None \<Rightarrow> 500 | Some s \<Rightarrow> s)"

section \<open>Sessions\<close>

definition isSessionRejection :: "go_err \<Rightarrow> bool" where
  "isSessionRejection e \<longleftrightarrow> list_ex (errors_is e)
     [ErrSessionNotFound, ErrSessionExpired, ErrSessionRevoked, ErrInvalidRefreshToken, ErrRefreshExpired, ErrTokenAlreadyRotated,
      ErrMaxLifetimeExceeded]"

text \<open>What becomes of a request: turned away, or a session with its owner and the token it is known by.\<close>

type_synonym resolution = "(answer + session \<times> user \<times> string) \<times> cookies"

text \<open>The tests of the owner, common to both ways a session is found.\<close>

definition admit_owner :: "session \<Rightarrow> user option \<Rightarrow> string \<Rightarrow> answer + session \<times> user \<times> string" where
  "admit_owner s owner token = (case owner of
       None \<Rightarrow> Inl (Reject 401 ''unauthorized'')
     | Some u \<Rightarrow> if u_IsBanned u then Inl (Reject 403 ''user_banned'') else Inr (s, u, token))"

text \<open>The transparent refresh of \<open>resolveSession\<close>. The new credentials are written whatever the lookup gives.\<close>

definition refresh_session :: "session_service \<Rightarrow> cookie_settings \<Rightarrow> http_request \<Rightarrow> resolution action" where
  "refresh_session svc cookies r = (case Cookie r (ck_RefreshName cookies) of
       None \<Rightarrow> ret (Inl (Reject 401 ''session_expired''), [])
     | Some v \<Rightarrow>
         if v = '''' then ret (Inl (Reject 401 ''session_expired''), [])
         else bnd (attempt (RefreshSession svc (hr_ctx r) v)) (\<lambda>res. case res of
           Inl e \<Rightarrow> ret (Inl (if isSessionRejection e then Reject 401 ''session_expired'' else Reject 500 ''internal_error''), [])
         | Inr result \<Rightarrow>
             let ws = SetSessionCookie cookies (sr_SessionToken result) @ SetRefreshCookie cookies (sr_RefreshToken result);
                 s = sr_Session result in
             bnd (attempt (usr_GetByID (hr_ctx r) (s_UserID s))) (\<lambda>owner. case owner of
               Inl e \<Rightarrow> ret (Inl (if errors_is e ErrUserNotFound then Reject 401 ''unauthorized'' else Reject 500 ''internal_error''), ws)
             | Inr uo \<Rightarrow> ret (admit_owner s uo (sr_SessionToken result), ws))))"

text \<open>The session of the cookie: from the snapshot of \<open>csrfBinding\<close> when that is of this cookie. A snapshot
  without a session always carries an error.\<close>

definition cookie_session :: "session_service \<Rightarrow> http_request \<Rightarrow> string \<Rightarrow> (session \<times> user) option action" where
  "cookie_session svc r v = (case hr_Snapshot r of
       Some sn \<Rightarrow> if sn_token sn = v then (case sn_err sn of Some e \<Rightarrow> fail e | None \<Rightarrow> ret (sn_found sn))
                  else ValidateWithUser svc (hr_ctx r) v
     | None \<Rightarrow> ValidateWithUser svc (hr_ctx r) v)"

definition resolveSession :: "session_service \<Rightarrow> cookie_settings \<Rightarrow> http_request \<Rightarrow> resolution action" where
  "resolveSession svc cookies r = (case Cookie r (ck_Name cookies) of
       None \<Rightarrow> ret (Inl (Reject 401 ''session_expired''), [])
     | Some v \<Rightarrow>
         if \<not> Matches (c_scope (hr_ctx r)) v then ret (Inl (Reject 401 ''session_expired''), [])
         else bnd (attempt (cookie_session svc r v)) (\<lambda>res. case res of
           Inl e \<Rightarrow>
             if errors_is e ErrSessionExpired then refresh_session svc cookies r
             else ret (Inl (if isSessionRejection e then Reject 401 ''unauthorized'' else Reject 500 ''internal_error''), [])
         | Inr None \<Rightarrow> ret (Inl (Reject 401 ''unauthorized''), [])
         | Inr (Some (s, u)) \<Rightarrow> ret (admit_owner s (Some u) v, [])))"

definition credential :: "cookie_settings \<Rightarrow> http_request \<Rightarrow> string" where
  "credential cookies r = (case Cookie r (ck_Name cookies) of None \<Rightarrow> '''' | Some v \<Rightarrow> v)"

definition authenticate_request :: "session_service \<Rightarrow> cookie_settings \<Rightarrow> http_request \<Rightarrow> (answer \<times> cookies) action" where
  "authenticate_request svc selected r =
     bnd (resolveSession svc selected r) (\<lambda>(res, ws). case res of
       Inl a \<Rightarrow> ret (a, ws)
     | Inr (s, u, rawToken) \<Rightarrow>
         bnd (attempt (Touch svc (hr_ctx r) rawToken (s_LastActiveAt s))) (\<lambda>_.
         ret (Pass (r\<lparr>hr_Session := Some s, hr_User := Some u,
                hr_Authenticated := Some (current_scope (hr_ctx r), credential selected r, Some s, Some u)\<rparr>), ws)))"

definition AuthMiddleware :: "session_service \<Rightarrow> cookie_settings \<Rightarrow> http_request \<Rightarrow> (answer \<times> cookies) action" where
  "AuthMiddleware svc cookies r0 = (case BrowserSession False r0 of
       Reject st c \<Rightarrow> ret (Reject st c, [])
     | Pass r \<Rightarrow> let selected = ForRequest cookies r in
         if hr_Authenticated r = Some (current_scope (hr_ctx r), credential selected r, hr_Session r, hr_User r) then ret (Pass r, [])
         else authenticate_request svc selected r)"

section \<open>Requirements\<close>

definition RequireRole :: "string \<Rightarrow> http_request \<Rightarrow> answer" where
  "RequireRole role r = (case hr_User r of
       None \<Rightarrow> Reject 403 ''forbidden'' | Some u \<Rightarrow> if u_Role u \<noteq> role then Reject 403 ''forbidden'' else Pass r)"

definition assured :: "session option \<Rightarrow> user \<Rightarrow> bool" where
  "assured so u \<longleftrightarrow> (case so of None \<Rightarrow> False | Some s \<Rightarrow> s_UserID s = u_ID u \<and>
     (case s_TwoFactorVerifiedAt s of None \<Rightarrow> False | Some t \<Rightarrow> \<not> is_zero_time t))"

definition RequireAdminSession :: "bool \<Rightarrow> http_request \<Rightarrow> answer" where
  "RequireAdminSession requireTwoFactor r0 = (case RequireRole ''admin'' r0 of
       Reject st c \<Rightarrow> Reject st c
     | Pass r \<Rightarrow> (case hr_User r of
           None \<Rightarrow> Reject 500 ''internal_error''
         | Some u \<Rightarrow> if (requireTwoFactor \<or> u_TwoFactorEnabled u) \<and> \<not> assured (hr_Session r) u
                     then Reject 403 ''two_factor_required'' else Pass r))"

definition RequireVerifiedEmail :: "bool \<Rightarrow> http_request \<Rightarrow> answer" where
  "RequireVerifiedEmail required r = (case hr_User r of
       Some u \<Rightarrow> if required \<and> \<not> u_IsVerified u then Reject 403 ''email_not_verified'' else Pass r
     | None \<Rightarrow> Pass r)"

text \<open>The organisation middleware adds the organisation and the role to the context: the result beside the request.\<close>

definition auth_error :: "go_err \<Rightarrow> answer" where
  "auth_error e = (case e of AuthError c m \<Rightarrow> Reject (StatusFor c) c | _ \<Rightarrow> Reject 500 ''internal_error'')"

text \<open>\<open>OrgRole.Weight\<close> of a role as the context holds it, a string.\<close>

definition role_weight :: "string \<Rightarrow> nat" where
  "role_weight r = (if r = ''owner'' then 3 else if r = ''admin'' then 2 else if r = ''member'' then 1 else 0)"

type_synonym org_request = "http_request \<times> string \<times> string"

definition RequireOrgMember :: "string \<Rightarrow> string \<Rightarrow> http_request \<Rightarrow> (answer + org_request) action" where
  "RequireOrgMember orgID userID r =
     (if orgID = '''' then ret (Inl (auth_error (NewError ''invalid_input'' ''orgID is required'')))
      else if userID = '''' then ret (Inl (auth_error (NewError ''unauthorized'' ''Authentication required'')))
      else bnd (attempt (GetMembership (hr_ctx r) orgID userID)) (\<lambda>m. case m of
        Inl e \<Rightarrow> ret (Inl (auth_error ErrInternal))
      | Inr None \<Rightarrow> ret (Inl (auth_error ErrOrgMemberNotFound))
      | Inr (Some member) \<Rightarrow> ret (Inr (r, orgID, role_string (m_Role member)))))"

definition RequireOrgRole :: "org_role \<Rightarrow> org_request \<Rightarrow> answer + org_request" where
  "RequireOrgRole minRole x = (case x of (r, orgID, role) \<Rightarrow>
     if role_weight role < Weight minRole then Inl (auth_error ErrOrgForbidden) else Inr x)"

definition RequireActiveOrg :: "org_role \<Rightarrow> http_request \<Rightarrow> answer + org_request" where
  "RequireActiveOrg minRole r = (case hr_Session r of
       None \<Rightarrow> Inl (auth_error ErrNoActiveOrg)
     | Some s \<Rightarrow> (case (s_ActiveOrgID s, s_ActiveOrgRole s) of
           (Some i, Some role) \<Rightarrow> if role_weight role < Weight minRole then Inl (auth_error ErrOrgForbidden) else Inr (r, i, role)
         | _ \<Rightarrow> Inl (auth_error ErrNoActiveOrg)))"

text \<open>The roles are ordered by their weight; the required role is a lower bound in this order.\<close>

instantiation org_role :: linorder
begin

definition less_eq_org_role :: "org_role \<Rightarrow> org_role \<Rightarrow> bool" where
  "less_eq_org_role a b \<longleftrightarrow> Weight a \<le> Weight b"

definition less_org_role :: "org_role \<Rightarrow> org_role \<Rightarrow> bool" where
  "less_org_role a b \<longleftrightarrow> Weight a < Weight b"

instance
proof
  fix a b c :: org_role
  show "a < b \<longleftrightarrow> a \<le> b \<and> \<not> b \<le> a" by (auto simp: less_eq_org_role_def less_org_role_def)
  show "a \<le> a" by (simp add: less_eq_org_role_def)
  show "a \<le> b \<Longrightarrow> b \<le> c \<Longrightarrow> a \<le> c" by (simp add: less_eq_org_role_def)
  show "a \<le> b \<Longrightarrow> b \<le> a \<Longrightarrow> a = b" by (cases a; cases b) (simp_all add: less_eq_org_role_def)
  show "a \<le> b \<or> b \<le> a" by (auto simp: less_eq_org_role_def)
qed

end

lemma role_weight_string [simp]: "role_weight (role_string a) = Weight a"
  by (cases a) (simp_all add: role_weight_def)

lemma required_role: "(\<exists>y. RequireOrgRole minRole (r, i, role_string a) = Inr y) \<longleftrightarrow> minRole \<le> a"
  by (auto simp: RequireOrgRole_def less_eq_org_role_def)

end
