(* ===== verification/MwProps.thy ===== *)
theory MwProps
  imports AuthMw SessionProps
begin

text \<open>
  What the CSRF middleware lets through: a mutation carries the token of its own session or browser, and the token a
  page was given is accepted with the next mutation of the same browser.
\<close>

section \<open>The CSRF identity of a request\<close>

text \<open>The sessions the cookies name: by their token, by their refresh token or by the one before it.\<close>

definition token_row :: "tables \<Rightarrow> string \<Rightarrow> session option" where
  "token_row d h = map_option fst (select1 (\<lambda>p. s_TokenHash (fst p) = h)
     (concat (map (\<lambda>s. map (Pair s) (filter (\<lambda>u. u_ID u = s_UserID s) (users d))) (sessions d))))"

definition refresh_row :: "tables \<Rightarrow> string \<Rightarrow> session option" where
  "refresh_row d h = (case select1 (\<lambda>s. s_RefreshTokenHash s = h) (sessions d) of
       Some s \<Rightarrow> Some s | None \<Rightarrow> select1 (\<lambda>s. s_PreviousRefreshHash s = h) (sessions d))"

definition unrevoked :: "session option \<Rightarrow> string option" where
  "unrevoked so = (case so of Some s \<Rightarrow> if s_IsRevoked s then None else Some (s_ID s) | None \<Rightarrow> None)"

definition named_session :: "tables \<Rightarrow> http_request \<Rightarrow> csrf_config \<Rightarrow> string option" where
  "named_session d r c =
     (if \<not> cs_Sessions c then None
      else case Option.bind (usable_cookie r (cs_SessionCookie c)) (\<lambda>v. unrevoked (token_row d (csrfHash v))) of
        Some i \<Rightarrow> Some i
      | None \<Rightarrow> Option.bind (usable_cookie r (cs_RefreshCookie c)) (\<lambda>v. unrevoked (refresh_row d (csrfHash v))))"

definition binding_of :: "tables \<Rightarrow> http_request \<Rightarrow> csrf_config \<Rightarrow> string" where
  "binding_of d r c = (case hr_Session r of
       Some s \<Rightarrow> sessionBinding c (s_ID s)
     | None \<Rightarrow> (case named_session d r c of Some i \<Rightarrow> sessionBinding c i | None \<Rightarrow> browser_binding r c))"

definition binding_result :: "tables \<Rightarrow> http_request \<Rightarrow> csrf_config \<Rightarrow> go_err + http_request \<times> string \<Rightarrow> tables \<Rightarrow> bool" where
  "binding_result d r c res d' \<longleftrightarrow> d' = d \<and>
     (case res of Inl e \<Rightarrow> True | Inr (r', b) \<Rightarrow> b = binding_of d r c \<and> (\<exists>sn. r' = r\<lparr>hr_Snapshot := sn\<rparr>))"

lemma usable_snapshot [simp]: "usable_cookie (r\<lparr>hr_Snapshot := sn\<rparr>) name = usable_cookie r name"
  "browser_binding (r\<lparr>hr_Snapshot := sn\<rparr>) c = browser_binding r c"
  by (simp_all add: usable_cookie_def browser_binding_def split: option.split)

lemma snapshot_self [simp]: "\<exists>sn. r = r\<lparr>hr_Snapshot := sn\<rparr>"
  by (rule exI [of _ "hr_Snapshot r"]) simp

lemma rq_refresh_binding:
  assumes "\<And>e. Q (Inl e) d"
    and "Q (Inr (case Option.bind (usable_cookie r (cs_RefreshCookie c)) (\<lambda>v. unrevoked (refresh_row d (csrfHash v))) of
           Some i \<Rightarrow> sessionBinding c i | None \<Rightarrow> browser_binding r c)) d"
  shows "rq (refresh_binding r c) Q d"
proof (cases "usable_cookie r (cs_RefreshCookie c)")
  case None
  with assms show ?thesis by (simp add: refresh_binding_def rq_ret)
next
  case (Some v)
  show ?thesis
    using assms Some unfolding refresh_binding_def GetByRefreshHash_def GetByPreviousRefreshHash_def
    by (auto intro!: rq_bnd rq_query rq_ret simp: refresh_row_def unrevoked_def split: option.splits if_splits)
qed

lemma rq_snapshot_check: "(\<And>v. Q (Inr v) d) \<Longrightarrow> rq (snapshot_check c found) Q d"
  unfolding snapshot_check_def ValidateBrowserSnapshot_def
  by (auto intro!: rq_ret rq_bnd rq_attempt rq_local [OF local_checkSession] split: option.split sum.split prod.split)

lemma rq_csrfBinding: "rq (csrfBinding r c) (binding_result d r c) d"
proof -
  have err: "binding_result d r c (Inl e) d" for e by (simp add: binding_result_def)
  have fin: "rq (bnd (refresh_binding (r\<lparr>hr_Snapshot := sn\<rparr>) c) (\<lambda>b. ret (r\<lparr>hr_Snapshot := sn\<rparr>, b))) (binding_result d r c) d"
    if "hr_Session r = None" "cs_Sessions c" "Option.bind (usable_cookie r (cs_SessionCookie c)) (\<lambda>v. unrevoked (token_row d (csrfHash v))) = None" for sn
    using that
    by (intro rq_bnd rq_refresh_binding)
      (auto intro!: rq_ret simp: err binding_result_def binding_of_def named_session_def split: option.split)
  have fin0: "rq (bnd (refresh_binding r c) (\<lambda>b. ret (r, b))) (binding_result d r c) d"
    if "hr_Session r = None" "cs_Sessions c" "Option.bind (usable_cookie r (cs_SessionCookie c)) (\<lambda>v. unrevoked (token_row d (csrfHash v))) = None"
    using fin [OF that, of "hr_Snapshot r"] by simp
  have token: "rq (bnd (GetByTokenHashWithUser (hr_ctx r) (csrfHash v)) (\<lambda>found.
               bnd (snapshot_check c found) (\<lambda>validation.
               let r' = (if cs_ValidateSession c \<noteq> None then r\<lparr>hr_Snapshot := Some \<lparr>sn_token = v, sn_found = found, sn_err = validation\<rparr>\<rparr> else r) in
               case found of
                 Some (s, u) \<Rightarrow> if \<not> s_IsRevoked s then ret (r', sessionBinding c (s_ID s)) else bnd (refresh_binding r' c) (\<lambda>b. ret (r', b))
               | None \<Rightarrow> bnd (refresh_binding r' c) (\<lambda>b. ret (r', b))))) (binding_result d r c) d"
    if c: "hr_Session r = None" "cs_Sessions c" "usable_cookie r (cs_SessionCookie c) = Some v" for v
    unfolding GetByTokenHashWithUser_def
  proof (intro rq_bnd rq_query)
    let ?f = "select1 (\<lambda>p. s_TokenHash (fst p) = csrfHash v)
      (concat (map (\<lambda>s. map (Pair s) (filter (\<lambda>u. u_ID u = s_UserID s) (users d))) (sessions d)))"
    have row: "token_row d (csrfHash v) = map_option fst ?f" by (simp add: token_row_def)
    have "rq (bnd (snapshot_check c ?f) (\<lambda>validation.
               let r' = (if cs_ValidateSession c \<noteq> None then r\<lparr>hr_Snapshot := Some \<lparr>sn_token = v, sn_found = ?f, sn_err = validation\<rparr>\<rparr> else r) in
               case ?f of
                 Some (s, u) \<Rightarrow> if \<not> s_IsRevoked s then ret (r', sessionBinding c (s_ID s)) else bnd (refresh_binding r' c) (\<lambda>b. ret (r', b))
               | None \<Rightarrow> bnd (refresh_binding r' c) (\<lambda>b. ret (r', b)))) (binding_result d r c) d"
      using c row
      by (intro rq_bnd rq_snapshot_check)
        (auto intro!: rq_ret fin fin0 simp: Let_def binding_result_def binding_of_def named_session_def unrevoked_def split: option.splits intro: exI [of _ "hr_Snapshot r"])
    then show "case Inr ?f of Inl x \<Rightarrow> binding_result d r c (Inl x) d | Inr found \<Rightarrow> rq (bnd (snapshot_check c found) (\<lambda>validation.
               let r' = (if cs_ValidateSession c \<noteq> None then r\<lparr>hr_Snapshot := Some \<lparr>sn_token = v, sn_found = found, sn_err = validation\<rparr>\<rparr> else r) in
               case found of
                 Some (s, u) \<Rightarrow> if \<not> s_IsRevoked s then ret (r', sessionBinding c (s_ID s)) else bnd (refresh_binding r' c) (\<lambda>b. ret (r', b))
               | None \<Rightarrow> bnd (refresh_binding r' c) (\<lambda>b. ret (r', b)))) (binding_result d r c) d" by simp
  qed (simp add: err)
  show ?thesis
    unfolding csrfBinding_def using token
    by (auto intro!: rq_ret fin0 simp: binding_result_def binding_of_def named_session_def split: option.split)
qed

section \<open>Mutations carry their token\<close>

text \<open>What is known of a mutation that was let through: cookie and header agree on a token signed for the session
  the request names, or, when it names none, for its anonymous browser.\<close>

definition csrf_proved :: "csrf_config \<Rightarrow> tables \<Rightarrow> http_request \<Rightarrow> bool" where
  "csrf_proved c d q \<longleftrightarrow> (let cfg = forRequest c q in
     cs_Secret c \<noteq> '''' \<and> hr_Token q \<noteq> '''' \<and> Cookie q (cookieName cfg) = Some (hr_Token q) \<and>
     binding_of d q cfg \<noteq> '''' \<and> verifyCSRFToken (hr_Token q) (cs_Secret c) (binding_of d q cfg))"

lemma forRequest_secret [simp]: "cs_Secret (forRequest c r) = cs_Secret c" "cs_CookieSecure (forRequest c r) = cs_CookieSecure c"
  "cs_Sessions (forRequest c r) = cs_Sessions c" "cs_ValidateSession (forRequest c r) = cs_ValidateSession c"
  by (simp_all add: forRequest_def Let_def)

lemma active_snapshot [simp]: "active_token (r\<lparr>hr_Snapshot := sn\<rparr>) c = active_token r c"
  by (simp add: active_token_def)

lemma active_some: "active_token r c = t \<Longrightarrow> t \<noteq> '''' \<Longrightarrow> Cookie r (cookieName c) = Some t"
  by (auto simp: active_token_def split: option.splits)

definition csrf_post :: "csrf_config \<Rightarrow> http_request \<Rightarrow> tables \<Rightarrow> go_err + answer \<times> cookies \<Rightarrow> tables \<Rightarrow> bool" where
  "csrf_post c r d res d' \<longleftrightarrow> d' = d \<and>
     (\<forall>r' ws. res = Inr (Pass r', ws) \<longrightarrow>
        (\<exists>q sn tb. resolveBrowserSession r False = Inr q \<and> r' = q\<lparr>hr_Snapshot := sn, hr_Csrf := Some tb\<rparr> \<and>
           (\<not> safe_method (hr_Method r) \<longrightarrow> csrf_proved c d q \<and> ws = [])))"

lemma resolve_same: "resolveBrowserSession r a = Inr q \<Longrightarrow> \<exists>s. q = r\<lparr>hr_ctx := (hr_ctx r)\<lparr>c_scope := s\<rparr>\<rparr>"
  by (auto simp: resolveBrowserSession_def Let_def select_scope_def split: if_splits intro: exI [of _ "c_scope (hr_ctx r)"])

lemma rq_generate: "(\<And>r. Q r d) \<Longrightarrow> rq (generateCSRFToken n s b) Q d"
  unfolding generateCSRFToken_def Let_def by (auto intro!: rq_fail rq_bnd rq_draw rq_ret split: sum.split)

lemma rq_CSRFToken: "rq (CSRFToken (Some c) r) (csrf_post c r d) d"
proof -
  have rej: "csrf_post c r d (Inr (Reject st e, ws)) d" "csrf_post c r d (Inl x) d" for st e ws x by (simp_all add: csrf_post_def)
  have safe: "rq (csrf_safe (forRequest c q) (q\<lparr>hr_Snapshot := sn\<rparr>) b) (csrf_post c r d) d"
    if "resolveBrowserSession r False = Inr q" "safe_method (hr_Method r)" for q sn b
  proof -
    have pass: "csrf_post c r d (Inr (with_csrf (q\<lparr>hr_Snapshot := sn\<rparr>) t b', ws)) d" for t b' ws
      using that by (auto simp: csrf_post_def with_csrf_def)
    have gen: "rq (bnd (attempt (generateCSRFToken 32 s b')) (\<lambda>g. case g of Inl e \<Rightarrow> csrf_failed ws
        | Inr token \<Rightarrow> ret (with_csrf (q\<lparr>hr_Snapshot := sn\<rparr>) token b', ws @ [(k, Some token)]))) (csrf_post c r d) d" for s b' ws k
      by (intro rq_bnd rq_attempt rq_generate) (auto intro!: rq_ret rej pass split: sum.split)
    have cont: "rq (case n of Inl e \<Rightarrow> csrf_failed [] | Inr (binding, ws) \<Rightarrow>
         if verifyCSRFToken (active_token (q\<lparr>hr_Snapshot := sn\<rparr>) (forRequest c q)) (cs_Secret (forRequest c q)) binding
         then ret (with_csrf (q\<lparr>hr_Snapshot := sn\<rparr>) (active_token (q\<lparr>hr_Snapshot := sn\<rparr>) (forRequest c q)) binding, ws)
         else bnd (attempt (generateCSRFToken 32 (cs_Secret (forRequest c q)) binding)) (\<lambda>g. case g of
           Inl e \<Rightarrow> csrf_failed ws
         | Inr token \<Rightarrow> ret (with_csrf (q\<lparr>hr_Snapshot := sn\<rparr>) token binding, ws @ [(cookieName (forRequest c q), Some token)])))
       (csrf_post c r d) d" for n
      using gen by (auto intro!: rq_ret rej pass split: sum.split)
    have "rq (if b = '''' then newBrowserBinding (forRequest c q) else ret (b, [])) (\<lambda>_ d'. d' = d) d"
      unfolding newBrowserBinding_def by (auto intro!: rq_ret rq_bnd rq_generate split: sum.split)
    then show ?thesis
      unfolding csrf_safe_def
      by (intro rq_bnd rq_attempt, elim rq_conseq) (use cont in auto)
  qed
  have unsafe: "rq (csrf_unsafe (forRequest c q) (q\<lparr>hr_Snapshot := sn\<rparr>) (binding_of d q (forRequest c q))) (csrf_post c r d) d"
    if q: "resolveBrowserSession r False = Inr q" "cs_Secret c \<noteq> ''''" "active_token q (forRequest c q) = hr_Token q" "hr_Token q \<noteq> ''''" for q sn
  proof -
    have "Cookie q (cookieName (forRequest c q)) = Some (hr_Token q)" using active_some [OF q(3,4)] .
    then have "csrf_post c r d (Inr (with_csrf (q\<lparr>hr_Snapshot := sn\<rparr>) (hr_Token q) (binding_of d q (forRequest c q)), [])) d"
      if "binding_of d q (forRequest c q) \<noteq> ''''" "verifyCSRFToken (hr_Token q) (cs_Secret c) (binding_of d q (forRequest c q))"
      using that q by (auto simp: csrf_post_def with_csrf_def csrf_proved_def Let_def)
    then show ?thesis unfolding csrf_unsafe_def using q(3) by (auto intro!: rq_ret rej)
  qed
  have bind: "rq (bnd (attempt (csrfBinding q (forRequest c q))) (\<lambda>b. case b of
           Inl e \<Rightarrow> csrf_failed []
         | Inr (r', binding) \<Rightarrow> if safe_method (hr_Method q) then csrf_safe (forRequest c q) r' binding
                                 else csrf_unsafe (forRequest c q) r' binding)) (csrf_post c r d) d"
    if q: "resolveBrowserSession r False = Inr q" "cs_Secret c \<noteq> ''''"
      "safe_method (hr_Method q) \<or> active_token q (forRequest c q) = hr_Token q \<and> hr_Token q \<noteq> ''''" for q
  proof (rule rq_bnd, rule rq_attempt, rule rq_conseq [OF rq_csrfBinding])
    fix x d' assume b: "binding_result d q (forRequest c q) x d'"
    have m: "hr_Method q = hr_Method r" using resolve_same [OF q(1)] by auto
    show "case Inr x of Inl e \<Rightarrow> csrf_post c r d (Inl e) d' | Inr b \<Rightarrow> rq (case b of
           Inl e \<Rightarrow> csrf_failed []
         | Inr (r', binding) \<Rightarrow> if safe_method (hr_Method q) then csrf_safe (forRequest c q) r' binding
                                 else csrf_unsafe (forRequest c q) r' binding) (csrf_post c r d) d'"
      using b q safe [OF q(1)] unsafe [OF q(1,2)] m by (auto intro!: rq_ret rej simp: binding_result_def split: sum.splits)
  qed
  show ?thesis
    unfolding CSRFToken_def Let_def using bind
    by (auto intro!: rq_ret rej split: sum.split)
qed

text \<open>C18: the CSRF middleware changes no table, and a request that could change something passes it only with a
  token, equal in cookie and header, that the secret signed for the very session its cookies name, or for this
  anonymous browser. Faults of the session store turn requests away.\<close>

theorem mutations_carry_their_token:
  assumes "faults_only w" and "CSRFToken (Some c) r w = (res, w')"
  shows "store w' = store w \<and> (\<forall>r' ws. res = Inr (Pass r', ws) \<longrightarrow> \<not> safe_method (hr_Method r) \<longrightarrow>
     (\<exists>q. resolveBrowserSession r False = Inr q \<and> csrf_proved c (store w) q))"
  using rqD [OF rq_CSRFToken assms] by (auto simp: csrf_post_def)

section \<open>The token of a page is accepted\<close>

text \<open>What a browser does with the cookies of an answer.\<close>

fun set_cookie :: "string \<times> string option \<Rightarrow> (string \<times> string) list \<Rightarrow> (string \<times> string) list" where
  "set_cookie (n, v) jar = filter (\<lambda>p. fst p \<noteq> n) jar @ (case v of None \<Rightarrow> [] | Some x \<Rightarrow> [(n, x)])"

definition store_cookies :: "cookies \<Rightarrow> (string \<times> string) list \<Rightarrow> (string \<times> string) list" where
  "store_cookies ws jar = fold set_cookie ws jar"

lemma map_of_filter_name: "map_of (filter (\<lambda>p. fst p \<noteq> n) jar) m = (if m = n then None else map_of jar m)"
  by (induction jar) auto

lemma map_of_set_cookie: "map_of (set_cookie (n, Some x) jar) m = (if m = n then Some x else map_of jar m)"
  by (simp add: map_add_def map_of_filter_name split: option.split)

lemma set_cookie_other: "fst x \<noteq> m \<Longrightarrow> map_of (set_cookie x jar) m = map_of jar m"
  by (cases x) (auto simp: map_add_def map_of_filter_name split: option.split)

lemma store_cookies_other: "(\<And>x. x \<in> set ws \<Longrightarrow> fst x \<noteq> m) \<Longrightarrow> map_of (store_cookies ws jar) m = map_of jar m"
proof (induction ws arbitrary: jar)
  case Nil
  show ?case by (simp add: store_cookies_def)
next
  case (Cons x ws)
  have "map_of (store_cookies ws (set_cookie x jar)) m = map_of (set_cookie x jar) m" using Cons.prems by (intro Cons.IH) simp
  also have "\<dots> = map_of jar m" using Cons.prems by (intro set_cookie_other) simp
  finally show ?case by (simp add: store_cookies_def)
qed

definition calm :: "'a action \<Rightarrow> bool" where
  "calm m \<longleftrightarrow> (\<forall>w. sched w = [] \<longrightarrow> (\<exists>a w'. m w = (Inr a, w') \<and> sched w' = []))"

named_theorems calms \<open>programs that succeed when nothing interferes\<close>

lemma calm_ret [calms]: "calm (ret a)"
  by (simp add: calm_def ret_def)

lemma calm_query [calms]: "calm (query ctx f)"
  by (simp add: calm_def query_quiet)

lemma calm_bnd [calms]: "calm m \<Longrightarrow> (\<And>a. calm (f a)) \<Longrightarrow> calm (bnd m f)"
  unfolding calm_def bnd_def by (metis (mono_tags, lifting) case_prod_conv sum.case(2))

lemma calm_attempt [calms]: "local_prog m \<Longrightarrow> calm (attempt m)"
  unfolding calm_def attempt_def by (auto split: prod.split dest: local_progD)

lemma calm_csrfBinding: "calm (csrfBinding r c)"
  unfolding csrfBinding_def refresh_binding_def snapshot_check_def GetByTokenHashWithUser_def GetByRefreshHash_def
    GetByPreviousRefreshHash_def ValidateBrowserSnapshot_def
  by (auto intro!: calms local_checkSession simp: Let_def split: option.split)

lemma csrfBinding_quiet:
  assumes "sched w = []"
  shows "\<exists>sn w'. csrfBinding r c w = (Inr (r\<lparr>hr_Snapshot := sn\<rparr>, binding_of (store w) r c), w') \<and> sched w' = [] \<and> store w' = store w"
proof -
  obtain x w' where run: "csrfBinding r c w = (Inr x, w')" "sched w' = []" using calm_csrfBinding assms unfolding calm_def by blast
  have "binding_result (store w) r c (Inr x) (store w')" using rqD [OF rq_csrfBinding _ run(1)] assms by simp
  with run show ?thesis by (cases x) (auto simp: binding_result_def)
qed

text \<open>The cookies of the middleware do not collide with the credential cookies.\<close>

definition names_apart :: "csrf_config \<Rightarrow> bool" where
  "names_apart cfg \<longleftrightarrow> {cs_SessionCookie cfg, cs_RefreshCookie cfg} \<inter> {cookieName cfg, browserCookieName cfg} = {}"

lemma csrf_names: "cookieName c \<noteq> browserCookieName c"
  by (simp add: cookieName_def browserCookieName_def)

text \<open>The next mutation of the same browser: its jar holds the cookies of the answer, its header the token.\<close>

definition next_mutation :: "http_request \<Rightarrow> string \<Rightarrow> string \<Rightarrow> cookies \<Rightarrow> http_request" where
  "next_mutation r m token ws = r\<lparr>hr_Method := m, hr_Token := token, hr_Cookies := store_cookies ws (hr_Cookies r)\<rparr>"

lemma next_session [simp]: "hr_Session (next_mutation r m t ws) = hr_Session r"
  by (simp add: next_mutation_def)

lemma verified_nonempty: "verifyCSRFToken t s b \<Longrightarrow> t \<noteq> ''''"
  using verify_shape by fastforce

text \<open>The outcome of \<open>csrf_safe\<close>: the binding is the one the next request computes, and the jar has the token.\<close>

lemma csrf_safe_result:
  assumes "sched w = []" and "csrf_safe cfg (q\<lparr>hr_Snapshot := sn\<rparr>) (binding_of d q cfg) w = (Inr (Pass r', ws), w')"
    and "names_apart cfg" and "cs_Secret cfg \<noteq> ''''"
  shows "\<exists>t b. hr_Csrf r' = Some (t, b) \<and> verifyCSRFToken t (cs_Secret cfg) b \<and> b \<noteq> '''' \<and>
    map_of (store_cookies ws (hr_Cookies q)) (cookieName cfg) = Some t \<and> binding_of d (next_mutation q m t ws) cfg = b"
proof -
  let ?b0 = "binding_of d q cfg" and ?act = "active_token q cfg"
  have jar: "map_of (store_cookies ws' (hr_Cookies q)) n = map_of (hr_Cookies q) n"
    if "\<And>x. x \<in> set ws' \<Longrightarrow> fst x \<noteq> n" for ws' n
    using that by (rule store_cookies_other)
  have named: "named_session d (next_mutation q m t ws') cfg = named_session d q cfg"
    if "\<And>x. x \<in> set ws' \<Longrightarrow> fst x \<in> {cookieName cfg, browserCookieName cfg}" for t ws'
  proof -
    have "usable_cookie (next_mutation q m t ws') n = usable_cookie q n"
      if "\<And>x. x \<in> set ws' \<Longrightarrow> fst x \<in> {cookieName cfg, browserCookieName cfg}" "n \<in> {cs_SessionCookie cfg, cs_RefreshCookie cfg}" for n
    proof -
      have "map_of (store_cookies ws' (hr_Cookies q)) n = map_of (hr_Cookies q) n"
        using that(2) assms(3) by (intro jar) (fastforce simp: names_apart_def dest: that(1))
      then show ?thesis by (simp add: usable_cookie_def next_mutation_def split: option.split)
    qed
    then show ?thesis using that by (simp add: named_session_def split: option.split)
  qed
  have gen: "verifyCSRFToken t (cs_Secret cfg) b" if "generateCSRFToken 32 (cs_Secret cfg) b w1 = (Inr t, w2)" for t b w1 w2
    using csrf_generated_verifies [OF that] by simp
  have b0: "named_session d q cfg = None" "hr_Session q = None" "browser_binding q cfg = ''''" if "?b0 = ''''"
    using that by (auto simp: binding_of_def sessionBinding_def split: option.splits if_splits)
  have keep: "binding_of d (next_mutation q m t ws') cfg = ?b0"
    if ws': "ws' = [] \<or> ws' = [(cookieName cfg, Some x)]" for t ws' x
  proof -
    have "map_of (store_cookies ws' (hr_Cookies q)) (browserCookieName cfg) = map_of (hr_Cookies q) (browserCookieName cfg)"
      using ws' csrf_names [of cfg] by (intro jar) auto
    then have "browser_binding (next_mutation q m t ws') cfg = browser_binding q cfg" by (simp add: browser_binding_def next_mutation_def)
    moreover have "named_session d (next_mutation q m t ws') cfg = named_session d q cfg" using ws' by (intro named) auto
    ultimately show ?thesis by (simp add: binding_of_def split: option.split)
  qed
  have fresh: "binding_of d (next_mutation q m t ws') cfg = ''browser:'' @ v"
    if "?b0 = ''''" "verifyCSRFToken v (cs_Secret cfg) (bindingPurpose cfg)"
      and ws': "ws' = [(browserCookieName cfg, Some v)] \<or> ws' = [(browserCookieName cfg, Some v), (cookieName cfg, Some x)]" for t ws' v x
  proof -
    have "map_of (store_cookies ws' (hr_Cookies q)) (browserCookieName cfg) = Some v"
      using ws' csrf_names [of cfg] by (auto simp: store_cookies_def map_of_set_cookie simp del: set_cookie.simps)
    then have "browser_binding (next_mutation q m t ws') cfg = ''browser:'' @ v"
      using that(2) by (simp add: browser_binding_def next_mutation_def)
    moreover have "named_session d (next_mutation q m t ws') cfg = named_session d q cfg" using ws' by (intro named) auto
    ultimately show ?thesis using b0 [OF that(1)] by (simp add: binding_of_def)
  qed
  show ?thesis
  proof (cases "?b0 = ''''")
    case False
    show ?thesis
    proof (cases "verifyCSRFToken ?act (cs_Secret cfg) ?b0")
      case True
      then have r: "hr_Csrf r' = Some (?act, ?b0)" "ws = []"
        using assms(2) False by (auto simp: csrf_safe_def with_csrf_def effect_defs)
      have "map_of (hr_Cookies q) (cookieName cfg) = Some ?act" using active_some verified_nonempty [OF True] by blast
      with r True False keep [of "[]"] show ?thesis by (intro exI [of _ ?act] exI [of _ ?b0]) (simp add: store_cookies_def)
    next
      case v: False
      obtain t w1 where t: "generateCSRFToken 32 (cs_Secret cfg) ?b0 w = (Inr t, w1)" and r: "hr_Csrf r' = Some (t, ?b0)" "ws = [(cookieName cfg, Some t)]"
        using assms(2) False v by (auto simp: csrf_safe_def with_csrf_def effect_defs split: prod.splits sum.splits)
      from keep [of "[(cookieName cfg, Some t)]" t t] r gen [OF t] False show ?thesis
        by (intro exI [of _ t] exI [of _ ?b0]) (simp add: store_cookies_def map_of_set_cookie del: set_cookie.simps)
    qed
  next
    case True
    obtain v w1 where v: "generateCSRFToken 32 (cs_Secret cfg) (bindingPurpose cfg) w = (Inr v, w1)"
      using assms(2) True by (auto simp: csrf_safe_def newBrowserBinding_def effect_defs split: prod.splits sum.splits)
    let ?b = "''browser:'' @ v"
    show ?thesis
    proof (cases "verifyCSRFToken ?act (cs_Secret cfg) ?b")
      case act: True
      then have r: "hr_Csrf r' = Some (?act, ?b)" "ws = [(browserCookieName cfg, Some v)]"
        using assms(2) True v by (auto simp: csrf_safe_def newBrowserBinding_def with_csrf_def effect_defs)
      have "map_of (hr_Cookies q) (cookieName cfg) = Some ?act" using active_some verified_nonempty [OF act] by blast
      then have "map_of (store_cookies ws (hr_Cookies q)) (cookieName cfg) = Some ?act"
        using r(2) csrf_names [of cfg] by (auto simp: store_cookies_def map_of_set_cookie simp del: set_cookie.simps)
      with r act fresh [OF True gen [OF v], of ws] show ?thesis by (intro exI [of _ ?act] exI [of _ ?b]) simp
    next
      case nact: False
      obtain t w2 where t: "generateCSRFToken 32 (cs_Secret cfg) ?b w1 = (Inr t, w2)" and
        r: "hr_Csrf r' = Some (t, ?b)" "ws = [(browserCookieName cfg, Some v), (cookieName cfg, Some t)]"
        using assms(2) True nact v by (auto simp: csrf_safe_def newBrowserBinding_def with_csrf_def effect_defs split: prod.splits sum.splits)
      have "map_of (store_cookies ws (hr_Cookies q)) (cookieName cfg) = Some t"
        using r(2) by (auto simp: store_cookies_def map_of_set_cookie simp del: set_cookie.simps)
      with r gen [OF t] fresh [OF True gen [OF v], of ws t t] show ?thesis by (intro exI [of _ t] exI [of _ ?b]) simp
    qed
  qed
qed

lemma resolve_next: "resolveBrowserSession r False = Inr q \<Longrightarrow> resolveBrowserSession (next_mutation r m t ws) False = Inr (next_mutation q m t ws)"
  by (auto simp: resolveBrowserSession_def next_mutation_def Let_def split: if_splits)

lemma forRequest_next: "resolveBrowserSession r False = Inr q \<Longrightarrow> forRequest c (next_mutation q m t ws) = forRequest c q"
  by (simp add: forRequest_def next_mutation_def Let_def)

lemma run_attempt_bnd: "m w = (r, w1) \<Longrightarrow> bnd (attempt m) f w = f r w1"
  by (simp add: bnd_def attempt_def)

lemma page_token_run:
  assumes "sched w = []" and "CSRFToken (Some c) r w = (Inr (Pass r', ws), w')" and "safe_method (hr_Method r)"
    and "\<forall>q. resolveBrowserSession r False = Inr q \<longrightarrow> names_apart (forRequest c q)"
    and "hr_Csrf r' = Some (t, b)" and "\<not> safe_method m"
    and "sched w2 = []" and "store w2 = store w"
  shows "\<exists>r'' w3. CSRFToken (Some c) (next_mutation r m t ws) w2 = (Inr (Pass r'', []), w3) \<and> hr_Csrf r'' = Some (t, b)"
proof -
  obtain q where q: "resolveBrowserSession r False = Inr q"
    using assms(2) by (cases "resolveBrowserSession r False") (auto simp: CSRFToken_def ret_def)
  let ?cfg = "forRequest c q" and ?n = "next_mutation q m t ws"
  have m: "hr_Method q = hr_Method r" using resolve_same [OF q] by auto
  obtain sn w1 where bind: "csrfBinding q ?cfg w = (Inr (q\<lparr>hr_Snapshot := sn\<rparr>, binding_of (store w) q ?cfg), w1)" and w1: "sched w1 = []"
    using csrfBinding_quiet [OF assms(1)] by blast
  have secret: "cs_Secret c \<noteq> ''''" using assms(2) q by (auto simp: CSRFToken_def ret_def Let_def)
  then have "csrf_safe ?cfg (q\<lparr>hr_Snapshot := sn\<rparr>) (binding_of (store w) q ?cfg) w1 = (Inr (Pass r', ws), w')"
    using assms(2,3) q m bind by (simp add: CSRFToken_def Let_def run_attempt_bnd)
  from csrf_safe_result [OF w1 this, of m] obtain t' b' where t: "hr_Csrf r' = Some (t', b')"
      "verifyCSRFToken t' (cs_Secret c) b'" "b' \<noteq> ''''" "map_of (store_cookies ws (hr_Cookies q)) (cookieName ?cfg) = Some t'"
      "binding_of (store w) (next_mutation q m t' ws) ?cfg = b'"
    using assms(4) q secret by auto
  with assms(5) have [simp]: "t' = t" "b' = b" by auto
  obtain sn' w3 where bind': "csrfBinding ?n ?cfg w2 = (Inr (?n\<lparr>hr_Snapshot := sn'\<rparr>, b), w3)"
    using csrfBinding_quiet [OF assms(7), of ?n ?cfg] t(5) assms(8) by auto
  have tok: "active_token ?n ?cfg = t" "hr_Token ?n = t" "hr_Method ?n = m" "t \<noteq> ''''"
    using t(4) verified_nonempty [OF t(2)] by (simp_all add: active_token_def next_mutation_def)
  have "CSRFToken (Some c) (next_mutation r m t ws) w2 = csrf_unsafe ?cfg (?n\<lparr>hr_Snapshot := sn'\<rparr>) b w3"
    using tok assms(6) secret bind' by (simp add: CSRFToken_def resolve_next [OF q] forRequest_next [OF q] Let_def run_attempt_bnd)
  then show ?thesis using tok t(2,3) by (simp add: csrf_unsafe_def with_csrf_def ret_def)
qed

text \<open>C19: the token a page was given works. When nothing fails and no other request comes between, a page that was
  let through with a token and whose answer's cookies the browser stored can send any mutation with that token in the
  header, and the middleware accepts it and sets no cookie. This holds for a page that already had a valid token, for
  a logged-in browser that gets a new one, and for an anonymous browser that also gets its identity.\<close>

theorem page_token_accepted:
  assumes "sched w = []" and "CSRFToken (Some c) r w = (Inr (Pass r', ws), w')" and "safe_method (hr_Method r)"
    and "\<forall>q. resolveBrowserSession r False = Inr q \<longrightarrow> names_apart (forRequest c q)"
    and "hr_Csrf r' = Some (t, b)" and "\<not> safe_method m"
    and "sched w2 = []" and "store w2 = store w"
  shows "\<exists>r'' w3. CSRFToken (Some c) (next_mutation r m t ws) w2 = (Inr (Pass r'', []), w3) \<and> hr_Csrf r'' = Some (t, b)"
  by (rule page_token_run [OF assms])

section \<open>Witnesses\<close>

text \<open>An anonymous browser opens a page and then sends a form.\<close>

definition csrf_ex :: csrf_config where
  "csrf_ex = \<lparr>cs_CookieSecure = True, cs_Secret = ''k'', cs_SessionCookie = ''goauth_session'', cs_RefreshCookie = ''goauth_refresh'',
     cs_AdminSessionCookie = '''', cs_AdminRefreshCookie = '''', cs_scope = App, cs_Sessions = True, cs_ValidateSession = Some service_ex\<rparr>"

definition get_ex :: "(string \<times> string) list \<Rightarrow> http_request" where
  "get_ex jar = \<lparr>hr_Method = ''GET'', hr_Selector = [], hr_Token = '''', hr_Cookies = jar, hr_ctx = request_ctx, hr_Session = None, hr_User = None,
     hr_Snapshot = None, hr_Csrf = None, hr_Authenticated = None\<rparr>"

lemma get_ex_resolves: "resolveBrowserSession (get_ex jar) False = Inr ((get_ex jar)\<lparr>hr_ctx := select_scope request_ctx App\<rparr>)"
  by (simp add: resolveBrowserSession_def get_ex_def header_get_def Let_def Explicit_def request_ctx_def)

lemma csrf_ex_request: "forRequest csrf_ex ((get_ex jar)\<lparr>hr_ctx := select_scope request_ctx App\<rparr>) = csrf_ex"
  by (simp add: forRequest_def csrf_ex_def Let_def current_scope_def select_scope_def With_def)

lemma get_ex_apart: "\<forall>q. resolveBrowserSession (get_ex jar) False = Inr q \<longrightarrow> names_apart (forRequest csrf_ex q)"
  unfolding get_ex_resolves by (simp add: csrf_ex_request) (simp add: names_apart_def csrf_ex_def cookieName_def browserCookieName_def)

lemma page_ex_run:
  "\<exists>v t r' w'. CSRFToken (Some csrf_ex) (get_ex []) (random_world d) =
     (Inr (Pass r', [(browserCookieName csrf_ex, Some v), (cookieName csrf_ex, Some t)]), w') \<and> hr_Csrf r' = Some (t, ''browser:'' @ v)"
proof -
  let ?q = "(get_ex [])\<lparr>hr_ctx := select_scope request_ctx App\<rparr>" and ?w = "random_world d"
  let ?w1 = "?w\<lparr>entropy := [Some (replicate 32 CHR ''y'')]\<rparr>"
  have b: "csrfBinding ?q csrf_ex ?w = (Inr (?q, ''''), ?w)"
    by (simp add: csrfBinding_def refresh_binding_def browser_binding_def usable_cookie_def get_ex_def csrf_ex_def effect_defs)
  have e: "entropy ?w = Some (replicate 32 CHR ''x'') # [Some (replicate 32 CHR ''y'')]" "entropy ?w1 = Some (replicate 32 CHR ''y'') # []"
    by (simp_all add: random_world_def)
  have k: "cs_Secret csrf_ex = ''k''" by (simp add: csrf_ex_def)
  obtain v where v: "generateCSRFToken 32 ''k'' (bindingPurpose csrf_ex) ?w = (Inr v, ?w1)" using generates [OF _ e(1)] by auto
  obtain t where t: "generateCSRFToken 32 ''k'' (''browser:'' @ v) ?w1 = (Inr t, ?w1\<lparr>entropy := []\<rparr>)" using generates [OF _ e(2)] by auto
  have none: "\<not> verifyCSRFToken (active_token ?q csrf_ex) ''k'' x" for x
    using verified_nonempty [of "active_token ?q csrf_ex" "''k''" x] by (auto simp: active_token_def get_ex_def)
  have "csrf_safe csrf_ex ?q '''' ?w = (Inr (Pass (?q\<lparr>hr_Csrf := Some (t, ''browser:'' @ v)\<rparr>),
      [(browserCookieName csrf_ex, Some v), (cookieName csrf_ex, Some t)]), ?w1\<lparr>entropy := []\<rparr>)"
    using v t none by (simp add: csrf_safe_def newBrowserBinding_def with_csrf_def k effect_defs)
  moreover have "CSRFToken (Some csrf_ex) (get_ex []) ?w = csrf_safe csrf_ex ?q '''' ?w"
    using b by (simp add: CSRFToken_def get_ex_resolves csrf_ex_request Let_def run_attempt_bnd k) (simp add: get_ex_def safe_method_def)
  ultimately show ?thesis by simp
qed

theorem page_token_accepted_witness:
  "\<exists>t b ws r' w' r'' w3. CSRFToken (Some csrf_ex) (get_ex []) (random_world (tables_of [] [])) = (Inr (Pass r', ws), w') \<and>
     CSRFToken (Some csrf_ex) (next_mutation (get_ex []) ''POST'' t ws) (quiet_world (tables_of [] [])) = (Inr (Pass r'', []), w3) \<and>
     hr_Csrf r'' = Some (t, b)"
proof -
  from page_ex_run [of "tables_of [] []"] obtain v t r' w' where page: "CSRFToken (Some csrf_ex) (get_ex []) (random_world (tables_of [] [])) =
     (Inr (Pass r', [(browserCookieName csrf_ex, Some v), (cookieName csrf_ex, Some t)]), w')" "hr_Csrf r' = Some (t, ''browser:'' @ v)" by blast
  have "sched (random_world (tables_of [] [])) = []" "store (quiet_world (tables_of [] [])) = store (random_world (tables_of [] []))"
    "safe_method (hr_Method (get_ex []))" "\<not> safe_method ''POST''" by (simp_all add: random_world_def get_ex_def safe_method_def)
  from page_token_accepted [OF this(1) page(1) this(3) get_ex_apart page(2) this(4) _ this(2)] page(1) show ?thesis by fastforce
qed

theorem mutations_carry_their_token_witness:
  "\<exists>r q. hr_Method r = ''POST'' \<and> resolveBrowserSession r False = Inr q \<and> csrf_proved csrf_ex (tables_of [] []) q"
proof -
  from page_ex_run [of "tables_of [] []"] obtain v t r' w' where page: "CSRFToken (Some csrf_ex) (get_ex []) (random_world (tables_of [] [])) =
     (Inr (Pass r', [(browserCookieName csrf_ex, Some v), (cookieName csrf_ex, Some t)]), w')" "hr_Csrf r' = Some (t, ''browser:'' @ v)" by blast
  let ?r = "next_mutation (get_ex []) ''POST'' t [(browserCookieName csrf_ex, Some v), (cookieName csrf_ex, Some t)]"
  have h: "sched (random_world (tables_of [] [])) = []" "store (quiet_world (tables_of [] [])) = store (random_world (tables_of [] []))"
    "safe_method (hr_Method (get_ex []))" "\<not> safe_method ''POST''" by (simp_all add: random_world_def get_ex_def safe_method_def)
  from page_token_run [OF h(1) page(1) h(3) get_ex_apart page(2) h(4) _ h(2)] obtain r'' w3 where
    run: "CSRFToken (Some csrf_ex) ?r (quiet_world (tables_of [] [])) = (Inr (Pass r'', []), w3)" by auto
  have m: "hr_Method ?r = ''POST''" by (simp add: next_mutation_def)
  from mutations_carry_their_token [OF _ run] h(4) m obtain q where "resolveBrowserSession ?r False = Inr q" "csrf_proved csrf_ex (tables_of [] []) q" by auto
  with m show ?thesis by blast
qed

end
