(* ===== verification/Origin.thy ===== *)
theory Origin
  imports Csrf
begin

text \<open>
  \<open>middleware/csrf.go\<close>: the check of \<open>Origin\<close> and \<open>Referer\<close> of mutations. What the code takes from \<open>net/url\<close>,
  \<open>net\<close> and the Unicode part of \<open>strings\<close> is an argument: parsing a URL, an address and a network, splitting a
  host from its port, \<open>TrimSpace\<close> and \<open>ToLower\<close>.
\<close>

record parsed_url =
  ul_Scheme :: string
  ul_Host :: string
  ul_Hostname :: string
  ul_Port :: string
  ul_String :: string

text \<open>\<open>nl_IP\<close> gives the canonical form of an address, so that \<open>Equal\<close> is equality.\<close>

record net_lib =
  nl_URL :: "string \<Rightarrow> parsed_url option"
  nl_IP :: "string \<Rightarrow> string option"
  nl_CIDR :: "string \<Rightarrow> (string \<Rightarrow> bool) option"
  nl_SplitHostPort :: "string \<Rightarrow> (string \<times> string) option"
  nl_trim :: "string \<Rightarrow> string"
  nl_lower :: "string \<Rightarrow> string"

text \<open>The parts of a request the check reads; an absent header is empty.\<close>

record origin_request =
  or_Method :: string
  or_Origin :: string
  or_Referer :: string
  or_TLS :: bool
  or_Host :: string
  or_RemoteAddr :: string
  or_ForwardedProto :: string
  or_Forwarded :: string
  or_ForwardedHost :: string

definition trim_right_slashes :: "string \<Rightarrow> string" where
  "trim_right_slashes s = rev (dropWhile (\<lambda>c. c = CHR ''/'') (rev s))"

definition normalizeOrigin :: "net_lib \<Rightarrow> string \<Rightarrow> string" where
  "normalizeOrigin lib origin0 =
     (let origin = trim_right_slashes origin0 in
      case nl_URL lib origin of
        None \<Rightarrow> origin
      | Some u \<Rightarrow>
          if ul_Port u = ''''
          then (if ul_Scheme u = ''https'' then ul_Scheme u @ ''://'' @ ul_Hostname u @ '':443''
                else ul_Scheme u @ ''://'' @ ul_Hostname u @ '':80'')
          else ul_Scheme u @ ''://'' @ ul_Hostname u @ '':'' @ ul_Port u)"

definition isAllowed :: "net_lib \<Rightarrow> string \<Rightarrow> string list \<Rightarrow> bool" where
  "isAllowed lib origin origins \<longleftrightarrow> ''*'' \<in> set origins \<or> normalizeOrigin lib origin \<in> set origins"

text \<open>The loop over \<open>trustedIPs\<close>: entries with a slash are networks, others addresses.\<close>

definition trusted_entry :: "net_lib \<Rightarrow> string \<Rightarrow> string \<Rightarrow> bool" where
  "trusted_entry lib peer entry =
     (if CHR ''/'' \<in> set entry then (case nl_CIDR lib entry of None \<Rightarrow> False | Some contains \<Rightarrow> contains peer)
      else nl_IP lib entry = Some peer)"

definition ipIsTrusted :: "net_lib \<Rightarrow> string \<Rightarrow> string list \<Rightarrow> bool" where
  "ipIsTrusted lib host trustedIPs =
     (if trustedIPs = [] then False
      else case nl_IP lib (nl_trim lib host) of None \<Rightarrow> False | Some peer \<Rightarrow> list_ex (trusted_entry lib peer) trustedIPs)"

definition peerIsTrusted :: "net_lib \<Rightarrow> origin_request \<Rightarrow> string list \<Rightarrow> bool" where
  "peerIsTrusted lib r trustedIPs = (case nl_SplitHostPort lib (or_RemoteAddr r) of
       None \<Rightarrow> False | Some (host, _) \<Rightarrow> ipIsTrusted lib host trustedIPs)"

definition before_comma :: "string \<Rightarrow> string" where
  "before_comma s = takeWhile (\<lambda>c. c \<noteq> CHR '','') s"

text \<open>The loop over the parts of a \<open>Forwarded\<close> header: the first valid \<open>proto\<close>.\<close>

fun forwarded_proto :: "net_lib \<Rightarrow> string list \<Rightarrow> string" where
  "forwarded_proto lib [] = ''http''"
| "forwarded_proto lib (p # ps) =
     (let part = nl_trim lib p; proto = nl_trim lib (drop 6 part) in
      if prefix ''proto='' (nl_lower lib part) \<and> (proto = ''https'' \<or> proto = ''http'') then proto else forwarded_proto lib ps)"

definition requestSchemeHost :: "net_lib \<Rightarrow> origin_request \<Rightarrow> string list \<Rightarrow> string \<times> string" where
  "requestSchemeHost lib r trustedIPs =
     (if or_TLS r then (''https'', or_Host r)
      else if peerIsTrusted lib r trustedIPs
      then let p = before_comma (or_ForwardedProto r);
               scheme = (if or_ForwardedProto r \<noteq> '''' then (if p = ''https'' \<or> p = ''http'' then p else ''http'')
                         else if or_Forwarded r \<noteq> '''' then forwarded_proto lib (split_on (CHR '';'') (or_Forwarded r)) else ''http'');
               host = (if or_ForwardedHost r \<noteq> '''' then nl_trim lib (before_comma (or_ForwardedHost r)) else '''')
           in (scheme, if host = '''' then or_Host r else host)
      else (''http'', or_Host r))"

definition isSameOrigin :: "net_lib \<Rightarrow> string \<Rightarrow> origin_request \<Rightarrow> string list \<Rightarrow> bool" where
  "isSameOrigin lib origin r trustedIPs \<longleftrightarrow> (case requestSchemeHost lib r trustedIPs of (scheme, host) \<Rightarrow>
     normalizeOrigin lib origin = normalizeOrigin lib (scheme @ ''://'' @ host))"

text \<open>The loop over the configured origins: it stops at \<open>*\<close>, which switches the check off.\<close>

fun scan_origins :: "net_lib \<Rightarrow> string list \<Rightarrow> string list \<Rightarrow> bool \<times> string list" where
  "scan_origins lib [] acc = (False, acc)"
| "scan_origins lib (o1 # os) acc =
     (if o1 = ''*'' then (True, acc) else if o1 = '''' then scan_origins lib os acc
      else scan_origins lib os (normalizeOrigin lib o1 # acc))"

definition OriginCheck :: "net_lib \<Rightarrow> string list \<Rightarrow> bool \<Rightarrow> string list \<Rightarrow> origin_request \<Rightarrow> http_request \<Rightarrow> answer" where
  "OriginCheck lib allowedOrigins allowMissing trustedIPs q r =
     (case scan_origins lib allowedOrigins [] of (allowAll, origins) \<Rightarrow>
      let accepted = (\<lambda>o'. isAllowed lib o' origins \<or> isSameOrigin lib o' q trustedIPs) in
      if allowAll then Pass r
      else if or_Method q \<notin> {''POST'', ''PUT'', ''PATCH'', ''DELETE''} then Pass r
      else if or_Origin q = '''' \<and> or_Referer q = ''''
      then (if allowMissing then Pass r else Reject 403 ''csrf_headers_missing'')
      else if or_Origin q \<noteq> '''' then (if accepted (or_Origin q) then Pass r else Reject 403 ''csrf_origin_denied'')
      else (case nl_URL lib (or_Referer q) of
          None \<Rightarrow> Reject 403 ''csrf_origin_denied''
        | Some u \<Rightarrow> if ul_String u \<noteq> '''' \<and> accepted (ul_Scheme u @ ''://'' @ ul_Host u) then Pass r
                    else Reject 403 ''csrf_origin_denied''))"

section \<open>What passes\<close>

lemma scan_origins_result:
  "scan_origins lib os acc = (all, res) \<Longrightarrow> (all \<longleftrightarrow> ''*'' \<in> set os) \<and> set res \<subseteq> normalizeOrigin lib ` (set os - {''''}) \<union> set acc \<and>
     (''*'' \<notin> set os \<longrightarrow> set res = normalizeOrigin lib ` (set os - {''''}) \<union> set acc)"
proof (induction lib os acc rule: scan_origins.induct)
  case (2 lib o1 os acc)
  then show ?case by (auto split: if_splits)
qed simp

lemma normalize_not_star: "nl_URL lib ''*'' \<noteq> None \<Longrightarrow> normalizeOrigin lib s \<noteq> ''*''"
proof -
  assume star: "nl_URL lib ''*'' \<noteq> None"
  have "length (a @ ''://'' @ b) \<ge> 3" for a b :: string by simp
  then have "a @ ''://'' @ b \<noteq> ''*''" for a b :: string by (metis length_Cons list.size(3) numeral_3_eq_3 Suc_le_mono not_less_eq_eq le0 nat.simps(3) le_zero_eq)
  then show ?thesis using star by (auto simp: normalizeOrigin_def Let_def split: option.splits)
qed

text \<open>The origin a mutation claims: its \<open>Origin\<close>, and only without one that of its \<open>Referer\<close>.\<close>

definition claimed_origin :: "net_lib \<Rightarrow> origin_request \<Rightarrow> string option" where
  "claimed_origin lib q =
     (if or_Origin q \<noteq> '''' then Some (or_Origin q)
      else map_option (\<lambda>u. ul_Scheme u @ ''://'' @ ul_Host u) (nl_URL lib (or_Referer q)))"

text \<open>Headers only a trusted proxy may set.\<close>

definition same_connection :: "origin_request \<Rightarrow> origin_request \<Rightarrow> bool" where
  "same_connection q q' \<longleftrightarrow> q' = q\<lparr>or_ForwardedProto := or_ForwardedProto q', or_Forwarded := or_Forwarded q',
     or_ForwardedHost := or_ForwardedHost q'\<rparr>"

text \<open>C20: with no wildcard among the configured origins and no missing headers allowed, a mutation passes the check
  only if the origin it claims is one of the configured ones or that of the request itself, up to the default
  port; and forwarding headers of a peer that is not trusted change nothing, where an empty list trusts nobody.\<close>

theorem origin_check_sound:
  assumes "''*'' \<notin> set allowed" and "or_Method q \<in> {''POST'', ''PUT'', ''PATCH'', ''DELETE''}"
    and "nl_URL lib ''*'' \<noteq> None"
  shows "(OriginCheck lib allowed False trusted q r = Pass r' \<longrightarrow>
      r' = r \<and> (\<exists>o'. claimed_origin lib q = Some o' \<and>
        ((\<exists>a \<in> set allowed. normalizeOrigin lib o' = normalizeOrigin lib a) \<or> isSameOrigin lib o' q trusted))) \<and>
    (\<not> peerIsTrusted lib q trusted \<longrightarrow> same_connection q q' \<longrightarrow>
      OriginCheck lib allowed False trusted q' r = OriginCheck lib allowed False trusted q r) \<and>
    (trusted = [] \<longrightarrow> \<not> peerIsTrusted lib q trusted)"
proof (intro conjI)
  obtain origins where sc: "scan_origins lib allowed [] = (False, origins)" "set origins = normalizeOrigin lib ` (set allowed - {''''})"
    using scan_origins_result [of lib allowed "[]"] assms(1) by (cases "scan_origins lib allowed []") auto
  have star: "''*'' \<notin> set origins" using sc(2) normalize_not_star [of lib] assms(3) by (metis imageE)
  have allowed: "isAllowed lib o' origins \<Longrightarrow> \<exists>a \<in> set allowed. normalizeOrigin lib o' = normalizeOrigin lib a" for o'
    using star sc(2) by (auto simp: isAllowed_def)
  show "OriginCheck lib allowed False trusted q r = Pass r' \<longrightarrow>
      r' = r \<and> (\<exists>o'. claimed_origin lib q = Some o' \<and>
        ((\<exists>a \<in> set allowed. normalizeOrigin lib o' = normalizeOrigin lib a) \<or> isSameOrigin lib o' q trusted))"
    using assms(2) sc(1) allowed by (auto simp: OriginCheck_def Let_def claimed_origin_def split: if_splits option.splits)
next
  show "\<not> peerIsTrusted lib q trusted \<longrightarrow> same_connection q q' \<longrightarrow>
      OriginCheck lib allowed False trusted q' r = OriginCheck lib allowed False trusted q r"
  proof (intro impI)
    assume p: "\<not> peerIsTrusted lib q trusted" and "same_connection q q'"
    then obtain a b c where q': "q' = q\<lparr>or_ForwardedProto := a, or_Forwarded := b, or_ForwardedHost := c\<rparr>" unfolding same_connection_def by blast
    have "\<not> peerIsTrusted lib q' trusted" using p by (simp add: q' peerIsTrusted_def)
    then have "requestSchemeHost lib q' trusted = requestSchemeHost lib q trusted" using p by (simp add: requestSchemeHost_def q')
    then have "isSameOrigin lib s q' trusted = isSameOrigin lib s q trusted" for s by (simp add: isSameOrigin_def)
    moreover have "or_Method q' = or_Method q" "or_Origin q' = or_Origin q" "or_Referer q' = or_Referer q" by (simp_all add: q')
    ultimately have same: "\<And>s. isSameOrigin lib s q' trusted = isSameOrigin lib s q trusted" "or_Method q' = or_Method q"
      "or_Origin q' = or_Origin q" "or_Referer q' = or_Referer q" by blast+
    show "OriginCheck lib allowed False trusted q' r = OriginCheck lib allowed False trusted q r"
      unfolding OriginCheck_def same ..
  qed
next
  show "trusted = [] \<longrightarrow> \<not> peerIsTrusted lib q trusted"
    by (simp add: peerIsTrusted_def ipIsTrusted_def split: option.split prod.split)
qed

section \<open>Witness\<close>

text \<open>A parser for origins without a port or a path, and a server behind the proxy \<open>10.0.0.1\<close>.\<close>

definition net_lib_ex :: net_lib where
  "net_lib_ex = \<lparr>nl_URL = (\<lambda>s. if prefix ''https://'' s then Some \<lparr>ul_Scheme = ''https'', ul_Host = drop 8 s, ul_Hostname = drop 8 s, ul_Port = '''', ul_String = s\<rparr>
       else Some \<lparr>ul_Scheme = ''http'', ul_Host = drop 7 s, ul_Hostname = drop 7 s, ul_Port = '''', ul_String = s\<rparr>),
     nl_IP = (\<lambda>s. Some s), nl_CIDR = (\<lambda>s. None), nl_SplitHostPort = (\<lambda>s. Some (s, '''')), nl_trim = (\<lambda>s. s), nl_lower = (\<lambda>s. s)\<rparr>"

definition origin_request_ex :: "string \<Rightarrow> origin_request" where
  "origin_request_ex peer = \<lparr>or_Method = ''POST'', or_Origin = ''https://a.io'', or_Referer = '''', or_TLS = False, or_Host = ''a.io'',
     or_RemoteAddr = peer, or_ForwardedProto = ''https'', or_Forwarded = '''', or_ForwardedHost = ''''\<rparr>"

definition http_request_ex :: http_request where
  "http_request_ex = \<lparr>hr_Method = ''POST'', hr_Selector = [], hr_Token = '''', hr_Cookies = [], hr_ctx = request_ctx, hr_Session = None, hr_User = None,
     hr_Snapshot = None, hr_Csrf = None, hr_Authenticated = None\<rparr>"

lemmas origin_eval = origin_request_ex_def net_lib_ex_def OriginCheck_def isAllowed_def isSameOrigin_def requestSchemeHost_def peerIsTrusted_def
  ipIsTrusted_def trusted_entry_def before_comma_def normalizeOrigin_def trim_right_slashes_def

theorem origin_check_sound_witness:
  "OriginCheck net_lib_ex [] False [''10.0.0.1''] (origin_request_ex ''10.0.0.1'') http_request_ex = Pass http_request_ex \<and>
   isSameOrigin net_lib_ex ''https://a.io'' (origin_request_ex ''10.0.0.1'') [''10.0.0.1''] \<and>
   OriginCheck net_lib_ex [] False [''10.0.0.1''] (origin_request_ex ''6.6.6.6'') http_request_ex =
   OriginCheck net_lib_ex [] False [''10.0.0.1''] (origin_request_ex ''6.6.6.6''\<lparr>or_ForwardedProto := ''''\<rparr>) http_request_ex"
proof -
  have pass: "OriginCheck net_lib_ex [] False [''10.0.0.1''] (origin_request_ex ''10.0.0.1'') http_request_ex = Pass http_request_ex"
    by (simp add: origin_eval)
  have lib: "''*'' \<notin> set ([] :: string list)" "nl_URL net_lib_ex ''*'' \<noteq> None" by (simp_all add: net_lib_ex_def)
  have post: "or_Method (origin_request_ex p) \<in> {''POST'', ''PUT'', ''PATCH'', ''DELETE''}" for p by (simp add: origin_request_ex_def)
  from origin_check_sound [OF lib(1) post lib(2), where p1 = "''10.0.0.1''" and trusted = "[''10.0.0.1'']" and r = http_request_ex and r' = http_request_ex] pass
  have same: "isSameOrigin net_lib_ex ''https://a.io'' (origin_request_ex ''10.0.0.1'') [''10.0.0.1'']"
    by (auto simp: claimed_origin_def origin_request_ex_def)
  have "\<not> peerIsTrusted net_lib_ex (origin_request_ex ''6.6.6.6'') [''10.0.0.1'']" by (simp add: origin_eval)
  moreover have "same_connection (origin_request_ex ''6.6.6.6'') (origin_request_ex ''6.6.6.6''\<lparr>or_ForwardedProto := ''''\<rparr>)"
    by (simp add: same_connection_def origin_request_ex_def)
  ultimately have "OriginCheck net_lib_ex [] False [''10.0.0.1''] (origin_request_ex ''6.6.6.6''\<lparr>or_ForwardedProto := ''''\<rparr>) http_request_ex =
      OriginCheck net_lib_ex [] False [''10.0.0.1''] (origin_request_ex ''6.6.6.6'') http_request_ex"
    using origin_check_sound [OF lib(1) post lib(2)] by blast
  with pass same show ?thesis by simp
qed

end
