(* ===== verification/Protected.thy ===== *)
theory Protected
  imports MwProps Origin
begin

text \<open>
  The chain of middleware in front of a protected route (\<open>wire_http.go\<close>, \<open>internal/httproutes/routes.go\<close>) and who
  is served behind it: the unbanned owner of a session that was in force when the request came in, or whose refresh
  token was just rotated.
\<close>

section \<open>The chain\<close>

text \<open>\<open>authMW\<close>: the authentication, then the requirement of a verified address.\<close>

definition authMW :: "bool \<Rightarrow> session_service \<Rightarrow> cookie_settings \<Rightarrow> http_request \<Rightarrow> (answer \<times> cookies) action" where
  "authMW required svc cookies r = bnd (AuthMiddleware svc cookies r) (\<lambda>(a, ws). case a of
       Reject st e \<Rightarrow> ret (a, ws) | Pass r' \<Rightarrow> ret (RequireVerifiedEmail required r', ws))"

definition protected_route ::
  "csrf_config \<Rightarrow> net_lib \<Rightarrow> string list \<Rightarrow> string list \<Rightarrow> bool \<Rightarrow> session_service \<Rightarrow> cookie_settings \<Rightarrow> origin_request \<Rightarrow> http_request \<Rightarrow>
     (answer \<times> cookies) action" where
  "protected_route c lib allowed trusted required svc cookies q r = bnd (CSRFToken (Some c) r) (\<lambda>(a, ws). case a of
       Reject st e \<Rightarrow> ret (a, ws)
     | Pass r1 \<Rightarrow> (case OriginCheck lib allowed False trusted q r1 of
         Reject st e \<Rightarrow> ret (Reject st e, ws)
       | Pass r2 \<Rightarrow> bnd (authMW required svc cookies r2) (\<lambda>(b, ws'). ret (b, ws @ ws'))))"

section \<open>Time in requests\<close>

text \<open>Running from a clock not before \<open>c\<close>. Only programs that never set the clock back come before another one.\<close>

definition rt :: "time \<Rightarrow> 'a action \<Rightarrow> (go_err + 'a \<Rightarrow> tables \<Rightarrow> bool) \<Rightarrow> tables \<Rightarrow> bool" where
  "rt c m Q d \<longleftrightarrow> (\<forall>w r w'. faults_only w \<longrightarrow> store w = d \<longrightarrow> c \<le> clock w \<longrightarrow> m w = (r, w') \<longrightarrow> Q r (store w') \<and> faults_only w')"

definition forward :: "'a action \<Rightarrow> bool" where
  "forward m \<longleftrightarrow> (\<forall>w. clock w \<le> clock (snd (m w)))"

named_theorems forwards \<open>programs that never set the clock back\<close>

lemma forwardI: "(\<And>w r w'. m w = (r, w') \<Longrightarrow> clock w \<le> clock w') \<Longrightarrow> forward m"
  unfolding forward_def by (metis prod.collapse)

lemma forwardD: "forward m \<Longrightarrow> m w = (r, w') \<Longrightarrow> clock w \<le> clock w'"
  unfolding forward_def by (metis snd_conv)

lemma rtD: "rt c m Q (store w) \<Longrightarrow> faults_only w \<Longrightarrow> c \<le> clock w \<Longrightarrow> m w = (r, w') \<Longrightarrow> Q r (store w') \<and> faults_only w'"
  by (simp add: rt_def)

lemma rt_rq: "rq m Q d \<Longrightarrow> rt c m Q d"
  by (simp add: rt_def rq_def)

lemma rt_conseq: "rt c m Q' d \<Longrightarrow> (\<And>r d. Q' r d \<Longrightarrow> Q r d) \<Longrightarrow> rt c m Q d"
  unfolding rt_def by blast

lemma rt_bnd:
  assumes "rt c m (\<lambda>r d. case r of Inl e \<Rightarrow> R (Inl e) d | Inr a \<Rightarrow> rq (f a) R d) d"
  shows "rt c (bnd m f) R d"
  unfolding rt_def
proof (intro allI impI)
  fix w r w' assume w: "faults_only w" "store w = d" "c \<le> clock w" and run: "bnd m f w = (r, w')"
  note h = rtD [OF assms [folded w(2)] w(1,3)]
  from run show "R r (store w') \<and> faults_only w'"
    by (cases rule: bnd_run) (use h in \<open>auto dest: rqD\<close>)
qed

lemma rt_bnd_forward:
  assumes "forward m" and "rt c m (\<lambda>r d. case r of Inl e \<Rightarrow> R (Inl e) d | Inr a \<Rightarrow> rt c (f a) R d) d"
  shows "rt c (bnd m f) R d"
  unfolding rt_def
proof (intro allI impI)
  fix w r w' assume w: "faults_only w" "store w = d" "c \<le> clock w" and run: "bnd m f w = (r, w')"
  note h = rtD [OF assms(2) [folded w(2)] w(1,3)]
  from run show "R r (store w') \<and> faults_only w'"
  proof (cases rule: bnd_run)
    case (err e)
    then show ?thesis using h by fastforce
  next
    case (ok a w1)
    have "c \<le> clock w1" using forwardD [OF assms(1) ok(1)] w(3) by linarith
    with h [OF ok(1)] ok(2) show ?thesis by (auto dest: rtD)
  qed
qed

lemma rt_attempt: "rt c m (\<lambda>r. Q (Inr r)) d \<Longrightarrow> rt c (attempt m) Q d"
  unfolding rt_def attempt_def by (auto split: prod.splits)

lemma rt_wrap:
  assumes "rt c m (\<lambda>r d. case r of Inl e \<Rightarrow> Q (Inl (Wrapf msg [e])) d | Inr a \<Rightarrow> Q (Inr a) d) d"
  shows "rt c (wrap msg m) Q d"
  unfolding rt_def
proof (intro allI impI)
  fix w r w' assume w: "faults_only w" "store w = d" "c \<le> clock w" and run: "wrap msg m w = (r, w')"
  obtain r0 w0 where m: "m w = (r0, w0)" by fastforce
  from rtD [OF assms [folded w(2)] w(1,3) m] run m show "Q r (store w') \<and> faults_only w'"
    by (cases r0) (auto simp: wrap_def)
qed

lemma rt_now: "(\<And>t. c \<le> t \<Longrightarrow> Q (Inr t) d) \<Longrightarrow> rt c now Q d"
  by (auto simp: rt_def now_def Let_def faults_only_def)

lemma forward_ret [forwards]: "forward (ret a)" "forward (fail e)"
  by (simp_all add: forward_def ret_def fail_def)

lemma forward_bnd [forwards]: "forward m \<Longrightarrow> (\<And>a. forward (f a)) \<Longrightarrow> forward (bnd m f)"
  by (rule forwardI, erule bnd_run) (blast dest: forwardD intro: order_trans)+

lemma forward_attempt [forwards]: "forward m \<Longrightarrow> forward (attempt m)"
  by (rule forwardI) (auto simp: attempt_def dest: forwardD split: prod.splits)

lemma forward_wrap [forwards]: "forward m \<Longrightarrow> forward (wrap msg m)"
  by (rule forwardI) (auto simp: wrap_def dest: forwardD split: prod.splits sum.splits)

lemma forward_query [forwards]: "forward (query ctx f)"
  by (auto simp: forward_def query_def stmt_def next_event_def split: list.split event.split prod.split)

lemma forward_now [forwards]: "forward now"
  by (simp add: forward_def now_def Let_def)

lemma forward_draw [forwards]: "forward draw"
  by (auto simp: forward_def draw_def split: list.split option.split)

lemma forward_checkSession [forwards]: "forward (checkSession svc so)"
  unfolding checkSession_def by (auto intro!: forwards split: option.split)

lemma forward_generate [forwards]: "forward (generateCSRFToken n s b)"
  unfolding generateCSRFToken_def by (auto intro!: forwards simp: Let_def split: if_splits)

lemma forward_csrfBinding [forwards]: "forward (csrfBinding r c)"
  unfolding csrfBinding_def refresh_binding_def snapshot_check_def GetByTokenHashWithUser_def GetByRefreshHash_def
    GetByPreviousRefreshHash_def ValidateBrowserSnapshot_def
  by (auto intro!: forwards simp: Let_def split: option.split)

lemma forward_CSRFToken [forwards]: "forward (CSRFToken (Some c) r)"
  unfolding CSRFToken_def csrf_safe_def csrf_unsafe_def newBrowserBinding_def
  by (auto intro!: forwards simp: Let_def split: sum.split)

section \<open>Sessions in force\<close>

definition in_force :: "session_service \<Rightarrow> session \<Rightarrow> time \<Rightarrow> bool" where
  "in_force svc s t \<longleftrightarrow> \<not> s_IsRevoked s \<and> t \<le> s_ExpiresAt s \<and> (0 < IdleTTL svc \<longrightarrow> t < s_LastActiveAt s + IdleTTL svc) \<and>
     (0 < MaxLifetime svc \<longrightarrow> t < s_CreatedAt s + MaxLifetime svc)"

text \<open>A session of the tables, known by the token \<open>v\<close>, with its owner.\<close>

definition owned_session :: "tables \<Rightarrow> string \<Rightarrow> session \<Rightarrow> user \<Rightarrow> bool" where
  "owned_session d v s u \<longleftrightarrow> s \<in> set (sessions d) \<and> u \<in> set (users d) \<and> u_ID u = s_UserID s \<and> s_TokenHash s = hashToken v"

lemma rt_checkSession:
  assumes "\<And>e. Q (Inl e) d" and "in_force svc s c \<Longrightarrow> Q (Inr ()) d"
  shows "rt c (checkSession svc (Some s)) Q d"
proof -
  have "rt c now (\<lambda>r d. case r of Inl e \<Rightarrow> Q (Inl e) d | Inr t \<Rightarrow> rq (
            if s_ExpiresAt s < t then fail ErrSessionExpired
            else if 0 < IdleTTL svc \<and> \<not> t < s_LastActiveAt s + IdleTTL svc then fail ErrSessionExpired
            else if 0 < MaxLifetime svc \<and> \<not> t < s_CreatedAt s + MaxLifetime svc then fail ErrMaxLifetimeExceeded
            else ret ()) Q d) d" if "\<not> s_IsRevoked s"
    using that assms by (intro rt_now) (auto intro!: rq_fail rq_ret simp: in_force_def)
  then show ?thesis unfolding checkSession_def using assms(1) by (auto intro!: rt_bnd rt_rq [OF rq_fail])
qed

lemma joined_row:
  assumes "select1 (\<lambda>p. s_TokenHash (fst p) = hashToken v) (concat (map (\<lambda>s. map (Pair s) (filter (\<lambda>u. u_ID u = s_UserID s) (users d))) (sessions d)))
     = Some (s, u)"
  shows "owned_session d v s u"
  using select1_Some [OF assms] by (auto simp: owned_session_def)

lemma rt_ValidateWithUser:
  assumes "\<And>e. Q (Inl e) d" and "\<And>s u. owned_session d v s u \<Longrightarrow> in_force svc s c \<Longrightarrow> Q (Inr (Some (s, u))) d"
  shows "rt c (ValidateWithUser svc ctx v) Q d"
proof -
  let ?f = "\<lambda>d. select1 (\<lambda>p. s_TokenHash (fst p) = hashToken v)
       (concat (map (\<lambda>s. map (Pair s) (filter (\<lambda>u. u_ID u = s_UserID s) (users d))) (sessions d)))"
  have chk: "rt c (bnd (checkSession svc (map_option fst (?f d))) (\<lambda>_. ret (?f d))) Q d"
  proof (cases "?f d")
    case None
    then show ?thesis using assms(1) by (auto intro!: rt_bnd rt_rq [OF rq_fail] simp: checkSession_def)
  next
    case (Some p)
    obtain s u where p: "p = (s, u)" by fastforce
    have own: "owned_session d v s u" using Some p by (intro joined_row) simp
    show ?thesis unfolding Some p using assms own by (auto intro!: rt_bnd rt_checkSession rq_ret)
  qed
  show ?thesis
    unfolding ValidateWithUser_def GetByTokenHashWithUser_def seq_def
    by (auto intro!: rt_rq [OF rq_fail] assms(1) rt_bnd_forward forwards rt_wrap rt_rq [OF rq_query] chk)
qed

section \<open>Authentication\<close>

definition snapshot_ok :: "session_service \<Rightarrow> tables \<Rightarrow> time \<Rightarrow> http_request \<Rightarrow> bool" where
  "snapshot_ok svc d c r \<longleftrightarrow> (\<forall>sn. hr_Snapshot r = Some sn \<longrightarrow> sn_err sn = None \<longrightarrow>
     (\<exists>s u. sn_found sn = Some (s, u) \<and> owned_session d (sn_token sn) s u \<and> in_force svc s c))"

lemma csrfHash_hashToken: "csrfHash v = hashToken v"
  by (simp add: csrfHash_def hashToken_def)

lemma rt_query_bnd: "R (Inl ErrDatabase) d \<Longrightarrow> rt c (k (f d)) R d \<Longrightarrow> rt c (bnd (query ctx f) k) R d"
  by (rule rt_bnd_forward [OF forward_query], rule rt_rq [OF rq_query]) simp_all

lemma rt_csrfBinding:
  assumes "hr_Snapshot r = None" and "cs_ValidateSession cfg = None \<or> cs_ValidateSession cfg = Some svc"
  shows "rt c (csrfBinding r cfg) (\<lambda>res d'. \<forall>r' b. res = Inr (r', b) \<longrightarrow> d' = d \<and> snapshot_ok svc d c r') d"
proof -
  let ?Q = "\<lambda>res d'. \<forall>r' b. res = Inr (r', b) \<longrightarrow> d' = d \<and> snapshot_ok svc d c r'"
  have same: "snapshot_ok svc d c r" using assms(1) by (simp add: snapshot_ok_def)
  have rest: "rq (bnd (refresh_binding q cfg) (\<lambda>b. ret (q', b))) ?Q d" if "snapshot_ok svc d c q'" for q q'
    using that by (intro rq_bnd rq_refresh_binding) (auto intro!: rq_ret)
  have looked: "rt c (bnd (snapshot_check cfg found) (\<lambda>validation.
               let r' = (if cs_ValidateSession cfg \<noteq> None then r\<lparr>hr_Snapshot := Some \<lparr>sn_token = v, sn_found = found, sn_err = validation\<rparr>\<rparr> else r) in
               case found of
                 Some (s, u) \<Rightarrow> if \<not> s_IsRevoked s then ret (r', sessionBinding cfg (s_ID s)) else bnd (refresh_binding r' cfg) (\<lambda>b. ret (r', b))
               | None \<Rightarrow> bnd (refresh_binding r' cfg) (\<lambda>b. ret (r', b)))) ?Q d"
    if own: "\<And>s u. found = Some (s, u) \<Longrightarrow> owned_session d v s u" for found v
  proof -
    let ?ok = "\<lambda>validation. cs_ValidateSession cfg \<noteq> None \<longrightarrow> validation = None \<longrightarrow> (\<exists>s u. found = Some (s, u) \<and> in_force svc s c)"
    have chk: "rt c (snapshot_check cfg found) (\<lambda>r d'. case r of Inl e \<Rightarrow> True | Inr validation \<Rightarrow> d' = d \<and> ?ok validation) d"
      using assms(2) unfolding snapshot_check_def ValidateBrowserSnapshot_def
      by (auto intro!: rt_rq [OF rq_ret] rt_bnd rt_attempt rt_checkSession rq_ret split: option.split)
    have k: "rq (let r' = (if cs_ValidateSession cfg \<noteq> None then r\<lparr>hr_Snapshot := Some \<lparr>sn_token = v, sn_found = found, sn_err = validation\<rparr>\<rparr> else r) in
               case found of
                 Some (s, u) \<Rightarrow> if \<not> s_IsRevoked s then ret (r', sessionBinding cfg (s_ID s)) else bnd (refresh_binding r' cfg) (\<lambda>b. ret (r', b))
               | None \<Rightarrow> bnd (refresh_binding r' cfg) (\<lambda>b. ret (r', b))) ?Q d" if "?ok validation" for validation
    proof -
      have "snapshot_ok svc d c (if cs_ValidateSession cfg \<noteq> None then r\<lparr>hr_Snapshot := Some \<lparr>sn_token = v, sn_found = found, sn_err = validation\<rparr>\<rparr> else r)"
        using that own same by (auto simp: snapshot_ok_def)
      then show ?thesis unfolding Let_def using rest by (auto intro!: rq_ret split: option.split)
    qed
    show ?thesis by (rule rt_bnd, rule rt_conseq [OF chk]) (use k in \<open>auto split: sum.splits\<close>)
  qed
  have token: "rt c (bnd (GetByTokenHashWithUser ctx (csrfHash v)) (\<lambda>found. bnd (snapshot_check cfg found) (\<lambda>validation.
               let r' = (if cs_ValidateSession cfg \<noteq> None then r\<lparr>hr_Snapshot := Some \<lparr>sn_token = v, sn_found = found, sn_err = validation\<rparr>\<rparr> else r) in
               case found of
                 Some (s, u) \<Rightarrow> if \<not> s_IsRevoked s then ret (r', sessionBinding cfg (s_ID s)) else bnd (refresh_binding r' cfg) (\<lambda>b. ret (r', b))
               | None \<Rightarrow> bnd (refresh_binding r' cfg) (\<lambda>b. ret (r', b))))) ?Q d" for ctx v
    unfolding GetByTokenHashWithUser_def csrfHash_hashToken by (rule rt_query_bnd) (simp, rule looked, rule joined_row)
  show ?thesis
    unfolding csrfBinding_def using same
    by (split option.split)+ (intro conjI allI impI; (split if_split; intro conjI impI)?; (split option.split; intro conjI allI impI)?;
        (rule token | rule rt_rq [OF rest] | rule rt_rq [OF rq_ret]); simp)
qed

lemma csrf_keeps_snapshot:
  "csrf_safe cfg r b w = (Inr (Pass r', ws), w') \<Longrightarrow> hr_Snapshot r' = hr_Snapshot r"
  "csrf_unsafe cfg r b w = (Inr (Pass r', ws), w') \<Longrightarrow> hr_Snapshot r' = hr_Snapshot r"
  by (auto simp: csrf_safe_def csrf_unsafe_def with_csrf_def effect_defs split: prod.splits sum.splits if_splits)

lemma CSRFToken_snapshot:
  assumes "faults_only w" and "hr_Snapshot r = None" and "cs_ValidateSession c = None \<or> cs_ValidateSession c = Some svc"
    and "CSRFToken (Some c) r w = (Inr (Pass r', ws), w')"
  shows "snapshot_ok svc (store w) (clock w) r'"
proof -
  obtain q where q: "resolveBrowserSession r False = Inr q" using assms(4) by (cases "resolveBrowserSession r False") (auto simp: CSRFToken_def ret_def)
  let ?cfg = "forRequest c q"
  obtain res w1 where b: "csrfBinding q ?cfg w = (res, w1)" by fastforce
  have "hr_Snapshot q = None" using resolve_same [OF q] assms(2) by auto
  then have ok: "snapshot_ok svc (store w) (clock w) x" if "res = Inr (x, y)" for x y
    using rtD [OF rt_csrfBinding _ _ b, of svc "clock w"] assms(1,3) that by auto
  show ?thesis using assms(4) q ok b csrf_keeps_snapshot unfolding snapshot_ok_def
    by (auto simp: CSRFToken_def Let_def run_attempt_bnd ret_def split: if_splits sum.splits prod.splits)
qed

text \<open>How a request was admitted: by a session in force, or by a refresh of one.\<close>

definition by_session :: "session_service \<Rightarrow> cookie_settings \<Rightarrow> tables \<Rightarrow> time \<Rightarrow> http_request \<Rightarrow> session \<Rightarrow> user \<Rightarrow> bool" where
  "by_session svc ck d c r s u \<longleftrightarrow> (\<exists>v. Cookie r (ck_Name ck) = Some v \<and> owned_session d v s u \<and> in_force svc s c)"

definition by_refresh :: "session_service \<Rightarrow> cookie_settings \<Rightarrow> tables \<Rightarrow> http_request \<Rightarrow> session \<Rightarrow> user \<Rightarrow> bool" where
  "by_refresh svc ck d r s u \<longleftrightarrow> (\<exists>v res d'. Cookie r (ck_RefreshName ck) = Some v \<and> Matches (c_scope (hr_ctx r)) v \<and>
     refreshed svc v d res d' \<and> s = sr_Session res \<and> u \<in> set (users d) \<and> u_ID u = s_UserID s)"

definition admitted :: "session_service \<Rightarrow> cookie_settings \<Rightarrow> tables \<Rightarrow> time \<Rightarrow> http_request \<Rightarrow> session \<Rightarrow> user \<Rightarrow> bool" where
  "admitted svc ck d c r s u \<longleftrightarrow> \<not> u_IsBanned u \<and> (by_session svc ck d c r s u \<or> by_refresh svc ck d r s u)"

lemma refreshed_users: "refreshed svc v d res d' \<Longrightarrow> users d' = users d"
  by (auto simp: refreshed_def Let_def same_but_audit_def rotated_to_def put_sessions_def)

abbreviation admits :: "session_service \<Rightarrow> cookie_settings \<Rightarrow> tables \<Rightarrow> time \<Rightarrow> http_request \<Rightarrow> go_err + resolution \<Rightarrow> bool" where
  "admits svc ck d c r res \<equiv> \<forall>s u v ws. res = Inr (Inr (s, u, v), ws) \<longrightarrow> admitted svc ck d c r s u"

lemma admit_owner_Inr: "admit_owner s uo v = Inr (s', u, v') \<longleftrightarrow> uo = Some u \<and> \<not> u_IsBanned u \<and> s' = s \<and> v' = v"
  by (auto simp: admit_owner_def split: option.split)

lemma rq_refresh_session:
  assumes "\<not> c_tx (hr_ctx r)"
  shows "rq (refresh_session svc ck r) (\<lambda>res d'. admits svc ck d c r res) d"
proof -
  have owner: "rq (bnd (attempt (usr_GetByID (hr_ctx r) (s_UserID (sr_Session res)))) (\<lambda>owner. case owner of
               Inl e \<Rightarrow> ret (Inl (if errors_is e ErrUserNotFound then Reject 401 ''unauthorized'' else Reject 500 ''internal_error''), ws)
             | Inr uo \<Rightarrow> ret (admit_owner (sr_Session res) uo (sr_SessionToken res), ws))) (\<lambda>res d'. admits svc ck d c r res) d'"
    if "Cookie r (ck_RefreshName ck) = Some v" "Matches (c_scope (hr_ctx r)) v" "refreshed svc v d res d'" for v res d' ws
    unfolding usr_GetByID_def
    using that by (auto intro!: rq_bnd rq_attempt rq_query rq_ret dest!: select1_Some
        simp: admit_owner_Inr admitted_def by_refresh_def refreshed_users user_id_is_def)
  have refresh: "rq (RefreshSession svc (hr_ctx r) v)
     (\<lambda>r' d'. case r' of Inr res \<Rightarrow> Matches (c_scope (hr_ctx r)) v \<and> refreshed svc v d res d' | Inl e \<Rightarrow> True) d" for v
    by (rule rq_conseq [OF rq_RefreshSession [OF assms]]) (simp split: sum.splits)
  have "rq (bnd (attempt (RefreshSession svc (hr_ctx r) v)) (\<lambda>res. case res of
           Inl e \<Rightarrow> ret (Inl (if isSessionRejection e then Reject 401 ''session_expired'' else Reject 500 ''internal_error''), [])
         | Inr result \<Rightarrow>
             let ws = SetSessionCookie ck (sr_SessionToken result) @ SetRefreshCookie ck (sr_RefreshToken result); s = sr_Session result in
             bnd (attempt (usr_GetByID (hr_ctx r) (s_UserID s))) (\<lambda>owner. case owner of
               Inl e \<Rightarrow> ret (Inl (if errors_is e ErrUserNotFound then Reject 401 ''unauthorized'' else Reject 500 ''internal_error''), ws)
             | Inr uo \<Rightarrow> ret (admit_owner s uo (sr_SessionToken result), ws)))) (\<lambda>res d'. admits svc ck d c r res) d"
    if "Cookie r (ck_RefreshName ck) = Some v" for v
    by (rule rq_bnd, rule rq_attempt, rule rq_conseq [OF refresh])
      (use owner that in \<open>auto intro!: rq_ret simp: Let_def split: sum.splits\<close>)
  then show ?thesis unfolding refresh_session_def by (auto intro!: rq_ret split: option.split)
qed

lemma rt_resolveSession:
  assumes "snapshot_ok svc d c r" and "\<not> c_tx (hr_ctx r)"
  shows "rt c (resolveSession svc ck r) (\<lambda>res d'. admits svc ck d c r res) d"
proof -
  have found: "rt c (cookie_session svc r v) (\<lambda>x d'. d' = d \<and> (\<forall>s u. x = Inr (Some (s, u)) \<longrightarrow> owned_session d v s u \<and> in_force svc s c)) d" for v
    using assms(1) unfolding cookie_session_def snapshot_ok_def
    by (auto intro!: rt_rq [OF rq_ret] rt_rq [OF rq_fail] rt_ValidateWithUser split: option.split)
  have "rt c (bnd (attempt (cookie_session svc r v)) (\<lambda>res. case res of
           Inl e \<Rightarrow>
             if errors_is e ErrSessionExpired then refresh_session svc ck r
             else ret (Inl (if isSessionRejection e then Reject 401 ''unauthorized'' else Reject 500 ''internal_error''), [])
         | Inr None \<Rightarrow> ret (Inl (Reject 401 ''unauthorized''), [])
         | Inr (Some (s, u)) \<Rightarrow> ret (admit_owner s (Some u) v, []))) (\<lambda>res d'. admits svc ck d c r res) d"
    if "Cookie r (ck_Name ck) = Some v" for v
  proof -
    have tail: "rq (case x of
           Inl e \<Rightarrow>
             if errors_is e ErrSessionExpired then refresh_session svc ck r
             else ret (Inl (if isSessionRejection e then Reject 401 ''unauthorized'' else Reject 500 ''internal_error''), [])
         | Inr None \<Rightarrow> ret (Inl (Reject 401 ''unauthorized''), [])
         | Inr (Some (s, u)) \<Rightarrow> ret (admit_owner s (Some u) v, [])) (\<lambda>res d'. admits svc ck d c r res) d"
      if "\<forall>s u. x = Inr (Some (s, u)) \<longrightarrow> owned_session d v s u \<and> in_force svc s c" for x
    proof (cases x)
      case (Inl e)
      then show ?thesis using rq_refresh_session [OF assms(2), of svc ck d c] by (simp add: rq_ret)
    next
      case (Inr p)
      then show ?thesis using that \<open>Cookie r (ck_Name ck) = Some v\<close>
        by (auto intro!: rq_ret simp: admit_owner_Inr admitted_def by_session_def split: option.splits)
    qed
    show ?thesis by (rule rt_bnd, rule rt_attempt, rule rt_conseq [OF found]) (use tail in auto)
  qed
  then show ?thesis unfolding resolveSession_def by (auto intro!: rt_rq [OF rq_ret] split: option.split)
qed

lemma rq_Touch: "(\<And>r d'. Q r d') \<Longrightarrow> rq (Touch svc ctx v t) Q d"
  unfolding Touch_def UpdateLastActiveAt_def by (auto intro!: rq_bnd rq_now rq_ret rq_exec)

definition serves :: "session_service \<Rightarrow> cookie_settings \<Rightarrow> tables \<Rightarrow> time \<Rightarrow> http_request \<Rightarrow> go_err + answer \<times> cookies \<Rightarrow> bool" where
  "serves svc ck d c r res \<longleftrightarrow> (\<forall>r' ws. res = Inr (Pass r', ws) \<longrightarrow>
     (\<exists>s u. hr_Session r' = Some s \<and> hr_User r' = Some u \<and> admitted svc ck d c r s u))"

lemma rt_authenticate_request:
  assumes "snapshot_ok svc d c r" and "\<not> c_tx (hr_ctx r)"
  shows "rt c (authenticate_request svc ck r) (\<lambda>res d'. serves svc ck d c r res) d"
proof -
  have no: "serves svc ck d c r (Inl e)" "(\<And>x. a \<noteq> Pass x) \<Longrightarrow> serves svc ck d c r (Inr (a, ws))" for e a ws by (auto simp: serves_def)
  have pass: "rq (bnd (attempt (Touch svc (hr_ctx r) v (s_LastActiveAt s))) (\<lambda>_. ret (Pass x, ws)))
      (\<lambda>res d'. serves svc ck d c r res) d'"
    if "admitted svc ck d c r s u" "hr_Session x = Some s" "hr_User x = Some u" for s u v x ws d'
    by (intro rq_bnd rq_attempt rq_Touch) (use that in \<open>auto intro!: rq_ret simp: serves_def split: sum.split\<close>)
  have rejected: "resolveSession svc ck r w = (Inr (Inl (Pass x), ws), w') \<Longrightarrow> False" for x ws w w'
    by (auto simp: resolveSession_def refresh_session_def admit_owner_def effect_defs Let_def
        split: option.splits prod.splits sum.splits if_splits)
  have "rt c (resolveSession svc ck r) (\<lambda>res d'. admits svc ck d c r res \<and> (\<forall>x ws. res \<noteq> Inr (Inl (Pass x), ws))) d"
    using rt_resolveSession [OF assms, of ck] rejected unfolding rt_def by blast
  then show ?thesis
    unfolding authenticate_request_def
    by (intro rt_bnd, elim rt_conseq) (auto intro!: rq_ret pass no split: sum.split)
qed

lemma resolve_again: "resolveBrowserSession r False = Inr q \<Longrightarrow> resolveBrowserSession (q\<lparr>hr_Snapshot := sn, hr_Csrf := t\<rparr>) False = Inr (q\<lparr>hr_Snapshot := sn, hr_Csrf := t\<rparr>)"
  by (auto simp: resolveBrowserSession_def Let_def select_scope_def split: if_splits)

lemma OriginCheck_same: "OriginCheck lib allowed missing trusted q r = Pass r' \<Longrightarrow> r' = r"
  by (auto simp: OriginCheck_def Let_def split: prod.splits if_splits option.splits)

lemma AuthMiddleware_admits:
  assumes "faults_only w" and "snapshot_ok svc (store w) c r" and "c \<le> clock w" and "\<not> c_tx (hr_ctx r)" and "hr_Authenticated r = None"
    and "resolveBrowserSession r False = Inr r" and "AuthMiddleware svc cookies r w = (Inr (Pass r', ws), w')"
  shows "\<exists>s u. hr_Session r' = Some s \<and> hr_User r' = Some u \<and> admitted svc (ForRequest cookies r) (store w) c r s u"
proof -
  have "authenticate_request svc (ForRequest cookies r) r w = (Inr (Pass r', ws), w')"
    using assms(5-7) by (simp add: AuthMiddleware_def BrowserSession_def Let_def)
  from rtD [OF rt_authenticate_request [OF assms(2,4)] assms(1,3) this] show ?thesis by (auto simp: serves_def)
qed

text \<open>The request as the chain sees it after the CSRF check differs from the resolved one in context values only.\<close>

lemma admitted_same:
  "admitted svc (ForRequest cookies (q\<lparr>hr_Snapshot := sn, hr_Csrf := t\<rparr>)) d c (q\<lparr>hr_Snapshot := sn, hr_Csrf := t\<rparr>) s u \<longleftrightarrow>
   admitted svc (ForRequest cookies q) d c q s u" if "resolveBrowserSession r False = Inr q"
proof -
  have "resolveBrowserSession q False = Inr q" using resolve_again [OF that, where sn = "hr_Snapshot q" and t = "hr_Csrf q"] by simp
  then have "ForRequest cookies (q\<lparr>hr_Snapshot := sn, hr_Csrf := t\<rparr>) = ForRequest cookies q"
    using resolve_again [OF that, where sn = sn and t = t] by (simp add: ForRequest_def)
  then show ?thesis by (simp add: admitted_def by_session_def by_refresh_def)
qed

text \<open>C17: a protected route serves a fresh request, under any faults of the database, only as the owner of a session,
  not banned and with a verified address where that is required. Either the session cookie of the selected context
  names that session, which had neither been revoked nor passed one of its lifetimes when the request came in, or
  the refresh cookie carried the current refresh token of a live session and that session was rotated. A mutation
  is served only with a token its session or browser was given and from an accepted origin.\<close>

theorem served_as_owner:
  assumes "faults_only w" and "\<not> c_tx (hr_ctx r)"
    and "hr_Session r = None" and "hr_Snapshot r = None" and "hr_Authenticated r = None"
    and "cs_ValidateSession c = None \<or> cs_ValidateSession c = Some svc"
    and "protected_route c lib allowed trusted required svc cookies oq r w = (Inr (Pass r', ws), w')"
  shows "\<exists>q s u. resolveBrowserSession r False = Inr q \<and> hr_Session r' = Some s \<and> hr_User r' = Some u \<and>
     admitted svc (ForRequest cookies q) (store w) (clock w) q s u \<and> (required \<longrightarrow> u_IsVerified u) \<and>
     (\<not> safe_method (hr_Method r) \<longrightarrow> csrf_proved c (store w) q) \<and> OriginCheck lib allowed False trusted oq q = Pass q"
proof -
  obtain a ws1 w1 where csrf: "CSRFToken (Some c) r w = (Inr (a, ws1), w1)"
    and k: "(case a of Reject st e \<Rightarrow> ret (a, ws1)
     | Pass r1 \<Rightarrow> (case OriginCheck lib allowed False trusted oq r1 of
         Reject st e \<Rightarrow> ret (Reject st e, ws1)
       | Pass r2 \<Rightarrow> bnd (authMW required svc cookies r2) (\<lambda>(b, ws'). ret (b, ws1 @ ws')))) w1 = (Inr (Pass r', ws), w')"
    using assms(7) unfolding protected_route_def by (elim bnd_run) auto
  then obtain r1 where r1: "a = Pass r1" by (cases a) (auto simp: ret_def)
  have post: "store w1 = store w" "faults_only w1" "csrf_post c r (store w) (Inr (Pass r1, ws1)) (store w1)"
    using rqD [OF rq_CSRFToken assms(1) csrf] r1 by (auto simp: csrf_post_def)
  then obtain q sn tb where q: "resolveBrowserSession r False = Inr q" "r1 = q\<lparr>hr_Snapshot := sn, hr_Csrf := Some tb\<rparr>"
      "\<not> safe_method (hr_Method r) \<longrightarrow> csrf_proved c (store w) q" by (auto simp: csrf_post_def)
  obtain r2 where o2: "OriginCheck lib allowed False trusted oq r1 = Pass r2" using k r1 by (cases "OriginCheck lib allowed False trusted oq r1") (auto simp: ret_def)
  have r2: "r2 = r1" using OriginCheck_same [OF o2] .
  have origin: "OriginCheck lib allowed False trusted oq q = Pass q"
    using o2 r2 by (auto simp: OriginCheck_def Let_def split: prod.splits if_splits option.splits)
  obtain ws2 w2 where auth: "authMW required svc cookies r1 w1 = (Inr (Pass r', ws2), w2)"
    using k r1 o2 r2 by (auto elim!: bnd_run simp: ret_def)
  obtain x where x: "AuthMiddleware svc cookies r1 w1 = (Inr (Pass x, ws2), w2)" "RequireVerifiedEmail required x = Pass r'"
    using auth unfolding authMW_def by (elim bnd_run) (auto simp: ret_def split: answer.splits)
  have snap: "snapshot_ok svc (store w1) (clock w) r1"
    using CSRFToken_snapshot [OF assms(1,4,6)] csrf r1 post(1) by simp
  have same: "hr_Authenticated q = None" "\<not> c_tx (hr_ctx q)" using resolve_same [OF q(1)] assms(2,5) by auto
  from AuthMiddleware_admits [OF post(2) snap forwardD [OF forward_CSRFToken csrf] _ _ _ x(1)] q same resolve_again [OF q(1)]
  obtain s u where su: "hr_Session x = Some s" "hr_User x = Some u" "admitted svc (ForRequest cookies r1) (store w1) (clock w) r1 s u"
    by auto
  have "r' = x" "required \<longrightarrow> u_IsVerified u" using x(2) su(2) by (auto simp: RequireVerifiedEmail_def split: if_splits)
  with su q origin post(1) admitted_same [OF q(1)] show ?thesis by auto
qed

section \<open>Witness\<close>

definition cookies_ex :: cookie_settings where
  "cookies_ex = \<lparr>ck_Name = ''goauth_session'', ck_RefreshName = ''goauth_refresh'', ck_ChallengeName = '''', ck_AdminName = '''',
     ck_AdminRefreshName = '''', ck_AdminChallengeName = ''''\<rparr>"

definition served_world :: "tables world" where
  "served_world = valid_ex\<lparr>entropy := [Some (replicate 32 CHR ''x'')]\<rparr>"

lemmas served_eval = served_world_def valid_ex_def world_ex_def tables_ex_def session_ex_def user_ex_def service_ex_def request_ctx_def select1_def
  Matches_def Explicit_def Of_def adminPrefix_def current_scope_def select_scope_def With_def cookies_ex_def get_ex_def Let_def

abbreviation "page_ex \<equiv> (get_ex [(''goauth_session'', ''tok'')])\<lparr>hr_ctx := select_scope request_ctx App\<rparr>"
abbreviation "owner_ex \<equiv> session_ex\<lparr>s_TokenHash := hashToken ''tok''\<rparr>"

text \<open>A page request with a session cookie: its binding is the session, which is checked once.\<close>

lemma served_binding:
  "csrfBinding page_ex csrf_ex served_world =
     (Inr (page_ex\<lparr>hr_Snapshot := Some \<lparr>sn_token = ''tok'', sn_found = Some (owner_ex, user_ex), sn_err = None\<rparr>\<rparr>, ''session:s1''), served_world)"
  by (simp add: csrfBinding_def usable_cookie_def csrf_ex_def GetByTokenHashWithUser_def query_quiet snapshot_check_def ValidateBrowserSnapshot_def
      checkSession_def now_def csrfHash_hashToken effect_defs sessionBinding_def served_eval)

lemma served_csrf:
  "\<exists>t. CSRFToken (Some csrf_ex) (get_ex [(''goauth_session'', ''tok'')]) served_world =
     (Inr (Pass (page_ex\<lparr>hr_Snapshot := Some \<lparr>sn_token = ''tok'', sn_found = Some (owner_ex, user_ex), sn_err = None\<rparr>, hr_Csrf := Some (t, ''session:s1'')\<rparr>),
        [(cookieName csrf_ex, Some t)]), served_world\<lparr>entropy := []\<rparr>)"
proof -
  let ?q = "page_ex\<lparr>hr_Snapshot := Some \<lparr>sn_token = ''tok'', sn_found = Some (owner_ex, user_ex), sn_err = None\<rparr>\<rparr>"
  have k: "cs_Secret csrf_ex = ''k''" by (simp add: csrf_ex_def)
  have e: "entropy served_world = Some (replicate 32 CHR ''x'') # []" by (simp add: served_world_def)
  obtain t where t: "generateCSRFToken 32 ''k'' ''session:s1'' served_world = (Inr t, served_world\<lparr>entropy := []\<rparr>)" using generates [OF _ e] by auto
  have "\<not> verifyCSRFToken (active_token ?q csrf_ex) ''k'' x" for x
    using verified_nonempty [of "active_token ?q csrf_ex" "''k''" x] by (auto simp: active_token_def get_ex_def cookieName_def csrf_ex_def)
  then have "csrf_safe csrf_ex ?q ''session:s1'' served_world =
      (Inr (Pass (?q\<lparr>hr_Csrf := Some (t, ''session:s1'')\<rparr>), [(cookieName csrf_ex, Some t)]), served_world\<lparr>entropy := []\<rparr>)"
    using t by (simp add: csrf_safe_def with_csrf_def k effect_defs)
  moreover have "CSRFToken (Some csrf_ex) (get_ex [(''goauth_session'', ''tok'')]) served_world = csrf_safe csrf_ex ?q ''session:s1'' served_world"
    using served_binding by (simp add: CSRFToken_def get_ex_resolves csrf_ex_request Let_def run_attempt_bnd k) (simp add: get_ex_def safe_method_def)
  ultimately show ?thesis by simp
qed

lemma origin_get: "or_Method q = ''GET'' \<Longrightarrow> OriginCheck lib [] False [] q r = Pass r"
  unfolding OriginCheck_def Let_def by simp

lemma protected_run:
  assumes "CSRFToken (Some c) r w = (Inr (Pass r1, ws), w1)" and "OriginCheck lib allowed False trusted q r1 = Pass r1"
    and "authMW required svc cookies r1 w1 = (Inr (Pass r', ws'), w')"
  shows "protected_route c lib allowed trusted required svc cookies q r w = (Inr (Pass r', ws @ ws'), w')"
  using assms by (simp add: protected_route_def bnd_def ret_def)

lemma authMW_run:
  assumes "hr_Authenticated r = None" and "resolveBrowserSession r False = Inr r"
    and "resolveSession svc (ForRequest ck r) r w = (Inr (Inr (s, u, v), ws), w')" and "Touch svc (hr_ctx r) v (s_LastActiveAt s) w' = (x, w'')"
  shows "\<exists>r'. authMW False svc ck r w = (Inr (Pass r', ws), w'')"
proof -
  have "\<exists>r'. authenticate_request svc (ForRequest ck r) r w = (Inr (Pass r', ws), w'') \<and> RequireVerifiedEmail False r' = Pass r'"
    using assms(3,4) by (simp add: authenticate_request_def bnd_def attempt_def ret_def RequireVerifiedEmail_def)
  moreover have "AuthMiddleware svc ck r w = authenticate_request svc (ForRequest ck r) r w"
    using assms(1,2) by (simp add: AuthMiddleware_def BrowserSession_def Let_def)
  ultimately show ?thesis by (auto simp: authMW_def bnd_def ret_def)
qed

lemma served_auth:
  assumes "r = page_ex\<lparr>hr_Snapshot := Some \<lparr>sn_token = ''tok'', sn_found = Some (owner_ex, user_ex), sn_err = None\<rparr>, hr_Csrf := t\<rparr>"
    and "w = served_world\<lparr>entropy := []\<rparr>"
  shows "\<exists>r'. authMW False service_ex cookies_ex r w = (Inr (Pass r', []), w)"
proof (rule authMW_run)
  have r: "hr_Cookies r = [(''goauth_session'', ''tok'')]" "hr_Snapshot r = Some \<lparr>sn_token = ''tok'', sn_found = Some (owner_ex, user_ex), sn_err = None\<rparr>"
    "c_scope (hr_ctx r) = Some App" using assms(1) by (simp_all add: get_ex_def select_scope_def With_def)
  show "hr_Authenticated r = None" using assms(1) by (simp add: get_ex_def)
  show res: "resolveBrowserSession r False = Inr r"
    using resolve_again [OF get_ex_resolves, where sn = "hr_Snapshot r" and t = t] assms(1) r(2) by simp
  have ck: "ForRequest cookies_ex r = cookies_ex" using res r(3) by (simp add: ForRequest_def current_scope_def Let_def)
  show "resolveSession service_ex (ForRequest cookies_ex r) r w = (Inr (Inr (owner_ex, user_ex, ''tok''), []), w)"
    unfolding ck using r by (simp add: resolveSession_def cookie_session_def cookies_ex_def bnd_def attempt_def ret_def admit_owner_def
        Matches_def Explicit_def Of_def adminPrefix_def user_ex_def)
  show "Touch service_ex (hr_ctx r) ''tok'' (s_LastActiveAt owner_ex) w = (Inr (), w)"
    unfolding assms(2) by (simp add: Touch_def now_def bnd_def ret_def served_world_def valid_ex_def world_ex_def service_ex_def session_ex_def Let_def)
qed

theorem served_as_owner_witness:
  "\<exists>r' ws w' s u. protected_route csrf_ex net_lib_ex [] [] False service_ex cookies_ex ((origin_request_ex '''')\<lparr>or_Method := ''GET''\<rparr>)
       (get_ex [(''goauth_session'', ''tok'')]) served_world = (Inr (Pass r', ws), w') \<and>
     hr_Session r' = Some s \<and> hr_User r' = Some u \<and> u_ID u = s_UserID s \<and> \<not> u_IsBanned u"
proof -
  let ?r = "get_ex [(''goauth_session'', ''tok'')]" and ?o = "(origin_request_ex '''')\<lparr>or_Method := ''GET''\<rparr>"
  obtain t where csrf: "CSRFToken (Some csrf_ex) ?r served_world =
     (Inr (Pass (page_ex\<lparr>hr_Snapshot := Some \<lparr>sn_token = ''tok'', sn_found = Some (owner_ex, user_ex), sn_err = None\<rparr>, hr_Csrf := Some (t, ''session:s1'')\<rparr>),
        [(cookieName csrf_ex, Some t)]), served_world\<lparr>entropy := []\<rparr>)" using served_csrf by (rule exE)
  have "or_Method ?o = ''GET''" by simp
  then have origin: "OriginCheck net_lib_ex [] False [] ?o q = Pass q" for q by (intro origin_get)
  obtain r' where auth: "authMW False service_ex cookies_ex
       (page_ex\<lparr>hr_Snapshot := Some \<lparr>sn_token = ''tok'', sn_found = Some (owner_ex, user_ex), sn_err = None\<rparr>, hr_Csrf := Some (t, ''session:s1'')\<rparr>)
       (served_world\<lparr>entropy := []\<rparr>) = (Inr (Pass r', []), served_world\<lparr>entropy := []\<rparr>)"
    using served_auth [OF refl refl, of "Some (t, ''session:s1'')"] by (rule exE)
  note run = protected_run [OF csrf origin auth]
  have h: "faults_only served_world" "\<not> c_tx (hr_ctx ?r)" "hr_Session ?r = None" "hr_Snapshot ?r = None" "hr_Authenticated ?r = None"
    "cs_ValidateSession csrf_ex = None \<or> cs_ValidateSession csrf_ex = Some service_ex"
    by (simp_all add: served_world_def valid_ex_def world_ex_def faults_only_def get_ex_def csrf_ex_def)
  from served_as_owner [OF h run] obtain s u where "hr_Session r' = Some s" "hr_User r' = Some u" "u_ID u = s_UserID s" "\<not> u_IsBanned u"
    by (auto simp: admitted_def by_session_def owned_session_def by_refresh_def)
  with run show ?thesis by blast
qed

end
