(* ===== verification/Spec2Isabelle.thy ===== *)
theory Spec2Isabelle
  imports SessionContext RateLimit PasswordPolicy HasherRegistry SessionProps Tokens Users Passwords Claims OrgProps Runs EmailProps OrgInvites Rebind Outbox Encryptor OAuthProps Protected
begin

text \<open>
  go-auth is a Go library that gives an application user accounts: registration and logins with passwords, one-time
  codes and external identity providers, browser sessions with rotating refresh tokens, a second factor, invitations,
  organisations with members and roles, administration, an audit log and rate limiting. An application calls the
  services (\<open>internal/service\<close>), mostly through HTTP handlers; the services keep their state in an SQL database through
  repositories (\<open>internal/sqlstore\<close>), hash passwords through \<open>hasher/registry\<close> and write audit events (\<open>audit\<close>) in the
  transaction of the operation they record. Middleware (\<open>middleware\<close>) finds the session of a request.

  The model is a shallow embedding of the code. A Go function is a HOL function of the same name where the name is
  free; a struct is a record, an enumeration a datatype, a table a list of rows, a statement a function on the tables.
  Strings are lists of bytes, instants and durations are integers of nanoseconds; durations and counters wrap only where
  the theory says so (the configuration of \<open>Outbox\<close>), since elsewhere no operation grows a value near the bounds.

  \<^bold>\<open>Effects\<close> (theory \<open>Effects\<close>: \<open>internal/sqlstore/db.go\<close>, \<open>audit_outbox_repo.go\<close>). A handler is a function from a world
  (tables, clock, random values, mail box, schedule) to a result or an error and the world after it. Every call that
  leaves the process takes one event of the schedule: quiet, a fault, or interference, a change other requests commit
  just before. \<open>WithTx\<close> rolls back on an error and may fail to begin or to commit. Requests in a transaction see no
  interference; this stands for the row locks and the serialisation of the drivers and is the main assumption of the model.
  Properties say which schedules they cover: any, or \<open>faults_only\<close>, or those whose interference keeps an invariant.
  \<open>wp\<close> is the calculus inside a transaction, \<open>rq\<close> that of a request under faults, \<open>keeps\<close> that of invariants under
  interference, and \<open>rt\<close> (theory \<open>Protected\<close>) adds a lower bound of the clock.

  \<^bold>\<open>Foundations.\<close> \<open>Prelude\<close> (Go's strings, decimal numbers, time), \<open>Errors\<close> (\<open>domain/errors.go\<close>: codes, wrapping, \<open>errors.Is\<close>),
  \<open>Store\<close> (the tables of \<open>internal/schema/postgres.sql\<close> and the domain types), \<open>Sha256\<close> (\<open>internal/service/token.go\<close> over an
  executable SHA-256 and HMAC), \<open>Base64\<close>, \<open>SessionContext\<close> (\<open>internal/sessioncontext\<close>: the app and admin cookie sets),
  \<open>Rebind\<close> (placeholders of statements: the scan ends, and a second pass changes nothing).

  \<^bold>\<open>Sessions\<close> (\<open>Sessions\<close>: \<open>session_repo.go\<close>, \<open>service/session.go\<close>; \<open>SessionProps\<close>). A rotation is one guarded update; the
  lemmas give its outcome on both driver paths, classify its failures, show that a refresh token is good for one rotation
  and that a replay outside the grace window deletes the session, and that a created session is valid up to the first of
  its lifetimes.

  \<^bold>\<open>One-time tokens\<close> (\<open>Tokens\<close>: \<open>token_repo.go\<close>). The repository methods refine the step relation \<open>tok_step\<close>, whose runs are the
  interleavings of concurrent requests: a token is consumed once, and the caps on guesses and resends hold over a run.
  \<open>Claims\<close> states the contract as a locale, interpreted on four repository methods; the confirming flows rest on it.

  \<^bold>\<open>Passwords.\<close> \<open>PasswordPolicy\<close>, \<open>HasherRegistry\<close> (dispatch on the prefix of the hash, the concurrency limiter), \<open>Passwords\<close>
  (the versioned pepper), \<open>PasswordFlows\<close> (\<open>service/password.go\<close>: reset, first password, change; what an unknown
  address leaves behind).

  \<^bold>\<open>Accounts.\<close> \<open>Login\<close> (\<open>service/auth.go\<close>), \<open>Verification\<close>, \<open>TwoFactor\<close> (\<open>twofactor.go\<close>, \<open>twofactor_settings.go\<close>), \<open>EmailChanges\<close>, \<open>EmailFlow\<close>
  and \<open>EmailProps\<close> (\<open>service/email.go\<close>), \<open>Recovery\<close> (the queue of recovery mails, its leases), \<open>Accounts\<close> (deletion),
  \<open>Users\<close> (\<open>user_repo.go\<close>, \<open>user_guard.go\<close>, the administration of users), \<open>Invites\<close>, and \<open>OAuth\<close> with \<open>OAuthProps\<close> (\<open>service/oauth.go\<close>,
  \<open>oauth_link.go\<close>, \<open>oauth_invite.go\<close>). The lemmas give for each flow every commit it can make: which row it claims,
  which account, session or identity it writes, and that nothing else changes.

  \<^bold>\<open>Organisations.\<close> \<open>Orgs\<close> (\<open>org_repo.go\<close>, \<open>service/org.go\<close>), \<open>OrgInv\<close> (the invariant of the stored counters), \<open>OrgProps\<close> (owners, caps,
  the organisation a session acts in, \<open>org_admin.go\<close>), \<open>OrgInvites\<close>. \<open>Requests\<close> collects the requests that change organisations,
  members, administrators and accounts; \<open>Runs\<close> proves what holds after any list of them under faults and interference.

  \<^bold>\<open>Audit.\<close> \<open>AuditRecord\<close> (\<open>audit/record.go\<close>: a fail-closed event is recorded exactly when its operation commits), \<open>Outbox\<close> (the
  delivery queue, dispatcher and janitor: deliveries drain, the emergency valve, and a limit of the retention check).

  \<^bold>\<open>Browser.\<close> \<open>Csrf\<close> (\<open>middleware/csrf_token.go\<close>, \<open>browser_session.go\<close>, \<open>cookies.go\<close>), \<open>Origin\<close> (\<open>middleware/csrf.go\<close>), \<open>AuthMw\<close>
  (\<open>middleware/auth.go\<close>, \<open>verification.go\<close>, \<open>org.go\<close>, the status table of \<open>internal/httperr\<close>), \<open>MwProps\<close> (a mutation carries its
  token; the token of a page is accepted) and \<open>Protected\<close> (the chain of a protected route and who is served behind it).

  \<^bold>\<open>Others.\<close> \<open>RateLimit\<close> (\<open>ratelimit/memory.go\<close>: the bounded store refines a plain counter per key), \<open>Encryptor\<close> (\<open>internal/crypto\<close>).

  \<^bold>\<open>Arguments of the model.\<close> What the code calls outside the repository is an argument, with what it relies on as hypotheses
  of the lemmas that need it: the password hashes, AES-GCM, the identity providers, sinks of audit events, URL and
  address parsing, the Unicode tables, e-mail validation and case folding (\<open>au_emailOK\<close>, \<open>au_lower\<close>, \<open>au_trim\<close>, \<open>oi_fold_eq\<close>,
  \<open>oa_fold_eq\<close>), \<open>uuid.Parse\<close>, the JSON form of a profile, the order in which Go ranges over a map. Values of \<open>crypto/rand\<close> and the
  clock come with the world; a failed read of either is modelled.

  \<^bold>\<open>Bounds.\<close> Loops over data are recursions over the data, and counted loops (the delay of a retry, the draws for a different code)
  count as the code does. The scan of \<open>Rebind\<close> is a \<open>while_option\<close> that is proved to end. The endless loop of the
  dispatcher takes the number of its ticks, and the liveness property of \<open>Outbox\<close> says how many are enough. There is no
  other fuel.

  \<^bold>\<open>Configurations.\<close> Roles are the fixed ones (the optional permission systems are off), the second-factor and email-change services are
  wired, the snapshot cache of sessions and tokens is off.

  \<^bold>\<open>Not modelled.\<close> The HTTP handlers, the routes other than the chain above, and the rate-limit and CORS middleware
  (parsing and writing around the services); the permission systems (\<open>app_permissions*.go\<close>, \<open>org_permissions*.go\<close>); migrations
  and the command line; mail transport, templates and web hooks; the provider clients (network); listings and
  statistics, which change no state; the read caches; the Redis store, whose logic is a script run by the server;
  the wiring of the facade; test utilities and examples.
\<close>

end
